(* ===== verification/Subject.thy ===== *)
theory Subject
  imports Bus_Prelude
begin

text \<open>
  The addressing grammar of the bus, \<^verbatim>\<open>src/v2/bus/subject.go\<close>: parsing of subjects and patterns,
  matching, and grant containment. The source's index loops over two token slices are recursions
  over the two token lists in lockstep.

  The laws a client relies on are the locale \<open>address_matcher\<close>: containment is sound and, on
  parsed patterns, complete for the subjects a pattern matches. It is interpreted on \<open>Matches\<close>
  and \<open>Covers\<close> at the end.
\<close>

type_synonym Subject = string
type_synonym Pattern = string

definition MaxTokens :: nat where
  "MaxTokens = 16"

definition MaxLen :: nat where
  "MaxLen = 255"

record parseError =
  pe_subject :: string
  pe_why :: string

definition quote :: "string \<Rightarrow> string" where
  "quote s =
     (let s' = (if 64 < length s then take 64 s @ ''...'' else s)
      in CHR 0x22 # s' @ [CHR 0x22])"

definition parseError_Error :: "parseError \<Rightarrow> string" where
  "parseError_Error e = ''bus: '' @ quote (pe_subject e) @ '': '' @ pe_why e"

definition mk_fault :: "string \<Rightarrow> string \<Rightarrow> parseError" where
  "mk_fault s why = \<lparr>pe_subject = s, pe_why = why\<rparr>"

definition Tokens :: "string \<Rightarrow> string list" where
  "Tokens s = split_on (CHR ''.'') s"

definition HasWildcard :: "Pattern \<Rightarrow> bool" where
  "HasWildcard p = list_ex (\<lambda>t. t = ''*'' \<or> t = ''>'') (Tokens p)"

definition IsReservedToken :: "string \<Rightarrow> bool" where
  "IsReservedToken t = (prefix ''$'' t \<or> t = ''_INBOX'')"

section \<open>Matching and containment\<close>

fun match_toks :: "string list \<Rightarrow> string list \<Rightarrow> bool" where
  "match_toks [] st = (st = [])"
| "match_toks (t # pt) st =
     (if t = ''>'' then st \<noteq> []
      else case st of
        [] \<Rightarrow> False
      | s # st' \<Rightarrow>
          if t = ''*'' then match_toks pt st'
          else if t \<noteq> s then False
          else match_toks pt st')"

definition Matches :: "Pattern \<Rightarrow> Subject \<Rightarrow> bool" where
  "Matches p s = match_toks (Tokens p) (Tokens s)"

fun cover_toks :: "string list \<Rightarrow> string list \<Rightarrow> bool" where
  "cover_toks [] qt = (qt = [])"
| "cover_toks (t # pt) qt =
     (if t = ''>'' then qt \<noteq> []
      else case qt of
        [] \<Rightarrow> False
      | q # qt' \<Rightarrow>
          if q = ''>'' then False
          else if t = ''*'' then cover_toks pt qt'
          else if t \<noteq> q then False
          else cover_toks pt qt')"

definition Covers :: "Pattern \<Rightarrow> Pattern \<Rightarrow> bool" where
  "Covers p q = cover_toks (Tokens p) (Tokens q)"

definition CoveredByAny :: "Pattern list \<Rightarrow> Pattern \<Rightarrow> bool" where
  "CoveredByAny grants q = list_ex (\<lambda>g. Covers g q) grants"

definition MatchedByAny :: "Pattern list \<Rightarrow> Subject \<Rightarrow> bool" where
  "MatchedByAny grants s = list_ex (\<lambda>g. Matches g s) grants"

section \<open>Parsing\<close>

fun token_from :: "string \<Rightarrow> string \<Rightarrow> nat \<Rightarrow> string \<Rightarrow> parseError option" where
  \<comment> \<open>the loop of \<^verbatim>\<open>token\<close>: \<open>i\<close> is the index of the first byte of what is left\<close>
  "token_from s t i [] = None"
| "token_from s t i (c # cs) =
     (if is_lower c \<or> is_digit c then token_from s t (Suc i) cs
      else if (c = CHR ''_'' \<or> c = CHR ''-'') \<and> 0 < i then token_from s t (Suc i) cs
      else Some (mk_fault s (''token '' @ quote t @ '' must match [a-z0-9][a-z0-9_-]*'')))"

definition token :: "string \<Rightarrow> string \<Rightarrow> parseError option" where
  "token s t = token_from s t 0 t"

fun parse_toks :: "string \<Rightarrow> bool \<Rightarrow> bool \<Rightarrow> string list \<Rightarrow> parseError option" where
  \<comment> \<open>the loop of \<^verbatim>\<open>parse\<close> over the tokens: \<open>i = len(toks)-1\<close> is \<open>ts = []\<close>\<close>
  "parse_toks s wildcards substrate [] = None"
| "parse_toks s wildcards substrate (t # ts) =
     (if t = '''' then Some (mk_fault s ''empty token'')
      else if t = ''>'' then
        (if \<not> wildcards then Some (mk_fault s ''\">\" is not allowed in a concrete subject'')
         else if ts \<noteq> [] then Some (mk_fault s ''\">\" is only allowed as the last token'')
         else parse_toks s wildcards substrate ts)
      else if t = ''*'' then
        (if \<not> wildcards then Some (mk_fault s ''\"*\" is not allowed in a concrete subject'')
         else parse_toks s wildcards substrate ts)
      else if substrate then parse_toks s wildcards substrate ts
      else case token s t of
        Some e \<Rightarrow> Some e
      | None \<Rightarrow> parse_toks s wildcards substrate ts)"

definition parse :: "string \<Rightarrow> bool \<Rightarrow> parseError option" where
  "parse s wildcards =
     (if s = '''' then Some (mk_fault s ''empty'')
      else if MaxLen < length s then Some (mk_fault s ''longer than 255 bytes'')
      else let toks = split_on (CHR ''.'') s in
        if MaxTokens < length toks then Some (mk_fault s ''more than 16 tokens'')
        else parse_toks s wildcards (toks \<noteq> [] \<and> IsReservedToken (hd toks)) toks)"

definition ParseSubject :: "string \<Rightarrow> parseError + Subject" where
  "ParseSubject s = (case parse s False of Some e \<Rightarrow> Inl e | None \<Rightarrow> Inr s)"

definition ParsePattern :: "string \<Rightarrow> parseError + Pattern" where
  "ParsePattern s = (case parse s True of Some e \<Rightarrow> Inl e | None \<Rightarrow> Inr s)"

lemmas subject_defs [bus_defs] =
  Matches_def Covers_def CoveredByAny_def MatchedByAny_def Tokens_def

section \<open>The grammar of the package comment\<close>

text \<open>
  The comment at the head of \<^verbatim>\<open>subject.go\<close> as a definition of its own: which token lists are a
  subject (\<open>w = False\<close>) or a pattern (\<open>w = True\<close>).
\<close>

definition plain_token :: "string \<Rightarrow> bool" where
  "plain_token t \<longleftrightarrow>
     (\<exists>c cs. t = c # cs \<and> (is_lower c \<or> is_digit c) \<and>
        (\<forall>x \<in> set cs. is_lower x \<or> is_digit x \<or> x = CHR ''_'' \<or> x = CHR ''-''))"

definition grammar_tokens :: "bool \<Rightarrow> string list \<Rightarrow> bool" where
  "grammar_tokens w ts \<longleftrightarrow>
     ts \<noteq> [] \<and> length ts \<le> MaxTokens \<and>
     (\<forall>i < length ts.
        (ts ! i = ''>'' \<and> w \<and> i = length ts - 1) \<or>
        (ts ! i = ''*'' \<and> w) \<or>
        (ts ! i \<notin> {'''', ''*'', ''>''} \<and> (IsReservedToken (hd ts) \<or> plain_token (ts ! i))))"

definition in_grammar :: "bool \<Rightarrow> string \<Rightarrow> bool" where
  "in_grammar w s \<longleftrightarrow>
     length s \<le> MaxLen \<and>
     (\<exists>ts. s = join_on (CHR ''.'') ts \<and> (\<forall>t \<in> set ts. CHR ''.'' \<notin> set t) \<and> grammar_tokens w ts)"

lemma token_from_None:
  "0 < i \<Longrightarrow> token_from s t i cs = None \<longleftrightarrow>
     (\<forall>x \<in> set cs. is_lower x \<or> is_digit x \<or> x = CHR ''_'' \<or> x = CHR ''-'')"
  by (induction cs arbitrary: i) auto

lemma token_None: "t \<noteq> [] \<Longrightarrow> token s t = None \<longleftrightarrow> plain_token t"
  by (cases t) (auto simp: token_def plain_token_def token_from_None)

text \<open>What the loop accepts of the tokens that are left, by position.\<close>

definition toks_ok :: "bool \<Rightarrow> bool \<Rightarrow> string list \<Rightarrow> bool" where
  "toks_ok w r ts \<longleftrightarrow>
     (\<forall>i < length ts.
        (ts ! i = ''>'' \<and> w \<and> i = length ts - 1) \<or>
        (ts ! i = ''*'' \<and> w) \<or>
        (ts ! i \<notin> {'''', ''*'', ''>''} \<and> (r \<or> plain_token (ts ! i))))"

lemma toks_ok_Nil [simp]: "toks_ok w r []"
  by (simp add: toks_ok_def)

lemma toks_ok_Cons:
  "toks_ok w r (t # ts) \<longleftrightarrow>
     ((t = ''>'' \<and> w \<and> ts = []) \<or> (t = ''*'' \<and> w) \<or>
      (t \<notin> {'''', ''*'', ''>''} \<and> (r \<or> plain_token t))) \<and> toks_ok w r ts"
proof -
  define P where "P us i \<longleftrightarrow>
     (us ! i = ''>'' \<and> w \<and> i = length us - 1) \<or> (us ! i = ''*'' \<and> w) \<or>
     (us ! i \<notin> {'''', ''*'', ''>''} \<and> (r \<or> plain_token (us ! i)))" for us :: "string list" and i
  have "P (t # ts) (Suc i) \<longleftrightarrow> P ts i" if "i < length ts" for i
    using that by (auto simp: P_def)
  moreover have "P (t # ts) 0 \<longleftrightarrow>
     ((t = ''>'' \<and> w \<and> ts = []) \<or> (t = ''*'' \<and> w) \<or>
      (t \<notin> {'''', ''*'', ''>''} \<and> (r \<or> plain_token t)))"
    by (auto simp: P_def)
  moreover have "toks_ok w r us \<longleftrightarrow> (\<forall>i < length us. P us i)" for us
    by (simp add: toks_ok_def P_def)
  ultimately show ?thesis
    by (simp add: All_less_Suc2)
qed

lemma parse_toks_None: "parse_toks s w r ts = None \<longleftrightarrow> toks_ok w r ts"
proof (induction ts)
  case (Cons t ts)
  consider "t = []" | "t = ''>''" | "t = ''*''" | "t \<notin> {'''', ''*'', ''>''}" by blast
  then show ?case
    using Cons.IH token_None [of t s]
    by cases (auto simp: toks_ok_Cons split: option.splits)
qed simp

lemma parse_None:
  "parse s w = None \<longleftrightarrow>
     s \<noteq> [] \<and> length s \<le> MaxLen \<and> length (Tokens s) \<le> MaxTokens \<and>
     toks_ok w (IsReservedToken (hd (Tokens s))) (Tokens s)"
  by (auto simp: parse_def Let_def parse_toks_None Tokens_def)

lemma grammar_tokens_toks_ok:
  "grammar_tokens w ts \<longleftrightarrow>
     ts \<noteq> [] \<and> length ts \<le> MaxTokens \<and> toks_ok w (IsReservedToken (hd ts)) ts"
  by (simp add: grammar_tokens_def toks_ok_def)

lemma Tokens_not_Nil [simp]: "Tokens s \<noteq> []"
  by (simp add: Tokens_def)

lemma Tokens_free: "t \<in> set (Tokens s) \<Longrightarrow> CHR ''.'' \<notin> set t"
  by (simp add: Tokens_def split_on_free)

lemma Tokens_join:
  "ts \<noteq> [] \<Longrightarrow> (\<And>t. t \<in> set ts \<Longrightarrow> CHR ''.'' \<notin> set t) \<Longrightarrow> Tokens (join_on (CHR ''.'') ts) = ts"
  by (simp add: Tokens_def split_join)

lemma parse_accepts_grammar: "parse s w = None \<longleftrightarrow> in_grammar w s"
proof
  assume "parse s w = None"
  then have "length s \<le> MaxLen" and "grammar_tokens w (Tokens s)"
    by (auto simp: parse_None grammar_tokens_toks_ok)
  moreover have "s = join_on (CHR ''.'') (Tokens s)"
    by (simp add: Tokens_def)
  ultimately show "in_grammar w s"
    unfolding in_grammar_def by (metis Tokens_free)
next
  assume "in_grammar w s"
  then obtain ts where s: "s = join_on (CHR ''.'') ts" and len: "length s \<le> MaxLen"
    and free: "\<forall>t \<in> set ts. CHR ''.'' \<notin> set t" and g: "grammar_tokens w ts"
    by (auto simp: in_grammar_def)
  from g have ne: "ts \<noteq> []" by (simp add: grammar_tokens_def)
  with s free have toks: "Tokens s = ts" by (simp add: Tokens_join)
  have "s \<noteq> []"
  proof
    assume "s = []"
    with toks have "ts = [[]]" by (simp add: Tokens_def)
    with g show False by (simp add: grammar_tokens_toks_ok toks_ok_Cons)
  qed
  with g len toks show "parse s w = None"
    by (simp add: parse_None grammar_tokens_toks_ok)
qed

section \<open>Containment is inclusion of the matched subjects\<close>

lemma match_toks_Nil_right: "match_toks p [] \<longleftrightarrow> p = []"
  by (cases p) auto

lemma cover_toks_sound: "cover_toks p q \<Longrightarrow> match_toks q s \<Longrightarrow> match_toks p s"
proof (induction p q arbitrary: s rule: cover_toks.induct)
  case (2 t pt qt)
  show ?case
  proof (cases "t = ''>''")
    case True
    with "2.prems" show ?thesis by (auto simp: match_toks_Nil_right)
  next
    case False
    with "2.prems"(1) obtain q qt' where qt: "qt = q # qt'" "q \<noteq> ''>''" "t = ''*'' \<or> t = q"
      and cov: "cover_toks pt qt'"
      by (auto split: list.splits if_splits)
    from "2.prems"(2) qt obtain x s' where s: "s = x # s'" "q = ''*'' \<or> q = x" "match_toks qt' s'"
      by (auto split: list.splits if_splits)
    have "match_toks pt s'"
      using "2.IH" qt s(3) cov False by blast
    with False qt s show ?thesis by auto
  qed
qed simp

text \<open>A concrete instance of a pattern, with one chosen token in place of every wildcard.\<close>

definition instance_of :: "string \<Rightarrow> string list \<Rightarrow> string list" where
  "instance_of x q = map (\<lambda>t. if t = ''*'' \<or> t = ''>'' then x else t) q"

definition gt_last :: "string list \<Rightarrow> bool" where
  "gt_last q \<longleftrightarrow> ''>'' \<notin> set (butlast q)"

lemma gt_last_Cons: "gt_last (t # q) \<Longrightarrow> gt_last q \<and> (t = ''>'' \<longrightarrow> q = [])"
  by (auto simp: gt_last_def split: if_splits)

lemma match_instance: "gt_last q \<Longrightarrow> match_toks q (instance_of x q)"
  by (induction q) (auto simp: instance_of_def dest: gt_last_Cons)

lemma cover_toks_complete:
  assumes "\<not> cover_toks p q" and "gt_last q" and "x \<notin> set p"
  shows "\<exists>s. match_toks q s \<and> \<not> match_toks p s \<and> set s \<subseteq> insert x (set q - {''*'', ''>''})"
  using assms
proof (induction p q rule: cover_toks.induct)
  case (1 qt)
  then have "instance_of x qt \<noteq> []" by (simp add: instance_of_def)
  moreover have "set (instance_of x qt) \<subseteq> insert x (set qt - {''*'', ''>''})"
    by (auto simp: instance_of_def)
  ultimately show ?case using match_instance "1.prems"(2) by (metis match_toks.simps(1))
next
  case (2 t pt qt)
  show ?case
  proof (cases qt)
    case Nil
    then show ?thesis by (auto intro: exI [of _ "[]"])
  next
    case (Cons q qt')
    with "2.prems"(1) have t: "t \<noteq> ''>''" by auto
    from Cons "2.prems"(2) have gt: "gt_last qt'" and q_last: "q = ''>'' \<Longrightarrow> qt' = []"
      by (auto dest: gt_last_Cons)
    have inst: "match_toks qt (instance_of x qt)"
      using "2.prems"(2) by (rule match_instance)
    have inst_set: "set (instance_of x qt) \<subseteq> insert x (set qt - {''*'', ''>''})"
      by (auto simp: instance_of_def)
    consider (gt) "q = ''>''" | (differ) "q \<noteq> ''>''" "t \<noteq> ''*''" "t \<noteq> q"
      | (tail) "q \<noteq> ''>''" "t = ''*'' \<or> t = q"
      by blast
    then show ?thesis
    proof cases
      case gt
      let ?s = "if pt = [] then [x, x] else [x]"
      have "match_toks qt ?s" using gt Cons by simp
      moreover have "\<not> match_toks (t # pt) ?s"
        using t by (auto simp: match_toks_Nil_right)
      ultimately show ?thesis by (intro exI [of _ ?s]) auto
    next
      case differ
      with Cons t "2.prems"(3) have "\<not> match_toks (t # pt) (instance_of x qt)"
        by (auto simp: instance_of_def)
      with inst inst_set show ?thesis by blast
    next
      case tail
      have "\<not> cover_toks pt qt'"
        using "2.prems"(1) t Cons tail by (auto split: if_splits)
      then obtain s where s: "match_toks qt' s" "\<not> match_toks pt s"
        "set s \<subseteq> insert x (set qt' - {''*'', ''>''})"
        using "2.IH" t Cons tail gt "2.prems"(3) by fastforce
      let ?h = "if q = ''*'' then x else q"
      have "match_toks qt (?h # s)" using Cons tail s by simp
      moreover have "\<not> match_toks (t # pt) (?h # s)" using t s by simp
      moreover have "set (?h # s) \<subseteq> insert x (set qt - {''*'', ''>''})"
        using s(3) Cons tail by auto
      ultimately show ?thesis by blast
    qed
  qed
qed

lemma fresh_token: "\<exists>x. CHR ''.'' \<notin> set x \<and> x \<notin> set (ts :: string list)"
proof -
  let ?x = "replicate (Suc (sum_list (map length ts))) (CHR ''x'')"
  have "length t \<le> sum_list (map length ts)" if "t \<in> set ts" for t
    using that by (simp add: member_le_sum_list)
  then have "?x \<notin> set ts" by (metis Suc_n_not_le_n length_replicate)
  then show ?thesis by (intro exI [of _ ?x]) auto
qed

lemma toks_ok_gt_last: "toks_ok w r ts \<Longrightarrow> gt_last ts"
  by (induction ts) (auto simp: gt_last_def toks_ok_Cons)

definition valid_pattern :: "Pattern \<Rightarrow> bool" where
  "valid_pattern p = (parse p True = None)"

lemma valid_pattern_gt_last: "valid_pattern p \<Longrightarrow> gt_last (Tokens p)"
  by (auto simp: valid_pattern_def parse_None intro: toks_ok_gt_last)

lemma Covers_complete:
  assumes "valid_pattern q" and sub: "\<And>s. Matches q s \<Longrightarrow> Matches p s"
  shows "Covers p q"
proof (rule ccontr)
  assume "\<not> Covers p q"
  obtain x where x: "CHR ''.'' \<notin> set x" "x \<notin> set (Tokens p)"
    using fresh_token by blast
  with \<open>\<not> Covers p q\<close> assms(1) obtain s where
    s: "match_toks (Tokens q) s" "\<not> match_toks (Tokens p) s" "set s \<subseteq> insert x (set (Tokens q))"
    using cover_toks_complete [of "Tokens p" "Tokens q" x]
    by (auto simp: Covers_def dest: valid_pattern_gt_last)
  from s(1) have "s \<noteq> []" by (auto simp: match_toks_Nil_right)
  moreover from s(3) x(1) have "\<And>t. t \<in> set s \<Longrightarrow> CHR ''.'' \<notin> set t"
    using Tokens_free by blast
  ultimately have "Tokens (join_on (CHR ''.'') s) = s" by (rule Tokens_join)
  with s(1,2) sub [of "join_on (CHR ''.'') s"] show False by (simp add: Matches_def)
qed

section \<open>The contract of the matcher\<close>

locale address_matcher =
  fixes matches :: "'p \<Rightarrow> 's \<Rightarrow> bool"
    and covers :: "'p \<Rightarrow> 'p \<Rightarrow> bool"
    and valid :: "'p \<Rightarrow> bool"
  assumes covers_sound: "covers p q \<Longrightarrow> matches q s \<Longrightarrow> matches p s"
    and covers_complete: "valid q \<Longrightarrow> (\<And>s. matches q s \<Longrightarrow> matches p s) \<Longrightarrow> covers p q"
begin

lemma covers_iff: "valid q \<Longrightarrow> covers p q \<longleftrightarrow> (\<forall>s. matches q s \<longrightarrow> matches p s)"
  using covers_sound covers_complete by blast

lemma covers_self: "valid p \<Longrightarrow> covers p p"
  by (simp add: covers_iff)

lemma covers_transitive: "valid r \<Longrightarrow> covers p q \<Longrightarrow> covers q r \<Longrightarrow> covers p r"
  using covers_sound covers_complete by blast

lemma any_covered_matched:
  "list_ex (\<lambda>g. covers g q) gs \<Longrightarrow> matches q s \<Longrightarrow> list_ex (\<lambda>g. matches g s) gs"
  by (auto simp: list_ex_iff dest: covers_sound)

end

interpretation bus_matcher: address_matcher Matches Covers valid_pattern
proof
  show "Matches p s" if "Covers p q" and "Matches q s" for p q s
    using that by (auto simp: Covers_def Matches_def intro: cover_toks_sound)
qed (rule Covers_complete)

lemma covered_then_matched: "CoveredByAny gs q \<Longrightarrow> Matches q s \<Longrightarrow> MatchedByAny gs s"
  unfolding CoveredByAny_def MatchedByAny_def by (rule bus_matcher.any_covered_matched)

lemma ParseSubject_ok [simp]: "ParseSubject s = Inr x \<longleftrightarrow> x = s \<and> in_grammar False s"
  by (auto simp: ParseSubject_def parse_accepts_grammar [symmetric] split: option.splits)

lemma ParsePattern_ok [simp]: "ParsePattern s = Inr x \<longleftrightarrow> x = s \<and> in_grammar True s"
  by (auto simp: ParsePattern_def parse_accepts_grammar [symmetric] split: option.splits)

lemma ParseSubject_Inl: "(\<exists>e. ParseSubject s = Inl e) \<longleftrightarrow> \<not> in_grammar False s"
  by (auto simp: ParseSubject_def parse_accepts_grammar [symmetric] split: option.splits)

lemma valid_pattern_in_grammar: "valid_pattern p \<longleftrightarrow> in_grammar True p"
  by (simp add: valid_pattern_def parse_accepts_grammar)

lemma toks_ok_mono: "toks_ok False r ts \<Longrightarrow> toks_ok True r ts"
  by (induction ts) (auto simp: toks_ok_Cons)

lemma toks_ok_no_wildcard: "toks_ok False r ts \<Longrightarrow> ''*'' \<notin> set ts \<and> ''>'' \<notin> set ts"
  by (induction ts) (auto simp: toks_ok_Cons)

lemma match_toks_literal: "''*'' \<notin> set p \<Longrightarrow> ''>'' \<notin> set p \<Longrightarrow> match_toks p s \<longleftrightarrow> s = p"
  by (induction p s rule: match_toks.induct) (auto split: list.splits)

lemma subject_in_pattern_grammar: "in_grammar False s \<Longrightarrow> in_grammar True s"
  by (auto simp: parse_accepts_grammar [symmetric] parse_None toks_ok_mono)

lemma Tokens_inject [simp]: "Tokens a = Tokens b \<longleftrightarrow> a = b"
  by (metis Tokens_def join_split)

lemma Matches_subject: "in_grammar False p \<Longrightarrow> Matches p s \<longleftrightarrow> s = p"
  by (auto simp: parse_accepts_grammar [symmetric] parse_None Matches_def match_toks_literal
      dest!: toks_ok_no_wildcard)

section \<open>Properties\<close>

text \<open>The parser accepts exactly the documented grammar: \<open>ParseSubject\<close> and \<open>ParsePattern\<close> return
  their argument when it is at most 255 bytes long and is a dot-separated list of at most 16
  tokens of the grammar in the package comment, and return an error otherwise.\<close>

theorem parse_is_the_grammar:
  "(case ParseSubject s of Inr x \<Rightarrow> x = s \<and> in_grammar False s | Inl e \<Rightarrow> \<not> in_grammar False s) \<and>
   (case ParsePattern s of Inr x \<Rightarrow> x = s \<and> in_grammar True s | Inl e \<Rightarrow> \<not> in_grammar True s)"
  by (auto simp: ParseSubject_def ParsePattern_def parse_accepts_grammar [symmetric]
      split: option.splits)

text \<open>Every subject is a valid pattern, and as a pattern it matches itself and nothing else. So
  an endpoint mounted on its concrete subject receives that subject only.\<close>

theorem subject_is_literal_pattern:
  assumes "ParseSubject p = Inr p"
  shows "ParsePattern p = Inr p \<and> (Matches p s \<longleftrightarrow> s = p)"
  using assms by (simp add: subject_in_pattern_grammar Matches_subject)

lemma ParseSubject_example: "ParseSubject ''svc.echo.v1'' = Inr ''svc.echo.v1''"
  by code_simp

theorem subject_is_literal_pattern_witness:
  "ParseSubject ''svc.echo.v1'' = Inr ''svc.echo.v1'' \<and> \<not> Matches ''svc.echo.v1'' ''svc.echo.v2''"
  using subject_is_literal_pattern [OF ParseSubject_example, of "''svc.echo.v2''"]
    ParseSubject_example by simp

text \<open>C7. Grant containment is exact: for a pattern \<open>q\<close> the parser accepts, \<open>Covers p q\<close> holds
  exactly when every subject that \<open>q\<close> matches is also matched by \<open>p\<close>. So a granted pattern never
  lets a subscription see a subject outside the grant, and a contained request is never refused.\<close>

theorem covers_is_inclusion:
  assumes "ParsePattern q = Inr q"
  shows "Covers p q \<longleftrightarrow> (\<forall>s. Matches q s \<longrightarrow> Matches p s)"
proof -
  from assms have "valid_pattern q"
    by (simp add: valid_pattern_in_grammar)
  then show ?thesis by (rule bus_matcher.covers_iff)
qed

lemma ParsePattern_example: "ParsePattern ''a.*'' = Inr ''a.*''"
  by code_simp

lemma Covers_example: "Covers ''a.>'' ''a.*'' \<and> \<not> Covers ''a.*'' ''a.>''"
  by code_simp

theorem covers_is_inclusion_witness:
  "ParsePattern ''a.*'' = Inr ''a.*'' \<and> {s. Matches ''a.*'' s} \<subseteq> {s. Matches ''a.>'' s}"
  using covers_is_inclusion [OF ParsePattern_example, of "''a.>''"] ParsePattern_example
    Covers_example
  by blast

end
