(* ===== verification/Identity.thy ===== *)
theory Identity
  imports Subject
begin

text \<open>
  Principals and their effective grants, \<^verbatim>\<open>src/v2/bus/identity.go\<close>. Go's named string types with
  constants (\<^verbatim>\<open>GrantKind\<close>, \<^verbatim>\<open>AssetKind\<close>, \<^verbatim>\<open>Role\<close>) stay strings, so that the branch a \<^verbatim>\<open>switch\<close>
  takes for any other string is in the model.
\<close>

type_synonym Role = string
type_synonym GrantKind = string
type_synonym AssetKind = string

definition RoleHost :: Role where "RoleHost = ''host''"
definition RolePlugin :: Role where "RolePlugin = ''plugin''"
definition RoleUI :: Role where "RoleUI = ''ui''"
definition RoleOrchestration :: Role where "RoleOrchestration = ''orch''"

definition GrantPublish :: GrantKind where "GrantPublish = ''publish''"
definition GrantSubscribe :: GrantKind where "GrantSubscribe = ''subscribe''"
definition GrantRequest :: GrantKind where "GrantRequest = ''request''"
definition GrantServe :: GrantKind where "GrantServe = ''serve''"

definition AssetStream :: AssetKind where "AssetStream = ''stream''"
definition AssetKV :: AssetKind where "AssetKV = ''kv''"
definition AssetObjects :: AssetKind where "AssetObjects = ''objects''"

lemmas grant_kind_defs [bus_defs] =
  GrantPublish_def GrantSubscribe_def GrantRequest_def GrantServe_def

lemmas asset_kind_defs [bus_defs] =
  AssetStream_def AssetKV_def AssetObjects_def

record Lease =
  lease_token :: string

definition NewLease :: "string \<Rightarrow> Lease" where
  "NewLease tok = \<lparr>lease_token = tok\<rparr>"

definition Lease_IsZero :: "Lease \<Rightarrow> bool" where
  "Lease_IsZero l = (lease_token l = '''')"

definition Lease_Equal :: "Lease \<Rightarrow> Lease \<Rightarrow> bool" where
  "Lease_Equal l o' = (lease_token l = lease_token o')"

record Grants =
  g_Publish :: "Pattern list"
  g_Subscribe :: "Pattern list"
  g_Request :: "Pattern list"
  g_Serves :: "Pattern list"
  g_Streams :: "string list"
  g_KV :: "string list"
  g_Objects :: "string list"

definition grants_list :: "Grants \<Rightarrow> GrantKind \<Rightarrow> Pattern list" where
  "grants_list g kind =
     (if kind = GrantPublish then g_Publish g
      else if kind = GrantSubscribe then g_Subscribe g
      else if kind = GrantRequest then g_Request g
      else if kind = GrantServe then g_Serves g
      else [])"

definition Can :: "Grants \<Rightarrow> GrantKind \<Rightarrow> Subject \<Rightarrow> bool" where
  "Can g kind s = MatchedByAny (grants_list g kind) s"

definition CanPattern :: "Grants \<Rightarrow> GrantKind \<Rightarrow> Pattern \<Rightarrow> bool" where
  "CanPattern g kind p = CoveredByAny (grants_list g kind) p"

definition CanUse :: "Grants \<Rightarrow> AssetKind \<Rightarrow> string \<Rightarrow> bool" where
  "CanUse g kind name =
     (if kind = AssetStream then name \<in> set (g_Streams g)
      else if kind = AssetKV then name \<in> set (g_KV g)
      else if kind = AssetObjects then name \<in> set (g_Objects g)
      else False)"

definition Grants_IsZero :: "Grants \<Rightarrow> bool" where
  "Grants_IsZero g =
     (length (g_Publish g) = 0 \<and> length (g_Subscribe g) = 0 \<and> length (g_Request g) = 0 \<and>
      length (g_Serves g) = 0 \<and> length (g_Streams g) = 0 \<and> length (g_KV g) = 0 \<and>
      length (g_Objects g) = 0)"

record Identity =
  PluginID :: string
  Generation :: string
  Id_Lease :: Lease
  Id_Role :: Role
  Id_Grants :: Grants

definition Autonomous :: "Identity \<Rightarrow> bool" where
  "Autonomous i = Lease_IsZero (Id_Lease i)"

definition Identity_String :: "Identity \<Rightarrow> string" where
  "Identity_String i =
     (if PluginID i = '''' then ''<unbound>''
      else if Generation i = '''' then PluginID i
      else PluginID i @ ''@'' @ Generation i)"

lemma Identity_String_not_Nil [simp]: "Identity_String i \<noteq> []"
  by (simp add: Identity_String_def)

text \<open>The preflight for one subject follows from the preflight for a pattern that reaches it.\<close>

lemma CanPattern_Can: "CanPattern g kind p \<Longrightarrow> Matches p s \<Longrightarrow> Can g kind s"
  unfolding CanPattern_def Can_def by (rule covered_then_matched)

lemma unknown_kind_refused:
  "kind \<notin> {GrantPublish, GrantSubscribe, GrantRequest, GrantServe} \<Longrightarrow>
     \<not> Can g kind s \<and> \<not> CanPattern g kind p"
  by (auto simp: Can_def CanPattern_def grants_list_def MatchedByAny_def CoveredByAny_def)

lemma zero_grants_refuse:
  assumes "Grants_IsZero g"
  shows "\<not> Can g kind s" and "\<not> CanPattern g kind p" and "\<not> CanUse g asset name"
  using assms
  by (auto simp: Grants_IsZero_def Can_def CanPattern_def CanUse_def grants_list_def
      MatchedByAny_def CoveredByAny_def)

text \<open>A subject the four kinds of grant are read for separately: widening one kind never widens
  another.\<close>

lemma Can_only_reads_kind:
  "grants_list g kind = grants_list g' kind \<Longrightarrow> Can g kind s = Can g' kind s"
  by (simp add: Can_def)

end
