(* ===== verification/Msg.thy ===== *)
theory Msg
  imports Identity
begin

text \<open>
  Messages, headers, faults, capabilities and call options: \<^verbatim>\<open>src/v2/bus/msg.go\<close>,
  \<^verbatim>\<open>src/v2/bus/fault.go\<close>, the concrete part of \<^verbatim>\<open>src/v2/bus/bus.go\<close>, and the header propagation
  of \<^verbatim>\<open>src/v2/bus/memory/trace.go\<close>.

  A nil header map and an empty one are both \<open>[]\<close>: no code of the package tells them apart except
  to allocate. The closure a substrate installs to answer a request is represented by what it
  captures, the inbox and the subscription that answers.
\<close>

section \<open>Faults\<close>

definition FaultDenied :: string where "FaultDenied = ''denied''"
definition FaultBudget :: string where "FaultBudget = ''budget''"
definition FaultWithdrawn :: string where "FaultWithdrawn = ''withdrawn''"
definition FaultSchema :: string where "FaultSchema = ''schema''"
definition FaultUnhandled :: string where "FaultUnhandled = ''unhandled''"
definition FaultTimeout :: string where "FaultTimeout = ''timeout''"
definition FaultUnavailable :: string where "FaultUnavailable = ''unavailable''"
definition FaultNoResponders :: string where "FaultNoResponders = ''no-responders''"
definition FaultUnsupported :: string where "FaultUnsupported = ''unsupported''"
definition FaultConflict :: string where "FaultConflict = ''conflict''"
definition FaultNotFound :: string where "FaultNotFound = ''not-found''"
definition FaultSlowConsumer :: string where "FaultSlowConsumer = ''slow-consumer''"

lemmas fault_code_defs [bus_defs] =
  FaultDenied_def FaultBudget_def FaultWithdrawn_def FaultSchema_def FaultUnhandled_def
  FaultTimeout_def FaultUnavailable_def FaultNoResponders_def FaultUnsupported_def
  FaultConflict_def FaultNotFound_def FaultSlowConsumer_def

text \<open>The error a fault wraps (\<^verbatim>\<open>Fault.Err\<close>): a parse error, or any other by its text.\<close>

datatype wrapped = WrapParse parseError | WrapText string

record Fault =
  Code :: string
  Op :: string
  Message :: string
  Err :: "wrapped option"

type_synonym 'a res = "Fault + 'a"

definition Fault_Error :: "Fault \<Rightarrow> string" where
  "Fault_Error f =
     join_str '': ''
       ((if Op f \<noteq> '''' then [Op f] else []) @ [Code f] @
        (if Message f \<noteq> '''' then [Message f] else []))"

definition mkFault :: "string \<Rightarrow> string \<Rightarrow> string \<Rightarrow> Fault" where
  "mkFault c op m = \<lparr>Code = c, Op = op, Message = m, Err = None\<rparr>"

definition Denied :: "string \<Rightarrow> string \<Rightarrow> string \<Rightarrow> Fault" where
  "Denied op who why =
     (let msg = ''principal '' @ who
      in mkFault FaultDenied op (if why \<noteq> '''' then msg @ '': '' @ why else msg))"

definition Unsupported :: "string \<Rightarrow> string \<Rightarrow> Fault" where
  "Unsupported op capability =
     mkFault FaultUnsupported op (''substrate does not support '' @ capability)"

definition parseFault :: "string \<Rightarrow> parseError \<Rightarrow> Fault" where
  \<comment> \<open>the literal every caller of the parser builds from a parse error\<close>
  "parseFault op e =
     \<lparr>Code = FaultSchema, Op = op, Message = parseError_Error e, Err = Some (WrapParse e)\<rparr>"

section \<open>Headers\<close>

type_synonym Headers = "(string, string) amap"

definition HeaderPrefix :: string where "HeaderPrefix = ''bd-''"
definition HeaderSchema :: string where "HeaderSchema = ''bd-schema''"
definition HeaderCaller :: string where "HeaderCaller = ''bd-caller''"
definition HeaderGeneration :: string where "HeaderGeneration = ''bd-generation''"
definition HeaderSubject :: string where "HeaderSubject = ''bd-subject''"
definition HeaderFault :: string where "HeaderFault = ''bd-fault''"
definition HeaderCorrelation :: string where "HeaderCorrelation = ''bd-corr''"
definition HeaderTraceparent :: string where "HeaderTraceparent = ''traceparent''"
definition HeaderMsgID :: string where "HeaderMsgID = ''bd-msg-id''"

lemmas header_defs [bus_defs] =
  HeaderPrefix_def HeaderSchema_def HeaderCaller_def HeaderGeneration_def HeaderSubject_def
  HeaderFault_def HeaderCorrelation_def HeaderTraceparent_def HeaderMsgID_def

definition Headers_Get :: "Headers \<Rightarrow> string \<Rightarrow> string" where
  "Headers_Get h k =
     (case map_of h k of
        Some v \<Rightarrow> v
      | None \<Rightarrow>
          (case map_of h (ToLower k) of
             Some v \<Rightarrow> v
           | None \<Rightarrow>
               (case find (\<lambda>(hk, v). ToLower hk = ToLower k) h of
                  Some (hk, v) \<Rightarrow> v
                | None \<Rightarrow> '''')))"

definition Headers_Clone :: "Headers \<Rightarrow> Headers" where
  "Headers_Clone h = foldl (\<lambda>out (k, v). AList.update (ToLower k) v out) [] h"

definition IsReservedHeader :: "string \<Rightarrow> bool" where
  "IsReservedHeader k = prefix HeaderPrefix (ToLower k)"

definition IdentityHeaders :: "string list" where
  "IdentityHeaders = [HeaderCaller, HeaderGeneration, HeaderSubject]"

definition IsIdentityHeader :: "string \<Rightarrow> bool" where
  "IsIdentityHeader k = (ToLower k \<in> {HeaderCaller, HeaderGeneration, HeaderSubject})"

definition StripReserved :: "Headers \<Rightarrow> Headers" where
  "StripReserved h =
     foldl (\<lambda>out (k, v).
              let lk = ToLower k
              in if IsIdentityHeader lk then out else AList.update lk v out) [] h"

definition setHeader :: "Headers \<Rightarrow> string \<Rightarrow> string \<Rightarrow> Headers" where
  "setHeader h k v = (if v = '''' then h else AList.update k v h)"

definition mergeHeaders :: "Headers \<Rightarrow> Headers \<Rightarrow> Headers" where
  "mergeHeaders into from =
     (if length from = 0 then into
      else foldl (\<lambda>out (k, v). AList.update k v out) into from)"

section \<open>Messages and callers\<close>

record Msg =
  m_Subject :: Subject
  m_Reply :: Subject
  m_Headers :: Headers
  m_Data :: bytes
  m_respond :: "(Subject \<times> nat) option"
    \<comment> \<open>the closure of \<^verbatim>\<open>copyFor\<close>: the requester's inbox and the answering subscription\<close>

definition NewMsg :: "Subject \<Rightarrow> Subject \<Rightarrow> Headers \<Rightarrow> bytes \<Rightarrow> (Subject \<times> nat) option \<Rightarrow> Msg" where
  "NewMsg subject reply h data respond =
     \<lparr>m_Subject = subject, m_Reply = reply, m_Headers = Headers_Clone h, m_Data = data,
      m_respond = respond\<rparr>"

definition Correlation_of :: "Msg \<Rightarrow> string" where
  "Correlation_of m = Headers_Get (m_Headers m) HeaderCorrelation"

record Caller =
  c_PluginID :: string
  c_Generation :: string
  c_SubjectLease :: string

definition Caller_Autonomous :: "Caller \<Rightarrow> bool" where
  "Caller_Autonomous c = (c_SubjectLease c = '''')"

definition CallerOf :: "Msg option \<Rightarrow> Caller" where
  "CallerOf m =
     (case m of
        None \<Rightarrow> \<lparr>c_PluginID = '''', c_Generation = '''', c_SubjectLease = ''''\<rparr>
      | Some m \<Rightarrow>
          \<lparr>c_PluginID = Headers_Get (m_Headers m) HeaderCaller,
           c_Generation = Headers_Get (m_Headers m) HeaderGeneration,
           c_SubjectLease = Headers_Get (m_Headers m) HeaderSubject\<rparr>)"

section \<open>Trace propagation\<close>

text \<open>
  Of a \<^verbatim>\<open>context.Context\<close> the bus reads two values, the correlation id and the trace parent
  (\<open>''''\<close> when the context carries none), and whether it has ended (\<open>ctx_err\<close> is the text of
  \<^verbatim>\<open>ctx.Err()\<close>). \<open>minted\<close> is the identifier \<^verbatim>\<open>newCorrelation\<close> draws at random.
\<close>

record Context =
  ctx_corr :: string
  ctx_traceparent :: string
  ctx_err :: "string option"

definition Background :: Context where
  "Background = \<lparr>ctx_corr = '''', ctx_traceparent = '''', ctx_err = None\<rparr>"

definition trace_Correlation :: "string \<Rightarrow> Context option \<Rightarrow> string" where
  "trace_Correlation minted ctx =
     (case ctx of
        Some c \<Rightarrow> if ctx_corr c \<noteq> '''' then ctx_corr c else minted
      | None \<Rightarrow> minted)"

definition trace_WithCorrelation :: "Context option \<Rightarrow> string \<Rightarrow> Context" where
  "trace_WithCorrelation ctx i =
     (let c = (case ctx of Some c \<Rightarrow> c | None \<Rightarrow> Background)
      in if i = '''' then c else c\<lparr>ctx_corr := i\<rparr>)"

definition trace_Inject :: "string \<Rightarrow> Context option \<Rightarrow> Headers \<Rightarrow> Headers" where
  "trace_Inject minted ctx h =
     (let out = AList.update HeaderCorrelation (trace_Correlation minted ctx) (Headers_Clone h)
      in case ctx of
           None \<Rightarrow> out
         | Some c \<Rightarrow>
             if ctx_traceparent c \<noteq> '''' then AList.update HeaderTraceparent (ctx_traceparent c) out
             else out)"

definition trace_Extract :: "Context option \<Rightarrow> Headers \<Rightarrow> Context" where
  "trace_Extract ctx h =
     (let c0 = (case ctx of Some c \<Rightarrow> c | None \<Rightarrow> Background);
          corr = Headers_Get h HeaderCorrelation;
          c1 = (if corr \<noteq> '''' then c0\<lparr>ctx_corr := corr\<rparr> else c0);
          tp = Headers_Get h HeaderTraceparent
      in if tp \<noteq> '''' then c1\<lparr>ctx_traceparent := tp\<rparr> else c1)"

definition stampWith :: "string \<Rightarrow> Context option \<Rightarrow> Identity \<Rightarrow> Headers \<Rightarrow> Headers" where
  "stampWith minted ctx i h =
     (let out1 = AList.update HeaderCaller (PluginID i) (StripReserved h);
          out2 = AList.update HeaderGeneration (Generation i) out1;
          out3 = (if \<not> Lease_IsZero (Id_Lease i)
                  then AList.update HeaderSubject (lease_token (Id_Lease i)) out2 else out2)
      in trace_Inject minted ctx out3)"

section \<open>Capabilities\<close>

record Capabilities =
  Durable :: bool
  Cap_KV :: bool
  Cap_Objects :: bool
  Cap_Services :: bool
  Cap_Schedule :: bool
  Counters :: bool
  Batch :: bool
  Cap_Trace :: bool
  MaxPayload :: int

definition CapabilityNames :: "string list" where
  "CapabilityNames =
     [''durable'', ''kv'', ''objects'', ''services'', ''schedule'', ''counters'', ''batch'', ''trace'']"

definition Has :: "Capabilities \<Rightarrow> string \<Rightarrow> bool" where
  "Has c name =
     (if name = ''durable'' then Durable c
      else if name = ''kv'' then Cap_KV c
      else if name = ''objects'' then Cap_Objects c
      else if name = ''services'' then Cap_Services c
      else if name = ''schedule'' then Cap_Schedule c
      else if name = ''counters'' then Counters c
      else if name = ''batch'' then Batch c
      else if name = ''trace'' then Cap_Trace c
      else False)"

definition Missing :: "Capabilities \<Rightarrow> string list \<Rightarrow> string list" where
  "Missing c needs = filter (\<lambda>n. \<not> Has c n) needs"

section \<open>Call options\<close>

definition DefaultTimeout :: duration where
  "DefaultTimeout = 5 * second"

definition DefaultPendingLimit :: int where
  "DefaultPendingLimit = 64"

type_synonym Seq = nat

record PublishOptions =
  po_Headers :: Headers
  po_MsgID :: string
  po_ExpectLastSeq :: Seq
  po_TTL :: duration

record SubOptions =
  so_QueueGroup :: string
  so_PendingLimit :: int

record ReqOptions =
  ro_Headers :: Headers
  ro_Timeout :: duration

text \<open>
  The option values, one constructor per Go type that implements the interface. \<^verbatim>\<open>headersOpt\<close>,
  \<^verbatim>\<open>schemaOpt\<close> and \<^verbatim>\<open>correlationOpt\<close> implement both \<^verbatim>\<open>PublishOpt\<close> and \<^verbatim>\<open>ReqOpt\<close>. A nil option is
  \<open>None\<close> in the option lists.
\<close>

datatype PublishOpt =
    headersOpt Headers | schemaOpt string | correlationOpt string
  | msgIDOpt string | expectSeqOpt Seq | ttlOpt duration

datatype SubOpt = queueGroupOpt string | pendingLimitOpt int

datatype ReqOpt =
    r_headersOpt Headers | r_schemaOpt string | r_correlationOpt string | timeoutOpt duration

definition WithHeaders :: "Headers \<Rightarrow> PublishOpt" where
  "WithHeaders h = headersOpt (StripReserved h)"

definition WithHeaders_req :: "Headers \<Rightarrow> ReqOpt" where
  "WithHeaders_req h = r_headersOpt (StripReserved h)"

fun applyPublish :: "PublishOptions \<Rightarrow> PublishOpt \<Rightarrow> PublishOptions" where
  "applyPublish p (headersOpt h) = p\<lparr>po_Headers := mergeHeaders (po_Headers p) h\<rparr>"
| "applyPublish p (schemaOpt hash) = p\<lparr>po_Headers := setHeader (po_Headers p) HeaderSchema hash\<rparr>"
| "applyPublish p (correlationOpt i) = p\<lparr>po_Headers := setHeader (po_Headers p) HeaderCorrelation i\<rparr>"
| "applyPublish p (msgIDOpt i) = p\<lparr>po_MsgID := i\<rparr>"
| "applyPublish p (expectSeqOpt s) = p\<lparr>po_ExpectLastSeq := s\<rparr>"
| "applyPublish p (ttlOpt d) = p\<lparr>po_TTL := d\<rparr>"

fun applySub :: "SubOptions \<Rightarrow> SubOpt \<Rightarrow> SubOptions" where
  "applySub s (queueGroupOpt name) = s\<lparr>so_QueueGroup := name\<rparr>"
| "applySub s (pendingLimitOpt n) = s\<lparr>so_PendingLimit := n\<rparr>"

fun applyReq :: "ReqOptions \<Rightarrow> ReqOpt \<Rightarrow> ReqOptions" where
  "applyReq r (r_headersOpt h) = r\<lparr>ro_Headers := mergeHeaders (ro_Headers r) h\<rparr>"
| "applyReq r (r_schemaOpt hash) = r\<lparr>ro_Headers := setHeader (ro_Headers r) HeaderSchema hash\<rparr>"
| "applyReq r (r_correlationOpt i) = r\<lparr>ro_Headers := setHeader (ro_Headers r) HeaderCorrelation i\<rparr>"
| "applyReq r (timeoutOpt d) = r\<lparr>ro_Timeout := d\<rparr>"

definition apply_opts :: "('o \<Rightarrow> 'a \<Rightarrow> 'o) \<Rightarrow> 'o \<Rightarrow> 'a option list \<Rightarrow> 'o" where
  "apply_opts f o0 opts = foldl (\<lambda>acc opt. case opt of None \<Rightarrow> acc | Some x \<Rightarrow> f acc x) o0 opts"

definition ResolvePublish :: "PublishOpt option list \<Rightarrow> PublishOptions" where
  "ResolvePublish opts =
     apply_opts applyPublish
       \<lparr>po_Headers = [], po_MsgID = '''', po_ExpectLastSeq = 0, po_TTL = 0\<rparr> opts"

definition ResolveSub :: "SubOpt option list \<Rightarrow> SubOptions" where
  "ResolveSub opts =
     (let r = apply_opts applySub \<lparr>so_QueueGroup = '''', so_PendingLimit = DefaultPendingLimit\<rparr> opts
      in if so_PendingLimit r \<le> 0 then r\<lparr>so_PendingLimit := DefaultPendingLimit\<rparr> else r)"

definition ResolveReq :: "ReqOpt option list \<Rightarrow> ReqOptions" where
  "ResolveReq opts =
     (let r = apply_opts applyReq \<lparr>ro_Headers = [], ro_Timeout = DefaultTimeout\<rparr> opts
      in if ro_Timeout r \<le> 0 then r\<lparr>ro_Timeout := DefaultTimeout\<rparr> else r)"

section \<open>Header maps\<close>

definition lower_keys :: "Headers \<Rightarrow> bool" where
  "lower_keys h \<longleftrightarrow> (\<forall>k \<in> fst ` set h. ToLower k = k)"

text \<open>A canonical header map: one spelling per key, as the transport hands it to a handler.\<close>

definition canonical :: "Headers \<Rightarrow> bool" where
  "canonical h \<longleftrightarrow> lower_keys h \<and> amap_ok h"

lemma canonical_Nil [simp]: "canonical []"
  by (simp add: canonical_def lower_keys_def)

lemma canonical_update [simp]: "canonical h \<Longrightarrow> ToLower k = k \<Longrightarrow> canonical (AList.update k v h)"
  by (auto simp: canonical_def lower_keys_def keys_update)

lemma header_names_lower [simp]:
  "ToLower HeaderCaller = HeaderCaller" "ToLower HeaderGeneration = HeaderGeneration"
  "ToLower HeaderSubject = HeaderSubject" "ToLower HeaderFault = HeaderFault"
  "ToLower HeaderCorrelation = HeaderCorrelation" "ToLower HeaderTraceparent = HeaderTraceparent"
  "ToLower HeaderSchema = HeaderSchema" "ToLower HeaderMsgID = HeaderMsgID"
  by code_simp+

lemma header_names_differ [simp]:
  "HeaderCaller \<noteq> HeaderGeneration" "HeaderCaller \<noteq> HeaderSubject" "HeaderCaller \<noteq> HeaderFault" "HeaderCaller \<noteq> HeaderCorrelation" "HeaderCaller \<noteq> HeaderTraceparent" "HeaderCaller \<noteq> HeaderSchema" "HeaderCaller \<noteq> HeaderMsgID"
  "HeaderGeneration \<noteq> HeaderCaller" "HeaderGeneration \<noteq> HeaderSubject" "HeaderGeneration \<noteq> HeaderFault" "HeaderGeneration \<noteq> HeaderCorrelation" "HeaderGeneration \<noteq> HeaderTraceparent" "HeaderGeneration \<noteq> HeaderSchema" "HeaderGeneration \<noteq> HeaderMsgID"
  "HeaderSubject \<noteq> HeaderCaller" "HeaderSubject \<noteq> HeaderGeneration" "HeaderSubject \<noteq> HeaderFault" "HeaderSubject \<noteq> HeaderCorrelation" "HeaderSubject \<noteq> HeaderTraceparent" "HeaderSubject \<noteq> HeaderSchema" "HeaderSubject \<noteq> HeaderMsgID"
  "HeaderFault \<noteq> HeaderCaller" "HeaderFault \<noteq> HeaderGeneration" "HeaderFault \<noteq> HeaderSubject" "HeaderFault \<noteq> HeaderCorrelation" "HeaderFault \<noteq> HeaderTraceparent" "HeaderFault \<noteq> HeaderSchema" "HeaderFault \<noteq> HeaderMsgID"
  "HeaderCorrelation \<noteq> HeaderCaller" "HeaderCorrelation \<noteq> HeaderGeneration" "HeaderCorrelation \<noteq> HeaderSubject" "HeaderCorrelation \<noteq> HeaderFault" "HeaderCorrelation \<noteq> HeaderTraceparent" "HeaderCorrelation \<noteq> HeaderSchema" "HeaderCorrelation \<noteq> HeaderMsgID"
  "HeaderTraceparent \<noteq> HeaderCaller" "HeaderTraceparent \<noteq> HeaderGeneration" "HeaderTraceparent \<noteq> HeaderSubject" "HeaderTraceparent \<noteq> HeaderFault" "HeaderTraceparent \<noteq> HeaderCorrelation" "HeaderTraceparent \<noteq> HeaderSchema" "HeaderTraceparent \<noteq> HeaderMsgID"
  "HeaderSchema \<noteq> HeaderCaller" "HeaderSchema \<noteq> HeaderGeneration" "HeaderSchema \<noteq> HeaderSubject" "HeaderSchema \<noteq> HeaderFault" "HeaderSchema \<noteq> HeaderCorrelation" "HeaderSchema \<noteq> HeaderTraceparent" "HeaderSchema \<noteq> HeaderMsgID"
  "HeaderMsgID \<noteq> HeaderCaller" "HeaderMsgID \<noteq> HeaderGeneration" "HeaderMsgID \<noteq> HeaderSubject" "HeaderMsgID \<noteq> HeaderFault" "HeaderMsgID \<noteq> HeaderCorrelation" "HeaderMsgID \<noteq> HeaderTraceparent" "HeaderMsgID \<noteq> HeaderSchema"
  by (simp_all add: header_defs)

lemma IsIdentityHeader_ToLower [simp]: "IsIdentityHeader (ToLower k) = IsIdentityHeader k"
  by (simp add: IsIdentityHeader_def)

lemma foldl_update_canonical:
  "canonical acc \<Longrightarrow>
     canonical (foldl (\<lambda>out (k, v). if P k then out else AList.update (ToLower k) v out) acc h)"
  by (induction h arbitrary: acc) auto

lemma canonical_Clone [simp]: "canonical (Headers_Clone h)"
  using foldl_update_canonical [of "[]" "\<lambda>_. False" h] by (simp add: Headers_Clone_def)

lemma canonical_StripReserved [simp]: "canonical (StripReserved h)"
  using foldl_update_canonical [of "[]" IsIdentityHeader h]
  by (simp add: StripReserved_def Let_def)

lemma foldl_update_lookup:
  "lower_keys h \<Longrightarrow> amap_ok h \<Longrightarrow>
     map_of (foldl (\<lambda>out (k, v). AList.update (ToLower k) v out) acc h) k =
       (case map_of h k of Some v \<Rightarrow> Some v | None \<Rightarrow> map_of acc k)"
proof (induction h arbitrary: acc)
  case (Cons kv h)
  obtain a b where kv: "kv = (a, b)" by force
  with Cons.prems have h: "lower_keys h" "amap_ok h" "ToLower a = a" "map_of h a = None"
    by (auto simp: lower_keys_def map_of_eq_None_iff)
  with Cons.IH [of "AList.update a b acc"] kv show ?case
    by (auto simp: amap_simps split: option.splits)
qed simp

lemma map_of_Clone [simp]: "canonical h \<Longrightarrow> map_of (Headers_Clone h) = map_of h"
  by (rule ext) (auto simp: Headers_Clone_def canonical_def foldl_update_lookup split: option.splits)

lemma Headers_Get_canonical:
  assumes "canonical h" and "ToLower k = k"
  shows "Headers_Get h k = (case map_of h k of Some v \<Rightarrow> v | None \<Rightarrow> '''')"
proof -
  have "find (\<lambda>(hk, v). ToLower hk = k) h = None" if "map_of h k = None"
    using that assms unfolding find_None_iff canonical_def lower_keys_def map_of_eq_None_iff
    by (metis (mono_tags, lifting) case_prod_beta image_eqI)
  with assms(2) show ?thesis by (auto simp: Headers_Get_def split: option.splits)
qed

text \<open>What \<open>StripReserved\<close> keeps: the last value written under a key, whatever its case, unless the
  key is one of the identity headers.\<close>

lemma foldl_strip_lookup:
  "map_of (foldl (\<lambda>out (k, v). if IsIdentityHeader k then out else AList.update (ToLower k) v out) acc h) k =
     (case map_of (rev (filter (\<lambda>(k, v). \<not> IsIdentityHeader k) (map (\<lambda>(k, v). (ToLower k, v)) h))) k of
        Some v \<Rightarrow> Some v | None \<Rightarrow> map_of acc k)"
  by (induction h arbitrary: acc) (auto simp: amap_simps map_add_def split: option.splits)

lemma StripReserved_lookup:
  "map_of (StripReserved h) k =
     map_of (rev (filter (\<lambda>(k, v). \<not> IsIdentityHeader k) (map (\<lambda>(k, v). (ToLower k, v)) h))) k"
  using foldl_strip_lookup [of "[]" h k]
  by (auto simp: StripReserved_def Let_def split: option.splits)

lemma StripReserved_no_identity [simp]:
  "k \<in> {HeaderCaller, HeaderGeneration, HeaderSubject} \<Longrightarrow> map_of (StripReserved h) k = None"
  by (auto simp: StripReserved_lookup map_of_eq_None_iff IsIdentityHeader_def)

lemma canonical_Inject [simp]: "canonical (trace_Inject minted ctx h)"
  by (simp add: trace_Inject_def Let_def split: option.splits)

lemma canonical_stampWith [simp]: "canonical (stampWith minted ctx i h)"
  by (simp add: stampWith_def Let_def)

lemma Inject_lookup_other:
  "canonical h \<Longrightarrow> k \<noteq> HeaderCorrelation \<Longrightarrow> k \<noteq> HeaderTraceparent \<Longrightarrow>
     map_of (trace_Inject minted ctx h) k = map_of h k"
  by (simp add: trace_Inject_def Let_def amap_simps split: option.splits)

lemma Inject_correlation:
  "map_of (trace_Inject minted ctx h) HeaderCorrelation = Some (trace_Correlation minted ctx)"
  by (simp add: trace_Inject_def Let_def amap_simps split: option.splits)

text \<open>The headers a stamped message carries for the identity keys.\<close>

lemma stampWith_lookup:
  "map_of (stampWith minted ctx i h) HeaderCaller = Some (PluginID i)"
  "map_of (stampWith minted ctx i h) HeaderGeneration = Some (Generation i)"
  "map_of (stampWith minted ctx i h) HeaderSubject =
     (if Lease_IsZero (Id_Lease i) then None else Some (lease_token (Id_Lease i)))"
  "map_of (stampWith minted ctx i h) HeaderCorrelation = Some (trace_Correlation minted ctx)"
  by (simp_all add: stampWith_def Let_def Inject_lookup_other Inject_correlation amap_simps)

definition identity_caller :: "Identity \<Rightarrow> Caller" where
  "identity_caller i =
     \<lparr>c_PluginID = PluginID i, c_Generation = Generation i,
      c_SubjectLease = lease_token (Id_Lease i)\<rparr>"

lemma CallerOf_stamped:
  "CallerOf (Some (NewMsg s r (stampWith minted ctx i h) d re)) = identity_caller i"
  by (simp add: CallerOf_def NewMsg_def identity_caller_def Headers_Get_canonical stampWith_lookup
      Lease_IsZero_def)

lemma canonical_copy:
  "canonical h \<Longrightarrow> map_of (m_Headers (NewMsg s r (Headers_Clone h) d re)) = map_of h"
  by (simp add: NewMsg_def)

lemma CallerOf_copy:
  "canonical (m_Headers m) \<Longrightarrow>
     CallerOf (Some (NewMsg s r (Headers_Clone (m_Headers m)) d re)) = CallerOf (Some m)"
  by (simp add: CallerOf_def NewMsg_def Headers_Get_canonical)

lemma canonical_NewMsg [simp]: "canonical (m_Headers (NewMsg s r h d re))"
  by (simp add: NewMsg_def)

section \<open>Faults are attributed\<close>

lemma Denied_attributed:
  "Code (Denied op who why) = FaultDenied" "Op (Denied op who why) = op"
  "\<exists>rest. Message (Denied op who why) = ''principal '' @ who @ rest"
  by (auto simp: Denied_def mkFault_def Let_def)

section \<open>Properties\<close>

text \<open>C8. Caller identity cannot be forged: whatever headers a sender supplies, in any spelling,
  the caller a handler reads from the stamped message is the plugin, generation and lease of the
  identity the connection is bound to.\<close>

theorem caller_unforgeable:
  "CallerOf (Some (NewMsg s r (stampWith minted ctx i h) d re)) =
     \<lparr>c_PluginID = PluginID i, c_Generation = Generation i, c_SubjectLease = lease_token (Id_Lease i)\<rparr>"
  by (simp add: CallerOf_stamped identity_caller_def)

text \<open>Stripping is exactly the identity triple: a stripped header map has one lower-case
  spelling per key, no identity header, and under every other key the last value the sender wrote
  in any spelling of it; in particular the schema hash survives.\<close>

theorem strip_reserved_exact:
  "canonical (StripReserved h) \<and>
   map_of (StripReserved h) k =
     (if k \<in> set IdentityHeaders then None
      else map_of (rev (map (\<lambda>(k, v). (ToLower k, v)) h)) k)"
proof -
  have "map_of (filter (\<lambda>(k, v). \<not> IsIdentityHeader k) xs) k =
          (if IsIdentityHeader k then None else map_of xs k)" for xs :: Headers
    by (induction xs) auto
  moreover have "map_of (rev (map (\<lambda>(k, v). (ToLower k, v)) h)) k = None"
    if "IsIdentityHeader k" "k \<notin> set IdentityHeaders"
    using that by (auto simp: map_of_eq_None_iff IsIdentityHeader_def IdentityHeaders_def)
  moreover have "k \<in> set IdentityHeaders \<Longrightarrow> IsIdentityHeader k"
    by (auto simp: IsIdentityHeader_def IdentityHeaders_def)
  ultimately show ?thesis
    by (auto simp: StripReserved_lookup rev_filter)
qed

text \<open>The correlation option never reaches the wire: the substrate overwrites the correlation
  header with the correlation of the context, so a \<open>correlationOpt\<close> on a publish leaves the
  correlation id of the stamped headers as it is without the option.\<close>

theorem correlation_option_is_overwritten:
  "Headers_Get (stampWith minted ctx i (po_Headers (ResolvePublish opts))) HeaderCorrelation =
     trace_Correlation minted ctx"
  by (simp add: Headers_Get_canonical stampWith_lookup)

text \<open>Resolved options are usable: whatever options are passed, the queue depth of a subscription
  and the timeout of a request are positive.\<close>

theorem resolved_options_positive:
  "0 < so_PendingLimit (ResolveSub sopts) \<and> 0 < ro_Timeout (ResolveReq ropts)"
  by (simp add: ResolveSub_def ResolveReq_def Let_def DefaultPendingLimit_def DefaultTimeout_def
      second_def)

end
