(* ===== verification/Sub.thy ===== *)
theory Sub
  imports Msg
begin

text \<open>
  Subscriptions, \<^verbatim>\<open>src/v2/bus/memory/sub.go\<close>: a bounded queue with one delivery goroutine. The record
  \<open>subscription\<close> holds the fields of the Go struct; the closed channels \<^verbatim>\<open>doneCh\<close> and \<^verbatim>\<open>drained\<close>
  are Booleans, and so is the one-slot channel \<^verbatim>\<open>wake\<close>. The handler is code of the subscriber: the
  model records the messages it is called with.

  The functions are the bodies of the Go methods. The relation \<open>sub_step\<close> is the interleaving of the
  goroutines that share a subscription: one rule per critical section of \<^verbatim>\<open>s.mu\<close>, and one for the
  channel closes that follow \<^verbatim>\<open>finish\<close>, so that every schedule of the source is a run.
\<close>

record subscription =
  s_conn :: nat
    \<comment> \<open>the owning connection\<close>
  s_pattern :: Pattern
  s_group :: string
  s_limit :: int
  s_onReply :: "nat option"
    \<comment> \<open>the service whose error counter \<^verbatim>\<open>onReply\<close> increments, for an endpoint\<close>
  s_queue :: "Msg list"
  s_draining :: bool
  s_stop :: bool
  s_err :: "Fault option"
  s_drops :: nat
  s_wake :: bool
  s_done :: bool
  s_drained :: bool
  s_finished :: bool

definition newSubscription :: "nat \<Rightarrow> Pattern \<Rightarrow> SubOptions \<Rightarrow> nat option \<Rightarrow> subscription" where
  "newSubscription c p opts onReply =
     \<lparr>s_conn = c, s_pattern = p, s_group = so_QueueGroup opts,
      s_limit = (if so_PendingLimit opts \<le> 0 then DefaultPendingLimit else so_PendingLimit opts),
      s_onReply = onReply, s_queue = [], s_draining = False, s_stop = False, s_err = None,
      s_drops = 0, s_wake = False, s_done = False, s_drained = False, s_finished = False\<rparr>"

text \<open>The critical section of \<^verbatim>\<open>finish\<close>, then its \<^verbatim>\<open>once.Do\<close>.\<close>

definition finish_mark :: "Fault option \<Rightarrow> subscription \<Rightarrow> subscription" where
  "finish_mark err s =
     (if s_finished s then s
      else s\<lparr>s_finished := True, s_stop := True,
             s_err := (case err of Some e \<Rightarrow> Some e | None \<Rightarrow> s_err s), s_queue := []\<rparr>)"

definition close_channels :: "subscription \<Rightarrow> subscription" where
  "close_channels s = s\<lparr>s_done := True, s_drained := True\<rparr>"

definition sub_finish :: "Fault option \<Rightarrow> subscription \<Rightarrow> subscription" where
  "sub_finish err s = (if s_finished s then s else close_channels (finish_mark err s))"

definition slow_fault :: "string \<Rightarrow> subscription \<Rightarrow> Fault" where
  "slow_fault who s =
     mkFault FaultSlowConsumer (s_pattern s)
       (''principal '' @ who @ '': pending limit '' @ decimal (nat (s_limit s)) @ '' exceeded, '' @
        decimal (s_drops s) @ '' message(s) dropped'')"

text \<open>
  The three outcomes of the critical section of \<^verbatim>\<open>enqueue\<close>: the message is ignored, refused for
  overflow (the drop counted), or queued.
\<close>

definition enq_ignored :: "subscription \<Rightarrow> bool" where
  "enq_ignored s = (s_finished s \<or> s_stop s \<or> s_draining s)"

definition enq_full :: "subscription \<Rightarrow> bool" where
  "enq_full s = (s_limit s \<le> int (length (s_queue s)))"

definition count_drop :: "subscription \<Rightarrow> subscription" where
  "count_drop s = s\<lparr>s_drops := s_drops s + 1\<rparr>"

definition push_queue :: "Msg \<Rightarrow> subscription \<Rightarrow> subscription" where
  "push_queue m s = s\<lparr>s_queue := s_queue s @ [m]\<rparr>"

definition wake_up :: "subscription \<Rightarrow> subscription" where
  "wake_up s = s\<lparr>s_wake := True\<rparr>"

definition enqueue :: "string \<Rightarrow> Msg \<Rightarrow> subscription \<Rightarrow> subscription" where
  "enqueue who m s =
     (if enq_ignored s then s
      else if enq_full s then
        (let s' = count_drop s in sub_finish (Some (slow_fault who s')) s')
      else wake_up (push_queue m s))"

text \<open>One iteration of \<^verbatim>\<open>run\<close> up to the call of the handler: the message it takes, if any.\<close>

definition run_take :: "subscription \<Rightarrow> (Msg \<times> subscription) option" where
  "run_take s =
     (case s_queue s of
        m # ms \<Rightarrow> if s_stop s then None else Some (m, s\<lparr>s_queue := ms\<rparr>)
      | [] \<Rightarrow> None)"

definition run_idle :: "subscription \<Rightarrow> subscription" where
  "run_idle s = (if s_queue s = [] \<and> s_draining s then s\<lparr>s_drained := True\<rparr> else s)"

definition panic_fault :: "string \<Rightarrow> Msg \<Rightarrow> Fault" where
  "panic_fault who m =
     mkFault FaultUnhandled (m_Subject m) (''principal '' @ who @ '': handler panicked'')"

definition sub_Cancel :: "subscription \<Rightarrow> subscription" where
  "sub_Cancel s = sub_finish None s"

definition drain_begin :: "subscription \<Rightarrow> subscription" where
  "drain_begin s =
     (if s_finished s then s
      else s\<lparr>s_draining := True, s_drained := s_drained s \<or> s_queue s = []\<rparr>)"

definition sub_Dropped :: "subscription \<Rightarrow> nat" where
  "sub_Dropped s = s_drops s"

definition sub_stopped :: "subscription \<Rightarrow> bool" where
  "sub_stopped s = (s_stop s \<or> s_draining s)"

lemmas sub_defs [bus_defs] =
  finish_mark_def close_channels_def sub_finish_def enq_ignored_def enq_full_def count_drop_def
  push_queue_def wake_up_def run_take_def run_idle_def drain_begin_def

section \<open>The goroutines of one subscription\<close>

text \<open>
  The shared subscription with what the goroutines around it hold: the messages accepted into its
  queue so far, the messages its handler was called with so far, the message whose handler call is
  running, whether the delivery goroutine is blocked in its \<^verbatim>\<open>select\<close> or has returned, how many
  senders have left the critical section of \<^verbatim>\<open>enqueue\<close> or \<^verbatim>\<open>Drain\<close> and not yet signalled \<^verbatim>\<open>wake\<close>,
  and the overflow faults whose \<^verbatim>\<open>finish\<close> call is outstanding.
\<close>

record sub_sys =
  sub :: subscription
  accepted :: "Msg list"
  handled :: "Msg list"
  in_call :: "Msg option"
  waiting :: bool
  exited :: bool
  waking :: nat
  overflowing :: "Fault list"

definition sub_start :: "subscription \<Rightarrow> sub_sys" where
  "sub_start s =
     \<lparr>sub = s, accepted = [], handled = [], in_call = None, waiting = False, exited = False,
      waking = 0, overflowing = []\<rparr>"

definition sub_init :: "sub_sys \<Rightarrow> bool" where
  "sub_init y \<longleftrightarrow> (\<exists>c p opts r. y = sub_start (newSubscription c p opts r))"

text \<open>Steps of the machinery that delivers: the delivery goroutine and the pending wake signals.\<close>

inductive delivery_step :: "sub_sys \<Rightarrow> sub_sys \<Rightarrow> bool" where
  wake_send: "0 < waking y \<Longrightarrow>
     delivery_step y (y\<lparr>sub := wake_up (sub y), waking := waking y - 1\<rparr>)"
| run_pop: "\<not> exited y \<Longrightarrow> \<not> waiting y \<Longrightarrow> in_call y = None \<Longrightarrow> run_take (sub y) = Some (m, s') \<Longrightarrow>
     delivery_step y (y\<lparr>sub := s', in_call := Some m, handled := handled y @ [m]\<rparr>)"
| run_return: "in_call y = Some m \<Longrightarrow> delivery_step y (y\<lparr>in_call := None\<rparr>)"
| run_block: "\<not> exited y \<Longrightarrow> \<not> waiting y \<Longrightarrow> in_call y = None \<Longrightarrow> run_take (sub y) = None \<Longrightarrow>
     delivery_step y (y\<lparr>sub := run_idle (sub y), waiting := True\<rparr>)"
| run_wake: "waiting y \<Longrightarrow> s_wake (sub y) \<Longrightarrow>
     delivery_step y (y\<lparr>sub := (sub y)\<lparr>s_wake := False\<rparr>, waiting := False\<rparr>)"

inductive sub_step :: "sub_sys \<Rightarrow> sub_sys \<Rightarrow> bool" where
  deliver_st: "delivery_step y z \<Longrightarrow> sub_step y z"
| enq_accept: "\<not> enq_ignored (sub y) \<Longrightarrow> \<not> enq_full (sub y) \<Longrightarrow>
     sub_step y (y\<lparr>sub := push_queue m (sub y), accepted := accepted y @ [m],
       waking := waking y + 1\<rparr>)"
| enq_overflow: "\<not> enq_ignored (sub y) \<Longrightarrow> enq_full (sub y) \<Longrightarrow>
     sub_step y (y\<lparr>sub := count_drop (sub y),
       overflowing := slow_fault who (count_drop (sub y)) # overflowing y\<rparr>)"
| overflow_finish: "f \<in> set (overflowing y) \<Longrightarrow>
     sub_step y (y\<lparr>sub := finish_mark (Some f) (sub y), overflowing := remove1 f (overflowing y)\<rparr>)"
| close_chans: "s_finished (sub y) \<Longrightarrow> sub_step y (y\<lparr>sub := close_channels (sub y)\<rparr>)"
| run_panic: "in_call y = Some m \<Longrightarrow>
     sub_step y (y\<lparr>sub := finish_mark (Some (panic_fault who m)) (sub y), in_call := None\<rparr>)"
| run_exit: "waiting y \<Longrightarrow> s_done (sub y) \<Longrightarrow>
     sub_step y (y\<lparr>waiting := False, exited := True\<rparr>)"
| run_ctx_done: "waiting y \<Longrightarrow>
     sub_step y (y\<lparr>sub := finish_mark None (sub y), waiting := False, exited := True\<rparr>)"
| finish_call: "sub_step y (y\<lparr>sub := finish_mark err (sub y)\<rparr>)"
  \<comment> \<open>\<^verbatim>\<open>Cancel\<close>, the end of \<^verbatim>\<open>Drain\<close>, and the store ending the subscription\<close>
| drain_call: "sub_step y (y\<lparr>sub := drain_begin (sub y), waking := waking y + 1\<rparr>)"

definition sub_inv :: "sub_sys \<Rightarrow> bool" where
  "sub_inv y \<longleftrightarrow>
     int (length (s_queue (sub y))) \<le> s_limit (sub y) \<and> 0 < s_limit (sub y) \<and>
     (s_stop (sub y) \<longleftrightarrow> s_finished (sub y)) \<and>
     (s_finished (sub y) \<longrightarrow> s_queue (sub y) = []) \<and>
     (\<exists>rest. accepted y = handled y @ s_queue (sub y) @ rest \<and> (s_finished (sub y) \<or> rest = [])) \<and>
     (s_done (sub y) \<longrightarrow> s_finished (sub y)) \<and>
     (s_drained (sub y) \<longrightarrow> s_finished (sub y) \<or> (s_draining (sub y) \<and> s_queue (sub y) = [])) \<and>
     (0 < s_drops (sub y) \<longrightarrow> s_finished (sub y) \<or> overflowing y \<noteq> []) \<and>
     (waiting y \<longrightarrow> in_call y = None \<and> (s_queue (sub y) \<noteq> [] \<longrightarrow> s_wake (sub y) \<or> 0 < waking y)) \<and>
     (exited y \<longrightarrow> s_finished (sub y) \<and> in_call y = None)"

lemma sub_inv_init: "sub_init y \<Longrightarrow> sub_inv y"
  by (auto simp: sub_init_def sub_start_def sub_inv_def newSubscription_def DefaultPendingLimit_def)

lemma finish_mark_inv:
  assumes "sub_inv y"
  shows "sub_inv (y\<lparr>sub := finish_mark err (sub y)\<rparr>)"
  using assms unfolding sub_inv_def finish_mark_def
  by (cases "s_finished (sub y)") auto

lemma delivery_step_inv: "delivery_step y z \<Longrightarrow> sub_inv y \<Longrightarrow> sub_inv z"
proof (induction rule: delivery_step.induct)
  case (run_pop y m s')
  then show ?case by (auto simp: sub_inv_def run_take_def split: list.splits if_splits)
next
  case (run_block y)
  then show ?case by (auto simp: sub_inv_def run_take_def run_idle_def split: list.splits if_splits)
qed (auto simp: sub_inv_def sub_defs)

lemma sub_step_inv: "sub_step y z \<Longrightarrow> sub_inv y \<Longrightarrow> sub_inv z"
proof (induction rule: sub_step.induct)
  case (deliver_st y z)
  then show ?case by (rule delivery_step_inv)
next
  case (overflow_finish f y)
  from finish_mark_inv [OF overflow_finish.prems, of "Some f"]
  show ?case by (auto simp: sub_inv_def finish_mark_def)
next
  case (run_panic y m who)
  from finish_mark_inv [OF run_panic.prems] show ?case by (simp add: sub_inv_def)
next
  case (run_ctx_done y)
  from finish_mark_inv [OF run_ctx_done.prems, of None] run_ctx_done.hyps
  show ?case by (auto simp: sub_inv_def finish_mark_def)
next
  case (finish_call y err)
  then show ?case by (rule finish_mark_inv)
qed (auto simp: sub_inv_def sub_defs)

section \<open>Refinement of a FIFO channel\<close>

text \<open>
  What a subscription promises its subscriber: a channel that remembers what was put, delivers it in
  that order, once each, and can be closed, after which nothing more comes out.
\<close>

record channel =
  ch_put :: "Msg list"
  ch_taken :: nat
  ch_closed :: bool

inductive channel_step :: "channel \<Rightarrow> channel \<Rightarrow> bool" where
  put: "\<not> ch_closed c \<Longrightarrow> channel_step c (c\<lparr>ch_put := ch_put c @ [m]\<rparr>)"
| take_next: "\<not> ch_closed c \<Longrightarrow> ch_taken c < length (ch_put c) \<Longrightarrow>
     channel_step c (c\<lparr>ch_taken := ch_taken c + 1\<rparr>)"
| close: "channel_step c (c\<lparr>ch_closed := True\<rparr>)"

definition sub_channel :: "sub_sys \<Rightarrow> channel" where
  "sub_channel y =
     \<lparr>ch_put = accepted y, ch_taken = length (handled y), ch_closed = s_finished (sub y)\<rparr>"

lemma channel_finish:
  "sub_channel (y\<lparr>sub := finish_mark err (sub y)\<rparr>) = (sub_channel y)\<lparr>ch_closed := True\<rparr>"
  by (simp add: sub_channel_def finish_mark_def)

lemma delivery_step_channel:
  "delivery_step y z \<Longrightarrow> sub_inv y \<Longrightarrow>
     channel_step (sub_channel y) (sub_channel z) \<or> sub_channel z = sub_channel y"
proof (induction rule: delivery_step.induct)
  case (run_pop y m s')
  then have "\<not> s_finished (sub y)" "s_finished s' = s_finished (sub y)"
    "length (handled y) < length (accepted y)"
    by (auto simp: sub_inv_def run_take_def split: list.splits if_splits)
  then have "channel_step (sub_channel y) ((sub_channel y)\<lparr>ch_taken := ch_taken (sub_channel y) + 1\<rparr>)"
    by (intro take_next) (auto simp: sub_channel_def)
  with \<open>s_finished s' = s_finished (sub y)\<close> show ?case by (simp add: sub_channel_def)
qed (auto simp: sub_channel_def sub_defs)

lemma sub_step_channel:
  "sub_step y z \<Longrightarrow> sub_inv y \<Longrightarrow>
     channel_step (sub_channel y) (sub_channel z) \<or> sub_channel z = sub_channel y"
proof (induction rule: sub_step.induct)
  case (deliver_st y z)
  then show ?case by (rule delivery_step_channel)
next
  case (enq_accept y m)
  then have "channel_step (sub_channel y) ((sub_channel y)\<lparr>ch_put := ch_put (sub_channel y) @ [m]\<rparr>)"
    by (intro put) (auto simp: sub_channel_def enq_ignored_def)
  then show ?case by (simp add: sub_channel_def push_queue_def)
next
  case (overflow_finish f y)
  show ?case
    using channel_finish [of "Some f" y] channel_step.close [of "sub_channel y"]
    by (simp add: sub_channel_def)
next
  case (run_panic y m who)
  show ?case
    using channel_finish [of "Some (panic_fault who m)" y] channel_step.close [of "sub_channel y"]
    by (simp add: sub_channel_def)
next
  case (run_ctx_done y)
  show ?case
    using channel_finish [of None y] channel_step.close [of "sub_channel y"]
    by (simp add: sub_channel_def)
next
  case (finish_call y err)
  show ?case
    using channel_finish [of err y] channel_step.close [of "sub_channel y"] by simp
qed (auto simp: sub_channel_def sub_defs)

interpretation sub_runs: simulation_system sub_init sub_step sub_inv sub_channel channel_step
  by unfold_locales (auto intro: sub_inv_init sub_step_inv dest: sub_step_channel)

section \<open>The delivery machinery makes progress\<close>

lemma delivery_to_ready:
  assumes "sub_inv y" and "\<not> s_finished (sub y)"
  shows "\<exists>z. delivery_step\<^sup>*\<^sup>* y z \<and> accepted z = accepted y \<and> handled z = handled y \<and>
           s_queue (sub z) = s_queue (sub y) \<and> \<not> s_finished (sub z) \<and>
           (s_queue (sub y) = [] \<or> (\<not> exited z \<and> \<not> waiting z \<and> in_call z = None))"
proof -
  consider (empty) "s_queue (sub y) = []" | (call) m where "in_call y = Some m"
    | (ready) "in_call y = None" "\<not> waiting y"
    | (wake) "s_queue (sub y) \<noteq> []" "waiting y" "s_wake (sub y)"
    | (send) "s_queue (sub y) \<noteq> []" "waiting y" "0 < waking y"
    using assms by (auto simp: sub_inv_def)
  then show ?thesis
  proof cases
    case (call m)
    let ?z = "y\<lparr>in_call := None\<rparr>"
    have "delivery_step y ?z" using call by (rule run_return)
    moreover have "\<not> waiting y" "\<not> exited y" using assms call by (auto simp: sub_inv_def)
    ultimately show ?thesis using assms by (intro exI [of _ ?z]) auto
  next
    case wake
    let ?z = "y\<lparr>sub := (sub y)\<lparr>s_wake := False\<rparr>, waiting := False\<rparr>"
    have "delivery_step y ?z" using wake by (intro run_wake)
    with assms wake show ?thesis by (intro exI [of _ ?z]) (auto simp: sub_inv_def)
  next
    case send
    let ?x = "y\<lparr>sub := wake_up (sub y), waking := waking y - 1\<rparr>"
    let ?z = "?x\<lparr>sub := (sub ?x)\<lparr>s_wake := False\<rparr>, waiting := False\<rparr>"
    have "delivery_step y ?x" using send by (intro wake_send)
    moreover have "delivery_step ?x ?z" using send by (intro run_wake) (auto simp: wake_up_def)
    ultimately have "delivery_step\<^sup>*\<^sup>* y ?z" by simp
    with assms send show ?thesis by (intro exI [of _ ?z]) (auto simp: sub_inv_def wake_up_def)
  qed (use assms in \<open>auto simp: sub_inv_def intro: exI [of _ y]\<close>)
qed

lemma delivery_drains:
  "sub_inv y \<Longrightarrow> \<not> s_finished (sub y) \<Longrightarrow>
     \<exists>z. delivery_step\<^sup>*\<^sup>* y z \<and> accepted z = accepted y \<and> handled z = accepted y \<and>
         \<not> s_finished (sub z)"
proof (induction "length (s_queue (sub y))" arbitrary: y)
  case 0
  then show ?case by (auto simp: sub_inv_def intro!: exI [of _ y])
next
  case (Suc n)
  from delivery_to_ready [OF Suc.prems] obtain z where
    z: "delivery_step\<^sup>*\<^sup>* y z" "accepted z = accepted y" "handled z = handled y"
       "s_queue (sub z) = s_queue (sub y)" "\<not> s_finished (sub z)"
    and ready: "\<not> exited z" "\<not> waiting z" "in_call z = None"
    using Suc.hyps(2) by auto
  have inv_z: "sub_inv z"
    using z(1) Suc.prems(1)
    by (induction rule: rtranclp_induct) (auto intro: delivery_step_inv)
  from z(4) Suc.hyps(2) obtain m ms where q: "s_queue (sub z) = m # ms" "length ms = n"
    by (metis length_Suc_conv)
  let ?u = "z\<lparr>sub := (sub z)\<lparr>s_queue := ms\<rparr>, in_call := Some m, handled := handled z @ [m]\<rparr>"
  have "run_take (sub z) = Some (m, (sub z)\<lparr>s_queue := ms\<rparr>)"
    using q z(5) inv_z by (auto simp: run_take_def sub_inv_def)
  with ready have pop: "delivery_step z ?u" by (intro run_pop)
  with inv_z have "sub_inv ?u" by (blast intro: delivery_step_inv)
  from Suc.hyps(1) [OF _ this] q(2) z(5) obtain v where
    "delivery_step\<^sup>*\<^sup>* ?u v" "accepted v = accepted z" "handled v = accepted z" "\<not> s_finished (sub v)"
    by auto
  with pop z(1,2) show ?case
    by (metis (no_types, lifting) converse_rtranclp_into_rtranclp rtranclp_trans)
qed

section \<open>Properties\<close>

text \<open>C9. Delivery is in order and without loss or duplication: in every state the goroutines of a
  subscription can reach, the messages the handler was called with are a prefix of the accepted
  ones, the queue never exceeds its limit, and until the subscription finishes the handled messages
  followed by the queue are exactly the accepted ones.\<close>

theorem subscription_fifo:
  assumes "sub_init y0" and "sub_step\<^sup>*\<^sup>* y0 y"
  shows "prefix (handled y) (accepted y) \<and> int (length (s_queue (sub y))) \<le> s_limit (sub y) \<and>
         (s_finished (sub y) \<or> handled y @ s_queue (sub y) = accepted y)"
  using sub_runs.reachable_inv [OF assms] by (auto simp: sub_inv_def)

definition demo_sub :: sub_sys where
  "demo_sub = sub_start (newSubscription 0 ''a.>'' (ResolveSub []) None)"

lemma demo_sub_init: "sub_init demo_sub"
  by (auto simp: sub_init_def demo_sub_def)

text \<open>A drain loses nothing: once the drained signal of a subscription that has not been ended
  otherwise is closed, which is what makes \<^verbatim>\<open>Drain\<close> return without an error, its handler has been
  called with every message the subscription accepted.\<close>

theorem drained_delivers_everything:
  assumes "sub_init y0" and "sub_step\<^sup>*\<^sup>* y0 y" and "s_drained (sub y)" and "\<not> s_finished (sub y)"
  shows "handled y = accepted y \<and> s_draining (sub y)"
  using sub_runs.reachable_inv [OF assms(1,2)] assms(3,4) by (auto simp: sub_inv_def)

lemma demo_drained_step:
  "sub_step\<^sup>*\<^sup>* demo_sub (demo_sub\<lparr>sub := drain_begin (sub demo_sub), waking := waking demo_sub + 1\<rparr>)"
  by (intro r_into_rtranclp drain_call)

theorem drained_delivers_everything_witness:
  "s_drained (drain_begin (sub demo_sub)) \<and> \<not> s_finished (drain_begin (sub demo_sub)) \<and>
   handled demo_sub = accepted demo_sub"
  using drained_delivers_everything [OF demo_sub_init demo_drained_step]
  by (simp add: demo_sub_def sub_start_def newSubscription_def drain_begin_def)

text \<open>An overflow is never silent: as soon as every publisher that overflowed the queue has
  returned from \<^verbatim>\<open>enqueue\<close>, a subscription that dropped a message has finished.\<close>

theorem overflow_ends_subscription:
  assumes "sub_init y0" and "sub_step\<^sup>*\<^sup>* y0 y" and "0 < sub_Dropped (sub y)" and "overflowing y = []"
  shows "s_finished (sub y)"
  using sub_runs.reachable_inv [OF assms(1,2)] assms(3,4) by (auto simp: sub_inv_def sub_Dropped_def)

definition demo_msg :: Msg where
  "demo_msg = NewMsg ''a.b'' '''' [] ''x'' None"

definition demo_tiny :: sub_sys where
  "demo_tiny = sub_start (newSubscription 0 ''a.>'' (ResolveSub [Some (pendingLimitOpt 1)]) None)"

definition demo_full :: sub_sys where
  "demo_full = demo_tiny\<lparr>sub := push_queue demo_msg (sub demo_tiny), accepted := [demo_msg], waking := 1\<rparr>"

definition demo_over :: sub_sys where
  "demo_over = demo_full\<lparr>sub := count_drop (sub demo_full),
     overflowing := [slow_fault ''p'' (count_drop (sub demo_full))]\<rparr>"

definition demo_ended :: sub_sys where
  "demo_ended = demo_over\<lparr>sub := finish_mark (Some (hd (overflowing demo_over))) (sub demo_over),
     overflowing := []\<rparr>"

lemmas demo_sub_defs =
  demo_ended_def demo_over_def demo_full_def demo_tiny_def sub_start_def newSubscription_def
  ResolveSub_def apply_opts_def

lemma demo_accept_step: "sub_step demo_tiny demo_full"
  using enq_accept [of demo_tiny demo_msg] by (simp add: demo_sub_defs sub_defs)

lemma demo_accept_run: "sub_step\<^sup>*\<^sup>* demo_tiny demo_full"
  using demo_accept_step by blast

lemma demo_overflow_run: "sub_step\<^sup>*\<^sup>* demo_tiny demo_ended"
proof -
  have "sub_step demo_tiny demo_full"
    using enq_accept [of demo_tiny demo_msg] by (simp add: demo_sub_defs sub_defs)
  moreover have "sub_step demo_full demo_over"
    using enq_overflow [of demo_full "''p''"] by (simp add: demo_sub_defs sub_defs)
  moreover have "sub_step demo_over demo_ended"
    using overflow_finish [of "hd (overflowing demo_over)" demo_over]
    by (simp add: demo_ended_def) (simp add: demo_over_def)
  ultimately show ?thesis
    by (meson converse_rtranclp_into_rtranclp r_into_rtranclp)
qed

lemma demo_tiny_init: "sub_init demo_tiny"
  by (auto simp: sub_init_def demo_tiny_def)

theorem subscription_fifo_witness:
  "sub_init demo_tiny \<and> accepted demo_full = [demo_msg] \<and> prefix (handled demo_full) (accepted demo_full)"
  using subscription_fifo [OF demo_tiny_init demo_accept_run] demo_tiny_init
  by (simp add: demo_full_def)

theorem overflow_ends_subscription_witness:
  "0 < sub_Dropped (sub demo_ended) \<and> s_finished (sub demo_ended)"
proof -
  have "0 < sub_Dropped (sub demo_ended)" and "overflowing demo_ended = []"
    by (simp_all add: demo_sub_defs sub_defs sub_Dropped_def)
  with overflow_ends_subscription [OF demo_tiny_init demo_overflow_run] show ?thesis by blast
qed

text \<open>C10. Delivery never stalls: from every reachable state of a subscription that has not finished,
  whatever the publishers and the subscriber did so far, the steps of the delivery goroutine and of
  the pending wake signals alone lead to a state in which every accepted message was handled. So no
  wake-up is lost.\<close>

theorem delivery_never_stalls:
  assumes "sub_init y0" and "sub_step\<^sup>*\<^sup>* y0 y" and "\<not> s_finished (sub y)"
  shows "\<exists>z. delivery_step\<^sup>*\<^sup>* y z \<and> handled z = accepted y \<and> \<not> s_finished (sub z)"
  using delivery_drains [OF sub_runs.reachable_inv [OF assms(1,2)] assms(3)] by blast

lemma demo_full_step: "sub_step\<^sup>*\<^sup>* demo_tiny demo_full"
  using enq_accept [of demo_tiny demo_msg] by (simp add: demo_sub_defs sub_defs r_into_rtranclp)

theorem delivery_never_stalls_witness:
  "\<not> s_finished (sub demo_full) \<and> (\<exists>z. delivery_step\<^sup>*\<^sup>* demo_full z \<and> handled z = [demo_msg])"
proof -
  have "\<not> s_finished (sub demo_full)" and "accepted demo_full = [demo_msg]"
    by (simp_all add: demo_sub_defs sub_defs)
  with delivery_never_stalls [OF demo_tiny_init demo_full_step] show ?thesis by auto
qed



end
