(* ===== verification/Stream_Log.thy ===== *)
theory Stream_Log
  imports Msg "HOL-Library.Word"
begin

text \<open>
  One durable stream, the part of \<^verbatim>\<open>src/v2/bus/memory/streams.go\<close> before the consumers: stored
  messages, expiry, the retention limits and the append. The declaration types are those of
  \<^verbatim>\<open>src/v2/bus/streams.go\<close>.

  The byte count is a \<^verbatim>\<open>uint64\<close> and the per-subject counters are \<^verbatim>\<open>int64\<close>, both kept as 64-bit words,
  so that their additions and subtractions wrap as in Go. A sequence number counts the messages
  stored in one stream; it is a natural number, since \<^verbatim>\<open>lastSeq\<close> wraps only after \<open>2 ^ 64\<close>
  appends.
\<close>

type_synonym Retention = string
type_synonym AckPolicy = string
type_synonym StartPolicy = string

definition RetentionLimits :: Retention where "RetentionLimits = ''limits''"
definition AckNone :: AckPolicy where "AckNone = ''none''"
definition AckAll :: AckPolicy where "AckAll = ''all''"
definition AckExplicit :: AckPolicy where "AckExplicit = ''explicit''"
definition StartAll :: StartPolicy where "StartAll = ''all''"
definition StartNew :: StartPolicy where "StartNew = ''new''"
definition StartCursor :: StartPolicy where "StartCursor = ''cursor''"
definition StartTime :: StartPolicy where "StartTime = ''time''"

lemmas policy_defs [bus_defs] =
  RetentionLimits_def AckNone_def AckAll_def AckExplicit_def StartAll_def StartNew_def
  StartCursor_def StartTime_def

record StreamSpec =
  ss_Name :: string
  ss_Subjects :: "Pattern list"
  ss_Retention :: Retention
  ss_MaxAge :: duration
  ss_MaxBytes :: int
  ss_MaxMsgs :: int
  ss_MaxMsgsPerSubject :: int
  ss_Dedupe :: duration
  ss_Compression :: bool
  ss_AllowTTL :: bool
  ss_AllowSchedules :: bool
  ss_AllowCounters :: bool
  ss_AllowBatch :: bool

record ConsumerSpec =
  co_Name :: string
  co_Ordered :: bool
  co_Filter :: Pattern
  co_Ack :: AckPolicy
  co_AckWait :: duration
  co_MaxDeliver :: int
  co_MaxAckPending :: int
  co_Start :: StartPolicy
  co_Cursor :: string
  co_StartTime :: instant

record storedMsg =
  sm_seq :: Seq
  sm_subject :: Subject
  sm_headers :: Headers
  sm_data :: bytes
  sm_at :: instant
  sm_expires :: instant

definition sm_size :: "storedMsg \<Rightarrow> 64 word" where
  "sm_size m = of_nat (length (sm_data m))"

record dedupeEntry =
  de_seq :: Seq
  de_at :: instant

text \<open>The state of one consumer; its operations are in the theory of consumers.\<close>

record consumerState =
  cs_name :: string
  cs_stream :: string
  cs_spec :: ConsumerSpec
  cs_next :: Seq
  cs_ackFloor :: Seq
  cs_acked :: "Seq list"
  cs_pending :: "(Seq, instant) amap"
  cs_deliveries :: "(Seq, nat) amap"
  cs_started :: Seq

record stream =
  st_spec :: StreamSpec
  st_created :: instant
  st_msgs :: "storedMsg list"
  st_lastSeq :: Seq
  st_bytes :: "64 word"
  st_counters :: "(Subject, 64 word) amap"
  st_dedupe :: "(string, dedupeEntry) amap"
  st_durables :: "(string, nat) amap"
    \<comment> \<open>addresses of consumer states in the store\<close>

definition newStream :: "StreamSpec \<Rightarrow> instant \<Rightarrow> stream" where
  "newStream spec now =
     \<lparr>st_spec = spec, st_created = now, st_msgs = [], st_lastSeq = 0, st_bytes = 0,
      st_counters = [], st_dedupe = [], st_durables = []\<rparr>"

definition firstSeq :: "stream \<Rightarrow> Seq" where
  "firstSeq st = (case st_msgs st of [] \<Rightarrow> st_lastSeq st + 1 | m # _ \<Rightarrow> sm_seq m)"

definition stream_covers :: "stream \<Rightarrow> Subject \<Rightarrow> bool" where
  "stream_covers st subject = list_ex (\<lambda>p. Matches p subject) (ss_Subjects (st_spec st))"

definition find_msg :: "stream \<Rightarrow> Seq \<Rightarrow> storedMsg option" where
  "find_msg st seq = find (\<lambda>m. sm_seq m = seq) (st_msgs st)"

section \<open>Discarding messages\<close>

text \<open>The loop of \<^verbatim>\<open>expire\<close> and \<^verbatim>\<open>Purge\<close>: discard what satisfies \<open>P\<close>, adjusting the byte count.\<close>

fun discard_where :: "(storedMsg \<Rightarrow> bool) \<Rightarrow> storedMsg list \<Rightarrow> 64 word \<Rightarrow> storedMsg list \<times> 64 word" where
  "discard_where P [] b = ([], b)"
| "discard_where P (m # ms) b =
     (if P m then discard_where P ms (b - sm_size m)
      else let (kept, b') = discard_where P ms b in (m # kept, b'))"

definition msg_dead :: "StreamSpec \<Rightarrow> instant \<Rightarrow> storedMsg \<Rightarrow> bool" where
  "msg_dead spec now m =
     ((0 < ss_MaxAge spec \<and> ss_MaxAge spec < time_Sub now (sm_at m)) \<or>
      (sm_expires m \<noteq> 0 \<and> sm_expires m < now))"

definition expire :: "instant \<Rightarrow> stream \<Rightarrow> stream" where
  "expire now st =
     (if st_msgs st = [] then st
      else let (kept, b) = discard_where (msg_dead (st_spec st) now) (st_msgs st) (st_bytes st)
           in st\<lparr>st_msgs := kept, st_bytes := b\<rparr>)"

definition purge_matching :: "Pattern \<Rightarrow> stream \<Rightarrow> stream" where
  "purge_matching pat st =
     (let (kept, b) = discard_where (\<lambda>m. Matches pat (sm_subject m)) (st_msgs st) (st_bytes st)
      in st\<lparr>st_msgs := kept, st_bytes := b\<rparr>)"

definition purge_all :: "stream \<Rightarrow> stream" where
  "purge_all st = st\<lparr>st_bytes := 0, st_msgs := []\<rparr>"

section \<open>Retention limits\<close>

definition subject_count :: "storedMsg list \<Rightarrow> Subject \<Rightarrow> int" where
  "subject_count ms s = int (length (filter (\<lambda>m. sm_subject m = s) ms))"

text \<open>\<^verbatim>\<open>over\<close> of \<^verbatim>\<open>trim\<close>: by how many messages a subject exceeds its limit (0 for a key not in the map).\<close>

definition subject_over :: "int \<Rightarrow> storedMsg list \<Rightarrow> Subject \<Rightarrow> int" where
  "subject_over limit ms s =
     (if limit < subject_count ms s then subject_count ms s - limit else 0)"

definition dec_over :: "(Subject \<Rightarrow> int) \<Rightarrow> Subject \<Rightarrow> Subject \<Rightarrow> int" where
  "dec_over over s = over(s := over s - 1)"

fun drop_over :: "(Subject \<Rightarrow> int) \<Rightarrow> storedMsg list \<Rightarrow> 64 word \<Rightarrow> storedMsg list \<times> 64 word" where
  "drop_over over [] b = ([], b)"
| "drop_over over (m # ms) b =
     (if 0 < over (sm_subject m)
      then drop_over (dec_over over (sm_subject m)) ms (b - sm_size m)
      else let (kept, b') = drop_over over ms b in (m # kept, b'))"

definition trim_subjects :: "stream \<Rightarrow> stream" where
  "trim_subjects st =
     (let limit = ss_MaxMsgsPerSubject (st_spec st); over = subject_over limit (st_msgs st)
      in if 0 < limit \<and> list_ex (\<lambda>m. 0 < over (sm_subject m)) (st_msgs st)
         then let (kept, b) = drop_over over (st_msgs st) (st_bytes st)
              in st\<lparr>st_msgs := kept, st_bytes := b\<rparr>
         else st)"

fun drop_count :: "int \<Rightarrow> storedMsg list \<Rightarrow> 64 word \<Rightarrow> storedMsg list \<times> 64 word" where
  "drop_count limit [] b = ([], b)"
| "drop_count limit (m # ms) b =
     (if 0 < limit \<and> limit < int (length (m # ms)) then drop_count limit ms (b - sm_size m)
      else (m # ms, b))"

fun drop_bytes :: "int \<Rightarrow> storedMsg list \<Rightarrow> 64 word \<Rightarrow> storedMsg list \<times> 64 word" where
  "drop_bytes limit [] b = ([], b)"
| "drop_bytes limit (m # ms) b =
     (if 0 < limit \<and> limit < sint b then drop_bytes limit ms (b - sm_size m)
      else (m # ms, b))"

definition trim_count :: "stream \<Rightarrow> stream" where
  "trim_count st =
     (let (kept, b) = drop_count (ss_MaxMsgs (st_spec st)) (st_msgs st) (st_bytes st)
      in st\<lparr>st_msgs := kept, st_bytes := b\<rparr>)"

definition trim_bytes :: "stream \<Rightarrow> stream" where
  "trim_bytes st =
     (let (kept, b) = drop_bytes (ss_MaxBytes (st_spec st)) (st_msgs st) (st_bytes st)
      in st\<lparr>st_msgs := kept, st_bytes := b\<rparr>)"

definition trim :: "stream \<Rightarrow> stream" where
  "trim st = trim_bytes (trim_count (trim_subjects st))"

section \<open>Appending\<close>

text \<open>
  The body of \<^verbatim>\<open>appendLocked\<close>: the stream after it (expiry happens on every path) and its result.
  \<open>i\<close> is the identity of the connection, \<open>minted\<close> the random correlation id.
\<close>

definition conflict_fault :: "Identity \<Rightarrow> Subject \<Rightarrow> Seq \<Rightarrow> string \<Rightarrow> Seq \<Rightarrow> Fault" where
  "conflict_fault i subject expected name at_seq =
     mkFault FaultConflict subject
       (''principal '' @ Identity_String i @ '': expected last sequence '' @ decimal expected @
        '' but stream '' @ name @ '' is at '' @ decimal at_seq)"

definition dedupe_hit :: "stream \<Rightarrow> PublishOptions \<Rightarrow> instant \<Rightarrow> Seq option" where
  "dedupe_hit st opts now =
     (if po_MsgID opts \<noteq> '''' \<and> 0 < ss_Dedupe (st_spec st) then
        (case map_of (st_dedupe st) (po_MsgID opts) of
           Some prev \<Rightarrow> if time_Sub now (de_at prev) \<le> ss_Dedupe (st_spec st) then Some (de_seq prev) else None
         | None \<Rightarrow> None)
      else None)"

definition store_msg ::
  "string \<Rightarrow> Context \<Rightarrow> Identity \<Rightarrow> stream \<Rightarrow> Subject \<Rightarrow> bytes \<Rightarrow> PublishOptions \<Rightarrow> instant \<Rightarrow> storedMsg" where
  "store_msg minted ctx i st subject data opts now =
     \<lparr>sm_seq = st_lastSeq st + 1, sm_subject = subject,
      sm_headers =
        (let h = stampWith minted (Some ctx) i (po_Headers opts)
         in if po_MsgID opts \<noteq> '''' then AList.update HeaderMsgID (po_MsgID opts) h else h),
      sm_data = data, sm_at = now,
      sm_expires = (if 0 < po_TTL opts then now + po_TTL opts else 0)\<rparr>"

definition appendLocked ::
  "string \<Rightarrow> Context \<Rightarrow> Identity \<Rightarrow> Subject \<Rightarrow> bytes \<Rightarrow> PublishOptions \<Rightarrow> instant \<Rightarrow> stream \<Rightarrow>
     stream \<times> Seq res" where
  "appendLocked minted ctx i subject data opts now st0 =
     (let st = expire now st0 in
      case dedupe_hit st opts now of
        Some seq \<Rightarrow> (st, Inr seq)
      | None \<Rightarrow>
          if po_ExpectLastSeq opts \<noteq> 0 \<and> po_ExpectLastSeq opts \<noteq> st_lastSeq st then
            (st, Inl (conflict_fault i subject (po_ExpectLastSeq opts) (ss_Name (st_spec st)) (st_lastSeq st)))
          else
            (let m = store_msg minted ctx i st subject data opts now;
                 dd = (if po_MsgID opts \<noteq> ''''
                       then AList.update (po_MsgID opts) \<lparr>de_seq = sm_seq m, de_at = now\<rparr> (st_dedupe st)
                       else st_dedupe st)
             in (st\<lparr>st_lastSeq := sm_seq m, st_dedupe := dd, st_msgs := st_msgs st @ [m],
                    st_bytes := st_bytes st + sm_size m\<rparr>,
                 Inr (sm_seq m))))"

text \<open>\<^verbatim>\<open>Publish\<close> from the routed stream on: append, and trim unless the append failed.\<close>

definition publish_to ::
  "string \<Rightarrow> Context \<Rightarrow> Identity \<Rightarrow> Subject \<Rightarrow> bytes \<Rightarrow> PublishOptions \<Rightarrow> instant \<Rightarrow> stream \<Rightarrow>
     stream \<times> Seq res" where
  "publish_to minted ctx i subject data opts now st =
     (case appendLocked minted ctx i subject data opts now st of
        (st', Inl e) \<Rightarrow> (st', Inl e)
      | (st', Inr seq) \<Rightarrow> (trim st', Inr seq))"

definition add_counter :: "Subject \<Rightarrow> 64 word \<Rightarrow> stream \<Rightarrow> stream \<times> 64 word" where
  "add_counter subject delta st =
     (let v = (case map_of (st_counters st) subject of Some n \<Rightarrow> n | None \<Rightarrow> 0) + delta
      in (st\<lparr>st_counters := AList.update subject v (st_counters st)\<rparr>, v))"

section \<open>What the discarding loops keep\<close>

abbreviation sizes :: "storedMsg list \<Rightarrow> 64 word" where
  "sizes ms \<equiv> sum_list (map sm_size ms)"

definition total :: "storedMsg list \<Rightarrow> nat" where
  "total ms = sum_list (map (\<lambda>m. length (sm_data m)) ms)"

lemma total_simps [simp]: "total [] = 0" "total (m # ms) = length (sm_data m) + total ms"
  "total (xs @ ys) = total xs + total ys"
  by (simp_all add: total_def)

lemma sizes_total: "sizes ms = of_nat (total ms)"
  by (induction ms) (simp_all add: sm_size_def)

lemma sint_total:
  assumes "total ms < 2 ^ 63"
  shows "sint (sizes ms) = int (total ms)"
proof -
  have "signed_take_bit 63 (int (total ms)) = int (total ms)"
    using assms by (intro signed_take_bit_int_eq_self) auto
  then show ?thesis by (simp add: sizes_total signed_of_nat)
qed

lemma discard_where_eq:
  "discard_where P ms b = (filter (\<lambda>m. \<not> P m) ms, b - sizes (filter P ms))"
  by (induction ms arbitrary: b) (auto simp: algebra_simps)

lemma sizes_filter: "sizes ms - sizes (filter P ms) = sizes (filter (\<lambda>m. \<not> P m) ms)"
  by (induction ms) (auto simp: algebra_simps)

lemma dec_over_apply: "dec_over over s x = (if x = s then over s - 1 else over x)"
  by (simp add: dec_over_def)

lemma drop_over_bytes:
  "snd (drop_over over ms b) = b - sizes ms + sizes (fst (drop_over over ms b))"
  by (induction over ms b rule: drop_over.induct) (auto simp: Let_def split: prod.splits)

lemma drop_over_subseq: "subseq (fst (drop_over over ms b)) ms"
  by (induction over ms b rule: drop_over.induct) (auto simp: Let_def split: prod.splits)

lemma drop_over_subject:
  "filter (\<lambda>m. sm_subject m = s) (fst (drop_over over ms b)) =
     drop (nat (over s)) (filter (\<lambda>m. sm_subject m = s) ms)"
proof (induction over ms b rule: drop_over.induct)
  case (2 over m ms b)
  show ?case
  proof (cases "0 < over (sm_subject m)")
    case True
    then have "nat (over (sm_subject m)) = Suc (nat (over (sm_subject m) - 1))" by simp
    moreover have "dec_over over (sm_subject m) s = (if s = sm_subject m then over s - 1 else over s)"
      by (simp add: dec_over_apply)
    ultimately show ?thesis using "2.IH"(1) [OF True] True by auto
  next
    case False
    with "2.IH"(2) [OF False] show ?thesis by (auto simp: Let_def split: prod.splits)
  qed
qed simp

lemma drop_over_last:
  "ms \<noteq> [] \<Longrightarrow> over (sm_subject (last ms)) < subject_count ms (sm_subject (last ms)) \<Longrightarrow>
     fst (drop_over over ms b) \<noteq> [] \<and> last (fst (drop_over over ms b)) = last ms"
proof (induction over ms b rule: drop_over.induct)
  case (2 over m ms b)
  show ?case
  proof (cases "ms = []")
    case True
    with "2.prems" show ?thesis by (auto simp: subject_count_def Let_def split: prod.splits)
  next
    case False
    let ?over = "dec_over over (sm_subject m)"
    have dec: "?over (sm_subject (last ms)) < subject_count ms (sm_subject (last ms))"
      if "0 < over (sm_subject m)"
      using "2.prems"(2) False that by (auto simp: dec_over_apply subject_count_def split: if_splits)
    show ?thesis
    proof (cases "0 < over (sm_subject m)")
      case True
      with "2.IH"(1) [OF True False dec] False show ?thesis by simp
    next
      case over: False
      show ?thesis
      proof (cases "over (sm_subject (last ms)) < subject_count ms (sm_subject (last ms))")
        case True
        with "2.IH"(2) [OF over False] False over show ?thesis
          by (auto simp: Let_def split: prod.splits)
      next
        case no: False
        with "2.prems"(2) False have same: "sm_subject m = sm_subject (last ms)"
          by (auto simp: subject_count_def split: if_splits)
        have "filter (\<lambda>m. sm_subject m = sm_subject (last ms)) ms \<noteq> []"
          unfolding filter_empty_conv using False last_in_set by blast
        then have "0 < subject_count ms (sm_subject (last ms))"
          by (simp add: subject_count_def)
        with no over same show ?thesis by simp
      qed
    qed
  qed
qed simp

lemma drop_count_eq:
  "drop_count limit ms b =
     (let k = (if 0 < limit then length ms - nat limit else 0)
      in (drop k ms, b - sizes (take k ms)))"
proof (induction limit ms b rule: drop_count.induct)
  case (2 limit m ms b)
  show ?case
  proof (cases "0 < limit \<and> limit < int (length (m # ms))")
    case True
    then have "length (m # ms) - nat limit = Suc (length ms - nat limit)" by auto
    with True "2.IH" [OF True] show ?thesis by (simp add: Let_def algebra_simps)
  next
    case False
    then show ?thesis by (auto simp: Let_def)
  qed
qed simp

lemma drop_bytes_suffix:
  "\<exists>k. fst (drop_bytes limit ms b) = drop k ms \<and> snd (drop_bytes limit ms b) = b - sizes (take k ms)"
proof (induction limit ms b rule: drop_bytes.induct)
  case (2 limit m ms b)
  show ?case
  proof (cases "0 < limit \<and> limit < sint b")
    case True
    with "2.IH" [OF True] obtain k where "fst (drop_bytes limit ms (b - sm_size m)) = drop k ms"
      "snd (drop_bytes limit ms (b - sm_size m)) = b - sm_size m - sizes (take k ms)"
      by blast
    with True show ?thesis by (intro exI [of _ "Suc k"]) (auto simp: algebra_simps)
  next
    case False
    then show ?thesis by (intro exI [of _ 0]) auto
  qed
qed simp

lemma drop_bytes_bound:
  assumes "b = sizes ms" and "total ms < 2 ^ 63" and "0 < limit"
  shows "int (total (fst (drop_bytes limit ms b))) \<le> limit"
  using assms
proof (induction limit ms b rule: drop_bytes.induct)
  case (2 limit m ms b)
  then have sint_b: "sint b = int (total (m # ms))" using sint_total [of "m # ms"] by simp
  show ?case
  proof (cases "limit < sint b")
    case True
    with "2.IH" "2.prems" show ?thesis by simp
  next
    case False
    with sint_b show ?thesis by simp
  qed
qed simp

lemma drop_bytes_last:
  assumes "b = sizes ms" and "total ms < 2 ^ 63" and "ms \<noteq> []"
    and "0 < limit \<Longrightarrow> int (length (sm_data (last ms))) \<le> limit"
  shows "fst (drop_bytes limit ms b) \<noteq> [] \<and> last (fst (drop_bytes limit ms b)) = last ms"
  using assms
proof (induction limit ms b rule: drop_bytes.induct)
  case (2 limit m ms b)
  then have sint_b: "sint b = int (total (m # ms))" using sint_total [of "m # ms"] by simp
  show ?case
  proof (cases "0 < limit \<and> limit < sint b")
    case True
    with sint_b "2.prems"(4) have "ms \<noteq> []" by auto
    with True "2.IH" [OF True] "2.prems" show ?thesis by simp
  next
    case False
    then show ?thesis by auto
  qed
qed simp

section \<open>The invariant of a stream\<close>

definition stream_inv :: "stream \<Rightarrow> bool" where
  "stream_inv st \<longleftrightarrow>
     sorted_wrt (\<lambda>a b. sm_seq a < sm_seq b) (st_msgs st) \<and>
     (\<forall>m \<in> set (st_msgs st). 1 \<le> sm_seq m \<and> sm_seq m \<le> st_lastSeq st) \<and>
     st_bytes st = sizes (st_msgs st) \<and>
     (\<forall>d \<in> snd ` set (st_dedupe st). 1 \<le> de_seq d \<and> de_seq d \<le> st_lastSeq st)"

text \<open>
  The contract of an operation that only discards messages: what it keeps is a subsequence, the byte
  count stays exact, and nothing else changes.
\<close>

locale stream_discard =
  fixes discard :: "stream \<Rightarrow> stream"
  assumes keeps_subseq: "subseq (st_msgs (discard st)) (st_msgs st)"
    and keeps_bytes: "st_bytes st = sizes (st_msgs st) \<Longrightarrow>
      st_bytes (discard st) = sizes (st_msgs (discard st))"
    and keeps_lastSeq: "st_lastSeq (discard st) = st_lastSeq st"
    and keeps_spec: "st_spec (discard st) = st_spec st"
    and keeps_dedupe: "st_dedupe (discard st) = st_dedupe st"
    and keeps_durables: "st_durables (discard st) = st_durables st"
    and keeps_counters: "st_counters (discard st) = st_counters st"
begin

lemma discard_inv: "stream_inv st \<Longrightarrow> stream_inv (discard st)"
  using keeps_subseq [of st] keeps_bytes [of st]
  by (auto simp: stream_inv_def keeps_lastSeq keeps_dedupe dest: subseq_sorted_wrt subseq_set)

lemma discard_total: "total (st_msgs (discard st)) \<le> total (st_msgs st)"
proof -
  have "total xs \<le> total ys" if "subseq xs ys" for xs ys
    using that by (induction rule: list_emb.induct) auto
  with keeps_subseq show ?thesis by blast
qed

lemmas keeps = keeps_lastSeq keeps_spec keeps_dedupe keeps_durables keeps_counters

end

interpretation expiry: stream_discard "expire now" for now
  by unfold_locales (auto simp: expire_def discard_where_eq sizes_filter)

interpretation purging: stream_discard "purge_matching pat" for pat
  by unfold_locales (auto simp: purge_matching_def discard_where_eq sizes_filter)

interpretation purging_all: stream_discard purge_all
  by unfold_locales (auto simp: purge_all_def)

interpretation subject_limit: stream_discard trim_subjects
proof
  show "subseq (st_msgs (trim_subjects st)) (st_msgs st)" for st
    using drop_over_subseq by (auto simp: trim_subjects_def Let_def split_beta)
  show "st_bytes (trim_subjects st) = sizes (st_msgs (trim_subjects st))"
    if "st_bytes st = sizes (st_msgs st)" for st
    using that by (auto simp: trim_subjects_def Let_def split_beta drop_over_bytes)
qed (auto simp: trim_subjects_def Let_def split_beta)

lemma sizes_take_drop: "sizes ms - sizes (take k ms) = sizes (drop k ms)"
proof -
  have "sizes ms = sizes (take k ms) + sizes (drop k ms)"
    by (metis append_take_drop_id map_append sum_list_append)
  then show ?thesis by simp
qed

interpretation count_limit: stream_discard trim_count
  by unfold_locales (auto simp: trim_count_def drop_count_eq Let_def sizes_take_drop)

interpretation byte_limit: stream_discard trim_bytes
proof
  fix st :: stream
  obtain k where k:
    "fst (drop_bytes (ss_MaxBytes (st_spec st)) (st_msgs st) (st_bytes st)) = drop k (st_msgs st)"
    "snd (drop_bytes (ss_MaxBytes (st_spec st)) (st_msgs st) (st_bytes st)) =
       st_bytes st - sizes (take k (st_msgs st))"
    using drop_bytes_suffix by blast
  then show "subseq (st_msgs (trim_bytes st)) (st_msgs st)"
    by (simp add: trim_bytes_def split_beta)
  from k show "st_bytes (trim_bytes st) = sizes (st_msgs (trim_bytes st))"
    if "st_bytes st = sizes (st_msgs st)"
    using that by (simp add: trim_bytes_def split_beta sizes_take_drop)
qed (auto simp: trim_bytes_def split_beta)

interpretation trimming: stream_discard trim
proof
  show "subseq (st_msgs (trim st)) (st_msgs st)" for st
    unfolding trim_def
    by (meson byte_limit.keeps_subseq count_limit.keeps_subseq subject_limit.keeps_subseq
        subseq_order.trans)
qed (auto simp: trim_def byte_limit.keeps count_limit.keeps subject_limit.keeps
    byte_limit.keeps_bytes count_limit.keeps_bytes subject_limit.keeps_bytes)

lemma expired_gone: "m \<in> set (st_msgs (expire now st)) \<Longrightarrow> \<not> msg_dead (st_spec st) now m"
  by (auto simp: expire_def discard_where_eq split: if_splits)

lemma expire_msgs: "st_msgs (expire now st) = filter (\<lambda>m. \<not> msg_dead (st_spec st) now m) (st_msgs st)"
  by (auto simp: expire_def discard_where_eq)

subsection \<open>Appending keeps the invariant\<close>

lemma newStream_inv: "stream_inv (newStream spec now)"
  by (simp add: stream_inv_def newStream_def)

lemma appendLocked_cases:
  obtains (hit) seq where "dedupe_hit (expire now st) opts now = Some seq"
      "appendLocked minted ctx i subject data opts now st = (expire now st, Inr seq)"
  | (conflict) "dedupe_hit (expire now st) opts now = None"
      "po_ExpectLastSeq opts \<noteq> 0" "po_ExpectLastSeq opts \<noteq> st_lastSeq st"
      "appendLocked minted ctx i subject data opts now st = (expire now st,
         Inl (conflict_fault i subject (po_ExpectLastSeq opts) (ss_Name (st_spec st)) (st_lastSeq st)))"
  | (stored) st' where "dedupe_hit (expire now st) opts now = None"
      "po_ExpectLastSeq opts = 0 \<or> po_ExpectLastSeq opts = st_lastSeq st"
      "appendLocked minted ctx i subject data opts now st = (st', Inr (st_lastSeq st + 1))"
      "st_lastSeq st' = st_lastSeq st + 1" "st_spec st' = st_spec st"
      "st_msgs st' = st_msgs (expire now st) @
         [store_msg minted ctx i (expire now st) subject data opts now]"
      "st_bytes st' = st_bytes (expire now st) + of_nat (length data)"
      "st_dedupe st' =
         (if po_MsgID opts \<noteq> '''' then
            AList.update (po_MsgID opts) \<lparr>de_seq = st_lastSeq st + 1, de_at = now\<rparr> (st_dedupe st)
          else st_dedupe st)"
      "st_durables st' = st_durables st" "st_counters st' = st_counters st"
  by (fastforce simp: appendLocked_def Let_def expiry.keeps store_msg_def sm_size_def
      split: option.splits if_splits)

lemma set_update_amap: "set (AList.update k v m) \<subseteq> insert (k, v) (set m)"
  by (induction m) auto

lemma appendLocked_inv:
  assumes "stream_inv st"
  shows "stream_inv (fst (appendLocked minted ctx i subject data opts now st))"
proof (cases rule: appendLocked_cases [of now st opts minted ctx i subject data])
  case (stored st')
  have inv: "stream_inv (expire now st)" using assms by (rule expiry.discard_inv)
  let ?m = "store_msg minted ctx i (expire now st) subject data opts now"
  have m: "sm_seq ?m = st_lastSeq st + 1" "sm_size ?m = of_nat (length data)"
    by (simp_all add: store_msg_def sm_size_def expiry.keeps)
  have "\<forall>d \<in> snd ` set (st_dedupe st'). 1 \<le> de_seq d \<and> de_seq d \<le> st_lastSeq st'"
    using inv stored set_update_amap
    by (fastforce simp: stream_inv_def expiry.keeps split: if_splits)
  moreover have "sorted_wrt (\<lambda>a b. sm_seq a < sm_seq b) (st_msgs st')"
    using inv stored m by (fastforce simp: stream_inv_def expiry.keeps sorted_wrt_append)
  moreover have "\<forall>x \<in> set (st_msgs st'). 1 \<le> sm_seq x \<and> sm_seq x \<le> st_lastSeq st'"
    using inv stored m by (fastforce simp: stream_inv_def expiry.keeps)
  ultimately show ?thesis
    using inv stored m by (simp add: stream_inv_def)
qed (use assms expiry.discard_inv in auto)

lemma publish_to_inv:
  "stream_inv st \<Longrightarrow> stream_inv (fst (publish_to minted ctx i subject data opts now st))"
  using appendLocked_inv [of st minted ctx i subject data opts now]
  by (auto simp: publish_to_def trimming.discard_inv split: prod.splits sum.splits)

section \<open>Trimming enforces the declared limits\<close>

definition within_limits :: "stream \<Rightarrow> bool" where
  "within_limits st \<longleftrightarrow>
     (0 < ss_MaxMsgs (st_spec st) \<longrightarrow> int (length (st_msgs st)) \<le> ss_MaxMsgs (st_spec st)) \<and>
     (0 < ss_MaxBytes (st_spec st) \<longrightarrow> int (total (st_msgs st)) \<le> ss_MaxBytes (st_spec st)) \<and>
     (0 < ss_MaxMsgsPerSubject (st_spec st) \<longrightarrow>
        (\<forall>s. subject_count (st_msgs st) s \<le> ss_MaxMsgsPerSubject (st_spec st)))"

lemma subject_count_subseq: "subseq xs ys \<Longrightarrow> subject_count xs s \<le> subject_count ys s"
  by (induction rule: list_emb.induct) (auto simp: subject_count_def)

lemma trim_subjects_subject:
  assumes "0 < ss_MaxMsgsPerSubject (st_spec st)"
  shows "filter (\<lambda>m. sm_subject m = s) (st_msgs (trim_subjects st)) =
    (let ms = filter (\<lambda>m. sm_subject m = s) (st_msgs st)
     in drop (length ms - nat (ss_MaxMsgsPerSubject (st_spec st))) ms)"
proof -
  let ?limit = "ss_MaxMsgsPerSubject (st_spec st)"
  let ?ms = "filter (\<lambda>m. sm_subject m = s) (st_msgs st)"
  have over: "nat (subject_over ?limit (st_msgs st) s) = length ?ms - nat ?limit"
    using assms by (auto simp: subject_over_def subject_count_def)
  show ?thesis
  proof (cases "list_ex (\<lambda>m. 0 < subject_over ?limit (st_msgs st) (sm_subject m)) (st_msgs st)")
    case True
    with assms over show ?thesis
      by (simp add: trim_subjects_def Let_def split_beta drop_over_subject)
  next
    case False
    have "length ?ms - nat ?limit = 0"
    proof (cases "?ms")
      case (Cons m ms)
      then have "m \<in> set ?ms" by simp
      then have "m \<in> set (st_msgs st)" "sm_subject m = s" by auto
      with False have "\<not> 0 < subject_over ?limit (st_msgs st) s" by (auto simp: list_ex_iff)
      then show ?thesis by (simp add: over [symmetric])
    qed simp
    with False show ?thesis by (simp add: trim_subjects_def Let_def)
  qed
qed

lemma trim_subjects_bound:
  assumes "0 < ss_MaxMsgsPerSubject (st_spec st)"
  shows "subject_count (st_msgs (trim_subjects st)) s \<le> ss_MaxMsgsPerSubject (st_spec st)"
  using assms by (simp add: subject_count_def trim_subjects_subject Let_def)

lemma trim_count_length:
  "0 < ss_MaxMsgs (st_spec st) \<Longrightarrow> int (length (st_msgs (trim_count st))) \<le> ss_MaxMsgs (st_spec st)"
  by (simp add: trim_count_def drop_count_eq Let_def)

lemma trim_within_limits:
  assumes "st_bytes st = sizes (st_msgs st)" and "total (st_msgs st) < 2 ^ 63"
  shows "within_limits (trim st)"
proof -
  let ?s = "trim_subjects st" and ?c = "trim_count (trim_subjects st)"
  have spec: "st_spec (trim st) = st_spec st" "st_spec ?s = st_spec st" "st_spec ?c = st_spec st"
    by (simp_all add: trimming.keeps count_limit.keeps subject_limit.keeps)
  have sub: "subseq (st_msgs (trim st)) (st_msgs ?c)" "subseq (st_msgs ?c) (st_msgs ?s)"
    by (simp_all add: trim_def byte_limit.keeps_subseq count_limit.keeps_subseq)
  have bytes: "st_bytes ?c = sizes (st_msgs ?c)"
    using assms(1) by (simp add: count_limit.keeps_bytes subject_limit.keeps_bytes)
  have "total (st_msgs ?c) \<le> total (st_msgs st)"
    using count_limit.discard_total subject_limit.discard_total le_trans by blast
  with assms(2) have "total (st_msgs ?c) < 2 ^ 63" by linarith
  with bytes have "0 < ss_MaxBytes (st_spec st) \<longrightarrow> int (total (st_msgs (trim st))) \<le> ss_MaxBytes (st_spec st)"
    using drop_bytes_bound [of "st_bytes ?c" "st_msgs ?c" "ss_MaxBytes (st_spec st)"]
    by (simp add: trim_def trim_bytes_def split_beta spec)
  moreover have "0 < ss_MaxMsgs (st_spec st) \<longrightarrow> int (length (st_msgs (trim st))) \<le> ss_MaxMsgs (st_spec st)"
    using trim_count_length [of ?s] list_emb_length [OF sub(1)] by (auto simp: spec)
  moreover have "0 < ss_MaxMsgsPerSubject (st_spec st) \<longrightarrow>
      subject_count (st_msgs (trim st)) x \<le> ss_MaxMsgsPerSubject (st_spec st)" for x
    using trim_subjects_bound [of st x] subject_count_subseq [OF sub(1), of x]
      subject_count_subseq [OF sub(2), of x] by linarith
  ultimately show ?thesis by (simp add: within_limits_def spec)
qed

text \<open>The newest message survives every limit it can fit in.\<close>

lemma trim_subjects_last:
  assumes "st_msgs st \<noteq> []"
  shows "st_msgs (trim_subjects st) \<noteq> [] \<and> last (st_msgs (trim_subjects st)) = last (st_msgs st)"
proof -
  let ?limit = "ss_MaxMsgsPerSubject (st_spec st)"
  have "filter (\<lambda>m. sm_subject m = sm_subject (last (st_msgs st))) (st_msgs st) \<noteq> []"
    unfolding filter_empty_conv using assms last_in_set by blast
  then have "0 < subject_count (st_msgs st) (sm_subject (last (st_msgs st)))"
    by (simp add: subject_count_def)
  then have "subject_over ?limit (st_msgs st) (sm_subject (last (st_msgs st)))
      < subject_count (st_msgs st) (sm_subject (last (st_msgs st)))" if "0 < ?limit"
    using that by (simp add: subject_over_def)
  with drop_over_last [of "st_msgs st" "subject_over ?limit (st_msgs st)" "st_bytes st"] assms
  show ?thesis
    by (auto simp: trim_subjects_def Let_def split_beta)
qed

lemma trim_count_last:
  assumes "st_msgs st \<noteq> []"
  shows "st_msgs (trim_count st) \<noteq> [] \<and> last (st_msgs (trim_count st)) = last (st_msgs st)"
proof -
  obtain k where k: "st_msgs (trim_count st) = drop k (st_msgs st)" "k < length (st_msgs st)"
    using assms by (auto simp: trim_count_def drop_count_eq Let_def split: if_splits)
  then show ?thesis by simp
qed

lemma trim_last:
  assumes "st_bytes st = sizes (st_msgs st)" and "total (st_msgs st) < 2 ^ 63" and "st_msgs st \<noteq> []"
    and "0 < ss_MaxBytes (st_spec st) \<Longrightarrow>
      int (length (sm_data (last (st_msgs st)))) \<le> ss_MaxBytes (st_spec st)"
  shows "st_msgs (trim st) \<noteq> [] \<and> last (st_msgs (trim st)) = last (st_msgs st)"
proof -
  let ?c = "trim_count (trim_subjects st)"
  have c: "st_msgs ?c \<noteq> []" "last (st_msgs ?c) = last (st_msgs st)"
    using trim_subjects_last [OF assms(3)] trim_count_last by auto
  have bytes: "st_bytes ?c = sizes (st_msgs ?c)"
    using assms(1) by (simp add: count_limit.keeps_bytes subject_limit.keeps_bytes)
  have "total (st_msgs ?c) \<le> total (st_msgs st)"
    using count_limit.discard_total subject_limit.discard_total le_trans by blast
  with assms(2) have "total (st_msgs ?c) < 2 ^ 63" by linarith
  from drop_bytes_last [OF bytes this c(1), of "ss_MaxBytes (st_spec st)"] assms(4) c(2) show ?thesis
    by (simp add: trim_def trim_bytes_def split_beta count_limit.keeps subject_limit.keeps)
qed

lemma find_msg_last:
  assumes "stream_inv st" and "st_msgs st \<noteq> []"
  shows "find_msg st (sm_seq (last (st_msgs st))) = Some (last (st_msgs st))"
proof -
  obtain ms m where ms: "st_msgs st = ms @ [m]" using assms(2) by (metis append_butlast_last_id)
  with assms(1) have "\<forall>x \<in> set ms. sm_seq x \<noteq> sm_seq m"
    by (fastforce simp: stream_inv_def sorted_wrt_append)
  then have "find (\<lambda>x. sm_seq x = sm_seq m) (ms @ [m]) = Some m"
    by (induction ms) auto
  with ms show ?thesis by (simp add: find_msg_def)
qed

lemma append_total:
  assumes "appendLocked minted ctx i subject data opts now st = (st', r)"
  shows "total (st_msgs st') \<le> total (st_msgs st) + length data"
  using assms expiry.discard_total [of now st]
  by (cases rule: appendLocked_cases [of now st opts minted ctx i subject data])
    (auto simp: store_msg_def)

section \<open>Publishing by cases\<close>

lemma publish_to_Inr:
  assumes "publish_to minted ctx i subject data opts now st = (st', Inr seq)"
  obtains st1 where "appendLocked minted ctx i subject data opts now st = (st1, Inr seq)"
    and "st' = trim st1"
  using assms by (auto simp: publish_to_def split: prod.splits sum.splits)

lemma publish_to_keeps:
  assumes "publish_to minted ctx i subject data opts now st = (st', r)"
  shows "st_spec st' = st_spec st" and "st_durables st' = st_durables st"
    and "st_lastSeq st \<le> st_lastSeq st'"
    and "po_MsgID opts \<noteq> mid \<Longrightarrow> map_of (st_dedupe st') mid = map_of (st_dedupe st) mid"
  using assms
  by (cases rule: appendLocked_cases [of now st opts minted ctx i subject data];
      auto simp: publish_to_def trimming.keeps expiry.keeps amap_simps split: if_splits)+

lemma dedupe_hit_bounds:
  assumes "stream_inv st" and "dedupe_hit st opts now = Some seq"
  shows "1 \<le> seq" and "seq \<le> st_lastSeq st"
proof -
  from assms(2) obtain d where "map_of (st_dedupe st) (po_MsgID opts) = Some d" and "seq = de_seq d"
    by (auto simp: dedupe_hit_def split: if_splits option.splits)
  then have "d \<in> snd ` set (st_dedupe st)" by (force dest: map_of_SomeD)
  with assms(1) \<open>seq = de_seq d\<close> show "1 \<le> seq" and "seq \<le> st_lastSeq st"
    by (auto simp: stream_inv_def)
qed

text \<open>A success with a sequence number past the old end is one that stored the message.\<close>

lemma append_new_stored:
  assumes "stream_inv st"
    and "appendLocked minted ctx i subject data opts now st = (st1, Inr seq)"
    and "st_lastSeq st < seq"
  shows "seq = st_lastSeq st + 1" and "st_lastSeq st1 = st_lastSeq st + 1" and "st_spec st1 = st_spec st"
    and "st_msgs st1 = st_msgs (expire now st) @ [store_msg minted ctx i (expire now st) subject data opts now]"
    and "po_MsgID opts \<noteq> '''' \<Longrightarrow>
      map_of (st_dedupe st1) (po_MsgID opts) = Some \<lparr>de_seq = st_lastSeq st + 1, de_at = now\<rparr>"
  using assms dedupe_hit_bounds [OF expiry.discard_inv [OF assms(1), of now], of opts now]
  by (cases rule: appendLocked_cases [of now st opts minted ctx i subject data];
      fastforce simp: expiry.keeps amap_simps)+

text \<open>One publish call, and a sequence of them.\<close>

record publication =
  pb_minted :: string
  pb_ctx :: Context
  pb_id :: Identity
  pb_subject :: Subject
  pb_data :: bytes
  pb_opts :: PublishOptions
  pb_now :: instant

definition publish_one :: "publication \<Rightarrow> stream \<Rightarrow> stream \<times> Seq res" where
  "publish_one p st =
     publish_to (pb_minted p) (pb_ctx p) (pb_id p) (pb_subject p) (pb_data p) (pb_opts p) (pb_now p) st"

primrec publish_many :: "publication list \<Rightarrow> stream \<Rightarrow> stream" where
  "publish_many [] st = st"
| "publish_many (p # ps) st = publish_many ps (fst (publish_one p st))"

lemma publish_one_keeps:
  "st_spec (fst (publish_one p st)) = st_spec st"
  "st_lastSeq st \<le> st_lastSeq (fst (publish_one p st))"
  "po_MsgID (pb_opts p) \<noteq> mid \<Longrightarrow>
     map_of (st_dedupe (fst (publish_one p st))) mid = map_of (st_dedupe st) mid"
  "stream_inv st \<Longrightarrow> stream_inv (fst (publish_one p st))"
  using publish_to_keeps [of "pb_minted p" "pb_ctx p" "pb_id p" "pb_subject p" "pb_data p"
      "pb_opts p" "pb_now p" st] publish_to_inv [of st]
  by (metis publish_one_def prod.collapse)+

lemma publish_many_spec: "st_spec (publish_many ps st) = st_spec st"
  by (induction ps arbitrary: st) (simp_all add: publish_one_keeps)

lemma publish_many_lastSeq: "st_lastSeq st \<le> st_lastSeq (publish_many ps st)"
  by (induction ps arbitrary: st) (auto intro: order_trans publish_one_keeps(2))

lemma publish_many_dedupe:
  "\<forall>p \<in> set ps. po_MsgID (pb_opts p) \<noteq> mid \<Longrightarrow>
     map_of (st_dedupe (publish_many ps st)) mid = map_of (st_dedupe st) mid"
  by (induction ps arbitrary: st) (simp_all add: publish_one_keeps(3))

section \<open>Properties\<close>

text \<open>C12. Declared limits are enforced: a publish that succeeds leaves the stream well formed
  (sequence numbers increase, the byte count is the sum of the stored sizes) and within its
  \<open>MaxMsgs\<close>, \<open>MaxBytes\<close> and \<open>MaxMsgsPerSubject\<close>, as long as the stored bytes fit an \<^verbatim>\<open>int64\<close>.\<close>

theorem publish_within_limits:
  assumes "stream_inv st" and "total (st_msgs st) + length data < 2 ^ 63"
    and "publish_to minted ctx i subject data opts now st = (st', Inr seq)"
  shows "stream_inv st' \<and> within_limits st'"
proof -
  obtain st1 where app: "appendLocked minted ctx i subject data opts now st = (st1, Inr seq)"
    and st': "st' = trim st1" using assms(3) by (rule publish_to_Inr)
  have inv1: "stream_inv st1"
    using appendLocked_inv [OF assms(1), of minted ctx i subject data opts now] app by simp
  then have "st_bytes st1 = sizes (st_msgs st1)" by (simp add: stream_inv_def)
  moreover have "total (st_msgs st1) < 2 ^ 63"
    using append_total [OF app] assms(2) by linarith
  ultimately show ?thesis
    using inv1 st' by (simp add: trim_within_limits trimming.discard_inv)
qed


definition demo_identity :: Identity where
  "demo_identity =
     \<lparr>PluginID = ''p'', Generation = ''1'', Id_Lease = NewLease '''', Id_Role = RolePlugin,
      Id_Grants =
        \<lparr>g_Publish = [''a.>''], g_Subscribe = [''a.>''], g_Request = [], g_Serves = [],
         g_Streams = [''s''], g_KV = [''b''], g_Objects = []\<rparr>\<rparr>"

definition demo_spec :: StreamSpec where
  "demo_spec =
     \<lparr>ss_Name = ''s'', ss_Subjects = [''a.>''], ss_Retention = RetentionLimits, ss_MaxAge = 100,
      ss_MaxBytes = 2, ss_MaxMsgs = 0, ss_MaxMsgsPerSubject = 0, ss_Dedupe = 10,
      ss_Compression = False, ss_AllowTTL = False, ss_AllowSchedules = False,
      ss_AllowCounters = False, ss_AllowBatch = False\<rparr>"

definition demo_pub :: "PublishOpt option list \<Rightarrow> bytes \<Rightarrow> instant \<Rightarrow> publication" where
  "demo_pub opts d now =
     \<lparr>pb_minted = ''c'', pb_ctx = Background, pb_id = demo_identity, pb_subject = ''a.b'',
      pb_data = d, pb_opts = ResolvePublish opts, pb_now = now\<rparr>"

lemmas demo_stream_defs =
  demo_spec_def demo_pub_def publish_one_def publish_to_def appendLocked_def newStream_def
  expire_def trim_def trim_subjects_def trim_count_def trim_bytes_def dedupe_hit_def store_msg_def
  ResolvePublish_def apply_opts_def msg_dead_def time_Sub_def sm_size_def Let_def

theorem publish_within_limits_witness:
  "\<exists>st'. publish_one (demo_pub [] ''xy'' 5) (newStream demo_spec 1) = (st', Inr 1) \<and>
     stream_inv st' \<and> within_limits st'"
proof -
  obtain st' where p: "publish_one (demo_pub [] ''xy'' 5) (newStream demo_spec 1) = (st', Inr 1)"
    by (simp add: demo_stream_defs)
  moreover have "total (st_msgs (newStream demo_spec 1)) + length ''xy'' < 2 ^ 63"
    by (simp add: newStream_def)
  ultimately show ?thesis
    using publish_within_limits [OF newStream_inv, of demo_spec 1 "''xy''"]
    by (simp add: publish_one_def demo_pub_def)
qed

text \<open>A published message is readable: a publish that stored a new message, one that does not by
  itself exceed \<open>MaxBytes\<close>, leaves exactly that message findable under the returned sequence number,
  whatever the limits evicted. It carries the subject, the payload and the caller's identity.\<close>

theorem published_message_is_stored:
  assumes "stream_inv st" and "total (st_msgs st) + length data < 2 ^ 63"
    and "publish_to minted ctx i subject data opts now st = (st', Inr seq)"
    and "st_lastSeq st < seq"
    and "0 < ss_MaxBytes (st_spec st) \<Longrightarrow> int (length data) \<le> ss_MaxBytes (st_spec st)"
  shows "\<exists>m. find_msg st' seq = Some m \<and> sm_seq m = seq \<and> sm_subject m = subject \<and> sm_data m = data \<and>
    sm_at m = now \<and> map_of (sm_headers m) HeaderCaller = Some (PluginID i)"
proof -
  obtain st1 where app: "appendLocked minted ctx i subject data opts now st = (st1, Inr seq)"
    and st': "st' = trim st1" using assms(3) by (rule publish_to_Inr)
  note new = append_new_stored [OF assms(1) app assms(4)]
  let ?m = "store_msg minted ctx i (expire now st) subject data opts now"
  have inv1: "stream_inv st1"
    using appendLocked_inv [OF assms(1), of minted ctx i subject data opts now] app by simp
  have "st_msgs st' \<noteq> [] \<and> last (st_msgs st') = last (st_msgs st1)"
    unfolding st' using inv1 append_total [OF app] assms(2,5) new
    by (intro trim_last) (auto simp: stream_inv_def store_msg_def)
  with new(4) have last: "st_msgs st' \<noteq> []" "last (st_msgs st') = ?m" by auto
  have m: "sm_seq ?m = seq" "sm_subject ?m = subject" "sm_data ?m = data" "sm_at ?m = now"
    "map_of (sm_headers ?m) HeaderCaller = Some (PluginID i)"
    using new(1) by (auto simp: store_msg_def expiry.keeps amap_simps stampWith_lookup Let_def)
  have "find_msg st' seq = Some ?m"
    using find_msg_last [of st'] trimming.discard_inv [OF inv1] last m st' by auto
  with m show ?thesis by blast
qed

theorem published_message_is_stored_witness:
  "\<exists>st' m. publish_one (demo_pub [] ''xy'' 5) (newStream demo_spec 1) = (st', Inr 1) \<and>
     find_msg st' 1 = Some m \<and> sm_data m = ''xy''"
proof -
  obtain st' where p: "publish_one (demo_pub [] ''xy'' 5) (newStream demo_spec 1) = (st', Inr 1)"
    by (simp add: demo_stream_defs)
  moreover have "total (st_msgs (newStream demo_spec 1)) + length ''xy'' < 2 ^ 63"
    "st_lastSeq (newStream demo_spec 1) < 1"
    "int (length ''xy'') \<le> ss_MaxBytes (st_spec (newStream demo_spec 1))"
    by (simp_all add: newStream_def demo_spec_def)
  ultimately show ?thesis
    using published_message_is_stored [OF newStream_inv, of demo_spec 1 "''xy''"]
    by (simp add: publish_one_def demo_pub_def) blast
qed

text \<open>C13. Publishing is idempotent per message id: after a publish that stored a message under an id,
  and any publishes by anyone under other ids, a repeat of that id inside the deduplication window is
  accepted, answers the sequence number of the first, and stores nothing.\<close>

theorem repeat_publish_is_idempotent:
  assumes "stream_inv st" and "0 < ss_Dedupe (st_spec st)" and "po_MsgID (pb_opts p) \<noteq> ''''"
    and "publish_one p st = (st1, Inr seq)" and "st_lastSeq st < seq"
    and "\<forall>o' \<in> set others. po_MsgID (pb_opts o') \<noteq> po_MsgID (pb_opts p)"
    and "po_MsgID (pb_opts q) = po_MsgID (pb_opts p)"
    and "time_Sub (pb_now q) (pb_now p) \<le> ss_Dedupe (st_spec st)"
  shows "\<exists>st2. publish_one q (publish_many others st1) = (st2, Inr seq) \<and>
    st_lastSeq st2 = st_lastSeq (publish_many others st1) \<and>
    set (st_msgs st2) \<subseteq> set (st_msgs (publish_many others st1))"
proof -
  let ?mid = "po_MsgID (pb_opts p)"
  obtain st0 where app: "appendLocked (pb_minted p) (pb_ctx p) (pb_id p) (pb_subject p) (pb_data p)
      (pb_opts p) (pb_now p) st = (st0, Inr seq)" and st1: "st1 = trim st0"
    using assms(4) unfolding publish_one_def by (rule publish_to_Inr)
  note new = append_new_stored [OF assms(1) app assms(5)]
  let ?st = "publish_many others st1"
  have "map_of (st_dedupe ?st) ?mid = Some \<lparr>de_seq = seq, de_at = pb_now p\<rparr>"
    using publish_many_dedupe [OF assms(6), of st1] new assms(3) st1 by (simp add: trimming.keeps)
  moreover have "st_spec ?st = st_spec st"
    using publish_many_spec [of others st1] new st1 by (simp add: trimming.keeps)
  ultimately have "dedupe_hit (expire (pb_now q) ?st) (pb_opts q) (pb_now q) = Some seq"
    using assms(2,3,7,8) by (simp add: dedupe_hit_def expiry.keeps)
  then have "publish_one q ?st = (trim (expire (pb_now q) ?st), Inr seq)"
    by (simp add: publish_one_def publish_to_def appendLocked_def Let_def)
  moreover have "subseq (st_msgs (trim (expire (pb_now q) ?st))) (st_msgs ?st)"
    using trimming.keeps_subseq expiry.keeps_subseq subseq_order.trans by blast
  ultimately show ?thesis by (auto simp: trimming.keeps expiry.keeps dest: subseq_set)
qed

theorem repeat_publish_is_idempotent_witness:
  "\<exists>st1 st2. publish_one (demo_pub [Some (msgIDOpt ''i'')] ''x'' 5) (newStream demo_spec 1) = (st1, Inr 1) \<and>
     publish_one (demo_pub [Some (msgIDOpt ''i'')] ''z'' 9) (publish_many [demo_pub [] ''y'' 7] st1) = (st2, Inr 1)"
proof -
  let ?p = "demo_pub [Some (msgIDOpt ''i'')] ''x'' 5" and ?q = "demo_pub [Some (msgIDOpt ''i'')] ''z'' 9"
  obtain st1 where st1: "publish_one ?p (newStream demo_spec 1) = (st1, Inr 1)"
    by (simp add: demo_stream_defs)
  have "\<exists>st2. publish_one ?q (publish_many [demo_pub [] ''y'' 7] st1) = (st2, Inr 1) \<and>
      st_lastSeq st2 = st_lastSeq (publish_many [demo_pub [] ''y'' 7] st1) \<and>
      set (st_msgs st2) \<subseteq> set (st_msgs (publish_many [demo_pub [] ''y'' 7] st1))"
    by (rule repeat_publish_is_idempotent [OF newStream_inv _ _ st1])
      (simp_all add: demo_pub_def newStream_def demo_spec_def ResolvePublish_def apply_opts_def time_Sub_def)
  with st1 show ?thesis by blast
qed

text \<open>Optimistic concurrency: of two publishers that both expect the same last sequence number,
  the first succeeds exactly when the expectation holds, and then the second is refused with a
  conflict that stores nothing, whatever was expected to be stored in between.\<close>

theorem expect_last_seq_admits_one:
  assumes "po_ExpectLastSeq (pb_opts p) = e" and "po_ExpectLastSeq (pb_opts q) = e" and "e \<noteq> 0"
    and "po_MsgID (pb_opts p) = ''''" and "po_MsgID (pb_opts q) = ''''"
  shows "(snd (publish_one p st) = Inr (e + 1) \<longleftrightarrow> st_lastSeq st = e) \<and>
    (st_lastSeq st \<noteq> e \<longrightarrow> (\<exists>f. snd (publish_one p st) = Inl f \<and> Code f = FaultConflict)) \<and>
    (st_lastSeq st = e \<longrightarrow>
      (\<exists>f st'. publish_one q (publish_many others (fst (publish_one p st))) = (st', Inl f) \<and>
        Code f = FaultConflict \<and>
        st_lastSeq st' = st_lastSeq (publish_many others (fst (publish_one p st)))))"
proof -
  have none: "dedupe_hit st' (pb_opts r) now = None" if "r \<in> {p, q}" for st' r now
    using that assms(4,5) by (auto simp: dedupe_hit_def)
  have later: "st_lastSeq (publish_many others (fst (publish_one p st))) > e" if "st_lastSeq st = e"
    using publish_many_lastSeq [of "fst (publish_one p st)" others] that assms none
    by (auto simp: publish_one_def publish_to_def appendLocked_def Let_def trimming.keeps
        expiry.keeps store_msg_def)
  show ?thesis
    using later assms none
    by (auto simp: publish_one_def publish_to_def appendLocked_def Let_def expiry.keeps
        store_msg_def conflict_fault_def mkFault_def)
qed

theorem expect_last_seq_admits_one_witness:
  "snd (publish_one (demo_pub [Some (expectSeqOpt 1)] ''y'' 6)
     (fst (publish_one (demo_pub [] ''x'' 5) (newStream demo_spec 1)))) = Inr 2 \<and>
   (\<exists>f st'. publish_one (demo_pub [Some (expectSeqOpt 1)] ''z'' 7)
     (publish_many [] (fst (publish_one (demo_pub [Some (expectSeqOpt 1)] ''y'' 6)
       (fst (publish_one (demo_pub [] ''x'' 5) (newStream demo_spec 1)))))) = (st', Inl f) \<and>
     Code f = FaultConflict)"
proof -
  let ?st = "fst (publish_one (demo_pub [] ''x'' 5) (newStream demo_spec 1))"
  have "st_lastSeq ?st = 1" by (simp add: demo_stream_defs)
  then show ?thesis
    using expect_last_seq_admits_one [of "demo_pub [Some (expectSeqOpt 1)] ''y'' 6" 1
        "demo_pub [Some (expectSeqOpt 1)] ''z'' 7" ?st "[]"]
    by (simp add: demo_pub_def ResolvePublish_def apply_opts_def) blast
qed

end
