(* ===== verification/Cursor.thy ===== *)
theory Cursor
  imports Msg
begin

text \<open>
  Signed stream positions, \<^verbatim>\<open>src/v2/bus/memory/cursor.go\<close>, with the unpadded URL alphabet of
  \<^verbatim>\<open>encoding/base64\<close> it encodes them in.

  What the code takes from outside is the argument of type \<open>cursorEnv\<close>: the key made with the store,
  HMAC-SHA256 as a function of key and text, and \<^verbatim>\<open>strconv.Quote\<close>, which only occurs in the text of a
  refusal. No theorem assumes anything about them.
\<close>

type_synonym Cursor = string

definition NewCursor :: "string \<Rightarrow> Cursor" where
  "NewCursor tok = tok"

definition Cursor_IsZero :: "Cursor \<Rightarrow> bool" where
  "Cursor_IsZero c = (c = '''')"

record cursorEnv =
  ce_key :: bytes
  ce_hmac :: "bytes \<Rightarrow> bytes \<Rightarrow> bytes"
  ce_Quote :: "string \<Rightarrow> string"

section \<open>The unpadded URL encoding\<close>

definition b64_char :: "nat \<Rightarrow> char" where
  "b64_char n =
     (if n < 26 then char_of (65 + n)
      else if n < 52 then char_of (97 + (n - 26))
      else if n < 62 then char_of (48 + (n - 52))
      else if n = 62 then CHR ''-'' else CHR ''_'')"

definition b64_val :: "char \<Rightarrow> nat option" where
  "b64_val c =
     (if is_upper c then Some (code c - 65)
      else if is_lower c then Some (code c - 97 + 26)
      else if is_digit c then Some (code c - 48 + 52)
      else if c = CHR ''-'' then Some 62
      else if c = CHR ''_'' then Some 63 else None)"

fun b64_sextets :: "nat list \<Rightarrow> nat list" where
  "b64_sextets [] = []"
| "b64_sextets [a] = [a div 4, a mod 4 * 16]"
| "b64_sextets [a, b] = [a div 4, a mod 4 * 16 + b div 16, b mod 16 * 4]"
| "b64_sextets (a # b # c # bs) =
     a div 4 # (a mod 4 * 16 + b div 16) # (b mod 16 * 4 + c div 64) # c mod 64 # b64_sextets bs"

definition EncodeToString :: "bytes \<Rightarrow> string" where
  "EncodeToString bs = map b64_char (b64_sextets (map code bs))"

fun b64_octets :: "nat list \<Rightarrow> nat list option" where
  \<comment> \<open>a single trailing character is corrupt input; the unused low bits of the last one are ignored\<close>
  "b64_octets [] = Some []"
| "b64_octets [p] = None"
| "b64_octets [p, q] = Some [p * 4 + q div 16]"
| "b64_octets [p, q, r] = Some [p * 4 + q div 16, q mod 16 * 16 + r div 4]"
| "b64_octets (p # q # r # s # vs) =
     (case b64_octets vs of
        None \<Rightarrow> None
      | Some bs \<Rightarrow> Some ((p * 4 + q div 16) # (q mod 16 * 16 + r div 4) # (r mod 4 * 64 + s) # bs))"

fun b64_vals :: "string \<Rightarrow> nat list option" where
  "b64_vals [] = Some []"
| "b64_vals (c # cs) =
     (case b64_val c of None \<Rightarrow> None | Some v \<Rightarrow> map_option ((#) v) (b64_vals cs))"

definition DecodeString :: "string \<Rightarrow> bytes option" where
  \<comment> \<open>\<^verbatim>\<open>DecodeString\<close> skips carriage returns and newlines\<close>
  "DecodeString s =
     (case b64_vals (filter (\<lambda>c. c \<noteq> CHR 0x0D \<and> c \<noteq> CHR 0x0A) s) of
        None \<Rightarrow> None
      | Some vs \<Rightarrow> map_option (map char_of) (b64_octets vs))"

section \<open>Minting and reading\<close>

definition cursorBody :: "string \<Rightarrow> string \<Rightarrow> Seq \<Rightarrow> string" where
  "cursorBody stream consumer seq = stream @ ''|'' @ consumer @ ''|'' @ decimal seq"

definition signCursor :: "cursorEnv \<Rightarrow> string \<Rightarrow> bytes" where
  "signCursor env body = ce_hmac env (ce_key env) body"

definition mintCursor :: "cursorEnv \<Rightarrow> string \<Rightarrow> string \<Rightarrow> Seq \<Rightarrow> Cursor" where
  "mintCursor env stream consumer seq =
     (let body = cursorBody stream consumer seq; mac = signCursor env body
      in NewCursor (EncodeToString body @ ''.'' @ EncodeToString mac))"

definition cursor_refuse :: "string \<Rightarrow> string \<Rightarrow> Fault" where
  "cursor_refuse stream why = mkFault FaultDenied (''cursor:'' @ stream) (''cursor refused: '' @ why)"

definition readCursor :: "cursorEnv \<Rightarrow> Cursor \<Rightarrow> string \<Rightarrow> Seq res" where
  "readCursor env c stream =
     (let refuse = (\<lambda>why. Inl (cursor_refuse stream why)) in
      if Cursor_IsZero c then refuse ''empty''
      else case cut_on (CHR ''.'') c of
        None \<Rightarrow> refuse ''malformed''
      | Some (raw, sig) \<Rightarrow>
          (case DecodeString raw of
             None \<Rightarrow> refuse ''malformed''
           | Some body \<Rightarrow>
               (case DecodeString sig of
                  None \<Rightarrow> refuse ''malformed''
                | Some mac \<Rightarrow>
                    if mac \<noteq> signCursor env body then refuse ''signature does not verify''
                    else
                      (case split_on (CHR ''|'') body of
                         [s, consumer, n] \<Rightarrow>
                           if s \<noteq> stream then refuse (''belongs to stream '' @ ce_Quote env s)
                           else (case ParseUint n of
                                   None \<Rightarrow> refuse ''malformed''
                                 | Some seq \<Rightarrow> Inr seq)
                       | _ \<Rightarrow> refuse ''malformed''))))"

section \<open>The encoding is lossless\<close>

lemma b64_val_char [simp]: "n < 64 \<Longrightarrow> b64_val (b64_char n) = Some n"
proof -
  assume "n < 64"
  then consider "n < 26" | "26 \<le> n" "n < 52" | "52 \<le> n" "n < 62" | "n = 62" | "n = 63" by linarith
  then show ?thesis
    by cases (auto simp: b64_char_def b64_val_def is_upper_def is_lower_def is_digit_def)
qed

lemma b64_char_plain: "n < 64 \<Longrightarrow> b64_char n \<notin> {CHR ''.'', CHR 0x0D, CHR 0x0A}"
  using b64_val_char [of n] by (auto simp: b64_val_def is_upper_def is_lower_def is_digit_def)

lemma b64_sextets_bound: "list_all (\<lambda>b. b < 256) bs \<Longrightarrow> v \<in> set (b64_sextets bs) \<Longrightarrow> v < 64"
  by (induction bs rule: b64_sextets.induct) (auto simp: div_less_iff_less_mult)

lemma b64_octets_sextets: "list_all (\<lambda>b. b < 256) bs \<Longrightarrow> b64_octets (b64_sextets bs) = Some bs"
  by (induction bs rule: b64_sextets.induct) auto

lemma b64_vals_chars: "\<forall>v \<in> set vs. v < 64 \<Longrightarrow> b64_vals (map b64_char vs) = Some vs"
  by (induction vs) auto

lemma codes_bound: "list_all (\<lambda>b. b < 256) (map code bs)"
  by (simp add: list_all_iff)

lemma encoded_plain:
  "c \<in> set (EncodeToString bs) \<Longrightarrow> c \<notin> {CHR ''.'', CHR 0x0D, CHR 0x0A}"
  using b64_sextets_bound [OF codes_bound] b64_char_plain by (auto simp: EncodeToString_def)

lemma DecodeString_Encode [simp]: "DecodeString (EncodeToString bs) = Some bs"
proof -
  have "filter (\<lambda>c. c \<noteq> CHR 0x0D \<and> c \<noteq> CHR 0x0A) (EncodeToString bs) = EncodeToString bs"
    using encoded_plain by (auto simp: filter_id_conv)
  moreover have "b64_vals (EncodeToString bs) = Some (b64_sextets (map code bs))"
    unfolding EncodeToString_def by (rule b64_vals_chars) (auto dest: b64_sextets_bound [OF codes_bound])
  ultimately show ?thesis
    by (simp add: DecodeString_def b64_octets_sextets [OF codes_bound] comp_def)
qed

section \<open>Properties\<close>

lemma split_body:
  "split_on (CHR ''|'') (cursorBody stream consumer seq) =
     split_on (CHR ''|'') stream @ split_on (CHR ''|'') consumer @ [decimal seq]"
proof -
  have app: "split_on c (a @ c # b) = split_on c a @ split_on c b" for c a b
    by (induction a) (auto split: list.splits)
  have "CHR ''|'' \<notin> set (decimal seq)"
    by (rule decimal_free) (simp add: is_digit_def)
  then show ?thesis
    by (simp add: cursorBody_def app split_on_single)
qed

lemma split_single_iff: "split_on c s = [t] \<longleftrightarrow> c \<notin> set s \<and> t = s"
  by (metis join_on.simps(2) join_split list.set_intros(1) split_on_free split_on_single)

text \<open>C15. Cursors round trip and belong to one stream: reading back a cursor the store minted succeeds
  exactly for the stream it was minted for, and then with the sequence number that was signed. The
  exception is a stream or consumer name with a bar in it, whose cursors are always refused.\<close>

theorem minted_cursor_reads_back:
  assumes "seq < 2 ^ 64"
  shows "readCursor env (mintCursor env stream consumer seq) stream' = Inr n \<longleftrightarrow>
    stream' = stream \<and> n = seq \<and> CHR ''|'' \<notin> set stream \<and> CHR ''|'' \<notin> set consumer"
proof -
  let ?body = "cursorBody stream consumer seq"
  have cut: "cut_on (CHR ''.'') (EncodeToString ?body @ ''.'' @ EncodeToString (signCursor env ?body)) =
      Some (EncodeToString ?body, EncodeToString (signCursor env ?body))"
    using encoded_plain cut_on_append by fastforce
  obtain s ss where s: "split_on (CHR ''|'') stream = s # ss" by (meson neq_Nil_conv split_on_not_Nil)
  obtain k ks where k: "split_on (CHR ''|'') consumer = k # ks" by (meson neq_Nil_conv split_on_not_Nil)
  have bar: "CHR ''|'' \<notin> set stream \<longleftrightarrow> ss = []" "CHR ''|'' \<notin> set consumer \<longleftrightarrow> ks = []"
    using s k split_single_iff by (metis list.inject)+
  have "s = stream" if "ss = []" using s that split_single_iff by metis
  with cut s k bar assms show ?thesis
    by (auto simp: readCursor_def mintCursor_def NewCursor_def Cursor_IsZero_def Let_def split_body
        append_eq_Cons_conv split: list.splits)
qed

definition demo_env :: cursorEnv where
  "demo_env = \<lparr>ce_key = ''k'', ce_hmac = (\<lambda>k b. rev b @ k), ce_Quote = id\<rparr>"

theorem minted_cursor_reads_back_witness:
  "readCursor demo_env (mintCursor demo_env ''s'' ''c'' 7) ''s'' = Inr 7"
  using minted_cursor_reads_back [of 7 demo_env "''s''" "''c''" "''s''" 7] by simp

text \<open>Nothing unsigned is interpreted: an accepted cursor decodes to a body for the very stream
  asked about, holding the returned number, and carries that body's signature under the key of the
  store. Every refusal is a denial.\<close>

theorem accepted_cursor_is_signed:
  "(case readCursor env c stream of
      Inl f \<Rightarrow> Code f = FaultDenied
    | Inr n \<Rightarrow>
        (\<exists>raw sig consumer digits. c = raw @ ''.'' @ sig \<and>
           DecodeString raw = Some (stream @ ''|'' @ consumer @ ''|'' @ digits) \<and>
           DecodeString sig = Some (signCursor env (stream @ ''|'' @ consumer @ ''|'' @ digits)) \<and>
           ParseUint digits = Some n))"
proof (cases "readCursor env c stream")
  case (Inl f)
  then show ?thesis
    by (auto simp: readCursor_def Let_def cursor_refuse_def mkFault_def
        split: if_splits option.splits list.splits prod.splits)
next
  case (Inr n)
  then obtain raw sig body mac k d where
    "cut_on (CHR ''.'') c = Some (raw, sig)" "DecodeString raw = Some body"
    "DecodeString sig = Some (signCursor env body)" "split_on (CHR ''|'') body = [stream, k, d]"
    "ParseUint d = Some n"
    by (auto simp: readCursor_def Let_def split: if_splits option.splits list.splits prod.splits)
  moreover have "body = stream @ ''|'' @ k @ ''|'' @ d"
    using join_split [of "CHR ''|''" body] calculation(4) by simp
  ultimately show ?thesis using Inr by (auto dest!: cut_on_Some)
qed

end
