(* ===== verification/Consumer.thy ===== *)
theory Consumer
  imports Stream_Log Cursor
begin

text \<open>
  Consumers of a stream, the second half of \<^verbatim>\<open>src/v2/bus/memory/streams.go\<close>: acknowledgement with a
  floor and a sparse set, redelivery after the acknowledgement deadline, the choice of the next
  message, and the start policies.

  A Go \<^verbatim>\<open>map[Seq]bool\<close> that only ever holds \<^verbatim>\<open>true\<close> is the list of its keys. The closure of
  \<^verbatim>\<open>buildLocked\<close> that acknowledges a message captures the message, the policy in force and the
  consumer state; the first two are in the \<open>StreamMsg\<close>, the third is passed to \<open>ack_closure\<close>.
\<close>

definition defaultAckWait :: duration where
  "defaultAckWait = 30 * second"

definition newConsumerState :: "string \<Rightarrow> string \<Rightarrow> ConsumerSpec \<Rightarrow> Seq \<Rightarrow> consumerState" where
  "newConsumerState name stream spec start =
     \<lparr>cs_name = name, cs_stream = stream, cs_spec = spec, cs_next = start, cs_ackFloor = start - 1,
      cs_acked = [], cs_pending = [], cs_deliveries = [], cs_started = start\<rparr>"

section \<open>Acknowledging\<close>

text \<open>The loop of \<^verbatim>\<open>markAcked\<close>; each round removes a key from \<^verbatim>\<open>acked\<close>.\<close>

function advance_floor :: "consumerState \<Rightarrow> consumerState" where
  "advance_floor cs =
     (let f = cs_ackFloor cs + 1
      in if f \<in> set (cs_acked cs) then
           advance_floor (cs\<lparr>cs_ackFloor := f, cs_acked := removeAll f (cs_acked cs),
                             cs_deliveries := AList.delete f (cs_deliveries cs)\<rparr>)
         else cs)"
  by pat_completeness auto
termination
  by (relation "measure (\<lambda>cs. length (cs_acked cs))") (auto simp: length_removeAll_less)

declare advance_floor.simps [simp del]

definition markAcked :: "Seq \<Rightarrow> consumerState \<Rightarrow> consumerState" where
  "markAcked seq cs =
     advance_floor (cs\<lparr>cs_pending := AList.delete seq (cs_pending cs),
                       cs_acked := List.insert seq (cs_acked cs)\<rparr>)"

definition ackAllThrough :: "Seq \<Rightarrow> consumerState \<Rightarrow> consumerState" where
  "ackAllThrough seq cs = fold markAcked [cs_ackFloor cs + 1 ..< seq + 1] cs"

definition numPending :: "stream \<Rightarrow> consumerState \<Rightarrow> nat" where
  "numPending st cs =
     length (filter (\<lambda>m. cs_next cs \<le> sm_seq m) (st_msgs st)) + length (cs_pending cs)"

lemma advance_floor_keeps [simp]:
  "cs_next (advance_floor cs) = cs_next cs" "cs_spec (advance_floor cs) = cs_spec cs"
  "cs_pending (advance_floor cs) = cs_pending cs" "cs_started (advance_floor cs) = cs_started cs"
  "cs_name (advance_floor cs) = cs_name cs" "cs_stream (advance_floor cs) = cs_stream cs"
  by (induction cs rule: advance_floor.induct; subst advance_floor.simps; simp add: Let_def)+

lemma markAcked_keeps [simp]:
  "cs_next (markAcked s cs) = cs_next cs" "cs_spec (markAcked s cs) = cs_spec cs"
  "cs_pending (markAcked s cs) = AList.delete s (cs_pending cs)"
  "cs_started (markAcked s cs) = cs_started cs"
  "cs_name (markAcked s cs) = cs_name cs" "cs_stream (markAcked s cs) = cs_stream cs"
  by (simp_all add: markAcked_def)

section \<open>Choosing the next message\<close>

definition delivery_count :: "consumerState \<Rightarrow> Seq \<Rightarrow> nat" where
  "delivery_count cs seq = (case map_of (cs_deliveries cs) seq of Some n \<Rightarrow> n | None \<Rightarrow> 0)"

text \<open>The first loop of \<^verbatim>\<open>nextLocked\<close> over the pending map; its body removes at most the entry it is
  at, so the rest of the range is the rest of the list.\<close>

fun scan_pending ::
  "stream \<Rightarrow> instant \<Rightarrow> (Seq \<times> instant) list \<Rightarrow> consumerState \<Rightarrow> consumerState \<times> storedMsg option" where
  "scan_pending st now [] cs = (cs, None)"
| "scan_pending st now ((seq, deadline) # ps) cs =
     (if now < deadline then scan_pending st now ps cs
      else if 0 < co_MaxDeliver (cs_spec cs) \<and> co_MaxDeliver (cs_spec cs) \<le> int (delivery_count cs seq) then
        scan_pending st now ps (markAcked seq cs)
      else case find_msg st seq of
             Some m \<Rightarrow> (cs, Some m)
           | None \<Rightarrow> scan_pending st now ps (markAcked seq cs))"

definition passes :: "ConsumerSpec \<Rightarrow> storedMsg \<Rightarrow> bool" where
  "passes spec m = (\<not> (co_Filter spec \<noteq> '''' \<and> \<not> Matches (co_Filter spec) (sm_subject m)))"

definition clamped :: "stream \<Rightarrow> consumerState \<Rightarrow> consumerState" where
  "clamped st cs = (if cs_next cs \<le> firstSeq st then cs\<lparr>cs_next := firstSeq st\<rparr> else cs)"

text \<open>The second loop of \<^verbatim>\<open>nextLocked\<close>. Every round moves \<^verbatim>\<open>next\<close> forward and stops past the last
  sequence number.\<close>

function next_unread :: "stream \<Rightarrow> consumerState \<Rightarrow> consumerState \<times> storedMsg option" where
  "next_unread st cs =
     (let cs1 = clamped st cs in
      if st_lastSeq st < cs_next cs1 then (cs1, None)
      else
        (let cs2 = cs1\<lparr>cs_next := cs_next cs1 + 1\<rparr> in
         case find_msg st (cs_next cs1) of
           None \<Rightarrow> next_unread st cs2
         | Some m \<Rightarrow>
             if \<not> passes (cs_spec cs2) m then next_unread st (markAcked (sm_seq m) cs2)
             else (cs2, Some m)))"
  by pat_completeness auto
termination
  by (relation "measure (\<lambda>(st, cs). st_lastSeq st + 1 - cs_next cs)")
    (auto simp: clamped_def split: if_splits)

declare next_unread.simps [simp del]

definition nextLocked :: "instant \<Rightarrow> stream \<Rightarrow> consumerState \<Rightarrow> stream \<times> consumerState \<times> storedMsg option" where
  "nextLocked now st0 cs0 =
     (let st = expire now st0 in
      case scan_pending st now (cs_pending cs0) cs0 of
        (cs, Some m) \<Rightarrow> (st, cs, Some m)
      | (cs, None) \<Rightarrow>
          if 0 < co_MaxAckPending (cs_spec cs) \<and> co_MaxAckPending (cs_spec cs) \<le> int (length (cs_pending cs))
          then (st, cs, None)
          else (st, next_unread st cs))"

section \<open>Handing a message out\<close>

record StreamMsg =
  sg_Msg :: Msg
  sg_Seq :: Seq
  sg_Time :: instant
  sg_Delivered :: nat
  sg_ack :: "AckPolicy option"
    \<comment> \<open>the acknowledgement closure, by the policy it captured; \<open>None\<close> is a nil closure\<close>

definition NewStreamMsg :: "Msg \<Rightarrow> Seq \<Rightarrow> instant \<Rightarrow> nat \<Rightarrow> AckPolicy option \<Rightarrow> StreamMsg" where
  "NewStreamMsg m seq at_time delivered ack =
     \<lparr>sg_Msg = m, sg_Seq = seq, sg_Time = at_time, sg_Delivered = delivered, sg_ack = ack\<rparr>"

definition ack_wait :: "ConsumerSpec \<Rightarrow> duration" where
  "ack_wait spec = (if co_AckWait spec \<le> 0 then defaultAckWait else co_AckWait spec)"

definition effective_policy :: "ConsumerSpec \<Rightarrow> AckPolicy" where
  "effective_policy spec = (if co_Ack spec = '''' then AckExplicit else co_Ack spec)"

definition buildLocked :: "instant \<Rightarrow> consumerState \<Rightarrow> storedMsg \<Rightarrow> consumerState \<times> StreamMsg" where
  "buildLocked now cs m =
     (let delivered = delivery_count cs (sm_seq m) + 1;
          cs1 = cs\<lparr>cs_deliveries := AList.update (sm_seq m) delivered (cs_deliveries cs)\<rparr>;
          policy = effective_policy (cs_spec cs);
          cs2 = (if policy = AckNone then markAcked (sm_seq m) cs1
                 else cs1\<lparr>cs_pending := AList.update (sm_seq m) (now + ack_wait (cs_spec cs)) (cs_pending cs1)\<rparr>)
      in (cs2,
          NewStreamMsg (NewMsg (sm_subject m) '''' (Headers_Clone (sm_headers m)) (sm_data m) None)
            (sm_seq m) (sm_at m) delivered (Some policy)))"

definition ack_closure ::
  "instant \<Rightarrow> Subject \<Rightarrow> AckPolicy \<Rightarrow> Seq \<Rightarrow> string \<Rightarrow> duration \<Rightarrow> string \<Rightarrow> consumerState \<Rightarrow>
     consumerState \<times> unit res" where
  "ack_closure now subject policy seq kind delay reason cs =
     (if kind = ''ack'' then
        (if policy = AckAll then ackAllThrough seq cs else markAcked seq cs, Inr ())
      else if kind = ''nak'' then
        (cs\<lparr>cs_pending := AList.update seq (now + delay) (cs_pending cs)\<rparr>, Inr ())
      else if kind = ''term'' then (markAcked seq cs, Inr ())
      else if kind = ''progress'' then
        (cs\<lparr>cs_pending := AList.update seq (now + ack_wait (cs_spec cs)) (cs_pending cs)\<rparr>, Inr ())
      else (cs, Inl (mkFault FaultUnhandled subject (''unknown acknowledgement '' @ kind @ '' '' @ reason))))"

definition acknowledge ::
  "instant \<Rightarrow> StreamMsg option \<Rightarrow> string \<Rightarrow> duration \<Rightarrow> string \<Rightarrow> consumerState \<Rightarrow> consumerState \<times> unit res" where
  "acknowledge now m kind delay reason cs =
     (case m of
        None \<Rightarrow> (cs, Inl (mkFault FaultUnhandled '''' ''message carries no acknowledgement''))
      | Some sm \<Rightarrow>
          (case sg_ack sm of
             None \<Rightarrow> (cs, Inl (mkFault FaultUnhandled '''' ''message carries no acknowledgement''))
           | Some policy \<Rightarrow>
               ack_closure now (m_Subject (sg_Msg sm)) policy (sg_Seq sm) kind delay reason cs))"

definition Ack :: "instant \<Rightarrow> StreamMsg option \<Rightarrow> consumerState \<Rightarrow> consumerState \<times> unit res" where
  "Ack now m = acknowledge now m ''ack'' 0 ''''"

definition Nak :: "instant \<Rightarrow> StreamMsg option \<Rightarrow> duration \<Rightarrow> consumerState \<Rightarrow> consumerState \<times> unit res" where
  "Nak now m delay = acknowledge now m ''nak'' delay ''''"

definition Term :: "instant \<Rightarrow> StreamMsg option \<Rightarrow> string \<Rightarrow> consumerState \<Rightarrow> consumerState \<times> unit res" where
  "Term now m reason = acknowledge now m ''term'' 0 reason"

definition InProgress :: "instant \<Rightarrow> StreamMsg option \<Rightarrow> consumerState \<Rightarrow> consumerState \<times> unit res" where
  "InProgress now m = acknowledge now m ''progress'' 0 ''''"

text \<open>
  The inner loop of \<^verbatim>\<open>Fetch\<close>: up to \<open>n\<close> messages. The clock is read twice per message, once for
  \<^verbatim>\<open>nextLocked\<close> and once inside \<^verbatim>\<open>buildLocked\<close>; \<open>clk k\<close> is the \<open>k\<close>-th reading.
\<close>

fun fetch_loop ::
  "(nat \<Rightarrow> instant) \<Rightarrow> nat \<Rightarrow> nat \<Rightarrow> stream \<Rightarrow> consumerState \<Rightarrow> stream \<times> consumerState \<times> StreamMsg list" where
  "fetch_loop clk k 0 st cs = (st, cs, [])"
| "fetch_loop clk k (Suc n) st cs =
     (case nextLocked (clk k) st cs of
        (st1, cs1, None) \<Rightarrow> (st1, cs1, [])
      | (st1, cs1, Some m) \<Rightarrow>
          (let (cs2, sm) = buildLocked (clk (Suc k)) cs1 m;
               (st', cs', out) = fetch_loop clk (k + 2) n st1 cs2
           in (st', cs', sm # out)))"

section \<open>Starting, resetting and observing\<close>

definition first_from :: "instant \<Rightarrow> stream \<Rightarrow> Seq" where
  "first_from t st =
     (case find (\<lambda>m. \<not> sm_at m < t) (st_msgs st) of Some m \<Rightarrow> sm_seq m | None \<Rightarrow> st_lastSeq st + 1)"

definition startSeqLocked :: "cursorEnv \<Rightarrow> Identity \<Rightarrow> stream \<Rightarrow> ConsumerSpec \<Rightarrow> Seq res" where
  "startSeqLocked env i st spec =
     (if co_Start spec = '''' \<or> co_Start spec = StartAll then Inr (firstSeq st)
      else if co_Start spec = StartNew then Inr (st_lastSeq st + 1)
      else if co_Start spec = StartCursor then
        (case readCursor env (co_Cursor spec) (ss_Name (st_spec st)) of
           Inl e \<Rightarrow> Inl e
         | Inr seq \<Rightarrow> Inr (seq + 1))
      else if co_Start spec = StartTime then Inr (first_from (co_StartTime spec) st)
      else Inl (mkFault FaultSchema (''stream:'' @ ss_Name (st_spec st))
                 (''principal '' @ Identity_String i @ '': unknown start policy '' @ co_Start spec)))"

definition consumer_Cursor :: "cursorEnv \<Rightarrow> string \<Rightarrow> consumerState \<Rightarrow> Cursor" where
  "consumer_Cursor env stream cs = mintCursor env stream (cs_name cs) (cs_ackFloor cs)"

definition reset_state :: "Seq \<Rightarrow> consumerState \<Rightarrow> consumerState" where
  "reset_state start cs =
     cs\<lparr>cs_next := start, cs_started := start, cs_ackFloor := start - 1, cs_acked := [],
        cs_pending := [], cs_deliveries := []\<rparr>"

definition no_such_stream :: "Identity \<Rightarrow> string \<Rightarrow> Fault" where
  "no_such_stream i name =
     mkFault FaultNotFound (''stream:'' @ name) (''principal '' @ Identity_String i @ '': no such stream'')"

definition Reset ::
  "cursorEnv \<Rightarrow> Identity \<Rightarrow> (string, stream) amap \<Rightarrow> string \<Rightarrow> consumerState \<Rightarrow> consumerState \<times> unit res" where
  "Reset env i streams name cs =
     (case map_of streams name of
        None \<Rightarrow> (cs, Inl (no_such_stream i name))
      | Some st \<Rightarrow>
          (case startSeqLocked env i st (cs_spec cs) of
             Inl e \<Rightarrow> (cs, Inl e)
           | Inr start \<Rightarrow> (reset_state start cs, Inr ())))"

record ConsumerInfo =
  ci_Stream :: string
  ci_Name :: string
  ci_Delivered :: Seq
  ci_AckFloor :: Seq
  ci_NumPending :: nat
  ci_NumAckPending :: nat

definition consumer_Info :: "Identity \<Rightarrow> (string, stream) amap \<Rightarrow> string \<Rightarrow> consumerState \<Rightarrow> ConsumerInfo res" where
  "consumer_Info i streams name cs =
     (case map_of streams name of
        None \<Rightarrow> Inl (no_such_stream i name)
      | Some st \<Rightarrow>
          Inr \<lparr>ci_Stream = name, ci_Name = cs_name cs, ci_Delivered = cs_next cs - 1,
               ci_AckFloor = cs_ackFloor cs, ci_NumPending = numPending st cs,
               ci_NumAckPending = length (cs_pending cs)\<rparr>)"

section \<open>What acknowledgement records\<close>

text \<open>The sequence numbers a consumer state counts as settled: everything up to the floor, and the
  sparse set above it. The floor is tight when the next number is not settled.\<close>

definition resolved :: "consumerState \<Rightarrow> Seq set" where
  "resolved cs = {s. s \<le> cs_ackFloor cs} \<union> set (cs_acked cs)"

definition floor_tight :: "consumerState \<Rightarrow> bool" where
  "floor_tight cs \<longleftrightarrow> cs_ackFloor cs + 1 \<notin> set (cs_acked cs)"

lemma advance_floor_spec:
  "resolved (advance_floor cs) = resolved cs \<and> floor_tight (advance_floor cs) \<and>
   cs_ackFloor cs \<le> cs_ackFloor (advance_floor cs)"
proof (induction cs rule: advance_floor.induct)
  case (1 cs)
  show ?case
  proof (cases "cs_ackFloor cs + 1 \<in> set (cs_acked cs)")
    case True
    let ?cs = "cs\<lparr>cs_ackFloor := cs_ackFloor cs + 1, cs_acked := removeAll (cs_ackFloor cs + 1) (cs_acked cs),
      cs_deliveries := AList.delete (cs_ackFloor cs + 1) (cs_deliveries cs)\<rparr>"
    have "resolved ?cs = resolved cs" using True by (auto simp: resolved_def le_Suc_eq)
    moreover have "advance_floor cs = advance_floor ?cs"
      using True by (subst advance_floor.simps) (simp add: Let_def)
    ultimately show ?thesis using "1.IH" [OF refl True] by simp
  next
    case False
    then have "advance_floor cs = cs" by (subst advance_floor.simps) (simp add: Let_def)
    with False show ?thesis by (simp add: floor_tight_def)
  qed
qed

lemma markAcked_resolved [simp]: "resolved (markAcked s cs) = insert s (resolved cs)"
  unfolding markAcked_def using advance_floor_spec by (simp add: resolved_def)

lemma markAcked_tight [simp]: "floor_tight (markAcked s cs)"
  unfolding markAcked_def using advance_floor_spec by blast

lemma next_update_keeps [simp]:
  "resolved (cs\<lparr>cs_next := n\<rparr>) = resolved cs" "floor_tight (cs\<lparr>cs_next := n\<rparr>) = floor_tight cs"
  "delivery_count (cs\<lparr>cs_next := n\<rparr>) = delivery_count cs"
  by (auto simp: resolved_def floor_tight_def delivery_count_def)

lemma pending_update_keeps [simp]:
  "resolved (cs\<lparr>cs_pending := p\<rparr>) = resolved cs" "floor_tight (cs\<lparr>cs_pending := p\<rparr>) = floor_tight cs"
  "delivery_count (cs\<lparr>cs_pending := p\<rparr>) = delivery_count cs"
  by (auto simp: resolved_def floor_tight_def delivery_count_def)

lemma deliveries_update_keeps [simp]:
  "resolved (cs\<lparr>cs_deliveries := d\<rparr>) = resolved cs"
  "floor_tight (cs\<lparr>cs_deliveries := d\<rparr>) = floor_tight cs"
  by (auto simp: resolved_def floor_tight_def)

lemma floor_resolved: "s \<le> cs_ackFloor cs \<Longrightarrow> s \<in> resolved cs"
  by (simp add: resolved_def)

lemma floor_greatest:
  "floor_tight cs \<Longrightarrow> s \<le> cs_ackFloor cs \<longleftrightarrow> (\<forall>t \<le> s. t \<in> resolved cs)"
  by (auto simp: resolved_def floor_tight_def) (metis Suc_leI not_less_eq_eq Suc_n_not_le_n)

lemma advance_floor_deliveries:
  "s \<notin> resolved cs \<Longrightarrow> delivery_count (advance_floor cs) s = delivery_count cs s"
proof (induction cs rule: advance_floor.induct)
  case (1 cs)
  show ?case
  proof (cases "cs_ackFloor cs + 1 \<in> set (cs_acked cs)")
    case True
    let ?cs = "cs\<lparr>cs_ackFloor := cs_ackFloor cs + 1, cs_acked := removeAll (cs_ackFloor cs + 1) (cs_acked cs),
      cs_deliveries := AList.delete (cs_ackFloor cs + 1) (cs_deliveries cs)\<rparr>"
    have "s \<notin> resolved ?cs" "s \<noteq> cs_ackFloor cs + 1"
      using True "1.prems" by (auto simp: resolved_def le_Suc_eq)
    then have "delivery_count (advance_floor ?cs) s = delivery_count cs s"
      using "1.IH" [OF refl True] by (simp add: delivery_count_def amap_simps)
    moreover have "advance_floor cs = advance_floor ?cs"
      using True by (subst advance_floor.simps) (simp add: Let_def)
    ultimately show ?thesis by simp
  next
    case False
    then have "advance_floor cs = cs" by (subst advance_floor.simps) (simp add: Let_def)
    then show ?thesis by simp
  qed
qed

lemma markAcked_deliveries:
  "s \<notin> resolved cs \<Longrightarrow> s \<noteq> t \<Longrightarrow> delivery_count (markAcked t cs) s = delivery_count cs s"
  unfolding markAcked_def
  by (subst advance_floor_deliveries) (auto simp: resolved_def delivery_count_def)

lemma fold_markAcked [simp]:
  "resolved (fold markAcked ss cs) = set ss \<union> resolved cs"
  "cs_next (fold markAcked ss cs) = cs_next cs" "cs_spec (fold markAcked ss cs) = cs_spec cs"
  "floor_tight cs \<Longrightarrow> floor_tight (fold markAcked ss cs)"
  "cs_pending (fold markAcked ss cs) = fold AList.delete ss (cs_pending cs)"
  by (induction ss arbitrary: cs) auto

lemma ackAllThrough_resolved: "resolved (ackAllThrough s cs) = resolved cs \<union> {..s}"
proof -
  have "{s. s \<le> cs_ackFloor cs} \<subseteq> resolved cs" by (auto simp: resolved_def)
  then have "Suc (cs_ackFloor cs) \<le> x" if "x \<notin> resolved cs" for x
    using that by (auto simp: Suc_le_eq not_le [symmetric])
  then show ?thesis by (auto simp: ackAllThrough_def simp del: upt.simps)
qed

section \<open>Which message is chosen\<close>

lemma find_sorted:
  assumes "sorted_wrt (\<lambda>a b. sm_seq a < sm_seq b) ms" and "m \<in> set ms"
  shows "find (\<lambda>x. sm_seq x = sm_seq m) ms = Some m"
  using assms
proof (induction ms)
  case (Cons a ms)
  then show ?case by (cases "a = m") auto
qed simp

lemma find_msg_iff:
  assumes "stream_inv st"
  shows "find_msg st s = Some m \<longleftrightarrow> m \<in> set (st_msgs st) \<and> sm_seq m = s"
  using assms find_sorted [of "st_msgs st" m] unfolding find_msg_def stream_inv_def
  by (auto simp: find_Some_iff)

lemma find_cong_set:
  "(\<And>x. x \<in> set xs \<Longrightarrow> P x = Q x) \<Longrightarrow> find P xs = find Q xs"
  by (induction xs) auto

lemma find_least:
  assumes "sorted_wrt (\<lambda>a b. sm_seq a < sm_seq b) ms" and "m \<in> set ms" and "P m"
    and "\<And>x. x \<in> set ms \<Longrightarrow> sm_seq x < sm_seq m \<Longrightarrow> \<not> P x"
  shows "find P ms = Some m"
  using assms
proof (induction ms)
  case (Cons a ms)
  show ?case
  proof (cases "a = m")
    case False
    with Cons.prems have "m \<in> set ms" "sm_seq a < sm_seq m" by auto
    with Cons show ?thesis by auto
  qed (use Cons in simp)
qed simp

text \<open>The next unread message of a consumer: the first stored one at or after its position that
  passes its filter.\<close>

definition unread :: "stream \<Rightarrow> consumerState \<Rightarrow> storedMsg list" where
  "unread st cs = filter (\<lambda>m. cs_next cs \<le> sm_seq m \<and> passes (cs_spec cs) m) (st_msgs st)"

lemma first_seq_le: "stream_inv st \<Longrightarrow> m \<in> set (st_msgs st) \<Longrightarrow> firstSeq st \<le> sm_seq m"
  by (cases "st_msgs st") (auto simp: stream_inv_def firstSeq_def less_imp_le)

lemma unread_clamp:
  "stream_inv st \<Longrightarrow> cs_next cs \<le> firstSeq st \<Longrightarrow> unread st (cs\<lparr>cs_next := firstSeq st\<rparr>) = unread st cs"
  unfolding unread_def by (rule filter_cong) (auto dest: first_seq_le)

lemma unread_skip:
  assumes "stream_inv st"
    and "find_msg st (cs_next cs) = None \<or>
      (\<exists>m. find_msg st (cs_next cs) = Some m \<and> \<not> passes (cs_spec cs) m)"
  shows "filter (\<lambda>m. cs_next cs + 1 \<le> sm_seq m \<and> passes (cs_spec cs) m) (st_msgs st) = unread st cs"
  unfolding unread_def
proof (rule filter_cong)
  fix m assume "m \<in> set (st_msgs st)"
  then have "find_msg st (sm_seq m) = Some m" using assms(1) by (simp add: find_msg_iff)
  with assms(2) have "\<not> (sm_seq m = cs_next cs \<and> passes (cs_spec cs) m)" by auto
  then show "(cs_next cs + 1 \<le> sm_seq m \<and> passes (cs_spec cs) m) =
    (cs_next cs \<le> sm_seq m \<and> passes (cs_spec cs) m)" by (auto simp: Suc_le_eq le_less)
qed simp

lemma unread_hit:
  assumes "stream_inv st" and "find_msg st (cs_next cs) = Some m" and "passes (cs_spec cs) m"
  shows "unread st cs = m # filter (\<lambda>x. sm_seq m < sm_seq x \<and> passes (cs_spec cs) x) (st_msgs st)"
proof -
  have m: "m \<in> set (st_msgs st)" "sm_seq m = cs_next cs" using assms by (auto simp: find_msg_iff)
  have "filter (\<lambda>x. sm_seq m \<le> sm_seq x \<and> P x) ms = m # filter (\<lambda>x. sm_seq m < sm_seq x \<and> P x) ms"
    if "sorted_wrt (\<lambda>a b. sm_seq a < sm_seq b) ms" "m \<in> set ms" "P m" for ms P
    using that
  proof (induction ms)
    case (Cons a ms)
    show ?case
    proof (cases "a = m")
      case True
      with Cons.prems show ?thesis by (auto intro!: filter_cong)
    next
      case False
      with Cons show ?thesis by auto
    qed
  qed simp
  with m assms show ?thesis by (simp add: unread_def stream_inv_def)
qed


text \<open>One round of the loop either ends it, or leaves what is unread as it is.\<close>

lemma clamped_keeps [simp]:
  "cs_spec (clamped st cs) = cs_spec cs" "cs_pending (clamped st cs) = cs_pending cs"
  "resolved (clamped st cs) = resolved cs" "floor_tight (clamped st cs) = floor_tight cs"
  "delivery_count (clamped st cs) = delivery_count cs" "cs_next cs \<le> cs_next (clamped st cs)"
  "cs_ackFloor (clamped st cs) = cs_ackFloor cs"
  by (auto simp: clamped_def resolved_def floor_tight_def delivery_count_def)

lemma clamped_unread: "stream_inv st \<Longrightarrow> unread st (clamped st cs) = unread st cs"
  by (simp add: clamped_def unread_clamp)

lemma next_unread_past:
  "st_lastSeq st < cs_next (clamped st cs) \<Longrightarrow> next_unread st cs = (clamped st cs, None)"
  by (subst next_unread.simps) (simp add: Let_def)

lemma next_unread_round:
  assumes "\<not> st_lastSeq st < cs_next (clamped st cs)"
  shows "next_unread st cs =
    (let cs2 = (clamped st cs)\<lparr>cs_next := cs_next (clamped st cs) + 1\<rparr>
     in case find_msg st (cs_next (clamped st cs)) of
          None \<Rightarrow> next_unread st cs2
        | Some m \<Rightarrow> if passes (cs_spec cs) m then (cs2, Some m) else next_unread st (markAcked (sm_seq m) cs2))"
  using assms by (subst next_unread.simps) (auto simp: Let_def split: option.splits)

lemma unread_past:
  "stream_inv st \<Longrightarrow> st_lastSeq st < cs_next cs \<Longrightarrow> unread st cs = []"
  by (auto simp: unread_def stream_inv_def filter_empty_conv)

lemma unread_update:
  "unread st (cs\<lparr>cs_next := n\<rparr>) = filter (\<lambda>m. n \<le> sm_seq m \<and> passes (cs_spec cs) m) (st_msgs st)"
  by (simp add: unread_def)

lemma unread_markAcked [simp]: "unread st (markAcked s cs) = unread st cs"
  by (simp add: unread_def)

lemma next_unread_spec:
  "stream_inv st \<Longrightarrow>
     snd (next_unread st cs) = (case unread st cs of [] \<Rightarrow> None | m # _ \<Rightarrow> Some m) \<and>
     unread st (fst (next_unread st cs)) = tl (unread st cs) \<and>
     cs_spec (fst (next_unread st cs)) = cs_spec cs"
proof (induction st cs rule: next_unread.induct)
  case (1 st cs)
  let ?c = "clamped st cs"
  let ?c2 = "?c\<lparr>cs_next := cs_next ?c + 1\<rparr>"
  have c: "unread st ?c = unread st cs" "cs_spec ?c = cs_spec cs"
    using "1.prems" by (simp_all add: clamped_unread)
  show ?case
  proof (cases "st_lastSeq st < cs_next ?c")
    case True
    with unread_past [OF "1.prems" True] c show ?thesis by (simp add: next_unread_past)
  next
    case more: False
    show ?thesis
    proof (cases "find_msg st (cs_next ?c)")
      case None
      then have "next_unread st cs = next_unread st ?c2" by (simp add: next_unread_round [OF more])
      moreover have "unread st ?c2 = unread st cs"
        using unread_skip [OF "1.prems", of ?c] None c by (simp add: unread_update)
      ultimately show ?thesis using "1.IH"(1) [OF refl more refl None "1.prems"] c by simp
    next
      case (Some m)
      show ?thesis
      proof (cases "passes (cs_spec cs) m")
        case True
        with Some have "next_unread st cs = (?c2, Some m)"
          by (simp add: next_unread_round [OF more] Let_def)
        moreover have "sm_seq m = cs_next ?c" using Some "1.prems" by (simp add: find_msg_iff)
        ultimately show ?thesis
          using unread_hit [OF "1.prems" Some] True c by (simp add: unread_update Suc_le_eq)
      next
        case False
        let ?c3 = "markAcked (sm_seq m) ?c2"
        from False Some have "next_unread st cs = next_unread st ?c3"
          by (simp add: next_unread_round [OF more] Let_def)
        moreover have "unread st ?c2 = unread st cs"
          using unread_skip [OF "1.prems", of ?c] Some False c by (simp add: unread_update)
        ultimately show ?thesis
          using "1.IH"(2) [OF refl more refl Some _ "1.prems"] c False by simp
      qed
    qed
  qed
qed



section \<open>The invariant of a consumer\<close>

definition consumer_inv :: "consumerState \<Rightarrow> bool" where
  "consumer_inv cs \<longleftrightarrow>
     floor_tight cs \<and> (\<forall>s \<in> resolved cs. s < cs_next cs) \<and>
     amap_ok (cs_pending cs) \<and>
     (\<forall>s \<in> fst ` set (cs_pending cs). s < cs_next cs \<and> s \<notin> resolved cs \<and>
        (0 < co_MaxDeliver (cs_spec cs) \<longrightarrow> int (delivery_count cs s) \<le> co_MaxDeliver (cs_spec cs))) \<and>
     (\<forall>s \<ge> cs_next cs. delivery_count cs s = 0)"

lemma consumer_invD:
  assumes "consumer_inv cs"
  shows "floor_tight cs" and "s \<in> resolved cs \<Longrightarrow> s < cs_next cs" and "amap_ok (cs_pending cs)"
    and "s \<in> fst ` set (cs_pending cs) \<Longrightarrow> s < cs_next cs"
    and "s \<in> fst ` set (cs_pending cs) \<Longrightarrow> s \<notin> resolved cs"
    and "cs_next cs \<le> s \<Longrightarrow> delivery_count cs s = 0"
  using assms by (auto simp: consumer_inv_def)

lemma consumer_inv_new: "1 \<le> start \<Longrightarrow> consumer_inv (newConsumerState name stream spec start)"
  by (auto simp: consumer_inv_def newConsumerState_def floor_tight_def resolved_def delivery_count_def)

lemma markAcked_inv [inv_intros]:
  assumes "consumer_inv cs" and "s < cs_next cs"
  shows "consumer_inv (markAcked s cs)"
proof -
  have keys: "fst ` set (AList.delete s (cs_pending cs)) = fst ` set (cs_pending cs) - {s}"
    by (rule keys_delete)
  have count: "delivery_count (markAcked s cs) t = delivery_count cs t" if "t \<notin> resolved cs" "t \<noteq> s" for t
    using markAcked_deliveries that by blast
  have "delivery_count (markAcked s cs) t = 0" if "cs_next cs \<le> t" for t
    using count [of t] assms that consumer_invD(2,6) [OF assms(1)] by (metis not_le)
  with keys count assms show ?thesis by (auto simp: consumer_inv_def)
qed

lemma raise_next_inv:
  "consumer_inv cs \<Longrightarrow> cs_next cs \<le> n \<Longrightarrow> consumer_inv (cs\<lparr>cs_next := n\<rparr>)"
  by (fastforce simp: consumer_inv_def)

lemma clamped_inv [inv_intros]: "consumer_inv cs \<Longrightarrow> consumer_inv (clamped st cs)"
  by (simp add: clamped_def raise_next_inv)

lemma fold_markAcked_inv:
  "consumer_inv cs \<Longrightarrow> \<forall>s \<in> set ss. s < cs_next cs \<Longrightarrow> consumer_inv (fold markAcked ss cs)"
  by (induction ss arbitrary: cs) (simp_all add: markAcked_inv)

lemma ackAllThrough_inv [inv_intros]:
  "consumer_inv cs \<Longrightarrow> s < cs_next cs \<Longrightarrow> consumer_inv (ackAllThrough s cs)"
  unfolding ackAllThrough_def by (rule fold_markAcked_inv) auto

lemma next_unread_inv:
  "stream_inv st \<Longrightarrow> consumer_inv cs \<Longrightarrow>
     consumer_inv (fst (next_unread st cs)) \<and> resolved cs \<subseteq> resolved (fst (next_unread st cs)) \<and>
     cs_next cs \<le> cs_next (fst (next_unread st cs)) \<and>
     cs_pending (fst (next_unread st cs)) = cs_pending cs \<and>
     (\<forall>m. snd (next_unread st cs) = Some m \<longrightarrow>
        find_msg st (sm_seq m) = Some m \<and> cs_next (fst (next_unread st cs)) = sm_seq m + 1 \<and>
        sm_seq m \<notin> resolved (fst (next_unread st cs)) \<and>
        cs_next cs \<le> sm_seq m \<and>
        delivery_count (fst (next_unread st cs)) (sm_seq m) = 0)"
proof (induction st cs rule: next_unread.induct)
  case (1 st cs)
  let ?c = "clamped st cs"
  let ?c2 = "?c\<lparr>cs_next := cs_next ?c + 1\<rparr>"
  have inv: "consumer_inv ?c" using "1.prems"(2) by (rule clamped_inv)
  then have inv2: "consumer_inv ?c2" by (rule raise_next_inv) simp
  have same: "resolved ?c2 = resolved cs" "cs_pending ?c2 = cs_pending cs"
      "delivery_count ?c2 = delivery_count cs"
    by simp_all
  show ?case
  proof (cases "st_lastSeq st < cs_next ?c")
    case True
    with inv show ?thesis by (simp add: next_unread_past)
  next
    case more: False
    have le: "cs_next cs \<le> cs_next ?c2" by (simp add: le_SucI)
    show ?thesis
    proof (cases "find_msg st (cs_next ?c)")
      case None
      then have "next_unread st cs = next_unread st ?c2" by (simp add: next_unread_round [OF more])
      with "1.IH"(1) [OF refl more refl None "1.prems"(1) inv2] le same show ?thesis by auto
    next
      case (Some m)
      then have m: "sm_seq m = cs_next ?c" "find_msg st (sm_seq m) = Some m"
        using "1.prems"(1) by (auto simp: find_msg_iff)
      show ?thesis
      proof (cases "passes (cs_spec cs) m")
        case True
        with Some have eq: "next_unread st cs = (?c2, Some m)"
          by (simp add: next_unread_round [OF more] Let_def)
        have "sm_seq m \<notin> resolved cs" "delivery_count cs (sm_seq m) = 0"
          using consumer_invD(2,6) [OF inv, of "sm_seq m"] m(1) same by auto
        with eq inv2 le same m show ?thesis by simp
      next
        case False
        let ?c3 = "markAcked (sm_seq m) ?c2"
        from False Some have "next_unread st cs = next_unread st ?c3"
          by (simp add: next_unread_round [OF more] Let_def)
        moreover have "consumer_inv ?c3" using inv2 m by (intro inv_intros) auto
        moreover have "sm_seq m \<notin> fst ` set (cs_pending cs)"
          using consumer_invD(4) [OF inv, of "sm_seq m"] m(1) same by auto
        then have "cs_pending ?c3 = cs_pending cs" using same(2) by (simp add: delete_id)
        ultimately show ?thesis
          using "1.IH"(2) [OF refl more refl Some _ "1.prems"(1)] False le same by auto
      qed
    qed
  qed
qed


lemma find_msg_seq: "find_msg st s = Some m \<Longrightarrow> sm_seq m = s \<and> m \<in> set (st_msgs st)"
  by (auto simp: find_msg_def find_Some_iff)

definition exhausted :: "consumerState \<Rightarrow> Seq \<Rightarrow> bool" where
  "exhausted cs s \<longleftrightarrow>
     0 < co_MaxDeliver (cs_spec cs) \<and> co_MaxDeliver (cs_spec cs) \<le> int (delivery_count cs s)"

text \<open>The outcome of the scan over the pending map.\<close>

definition scanned ::
  "stream \<Rightarrow> instant \<Rightarrow> consumerState \<Rightarrow> consumerState \<times> storedMsg option \<Rightarrow> bool" where
  "scanned st now cs res \<longleftrightarrow>
     (let (cs', r) = res in
      consumer_inv cs' \<and> cs_next cs' = cs_next cs \<and> cs_spec cs' = cs_spec cs \<and>
      resolved cs \<subseteq> resolved cs' \<and> set (cs_pending cs') \<subseteq> set (cs_pending cs) \<and>
      length (cs_pending cs') \<le> length (cs_pending cs) \<and>
      (\<forall>m. r = Some m \<longrightarrow> find_msg st (sm_seq m) = Some m \<and> \<not> exhausted cs' (sm_seq m) \<and>
         (\<exists>d. (sm_seq m, d) \<in> set (cs_pending cs') \<and> d \<le> now)))"

lemma delete_shrinks:
  "set (AList.delete k m) \<subseteq> set m" "length (AList.delete k m) \<le> length m"
  by (auto simp: AList.delete_eq)

lemma scanned_mark: "scanned st now (markAcked s cs) res \<Longrightarrow> scanned st now cs res"
  using delete_shrinks [of s "cs_pending cs"]
  by (cases res) (auto simp: scanned_def intro: le_trans)

lemma scan_pending_spec:
  "consumer_inv cs \<Longrightarrow> set ps \<subseteq> set (cs_pending cs) \<Longrightarrow> amap_ok ps \<Longrightarrow>
     scanned st now cs (scan_pending st now ps cs)"
proof (induction st now ps cs rule: scan_pending.induct)
  case (1 st now cs)
  then show ?case by (simp add: scanned_def)
next
  case (2 st now seq deadline ps cs)
  have "seq \<in> fst ` set (cs_pending cs)" using "2.prems"(2) by force
  then have inv: "consumer_inv (markAcked seq cs)"
    using "2.prems"(1) consumer_invD(4) by (intro markAcked_inv) auto
  have sub: "set ps \<subseteq> set (cs_pending (markAcked seq cs))"
    using "2.prems"(2,3) by (auto simp: AList.delete_eq image_iff)
  have ps: "set ps \<subseteq> set (cs_pending cs)" "amap_ok ps" using "2.prems"(2,3) by auto
  consider (early) "now < deadline"
    | (spent) "\<not> now < deadline" "exhausted cs seq"
    | (found) m where "\<not> now < deadline" "\<not> exhausted cs seq" "find_msg st seq = Some m"
    | (gone) "\<not> now < deadline" "\<not> exhausted cs seq" "find_msg st seq = None"
    by (cases "find_msg st seq") auto
  then show ?case
  proof cases
    case early
    with "2.IH"(1) [OF early "2.prems"(1) ps] show ?thesis by simp
  next
    case spent
    with "2.IH"(2) [OF spent(1) _ inv sub ps(2)] show ?thesis
      by (simp add: exhausted_def scanned_mark)
  next
    case found
    then have "sm_seq m = seq" by (simp add: find_msg_seq)
    with found "2.prems"(1,2) show ?thesis
      by (auto simp: scanned_def exhausted_def intro: exI [of _ deadline])
  next
    case gone
    with "2.IH"(3) [OF gone(1) _ gone(3) inv sub ps(2)] show ?thesis
      by (simp add: exhausted_def scanned_mark)
  qed
qed

lemma nextLocked_spec:
  assumes "stream_inv st" and "consumer_inv cs" and "nextLocked now st cs = (st', cs', r)"
  shows "st' = expire now st \<and> consumer_inv cs' \<and> cs_spec cs' = cs_spec cs \<and> resolved cs \<subseteq> resolved cs' \<and>
    (\<forall>m. r = Some m \<longrightarrow> find_msg st' (sm_seq m) = Some m \<and> sm_seq m < cs_next cs' \<and>
       sm_seq m \<notin> resolved cs' \<and> \<not> exhausted cs' (sm_seq m))"
proof -
  let ?st = "expire now st"
  have inv: "stream_inv ?st" using assms(1) by (rule expiry.discard_inv)
  obtain cs1 r1 where scan: "scan_pending ?st now (cs_pending cs) cs = (cs1, r1)" by force
  have s: "scanned ?st now cs (cs1, r1)"
    using scan_pending_spec [OF assms(2) order_refl consumer_invD(3) [OF assms(2)], of ?st now]
    by (simp add: scan)
  then have inv1: "consumer_inv cs1" by (simp add: scanned_def)
  have spec: "cs_spec (fst (next_unread ?st cs1)) = cs_spec cs1"
    using next_unread_spec [OF inv] by blast
  show ?thesis
  proof (cases r1)
    case None
    from next_unread_inv [OF inv inv1] spec scan s None assms(3) show ?thesis
      by (auto simp: nextLocked_def Let_def exhausted_def scanned_def split: if_splits)
  next
    case (Some m)
    with s have "sm_seq m \<in> fst ` set (cs_pending cs1)" by (force simp: scanned_def)
    with inv1 have "sm_seq m < cs_next cs1" "sm_seq m \<notin> resolved cs1"
      using consumer_invD(4,5) by blast+
    with scan s Some assms(3) show ?thesis by (auto simp: nextLocked_def Let_def scanned_def)
  qed
qed

lemma delivery_count_update:
  "delivery_count (cs\<lparr>cs_deliveries := AList.update s n (cs_deliveries cs)\<rparr>) t =
     (if t = s then n else delivery_count cs t)"
  by (simp add: delivery_count_def amap_simps)

lemma buildLocked_inv:
  assumes "consumer_inv cs" and "sm_seq m < cs_next cs" and "sm_seq m \<notin> resolved cs"
    and "\<not> exhausted cs (sm_seq m)"
  shows "consumer_inv (fst (buildLocked now cs m))"
proof -
  let ?cs = "cs\<lparr>cs_deliveries := AList.update (sm_seq m) (delivery_count cs (sm_seq m) + 1) (cs_deliveries cs)\<rparr>"
  have ok: "consumer_inv ?cs"
    using assms by (auto simp: consumer_inv_def delivery_count_update exhausted_def)
  have "consumer_inv (?cs\<lparr>cs_pending := AList.update (sm_seq m) d (cs_pending cs)\<rparr>)" for d
    using ok assms
    by (auto simp: consumer_inv_def keys_update delivery_count_update exhausted_def)
  with ok assms(2) show ?thesis
    by (auto simp: buildLocked_def Let_def intro: markAcked_inv)
qed

lemma buildLocked_delivered:
  "\<not> exhausted cs (sm_seq m) \<Longrightarrow> 0 < co_MaxDeliver (cs_spec cs) \<Longrightarrow>
     int (sg_Delivered (snd (buildLocked now cs m))) \<le> co_MaxDeliver (cs_spec cs)"
  by (auto simp: buildLocked_def Let_def NewStreamMsg_def exhausted_def)

section \<open>A consumer beside its stream\<close>

text \<open>
  Everything that happens to a stream and one of its consumers: the consumer looks for a message and
  hands it out or finds none, a handler settles a message it was given, or asks for more time or for
  redelivery while the message is unsettled, and others publish and purge.
\<close>

inductive consumer_step :: "stream \<times> consumerState \<Rightarrow> stream \<times> consumerState \<Rightarrow> bool" where
  deliver: "nextLocked now st cs = (st', cs', Some m) \<Longrightarrow> buildLocked now' cs' m = (cs'', sm) \<Longrightarrow>
     consumer_step (st, cs) (st', cs'')"
| idle: "nextLocked now st cs = (st', cs', None) \<Longrightarrow> consumer_step (st, cs) (st', cs')"
| settle: "kind \<in> {''ack'', ''term''} \<Longrightarrow> seq < cs_next cs \<Longrightarrow>
     ack_closure now subject policy seq kind delay reason cs = (cs', r) \<Longrightarrow> consumer_step (st, cs) (st, cs')"
| extend: "kind \<in> {''nak'', ''progress''} \<Longrightarrow> seq \<in> fst ` set (cs_pending cs) \<Longrightarrow>
     ack_closure now subject policy seq kind delay reason cs = (cs', r) \<Longrightarrow> consumer_step (st, cs) (st, cs')"
| published: "consumer_step (st, cs) (fst (publish_one p st), cs)"
| purged: "consumer_step (st, cs) (purge_matching pat st, cs)"
| purged_all: "consumer_step (st, cs) (purge_all st, cs)"

definition consumer_init :: "stream \<times> consumerState \<Rightarrow> bool" where
  "consumer_init = (\<lambda>(st, cs). stream_inv st \<and>
     (\<exists>name stream spec start. 1 \<le> start \<and> cs = newConsumerState name stream spec start))"

definition consumer_ok :: "stream \<times> consumerState \<Rightarrow> bool" where
  "consumer_ok = (\<lambda>(st, cs). stream_inv st \<and> consumer_inv cs)"

lemma ack_closure_inv:
  assumes "consumer_inv cs" and "ack_closure now subject policy seq kind delay reason cs = (cs', r)"
    and "kind \<in> {''ack'', ''term''} \<and> seq < cs_next cs \<or>
      kind \<in> {''nak'', ''progress''} \<and> seq \<in> fst ` set (cs_pending cs)"
  shows "consumer_inv cs' \<and> resolved cs \<subseteq> resolved cs'"
proof -
  have "consumer_inv (cs\<lparr>cs_pending := AList.update seq d (cs_pending cs)\<rparr>)"
    if "seq \<in> fst ` set (cs_pending cs)" for d
    using assms(1) that by (auto simp: consumer_inv_def keys_update insert_absorb)
  with assms show ?thesis
    by (auto simp: ack_closure_def ackAllThrough_resolved intro: inv_intros split: if_splits)
qed

lemma consumer_step_ok:
  "consumer_step x y \<Longrightarrow> consumer_ok x \<Longrightarrow> consumer_ok y \<and> resolved (snd x) \<subseteq> resolved (snd y)"
proof (induction rule: consumer_step.induct)
  case (deliver now st cs st' cs' m now' cs'' sm)
  then have inv: "stream_inv st" "consumer_inv cs" by (simp_all add: consumer_ok_def)
  note n = nextLocked_spec [OF inv deliver(1)]
  then have "consumer_inv cs''"
    using buildLocked_inv [of cs' m now'] deliver(2) by auto
  moreover have "resolved cs' \<subseteq> resolved cs''"
    using deliver(2) by (auto simp: buildLocked_def Let_def split: if_splits)
  ultimately show ?case using n inv by (auto simp: consumer_ok_def expiry.discard_inv)
next
  case (idle now st cs st' cs')
  then have inv: "stream_inv st" "consumer_inv cs" by (simp_all add: consumer_ok_def)
  from nextLocked_spec [OF inv idle(1)] inv show ?case by (auto simp: consumer_ok_def expiry.discard_inv)
next
  case (settle kind seq cs now subject policy delay reason cs' r st)
  then show ?case using ack_closure_inv [OF _ settle(3)] by (auto simp: consumer_ok_def)
next
  case (extend kind seq cs now subject policy delay reason cs' r st)
  then show ?case using ack_closure_inv [OF _ extend(3)] by (auto simp: consumer_ok_def)
qed (auto simp: consumer_ok_def publish_one_keeps purging.discard_inv purging_all.discard_inv)

interpretation consumer_runs: invariant_system consumer_init consumer_step consumer_ok
proof
  show "consumer_init s \<Longrightarrow> consumer_ok s" for s
    by (auto simp: consumer_init_def consumer_ok_def consumer_inv_new)
qed (use consumer_step_ok in blast)

lemma consumer_run_resolved:
  "consumer_step\<^sup>*\<^sup>* x y \<Longrightarrow> consumer_ok x \<Longrightarrow> resolved (snd x) \<subseteq> resolved (snd y)"
proof (induction rule: rtranclp_induct)
  case (step y z)
  then have "consumer_ok y" using consumer_runs.run_inv by blast
  with step consumer_step_ok show ?case by blast
qed simp


section \<open>Fetching a batch\<close>

lemma scan_none_due:
  "\<forall>(s, d) \<in> set ps. now < d \<Longrightarrow> scan_pending st now ps cs = (cs, None)"
  by (induction ps) auto

lemma expire_idem [simp]: "expire now (expire now st) = expire now st"
proof -
  have "st_msgs (expire now (expire now st)) = st_msgs (expire now st)"
    by (simp add: expire_msgs expiry.keeps)
  moreover have "st_bytes (expire now (expire now st)) = st_bytes (expire now st)"
    by (simp add: expire_def discard_where_eq split: if_splits)
  ultimately show ?thesis by (simp add: expire_def discard_where_eq)
qed

lemma ack_wait_pos: "0 < ack_wait spec"
  by (simp add: ack_wait_def defaultAckWait_def second_def)

text \<open>How many messages a fetch of \<open>n\<close> may take when \<open>p\<close> are awaiting acknowledgement.\<close>

definition batch_quota :: "ConsumerSpec \<Rightarrow> nat \<Rightarrow> nat \<Rightarrow> nat" where
  "batch_quota spec p n =
     (if co_MaxAckPending spec \<le> 0 then n
      else if effective_policy spec = AckNone then (if int p < co_MaxAckPending spec then n else 0)
      else min n (nat (co_MaxAckPending spec) - p))"

lemma batch_quota_Suc:
  "0 < co_MaxAckPending spec \<and> co_MaxAckPending spec \<le> int p \<Longrightarrow> batch_quota spec p (Suc n) = 0"
  "\<not> (0 < co_MaxAckPending spec \<and> co_MaxAckPending spec \<le> int p) \<Longrightarrow>
     batch_quota spec p (Suc n) =
       Suc (batch_quota spec (if effective_policy spec = AckNone then p else Suc p) n)"
  by (auto simp: batch_quota_def)

lemma length_update_fresh: "k \<notin> fst ` set m \<Longrightarrow> length (AList.update k v m) = Suc (length m)"
  by (induction m) auto

lemma delete_fresh: "k \<notin> fst ` set m \<Longrightarrow> AList.delete k m = m"
  by (simp add: delete_id)

lemma buildLocked_fresh:
  assumes "buildLocked now cs m = (cs', sm)" and "sm_seq m \<notin> fst ` set (cs_pending cs)"
  shows "cs_next cs' = cs_next cs" and "cs_spec cs' = cs_spec cs"
    and "length (cs_pending cs') =
      (if effective_policy (cs_spec cs) = AckNone then length (cs_pending cs) else Suc (length (cs_pending cs)))"
    and "\<forall>(s, d) \<in> set (cs_pending cs). now < d \<Longrightarrow> \<forall>(s, d) \<in> set (cs_pending cs'). now < d"
    and "sg_Seq sm = sm_seq m" and "m_Subject (sg_Msg sm) = sm_subject m" and "m_Data (sg_Msg sm) = sm_data m"
  using assms ack_wait_pos [of "cs_spec cs"] set_update_amap [of "sm_seq m" "now + ack_wait (cs_spec cs)" "cs_pending cs"]
  by (auto simp: buildLocked_def Let_def NewStreamMsg_def NewMsg_def length_update_fresh delete_fresh
      split: if_splits)

definition summary :: "storedMsg \<Rightarrow> Seq \<times> Subject \<times> bytes" where
  "summary m = (sm_seq m, sm_subject m, sm_data m)"

definition received :: "StreamMsg \<Rightarrow> Seq \<times> Subject \<times> bytes" where
  "received sm = (sg_Seq sm, m_Subject (sg_Msg sm), m_Data (sg_Msg sm))"

lemma unread_cong: "cs_next cs' = cs_next cs \<Longrightarrow> cs_spec cs' = cs_spec cs \<Longrightarrow> unread st cs' = unread st cs"
  by (simp add: unread_def)

lemma fetch_loop_batch:
  "stream_inv st \<Longrightarrow> consumer_inv cs \<Longrightarrow> \<forall>(s, d) \<in> set (cs_pending cs). now < d \<Longrightarrow>
     map received (snd (snd (fetch_loop (\<lambda>_. now) k n st cs))) =
       map summary (take (batch_quota (cs_spec cs) (length (cs_pending cs)) n) (unread (expire now st) cs))"
proof (induction n arbitrary: st cs k)
  case (Suc n)
  let ?st = "expire now st"
  have inv: "stream_inv ?st" using Suc.prems(1) by (rule expiry.discard_inv)
  have scan: "scan_pending ?st now (cs_pending cs) cs = (cs, None)"
    using Suc.prems(3) by (rule scan_none_due)
  show ?case
  proof (cases "0 < co_MaxAckPending (cs_spec cs) \<and> co_MaxAckPending (cs_spec cs) \<le> int (length (cs_pending cs))")
    case True
    then show ?thesis by (simp add: nextLocked_def Let_def scan batch_quota_Suc(1))
  next
    case room: False
    obtain cs1 r where nu: "next_unread ?st cs = (cs1, r)" by force
    have nl: "nextLocked now st cs = (?st, cs1, r)"
      using room nu by (auto simp: nextLocked_def Let_def scan)
    note sp = next_unread_spec [OF inv, of cs, unfolded nu fst_conv snd_conv]
    note iv = next_unread_inv [OF inv Suc.prems(2), unfolded nu fst_conv snd_conv]
    show ?thesis
    proof (cases "unread ?st cs")
      case Nil
      with sp nl show ?thesis by simp
    next
      case (Cons m ms)
      with sp have r: "r = Some m" and ms: "unread ?st cs1 = ms" by simp_all
      obtain cs2 sm where bl: "buildLocked now cs1 m = (cs2, sm)" by force
      have fresh: "sm_seq m \<notin> fst ` set (cs_pending cs1)" using iv r consumer_invD(4) [OF Suc.prems(2)] by fastforce
      note b = buildLocked_fresh [OF bl fresh]
      have inv2: "consumer_inv cs2"
        using buildLocked_inv [of cs1 m now] iv r bl by (auto simp: exhausted_def)
      have pend: "cs_pending cs1 = cs_pending cs" using iv by blast
      have "\<forall>(s, d) \<in> set (cs_pending cs2). now < d" using b(4) Suc.prems(3) pend by simp
      from Suc.IH [OF inv inv2 this, of "k + 2"] b nl r bl ms pend Cons sp room
        unread_cong [of cs2 cs1 ?st]
      show ?thesis
        by (simp add: batch_quota_Suc(2) received_def summary_def split_beta Let_def)
    qed
  qed
qed (simp add: batch_quota_def)


section \<open>Properties\<close>


definition demo_consumer :: ConsumerSpec where
  "demo_consumer =
     \<lparr>co_Name = ''c'', co_Ordered = False, co_Filter = '''', co_Ack = AckExplicit, co_AckWait = 10,
      co_MaxDeliver = 3, co_MaxAckPending = 0, co_Start = StartAll, co_Cursor = '''', co_StartTime = 0\<rparr>"

definition demo_log :: stream where
  "demo_log = publish_many [demo_pub [] ''x'' 5, demo_pub [] ''y'' 6] (newStream demo_spec 1)"

definition demo_state :: consumerState where
  "demo_state = newConsumerState ''c'' ''s'' demo_consumer 1"

lemmas demo_consumer_defs =
  demo_log_def demo_state_def newConsumerState_def demo_consumer_def nextLocked_def
  next_unread.simps clamped_def firstSeq_def find_msg_def passes_def demo_stream_defs

lemma demo_log_inv: "stream_inv demo_log"
  by (simp add: demo_log_def publish_one_keeps newStream_inv)

lemma demo_consumer_init: "consumer_init (demo_log, demo_state)"
  by (auto simp: consumer_init_def demo_log_inv demo_state_def intro: exI [of _ "1::nat"])

lemma demo_next: "\<exists>st' cs' m. nextLocked 7 demo_log demo_state = (st', cs', Some m) \<and> sm_seq m = 1"
  by (simp add: demo_consumer_defs)


text \<open>The acknowledgement floor is exact: after acknowledgements in any order, with repeats, a
  sequence number is at or below the floor exactly when it and everything from the start position up
  to it has been acknowledged. So the floor, which is what a cursor signs, never runs ahead.\<close>

theorem ack_floor_is_contiguous:
  assumes "1 \<le> start"
  shows "s \<le> cs_ackFloor (fold markAcked acks (newConsumerState name stream spec start)) \<longleftrightarrow>
    (\<forall>t. start \<le> t \<and> t \<le> s \<longrightarrow> t \<in> set acks)"
proof -
  let ?new = "newConsumerState name stream spec start"
  have "floor_tight ?new" "resolved ?new = {..< start}"
    using assms by (auto simp: newConsumerState_def floor_tight_def resolved_def)
  then have "floor_tight (fold markAcked acks ?new)" "resolved (fold markAcked acks ?new) = set acks \<union> {..< start}"
    by simp_all
  then show ?thesis using floor_greatest by (auto simp: not_less)
qed

theorem ack_floor_is_contiguous_witness:
  "cs_ackFloor (fold markAcked [5, 3, 4, 3, 7] (newConsumerState ''c'' ''s'' demo_consumer 3)) = 5"
proof -
  let ?f = "cs_ackFloor (fold markAcked [5, 3, 4, 3, 7] (newConsumerState ''c'' ''s'' demo_consumer 3))"
  have le: "s \<le> ?f \<longleftrightarrow> (\<forall>t. 3 \<le> t \<and> t \<le> s \<longrightarrow> t \<in> set [5, 3, 4, 3, 7])" for s :: nat
    by (rule ack_floor_is_contiguous) simp
  have "t \<in> set [5, 3, 4, 3, 7]" if "3 \<le> t" "t \<le> 5" for t :: nat
    using that by auto
  then have "5 \<le> ?f" using le [of 5] by blast
  moreover have "\<not> 6 \<le> ?f" using le [of 6, THEN iffD1, THEN spec, of 6] by auto
  ultimately show ?thesis by linarith
qed

text \<open>A fetch returns the next unread batch: when no redelivery is due, \<open>n\<close> rounds of the loop of
  \<^verbatim>\<open>Fetch\<close> return, in stream order and with their subjects and payloads, the first live messages at or
  after the position of the consumer that pass its filter, as many as asked for, stored, and allowed
  by \<open>MaxAckPending\<close>.\<close>

theorem fetch_is_the_unread_batch:
  assumes "stream_inv st" and "consumer_inv cs" and "\<forall>(s, d) \<in> set (cs_pending cs). now < d"
  shows "map (\<lambda>sm. (sg_Seq sm, m_Subject (sg_Msg sm), m_Data (sg_Msg sm)))
      (snd (snd (fetch_loop (\<lambda>_. now) 0 n st cs))) =
    map (\<lambda>m. (sm_seq m, sm_subject m, sm_data m))
      (take (batch_quota (cs_spec cs) (length (cs_pending cs)) n)
        (filter (\<lambda>m. \<not> msg_dead (st_spec st) now m \<and> cs_next cs \<le> sm_seq m \<and> passes (cs_spec cs) m)
          (st_msgs st)))"
  using fetch_loop_batch [OF assms, of 0 n]
  by (simp add: received_def summary_def unread_def expire_msgs conj_commute conj_left_commute
      cong: map_cong)

theorem fetch_is_the_unread_batch_witness:
  "map sg_Seq (snd (snd (fetch_loop (\<lambda>_. 7) 0 5 demo_log demo_state))) = [1, 2]"
proof -
  have inv: "consumer_inv demo_state" by (simp add: demo_state_def consumer_inv_new)
  have "map (\<lambda>sm. (sg_Seq sm, m_Subject (sg_Msg sm), m_Data (sg_Msg sm)))
      (snd (snd (fetch_loop (\<lambda>_. 7) 0 5 demo_log demo_state))) = [(1, ''a.b'', ''x''), (2, ''a.b'', ''y'')]"
    by (subst fetch_is_the_unread_batch [OF demo_log_inv inv])
      (simp_all add: demo_consumer_defs batch_quota_def)
  then have "map fst (map (\<lambda>sm. (sg_Seq sm, m_Subject (sg_Msg sm), m_Data (sg_Msg sm)))
      (snd (snd (fetch_loop (\<lambda>_. 7) 0 5 demo_log demo_state)))) = [1, 2]"
    by (simp only:) simp
  then show ?thesis by (simp add: comp_def)
qed

text \<open>A gap in the stream holds the floor back: numbers the consumer passes because their message is
  gone are not settled, so after acknowledging everything it was given the floor, and the cursor, stay
  below the gap.\<close>

definition gap_log :: stream where
  "gap_log = purge_matching ''a.c''
     (publish_many
       [demo_pub [] ''x'' 5, (demo_pub [] ''y'' 5)\<lparr>pb_subject := ''a.c''\<rparr>, demo_pub [] ''z'' 5]
       (newStream (demo_spec\<lparr>ss_MaxBytes := 100\<rparr>) 1))"

definition gap_state :: consumerState where
  "gap_state = fst (snd (fetch_loop (\<lambda>_. 7) 0 3 gap_log demo_state))"

lemma gap_holds_floor_back:
  "map sg_Seq (snd (snd (fetch_loop (\<lambda>_. 7) 0 3 gap_log demo_state))) = [1, 3] \<and>
   cs_ackFloor (fold markAcked [1, 3] gap_state) = 1"
  by code_simp

end
