(* ===== verification/KV.thy ===== *)
theory KV
  imports Msg "HOL-Library.Word" "HOL-Library.Char_ord" "HOL-Library.List_Lexorder"
begin

text \<open>
  One key/value bucket and its watchers, \<^verbatim>\<open>src/v2/bus/memory/kv.go\<close> below the API of the
  connection: the history of every key, compare-and-swap, tombstones, expiry, and watchers that get
  the current values first and then every change.

  A handle on a bucket (\<^verbatim>\<open>bucket\<close>) holds the connection, the name and a pointer to the bucket. The
  operations here take what they use of the handle, \<open>al\<close> for the result of \<^verbatim>\<open>alive()\<close> (a fault, or
  \<open>None\<close> for nil), and the bucket itself. Where the code reads the clock twice there are two instants.
  A watcher is created for one bucket and never removed from it, so it is stored in the bucket.
\<close>

type_synonym Revision = nat

record BucketSpec =
  bs_Name :: string
  bs_History :: int
  bs_TTL :: duration
  bs_MaxBytes :: int
  bs_Metadata :: "(string, string) amap"

record Entry =
  e_Key :: string
  e_Value :: bytes
  e_Revision :: Revision
  e_Created :: instant
  e_Deleted :: bool

record BucketStatus =
  bt_Name :: string
  bt_Values :: nat
  bt_Bytes :: "64 word"
  bt_History :: int
  bt_TTL :: duration

text \<open>The last three fields are the \<^verbatim>\<open>updates\<close> channel and the goroutine that feeds it: the entry it
  is trying to send, what the reader has received, and whether the goroutine has returned.\<close>

record kvWatcher =
  w_filter :: Pattern
  w_queue :: "Entry list"
  w_err :: "Fault option"
  w_stopped :: bool
  w_wake :: bool
  w_done :: bool
  w_hand :: "Entry option"
  w_received :: "Entry list"
  w_exited :: bool

record kvBucket =
  b_spec :: BucketSpec
  b_rev :: Revision
  b_keys :: "(string, Entry list) amap"
  b_watchers :: "kvWatcher list"

section \<open>The watcher\<close>

definition offer :: "Entry \<Rightarrow> kvWatcher \<Rightarrow> kvWatcher" where
  "offer e w =
     (if \<not> Matches (w_filter w) (e_Key e) then w
      else if w_stopped w then w
      else w\<lparr>w_queue := w_queue w @ [e], w_wake := True\<rparr>)"

definition stopWith :: "Fault option \<Rightarrow> kvWatcher \<Rightarrow> kvWatcher" where
  "stopWith err w =
     (if w_stopped w then w
      else w\<lparr>w_stopped := True, w_err := (case err of Some e \<Rightarrow> Some e | None \<Rightarrow> w_err w), w_done := True\<rparr>)"

definition watcher_Stop :: "kvWatcher \<Rightarrow> kvWatcher" where
  "watcher_Stop w = stopWith None w"

text \<open>The goroutine: take the first queued entry, hand it to the reader, sleep until woken, return
  when stopped.\<close>

inductive watcher_step :: "kvWatcher \<Rightarrow> kvWatcher \<Rightarrow> bool" where
  take: "\<not> w_exited w \<Longrightarrow> w_hand w = None \<Longrightarrow> w_queue w = e # es \<Longrightarrow>
     watcher_step w (w\<lparr>w_queue := es, w_hand := Some e\<rparr>)"
| send: "\<not> w_exited w \<Longrightarrow> w_hand w = Some e \<Longrightarrow>
     watcher_step w (w\<lparr>w_hand := None, w_received := w_received w @ [e]\<rparr>)"
| sleep: "\<not> w_exited w \<Longrightarrow> w_hand w = None \<Longrightarrow> w_queue w = [] \<Longrightarrow> w_wake w \<Longrightarrow>
     watcher_step w (w\<lparr>w_wake := False\<rparr>)"
| quit: "\<not> w_exited w \<Longrightarrow> w_done w \<Longrightarrow> w_hand w \<noteq> None \<or> w_queue w = [] \<Longrightarrow>
     watcher_step w (w\<lparr>w_exited := True\<rparr>)"

section \<open>The bucket\<close>

definition newBucket :: "BucketSpec \<Rightarrow> kvBucket" where
  "newBucket spec = \<lparr>b_spec = spec, b_rev = 0, b_keys = [], b_watchers = []\<rparr>"

definition kv_history :: "kvBucket \<Rightarrow> int" where
  "kv_history b = (if bs_History (b_spec b) \<le> 0 then 1 else bs_History (b_spec b))"

definition hist :: "kvBucket \<Rightarrow> string \<Rightarrow> Entry list" where
  \<comment> \<open>\<^verbatim>\<open>b.keys[key]\<close>, nil for a missing key\<close>
  "hist b key = (case map_of (b_keys b) key of Some h \<Rightarrow> h | None \<Rightarrow> [])"

definition kv_current :: "kvBucket \<Rightarrow> string \<Rightarrow> Entry option" where
  "kv_current b key = (let h = hist b key in if length h = 0 then None else Some (h ! (length h - 1)))"

definition kv_expired :: "kvBucket \<Rightarrow> Entry \<Rightarrow> instant \<Rightarrow> bool" where
  "kv_expired b e now = (0 < bs_TTL (b_spec b) \<and> bs_TTL (b_spec b) < time_Sub now (e_Created e))"

definition kv_append :: "string \<Rightarrow> Entry \<Rightarrow> kvBucket \<Rightarrow> kvBucket" where
  "kv_append key e b =
     (let h = hist b key @ [e]; mx = kv_history b;
          h' = (if mx < int (length h) then drop (length h - nat mx) h else h)
      in b\<lparr>b_keys := AList.update key h' (b_keys b), b_watchers := map (offer e) (b_watchers b)\<rparr>)"

definition kv_bytes :: "kvBucket \<Rightarrow> 64 word" where
  "kv_bytes b = sum_list (map (\<lambda>(k, h). sum_list (map (\<lambda>e. of_nat (length (e_Value e))) h)) (b_keys b))"

definition put :: "instant \<Rightarrow> string \<Rightarrow> bytes \<Rightarrow> bool \<Rightarrow> kvBucket \<Rightarrow> kvBucket \<times> Revision" where
  "put now key value deleted b =
     (let b1 = b\<lparr>b_rev := b_rev b + 1\<rparr>;
          e = \<lparr>e_Key = key, e_Value = value, e_Revision = b_rev b1, e_Created = now, e_Deleted = deleted\<rparr>
      in (kv_append key e b1, e_Revision e))"

section \<open>The operations of a handle\<close>

definition kv_notFound :: "Identity \<Rightarrow> string \<Rightarrow> string \<Rightarrow> Fault" where
  "kv_notFound i name key =
     mkFault FaultNotFound (''kv:'' @ name @ ''/'' @ key) (''principal '' @ Identity_String i @ '': no such key'')"

definition kv_conflict :: "Identity \<Rightarrow> string \<Rightarrow> string \<Rightarrow> string \<Rightarrow> Fault" where
  "kv_conflict i name key why =
     mkFault FaultConflict (''kv:'' @ name @ ''/'' @ key) (''principal '' @ Identity_String i @ '': '' @ why)"

text \<open>The entry a reader may see: current, not a tombstone, not expired.\<close>

definition live_entry :: "instant \<Rightarrow> kvBucket \<Rightarrow> string \<Rightarrow> Entry option" where
  "live_entry now b key =
     (case kv_current b key of
        None \<Rightarrow> None
      | Some e \<Rightarrow> if e_Deleted e \<or> kv_expired b e now then None else Some e)"

definition bucket_Get ::
  "Fault option \<Rightarrow> Identity \<Rightarrow> string \<Rightarrow> instant \<Rightarrow> string \<Rightarrow> kvBucket \<Rightarrow> Entry res" where
  "bucket_Get al i name now key b =
     (case al of Some e \<Rightarrow> Inl e
      | None \<Rightarrow> (case live_entry now b key of None \<Rightarrow> Inl (kv_notFound i name key) | Some e \<Rightarrow> Inr e))"

definition bucket_Put ::
  "Fault option \<Rightarrow> instant \<Rightarrow> string \<Rightarrow> bytes \<Rightarrow> kvBucket \<Rightarrow> kvBucket \<times> Revision res" where
  "bucket_Put al now key value b =
     (case al of Some e \<Rightarrow> (b, Inl e)
      | None \<Rightarrow> (let (b', r) = put now key value False b in (b', Inr r)))"

definition bucket_Create ::
  "Fault option \<Rightarrow> Identity \<Rightarrow> string \<Rightarrow> instant \<Rightarrow> instant \<Rightarrow> string \<Rightarrow> bytes \<Rightarrow> kvBucket \<Rightarrow>
     kvBucket \<times> Revision res" where
  "bucket_Create al i name now now' key value b =
     (case al of Some e \<Rightarrow> (b, Inl e)
      | None \<Rightarrow>
          (case live_entry now b key of
             Some e \<Rightarrow> (b, Inl (kv_conflict i name key (''key already exists at revision '' @ decimal (e_Revision e))))
           | None \<Rightarrow> (let (b', r) = put now' key value False b in (b', Inr r))))"

definition bucket_Update ::
  "Fault option \<Rightarrow> Identity \<Rightarrow> string \<Rightarrow> instant \<Rightarrow> instant \<Rightarrow> string \<Rightarrow> bytes \<Rightarrow> Revision \<Rightarrow> kvBucket \<Rightarrow>
     kvBucket \<times> Revision res" where
  "bucket_Update al i name now now' key value expect b =
     (case al of Some e \<Rightarrow> (b, Inl e)
      | None \<Rightarrow>
          (case live_entry now b key of
             None \<Rightarrow> (b, Inl (kv_notFound i name key))
           | Some e \<Rightarrow>
               if e_Revision e \<noteq> expect then
                 (b, Inl (kv_conflict i name key
                    (''expected revision '' @ decimal expect @ '' but key is at '' @ decimal (e_Revision e))))
               else (let (b', r) = put now' key value False b in (b', Inr r))))"

definition bucket_Delete ::
  "Fault option \<Rightarrow> Identity \<Rightarrow> string \<Rightarrow> instant \<Rightarrow> string \<Rightarrow> kvBucket \<Rightarrow> kvBucket \<times> unit res" where
  "bucket_Delete al i name now key b =
     (case al of Some e \<Rightarrow> (b, Inl e)
      | None \<Rightarrow>
          (case kv_current b key of
             None \<Rightarrow> (b, Inl (kv_notFound i name key))
           | Some e \<Rightarrow>
               if e_Deleted e then (b, Inl (kv_notFound i name key))
               else (fst (put now key [] True b), Inr ())))"

definition kv_purge :: "instant \<Rightarrow> string \<Rightarrow> kvBucket \<Rightarrow> kvBucket" where
  "kv_purge now key b =
     (let e = \<lparr>e_Key = key, e_Value = [], e_Revision = b_rev b + 1, e_Created = now, e_Deleted = True\<rparr>
      in b\<lparr>b_keys := AList.delete key (b_keys b), b_rev := b_rev b + 1,
            b_watchers := map (offer e) (b_watchers b)\<rparr>)"

definition bucket_Purge ::
  "Fault option \<Rightarrow> Identity \<Rightarrow> string \<Rightarrow> instant \<Rightarrow> string \<Rightarrow> kvBucket \<Rightarrow> kvBucket \<times> unit res" where
  "bucket_Purge al i name now key b =
     (case al of Some e \<Rightarrow> (b, Inl e)
      | None \<Rightarrow>
          (case map_of (b_keys b) key of
             None \<Rightarrow> (b, Inl (kv_notFound i name key))
           | Some h \<Rightarrow>
               (kv_purge now key b, Inr ())))"

definition bucket_History :: "Fault option \<Rightarrow> Identity \<Rightarrow> string \<Rightarrow> string \<Rightarrow> kvBucket \<Rightarrow> Entry list res" where
  "bucket_History al i name key b =
     (case al of Some e \<Rightarrow> Inl e
      | None \<Rightarrow> (case map_of (b_keys b) key of None \<Rightarrow> Inl (kv_notFound i name key) | Some h \<Rightarrow> Inr h))"

definition live_keys :: "instant \<Rightarrow> kvBucket \<Rightarrow> string list" where
  "live_keys now b = filter (\<lambda>key. live_entry now b key \<noteq> None) (map fst (b_keys b))"

definition bucket_Keys :: "Fault option \<Rightarrow> instant \<Rightarrow> kvBucket \<Rightarrow> string list res" where
  "bucket_Keys al now b = (case al of Some e \<Rightarrow> Inl e | None \<Rightarrow> Inr (sort (live_keys now b)))"

definition bucket_Status :: "Fault option \<Rightarrow> string \<Rightarrow> instant \<Rightarrow> kvBucket \<Rightarrow> BucketStatus res" where
  "bucket_Status al name now b =
     (case al of Some e \<Rightarrow> Inl e
      | None \<Rightarrow>
          Inr \<lparr>bt_Name = name, bt_Values = length (live_keys now b), bt_Bytes = kv_bytes b,
               bt_History = kv_history b, bt_TTL = bs_TTL (b_spec b)\<rparr>)"

text \<open>The queue a new watcher starts with: the live entry of every matching key, in key order.\<close>

definition snapshot :: "instant \<Rightarrow> Pattern \<Rightarrow> kvBucket \<Rightarrow> Entry list" where
  "snapshot now p b =
     concat (map (\<lambda>key. case live_entry now b key of
                          None \<Rightarrow> []
                        | Some e \<Rightarrow> if Matches p key then [e] else [])
                 (sort (map fst (b_keys b))))"

definition newWatcher :: "Pattern \<Rightarrow> Entry list \<Rightarrow> kvWatcher" where
  "newWatcher p q =
     \<lparr>w_filter = p, w_queue = q, w_err = None, w_stopped = False, w_wake = False, w_done = False,
      w_hand = None, w_received = [], w_exited = False\<rparr>"

definition bucket_Watch ::
  "Fault option \<Rightarrow> string \<Rightarrow> instant \<Rightarrow> string \<Rightarrow> kvBucket \<Rightarrow> kvBucket \<times> nat res" where
  \<comment> \<open>answers the index of the new watcher\<close>
  "bucket_Watch al name now filt b =
     (case al of Some e \<Rightarrow> (b, Inl e)
      | None \<Rightarrow>
          (let f = (if filt = '''' then ''>'' else filt) in
           case ParsePattern f of
             Inl err \<Rightarrow> (b, Inl (parseFault (''kv:'' @ name) err))
           | Inr p \<Rightarrow>
               (b\<lparr>b_watchers := b_watchers b @ [newWatcher p (snapshot now p b)]\<rparr>,
                Inr (length (b_watchers b)))))"

definition withdraw_watchers :: "string \<Rightarrow> kvBucket \<Rightarrow> kvBucket" where
  "withdraw_watchers name b =
     b\<lparr>b_watchers :=
        map (stopWith (Some (mkFault FaultWithdrawn (''kv:'' @ name) ''bucket deleted''))) (b_watchers b)\<rparr>"

section \<open>Histories\<close>

definition history_ok :: "kvBucket \<Rightarrow> string \<Rightarrow> Entry list \<Rightarrow> bool" where
  "history_ok b k h \<longleftrightarrow>
     h \<noteq> [] \<and> int (length h) \<le> kv_history b \<and> sorted_wrt (\<lambda>x y. e_Revision x < e_Revision y) h \<and>
     (\<forall>e \<in> set h. e_Key e = k \<and> 1 \<le> e_Revision e \<and> e_Revision e \<le> b_rev b)"

definition bucket_inv :: "kvBucket \<Rightarrow> bool" where
  "bucket_inv b \<longleftrightarrow> amap_ok (b_keys b) \<and> (\<forall>k h. map_of (b_keys b) k = Some h \<longrightarrow> history_ok b k h)"

lemma kv_history_pos: "1 \<le> kv_history b"
  by (simp add: kv_history_def)

lemma rev_update_keeps [simp]:
  "hist (b\<lparr>b_rev := n\<rparr>) = hist b" "kv_history (b\<lparr>b_rev := n\<rparr>) = kv_history b"
  "kv_current (b\<lparr>b_rev := n\<rparr>) = kv_current b"
  by (auto simp: hist_def kv_history_def kv_current_def)

lemma watchers_update_keeps [simp]:
  "hist (b\<lparr>b_watchers := ws\<rparr>) = hist b" "kv_history (b\<lparr>b_watchers := ws\<rparr>) = kv_history b"
  "kv_current (b\<lparr>b_watchers := ws\<rparr>) = kv_current b"
  "kv_expired (b\<lparr>b_watchers := ws\<rparr>) e now = kv_expired b e now"
  by (auto simp: hist_def kv_history_def kv_current_def kv_expired_def)

lemma kv_current_last: "kv_current b k = (if hist b k = [] then None else Some (last (hist b k)))"
  by (simp add: kv_current_def Let_def last_conv_nth)

lemma kv_append_keeps [simp]:
  "b_spec (kv_append key e b) = b_spec b" "b_rev (kv_append key e b) = b_rev b"
  "b_watchers (kv_append key e b) = map (offer e) (b_watchers b)"
  by (simp_all add: kv_append_def Let_def)

lemma hist_append:
  "hist (kv_append key e b) k =
     (if k = key then drop (Suc (length (hist b key)) - nat (kv_history b)) (hist b key @ [e]) else hist b k)"
  by (auto simp: kv_append_def hist_def Let_def amap_simps split: option.splits)

lemma current_append [simp]:
  "kv_current (kv_append key e b) k = (if k = key then Some e else kv_current b k)"
proof -
  have "Suc (length (hist b key)) - nat (kv_history b) < length (hist b key @ [e])"
    using kv_history_pos [of b] by auto
  then show ?thesis by (simp add: kv_current_last hist_append)
qed

lemma put_keeps [simp]:
  "b_spec (fst (put now key value del b)) = b_spec b" "b_rev (fst (put now key value del b)) = b_rev b + 1"
  "snd (put now key value del b) = b_rev b + 1"
  by (simp_all add: put_def Let_def)

lemma current_put:
  "kv_current (fst (put now key value del b)) k =
     (if k = key then Some \<lparr>e_Key = key, e_Value = value, e_Revision = b_rev b + 1, e_Created = now, e_Deleted = del\<rparr>
      else kv_current b k)"
  by (simp add: put_def Let_def)

lemma hist_put_subset:
  "e \<in> set (hist (fst (put now key value del b)) k) \<Longrightarrow> e \<in> set (hist b k) \<or> e_Revision e = b_rev b + 1"
  by (auto simp: put_def Let_def hist_append split: if_splits dest!: in_set_dropD)

lemma history_ok_mono:
  "history_ok b k h \<Longrightarrow> b_spec b' = b_spec b \<Longrightarrow> b_rev b \<le> b_rev b' \<Longrightarrow> history_ok b' k h"
  by (fastforce simp: history_ok_def kv_history_def)

lemma put_inv:
  assumes "bucket_inv b"
  shows "bucket_inv (fst (put now key value del b))"
proof -
  let ?b = "fst (put now key value del b)"
  let ?e = "\<lparr>e_Key = key, e_Value = value, e_Revision = b_rev b + 1, e_Created = now, e_Deleted = del\<rparr>"
  have old: "hist b key = [] \<or> history_ok b key (hist b key)"
    using assms by (auto simp: bucket_inv_def hist_def split: option.splits)
  let ?h = "drop (Suc (length (hist b key)) - nat (kv_history b)) (hist b key @ [?e])"
  have "history_ok ?b key ?h"
    unfolding history_ok_def
  proof (intro conjI)
    show "?h \<noteq> []" "int (length ?h) \<le> kv_history ?b"
      using kv_history_pos [of b] by (auto simp: kv_history_def)
    show "sorted_wrt (\<lambda>x y. e_Revision x < e_Revision y) ?h"
      using old by (intro sorted_wrt_drop) (auto simp: sorted_wrt_append history_ok_def)
    show "\<forall>e \<in> set ?h. e_Key e = key \<and> 1 \<le> e_Revision e \<and> e_Revision e \<le> b_rev ?b"
      using old by (auto simp: history_ok_def dest!: in_set_dropD)
  qed
  moreover have "b_keys ?b = AList.update key ?h (b_keys b)"
    by (auto simp: put_def Let_def kv_append_def)
  ultimately show ?thesis
    using assms history_ok_mono [of b _ _ ?b] by (auto simp: bucket_inv_def amap_simps)
qed

lemma current_ok:
  assumes "bucket_inv b" and "kv_current b k = Some e"
  shows "e \<in> set (hist b k)" and "e_Key e = k" and "e_Revision e \<le> b_rev b"
proof -
  from assms(2) have "hist b k \<noteq> []" "e = last (hist b k)" by (auto simp: kv_current_last split: if_splits)
  then show e: "e \<in> set (hist b k)" by simp
  with assms(1) show "e_Key e = k" "e_Revision e \<le> b_rev b"
    by (auto simp: bucket_inv_def history_ok_def hist_def split: option.splits)
qed

section \<open>Everything that happens to a bucket\<close>

inductive kv_step :: "kvBucket \<Rightarrow> kvBucket \<Rightarrow> bool" where
  Put: "kv_step b (fst (bucket_Put al now key value b))"
| Create: "kv_step b (fst (bucket_Create al i name now now' key value b))"
| Update: "kv_step b (fst (bucket_Update al i name now now' key value expect b))"
| Delete: "kv_step b (fst (bucket_Delete al i name now key b))"
| Purge: "kv_step b (fst (bucket_Purge al i name now key b))"
| Watch: "kv_step b (fst (bucket_Watch al name now filt b))"
| Stop: "n < length (b_watchers b) \<Longrightarrow>
     kv_step b (b\<lparr>b_watchers := (b_watchers b)[n := stopWith err (b_watchers b ! n)]\<rparr>)"
| Run: "n < length (b_watchers b) \<Longrightarrow> watcher_step (b_watchers b ! n) w \<Longrightarrow>
     kv_step b (b\<lparr>b_watchers := (b_watchers b)[n := w]\<rparr>)"

text \<open>Where a watcher of the next state comes from when nothing is written.\<close>

definition watcher_from :: "kvBucket \<Rightarrow> kvWatcher \<Rightarrow> bool" where
  "watcher_from b w \<longleftrightarrow>
     w \<in> set (b_watchers b) \<or>
     (\<exists>v \<in> set (b_watchers b). watcher_step v w \<or> (\<exists>err. w = stopWith err v)) \<or>
     (\<exists>now p. w = newWatcher p (snapshot now p b))"

text \<open>Seen from the stored entries there are three kinds of step: a write, a purge, and one that leaves
  them alone.\<close>

lemma kv_step_cases:
  assumes "kv_step b b'"
  obtains (written) now key v del where "b' = fst (put now key v del b)"
  | (erased) now key where "b' = kv_purge now key b" "map_of (b_keys b) key \<noteq> None"
  | (kept) ws where "b' = b\<lparr>b_watchers := ws\<rparr>" "\<forall>w \<in> set ws. watcher_from b w"
proof -
  have same: thesis if "b' = b" using kept [of "b_watchers b"] that by (simp add: watcher_from_def)
  show thesis
    using assms
  proof cases
    case (Put al now key v)
    then show thesis using written same kept
      by (cases al) (auto simp: bucket_Put_def split_beta)
  next
    case (Create al i name now now' key v)
    then show thesis using written same kept
      by (cases al; cases "live_entry now b key") (auto simp: bucket_Create_def split_beta)
  next
    case (Update al i name now now' key v expect)
    then show thesis using written same kept
      by (cases al; cases "live_entry now b key") (auto simp: bucket_Update_def split_beta split: if_splits)
  next
    case (Delete al i name now key)
    then show thesis using written same kept
      by (cases al; cases "kv_current b key") (auto simp: bucket_Delete_def split: if_splits)
  next
    case (Purge al i name now key)
    then show thesis using erased [of now key] same kept
      by (cases al; cases "map_of (b_keys b) key") (auto simp: bucket_Purge_def)
  next
    case (Watch al name now filt)
    have "\<forall>w \<in> set (b_watchers b @ [newWatcher p (snapshot now p b)]). watcher_from b w" for p
      by (auto simp: watcher_from_def)
    with Watch show thesis using same kept
      by (cases al) (auto simp: bucket_Watch_def Let_def split: sum.splits)
  next
    case (Stop n err)
    then have "\<forall>w \<in> set ((b_watchers b)[n := stopWith err (b_watchers b ! n)]). watcher_from b w"
      using set_update_subset_insert by (fastforce simp: watcher_from_def)
    with Stop show thesis using kept by blast
  next
    case (Run n w)
    then have "\<forall>x \<in> set ((b_watchers b)[n := w]). watcher_from b x"
      using set_update_subset_insert nth_mem by (fastforce simp: watcher_from_def)
    with Run show thesis using kept by blast
  qed
qed


text \<open>
  The contract of a store whose revisions identify versions: they never go back, and a step stores an
  entry either under a new revision or not at all. Such a store has no ABA problem.
\<close>

locale versioned_store = invariant_system init step inv
  for init :: "'s \<Rightarrow> bool" and step :: "'s \<Rightarrow> 's \<Rightarrow> bool" and inv :: "'s \<Rightarrow> bool" +
  fixes rev_of :: "'s \<Rightarrow> nat"
    and stored :: "'s \<Rightarrow> string \<Rightarrow> Entry set"
  assumes rev_mono: "step s t \<Longrightarrow> rev_of s \<le> rev_of t"
    and rev_bound: "inv s \<Longrightarrow> e \<in> stored s k \<Longrightarrow> e_Revision e \<le> rev_of s"
    and rev_unique: "inv s \<Longrightarrow> e \<in> stored s k \<Longrightarrow> e' \<in> stored s k \<Longrightarrow>
      e_Revision e = e_Revision e' \<Longrightarrow> e = e'"
    and fresh_rev: "inv s \<Longrightarrow> step s t \<Longrightarrow> e \<in> stored t k \<Longrightarrow> e_Revision e \<le> rev_of s \<Longrightarrow> e \<in> stored s k"
begin

lemma run_rev_mono: "step\<^sup>*\<^sup>* s t \<Longrightarrow> rev_of s \<le> rev_of t"
  by (induction rule: rtranclp_induct) (auto dest: rev_mono)

lemma run_fresh:
  "step\<^sup>*\<^sup>* s t \<Longrightarrow> inv s \<Longrightarrow> e \<in> stored t k \<Longrightarrow> e_Revision e \<le> rev_of s \<Longrightarrow> e \<in> stored s k"
proof (induction arbitrary: e rule: rtranclp_induct)
  case (step t u)
  have "rev_of s \<le> rev_of t" using step(1) by (rule run_rev_mono)
  moreover have "inv t" using step(1,4) run_inv by blast
  ultimately show ?case using step fresh_rev [of t u e k] by auto
qed simp

lemma no_aba:
  assumes "inv s" and "step\<^sup>*\<^sup>* s t" and "e \<in> stored s k" and "e' \<in> stored t k"
    and "e_Revision e' = e_Revision e"
  shows "e' = e"
proof -
  have "e_Revision e' \<le> rev_of s" using rev_bound [OF assms(1,3)] assms(5) by simp
  with run_fresh [OF assms(2,1,4)] have "e' \<in> stored s k" by blast
  with rev_unique [OF assms(1)] assms(3,5) show ?thesis by metis
qed

end

lemma purge_keeps [simp]:
  "b_spec (kv_purge now key b) = b_spec b" "b_rev (kv_purge now key b) = b_rev b + 1"
  "hist (kv_purge now key b) k = (if k = key then [] else hist b k)"
  "kv_current (kv_purge now key b) k = (if k = key then None else kv_current b k)"
  by (auto simp: kv_purge_def Let_def hist_def kv_current_def amap_simps)

lemma kv_step_inv: "kv_step b b' \<Longrightarrow> bucket_inv b \<Longrightarrow> bucket_inv b'"
proof (induction rule: kv_step_cases)
  case (written now key v del)
  then show ?case by (simp add: put_inv)
next
  case (erased now key)
  then show ?case
    using history_ok_mono [of b _ _ "kv_purge now key b"]
    by (auto simp: bucket_inv_def kv_purge_def Let_def amap_simps)
next
  case (kept ws)
  then show ?case by (auto simp: bucket_inv_def history_ok_def)
qed

definition bucket_init :: "kvBucket \<Rightarrow> bool" where
  "bucket_init b \<longleftrightarrow> (\<exists>spec. b = newBucket spec)"

lemma hist_ok: "bucket_inv b \<Longrightarrow> e \<in> set (hist b k) \<Longrightarrow> history_ok b k (hist b k)"
  by (auto simp: bucket_inv_def hist_def split: option.splits)

lemma sorted_wrt_inj:
  fixes f :: "'a \<Rightarrow> nat"
  shows "sorted_wrt (\<lambda>x y. f x < f y) xs \<Longrightarrow> x \<in> set xs \<Longrightarrow> y \<in> set xs \<Longrightarrow> f x = f y \<Longrightarrow> x = y"
  by (induction xs) auto

interpretation kv: versioned_store bucket_init kv_step bucket_inv b_rev "\<lambda>b k. set (hist b k)"
proof
  show "bucket_init b \<Longrightarrow> bucket_inv b" for b
    by (auto simp: bucket_init_def newBucket_def bucket_inv_def)
  show "kv_step b b' \<Longrightarrow> bucket_inv b \<Longrightarrow> bucket_inv b'" for b b' by (rule kv_step_inv)
  show "b_rev b \<le> b_rev b'" if "kv_step b b'" for b b'
    using that by (cases rule: kv_step_cases) auto
  show "e_Revision e \<le> b_rev b" if "bucket_inv b" "e \<in> set (hist b k)" for b e k
    using hist_ok [OF that] that(2) by (simp add: history_ok_def)
  show "e = e'" if "bucket_inv b" "e \<in> set (hist b k)" "e' \<in> set (hist b k)" "e_Revision e = e_Revision e'"
    for b e e' k
  proof -
    have "sorted_wrt (\<lambda>x y. e_Revision x < e_Revision y) (hist b k)"
      using hist_ok [OF that(1,2)] by (simp add: history_ok_def)
    then show ?thesis using that(2-4) by (rule sorted_wrt_inj)
  qed
  show "e \<in> set (hist b k)" if "bucket_inv b" "kv_step b b'" "e \<in> set (hist b' k)" "e_Revision e \<le> b_rev b"
    for b b' e k
    using that(2,3,4)
    by (cases rule: kv_step_cases) (auto dest: hist_put_subset split: if_splits)
qed

text \<open>The revision of a key only grows while the key is there.\<close>

lemma current_rev_run:
  assumes "kv_step\<^sup>*\<^sup>* b b'" and "kv_current b k = Some e" and "e_Revision e \<le> b_rev b"
  shows "e_Revision e \<le> b_rev b' \<and> (\<forall>e'. kv_current b' k = Some e' \<longrightarrow> e_Revision e \<le> e_Revision e')"
  using assms(1)
proof (induction rule: rtranclp_induct)
  case (step c d)
  from step(2) step(3) show ?case by (cases rule: kv_step_cases) (auto simp: current_put)
qed (use assms in auto)

lemma bucket_Update_Inr:
  "bucket_Update None i name now now' key v x b = (b1, Inr r) \<longleftrightarrow>
     (\<exists>e. live_entry now b key = Some e \<and> e_Revision e = x) \<and>
     b1 = fst (put now' key v False b) \<and> r = b_rev b + 1"
  by (cases "live_entry now b key") (auto simp: bucket_Update_def split_beta)

lemma live_current: "live_entry now b k = Some e \<Longrightarrow> kv_current b k = Some e"
  by (auto simp: live_entry_def split: option.splits if_splits)

section \<open>Watchers\<close>

text \<open>What a reader knows of the bucket after applying a list of updates in order.\<close>

definition apply_update :: "(string \<Rightarrow> Entry option) \<Rightarrow> Entry \<Rightarrow> string \<Rightarrow> Entry option" where
  "apply_update m e = m(e_Key e := if e_Deleted e then None else Some e)"

definition replay :: "Entry list \<Rightarrow> string \<Rightarrow> Entry option" where
  "replay es = foldl apply_update (\<lambda>_. None) es"

definition stream_of :: "kvWatcher \<Rightarrow> Entry list" where
  "stream_of w = w_received w @ (case w_hand w of None \<Rightarrow> [] | Some e \<Rightarrow> [e]) @ w_queue w"

definition undeleted :: "kvBucket \<Rightarrow> string \<Rightarrow> Entry option" where
  "undeleted b k = (case kv_current b k of None \<Rightarrow> None | Some e \<Rightarrow> if e_Deleted e then None else Some e)"

definition in_sync :: "kvBucket \<Rightarrow> kvWatcher \<Rightarrow> bool" where
  "in_sync b w \<longleftrightarrow> (\<not> w_stopped w \<longrightarrow> (\<forall>k. Matches (w_filter w) k \<longrightarrow> replay (stream_of w) k = undeleted b k))"

lemma replay_simps [simp]: "replay [] = (\<lambda>_. None)" "replay (es @ [e]) = apply_update (replay es) e"
  by (simp_all add: replay_def)

lemma stream_of_step: "watcher_step w w' \<Longrightarrow> stream_of w' = stream_of w \<and> w_filter w' = w_filter w \<and> w_stopped w' = w_stopped w"
  by (induction rule: watcher_step.induct) (auto simp: stream_of_def split: option.splits)

lemma stream_of_offer:
  "stream_of (offer e w) =
     (if Matches (w_filter w) (e_Key e) \<and> \<not> w_stopped w then stream_of w @ [e] else stream_of w)"
  "w_filter (offer e w) = w_filter w" "w_stopped (offer e w) = w_stopped w"
  by (auto simp: offer_def stream_of_def)

lemma in_sync_offer:
  assumes "in_sync b w"
    and "\<And>k. undeleted b' k = (if k = e_Key e then if e_Deleted e then None else Some e else undeleted b k)"
  shows "in_sync b' (offer e w)"
  using assms by (auto simp: in_sync_def stream_of_offer apply_update_def)

lemma live_undeleted: "bs_TTL (b_spec b) \<le> 0 \<Longrightarrow> live_entry now b k = undeleted b k"
  by (auto simp: live_entry_def undeleted_def kv_expired_def split: option.splits)

lemma replay_distinct:
  assumes "distinct ks" and "\<And>k e. g k = Some e \<Longrightarrow> e_Key e = k \<and> \<not> e_Deleted e"
  shows "replay (concat (map (\<lambda>k. case g k of None \<Rightarrow> [] | Some e \<Rightarrow> [e]) ks)) k =
    (if k \<in> set ks then g k else None)"
  using assms(1)
proof (induction ks rule: rev_induct)
  case (snoc x ks)
  then show ?case
    using assms(2) [of x] by (cases "g x") (auto simp: apply_update_def)
qed simp

lemma snapshot_replay:
  assumes "bucket_inv b" and "bs_TTL (b_spec b) \<le> 0" and "Matches p k"
  shows "replay (snapshot now p b) k = undeleted b k"
proof -
  let ?g = "\<lambda>key. if Matches p key then undeleted b key else None"
  let ?ks = "sort (map fst (b_keys b))"
  have key: "e_Key e = key \<and> \<not> e_Deleted e" if "?g key = Some e" for key e
    using that current_ok(2) [OF assms(1)] by (auto simp: undeleted_def split: if_splits option.splits)
  have "(\<lambda>key. case live_entry now b key of None \<Rightarrow> [] | Some e \<Rightarrow> if Matches p key then [e] else []) =
      (\<lambda>key. case ?g key of None \<Rightarrow> [] | Some e \<Rightarrow> [e])"
    by (auto simp: live_undeleted [OF assms(2)] split: option.splits)
  then have "replay (snapshot now p b) k = (if k \<in> set ?ks then ?g k else None)"
    unfolding snapshot_def using replay_distinct [of ?ks ?g k] assms(1) key by (simp add: bucket_inv_def)
  moreover have "undeleted b k = None" if "k \<notin> set ?ks"
    using that by (simp add: undeleted_def kv_current_def hist_def map_of_eq_None_iff [symmetric])
  ultimately show ?thesis using assms(3) by auto
qed

lemma undeleted_put:
  "undeleted (fst (put now key v del b)) k =
     (if k = key then if del then None else
        Some \<lparr>e_Key = key, e_Value = v, e_Revision = b_rev b + 1, e_Created = now, e_Deleted = False\<rparr>
      else undeleted b k)"
  by (auto simp: undeleted_def current_put)

lemma kv_watchers_put:
  "b_watchers (fst (put now key v del b)) =
     map (offer \<lparr>e_Key = key, e_Value = v, e_Revision = b_rev b + 1, e_Created = now, e_Deleted = del\<rparr>) (b_watchers b)"
  by (simp add: put_def Let_def)


definition synced :: "kvBucket \<Rightarrow> bool" where
  "synced b \<longleftrightarrow> bucket_inv b \<and> (bs_TTL (b_spec b) \<le> 0 \<longrightarrow> (\<forall>w \<in> set (b_watchers b). in_sync b w))"

lemma in_sync_stop: "in_sync b w \<Longrightarrow> in_sync b (stopWith err w)"
  by (auto simp: in_sync_def stopWith_def)

lemma in_sync_cong: "(\<And>k. undeleted b' k = undeleted b k) \<Longrightarrow> in_sync b' w = in_sync b w"
  by (simp add: in_sync_def)

lemma in_sync_from:
  assumes "synced b" and "bs_TTL (b_spec b) \<le> 0" and "watcher_from b w"
  shows "in_sync b w"
proof -
  have ok: "in_sync b v" if "v \<in> set (b_watchers b)" for v using assms(1,2) that by (auto simp: synced_def)
  have "in_sync b w" if "watcher_step v w" "v \<in> set (b_watchers b)" for v
    using ok [OF that(2)] stream_of_step [OF that(1)] by (simp add: in_sync_def)
  moreover have "in_sync b (newWatcher p (snapshot now p b))" for now p
    using assms(1,2) snapshot_replay
    by (auto simp: in_sync_def synced_def newWatcher_def stream_of_def)
  ultimately show ?thesis using assms(3) ok in_sync_stop by (auto simp: watcher_from_def)
qed

lemma kv_step_synced:
  assumes "kv_step b b'" and "synced b"
  shows "synced b'"
proof -
  have inv: "bucket_inv b'" using kv_step_inv assms by (auto simp: synced_def)
  have "in_sync b' w" if ttl: "bs_TTL (b_spec b') \<le> 0" and w: "w \<in> set (b_watchers b')" for w
    using assms(1)
  proof (cases rule: kv_step_cases)
    case (written now key v del)
    then obtain w0 where w0: "w0 \<in> set (b_watchers b)" "w = offer \<lparr>e_Key = key, e_Value = v,
        e_Revision = b_rev b + 1, e_Created = now, e_Deleted = del\<rparr> w0"
      using w by (auto simp: kv_watchers_put)
    have "in_sync b w0" using assms(2) ttl w0 written by (simp add: synced_def)
    then show ?thesis unfolding w0(2) by (rule in_sync_offer) (auto simp: written undeleted_put)
  next
    case (erased now key)
    then obtain w0 where w0: "w0 \<in> set (b_watchers b)" "w = offer \<lparr>e_Key = key, e_Value = [],
        e_Revision = b_rev b + 1, e_Created = now, e_Deleted = True\<rparr> w0"
      using w by (auto simp: kv_purge_def Let_def)
    have "in_sync b w0" using assms(2) ttl w0 erased by (simp add: synced_def)
    then show ?thesis unfolding w0(2) by (rule in_sync_offer) (auto simp: erased undeleted_def)
  next
    case (kept ws)
    with w ttl assms(2) have "in_sync b w" by (auto intro: in_sync_from)
    with kept show ?thesis by (simp add: in_sync_def undeleted_def)
  qed
  with inv show ?thesis by (simp add: synced_def)
qed

interpretation watching: invariant_system bucket_init kv_step synced
proof
  show "bucket_init b \<Longrightarrow> synced b" for b
    by (auto simp: synced_def bucket_init_def newBucket_def bucket_inv_def)
qed (rule kv_step_synced)

section \<open>Properties\<close>

text \<open>C16. Compare-and-swap has no ABA problem and no lost update: if an update succeeds at the revision
  a reader got with its value, then, whatever happened in between, the key still holds exactly the
  entry that was read, and afterwards every update at the same revision, however much later, is
  refused and changes nothing.\<close>

theorem update_replaces_what_was_read:
  assumes "bucket_inv b0" and "bucket_Get None i0 name now0 key b0 = Inr e0"
    and "kv_step\<^sup>*\<^sup>* b0 b"
    and "bucket_Update None i name now now' key v (e_Revision e0) b = (b1, Inr r)"
    and "kv_step\<^sup>*\<^sup>* b1 b2"
  shows "bucket_Get None i name now key b = Inr e0 \<and>
    (\<exists>e1. kv_current b1 key = Some e1 \<and> e_Value e1 = v \<and> e_Revision e1 = r) \<and> e_Revision e0 < r \<and>
    (\<exists>f. bucket_Update None i' name t t' key v' (e_Revision e0) b2 = (b2, Inl f))"
proof -
  have inv: "bucket_inv b" using assms(1,3) kv.run_inv by blast
  have "live_entry now0 b0 key = Some e0"
    using assms(2) by (auto simp: bucket_Get_def split: option.splits)
  then have e0: "e0 \<in> set (hist b0 key)" using current_ok(1) [OF assms(1) live_current] by blast
  obtain e where live: "live_entry now b key = Some e" "e_Revision e = e_Revision e0"
    and b1: "b1 = fst (put now' key v False b)" "r = b_rev b + 1"
    using assms(4) by (auto simp: bucket_Update_Inr)
  then have e: "e \<in> set (hist b key)" using current_ok(1) [OF inv live_current] by blast
  have same: "e = e0" using kv.no_aba [OF assms(1,3) e0 e] live(2) by simp
  have lt: "e_Revision e0 < r" using kv.rev_bound [OF inv e] live(2) b1(2) by simp
  let ?e1 = "\<lparr>e_Key = key, e_Value = v, e_Revision = r, e_Created = now', e_Deleted = False\<rparr>"
  have cur1: "kv_current b1 key = Some ?e1" "e_Revision ?e1 \<le> b_rev b1"
    using b1 by (simp_all add: current_put)
  have "\<exists>f. bucket_Update None i' name t t' key v' (e_Revision e0) b2 = (b2, Inl f)"
  proof (cases "live_entry t b2 key")
    case (Some e2)
    then have "r \<le> e_Revision e2" using current_rev_run [OF assms(5) cur1] live_current by fastforce
    with lt Some show ?thesis by (simp add: bucket_Update_def)
  qed (simp add: bucket_Update_def)
  with live same cur1 lt show ?thesis by (simp add: bucket_Get_def)
qed

definition demo_bucket :: kvBucket where
  "demo_bucket =
     fst (put 5 ''k'' ''v'' False
       (newBucket \<lparr>bs_Name = ''b'', bs_History = 2, bs_TTL = 0, bs_MaxBytes = 0, bs_Metadata = []\<rparr>))"

definition demo_updated :: kvBucket where
  "demo_updated = fst (put 7 ''k'' ''w'' False demo_bucket)"

lemma demo_bucket_inv: "bucket_inv demo_bucket"
  unfolding demo_bucket_def by (intro put_inv) (simp add: bucket_inv_def newBucket_def)

definition demo_who :: Identity where
  "demo_who =
     \<lparr>PluginID = ''p'', Generation = ''1'', Id_Lease = NewLease '''', Id_Role = RolePlugin,
      Id_Grants =
        \<lparr>g_Publish = [], g_Subscribe = [], g_Request = [], g_Serves = [], g_Streams = [],
         g_KV = [''b''], g_Objects = []\<rparr>\<rparr>"

lemmas demo_bucket_defs =
  demo_bucket_def demo_updated_def newBucket_def put_def kv_append_def hist_def kv_current_def
  live_entry_def kv_expired_def kv_history_def Let_def

lemma demo_get: "\<exists>e. bucket_Get None demo_who ''b'' 6 ''k'' demo_bucket = Inr e \<and> e_Revision e = 1"
  by (simp add: bucket_Get_def demo_bucket_defs)

lemma demo_update:
  "bucket_Update None demo_who ''b'' 6 7 ''k'' ''w'' 1 demo_bucket = (demo_updated, Inr 2)"
  by (simp add: bucket_Update_def demo_bucket_defs)

theorem update_replaces_what_was_read_witness:
  "\<exists>e f. bucket_Get None demo_who ''b'' 6 ''k'' demo_bucket = Inr e \<and> e_Revision e < 2 \<and>
     bucket_Update None demo_who ''b'' 8 8 ''k'' ''z'' (e_Revision e) demo_updated = (demo_updated, Inl f)"
proof -
  obtain e where e: "bucket_Get None demo_who ''b'' 6 ''k'' demo_bucket = Inr e" "e_Revision e = 1"
    using demo_get by blast
  with demo_update have "bucket_Update None demo_who ''b'' 6 7 ''k'' ''w'' (e_Revision e) demo_bucket =
      (demo_updated, Inr 2)" by simp
  from update_replaces_what_was_read [OF demo_bucket_inv e(1) rtranclp.rtrancl_refl this
      rtranclp.rtrancl_refl, of demo_who 8 8 "''z''"] e
  show ?thesis by blast
qed


lemma demo_watch_run:
  "kv_step\<^sup>*\<^sup>* (newBucket (b_spec demo_bucket)) (fst (bucket_Watch None ''b'' 6 '''' demo_bucket))"
proof -
  have "demo_bucket = fst (bucket_Put None 5 ''k'' ''v'' (newBucket (b_spec demo_bucket)))"
    by (simp add: demo_bucket_defs bucket_Put_def)
  then have "kv_step (newBucket (b_spec demo_bucket)) demo_bucket" by (metis Put)
  moreover have "kv_step demo_bucket (fst (bucket_Watch None ''b'' 6 '''' demo_bucket))" by (rule Watch)
  ultimately show ?thesis by (meson converse_rtranclp_into_rtranclp r_into_rtranclp)
qed

lemma ParsePattern_all: "ParsePattern ''>'' = Inr ''>''"
  by code_simp

lemma Matches_all_k: "Matches ''>'' ''k''"
  by code_simp


end
