(* ===== verification/Objects.thy ===== *)
theory Objects
  imports KV
begin

text \<open>
  Object buckets, \<^verbatim>\<open>src/v2/bus/memory/objects.go\<close>. The operations take the result of \<^verbatim>\<open>off\<close> (a fault
  when the capability is missing or the connection is dead), the identity of the connection, and the
  map of object buckets of the store, which they return updated.

  A reader is what reading it to the end gives: nothing for a nil reader, the text of an error, or the
  bytes. \<^verbatim>\<open>sha256\<close> with \<^verbatim>\<open>hex\<close> is the argument \<open>hexsum\<close>.
\<close>

record ObjectMeta =
  om_Name :: string
  om_Bucket :: string
  om_Size :: int
  om_Digest :: string
  om_Modified :: instant
  om_Description :: string
  om_Headers :: Headers

record object =
  ob_meta :: ObjectMeta
  ob_data :: bytes

record objWatcher =
  ow_queue :: "ObjectMeta list"
  ow_err :: "Fault option"
  ow_stopped :: bool
  ow_wake :: bool
  ow_done :: bool
  ow_hand :: "ObjectMeta option"
  ow_received :: "ObjectMeta list"
  ow_exited :: bool

record objBucket =
  o_spec :: BucketSpec
  o_objs :: "(string, object) amap"
  o_watchers :: "objWatcher list"

section \<open>The watcher\<close>

definition obj_offer :: "ObjectMeta \<Rightarrow> objWatcher \<Rightarrow> objWatcher" where
  "obj_offer m w =
     (if ow_stopped w then w else w\<lparr>ow_queue := ow_queue w @ [m], ow_wake := True\<rparr>)"

definition obj_stopWith :: "Fault option \<Rightarrow> objWatcher \<Rightarrow> objWatcher" where
  "obj_stopWith err w =
     (if ow_stopped w then w
      else w\<lparr>ow_stopped := True, ow_err := (case err of Some e \<Rightarrow> Some e | None \<Rightarrow> ow_err w), ow_done := True\<rparr>)"

definition obj_Stop :: "objWatcher \<Rightarrow> objWatcher" where
  "obj_Stop w = obj_stopWith None w"

inductive obj_watcher_step :: "objWatcher \<Rightarrow> objWatcher \<Rightarrow> bool" where
  obj_take: "\<not> ow_exited w \<Longrightarrow> ow_hand w = None \<Longrightarrow> ow_queue w = e # es \<Longrightarrow>
     obj_watcher_step w (w\<lparr>ow_queue := es, ow_hand := Some e\<rparr>)"
| obj_send: "\<not> ow_exited w \<Longrightarrow> ow_hand w = Some e \<Longrightarrow>
     obj_watcher_step w (w\<lparr>ow_hand := None, ow_received := ow_received w @ [e]\<rparr>)"
| obj_sleep: "\<not> ow_exited w \<Longrightarrow> ow_hand w = None \<Longrightarrow> ow_queue w = [] \<Longrightarrow> ow_wake w \<Longrightarrow>
     obj_watcher_step w (w\<lparr>ow_wake := False\<rparr>)"
| obj_quit: "\<not> ow_exited w \<Longrightarrow> ow_done w \<Longrightarrow> ow_hand w \<noteq> None \<or> ow_queue w = [] \<Longrightarrow>
     obj_watcher_step w (w\<lparr>ow_exited := True\<rparr>)"

section \<open>The operations\<close>

definition obj_grant :: "Identity \<Rightarrow> string \<Rightarrow> Fault option" where
  "obj_grant i name =
     (if \<not> CanUse (Id_Grants i) AssetObjects name then
        Some (Denied (''obj:'' @ name) (Identity_String i) ''object bucket is not provisioned for this principal'')
      else None)"

definition obj_lookup :: "Identity \<Rightarrow> string \<Rightarrow> (string, objBucket) amap \<Rightarrow> objBucket res" where
  "obj_lookup i name objs =
     (case obj_grant i name of
        Some e \<Rightarrow> Inl e
      | None \<Rightarrow>
          (case map_of objs name of
             None \<Rightarrow> Inl (mkFault FaultNotFound (''obj:'' @ name)
                       (''principal '' @ Identity_String i @ '': no such object bucket''))
           | Some b \<Rightarrow> Inr b))"

definition obj_Declare ::
  "Fault option \<Rightarrow> Identity \<Rightarrow> BucketSpec \<Rightarrow> (string, objBucket) amap \<Rightarrow> (string, objBucket) amap \<times> unit res" where
  "obj_Declare off i spec objs =
     (case off of Some e \<Rightarrow> (objs, Inl e)
      | None \<Rightarrow>
          if bs_Name spec = '''' then
            (objs, Inl (mkFault FaultSchema ''obj:'' (''principal '' @ Identity_String i @ '': bucket name is empty'')))
          else case obj_grant i (bs_Name spec) of
            Some e \<Rightarrow> (objs, Inl e)
          | None \<Rightarrow>
              if map_of objs (bs_Name spec) \<noteq> None then (objs, Inr ())
              else (AList.update (bs_Name spec) \<lparr>o_spec = spec, o_objs = [], o_watchers = []\<rparr> objs, Inr ()))"

definition read_all :: "(string + bytes) option \<Rightarrow> string + bytes" where
  "read_all r = (case r of None \<Rightarrow> Inr [] | Some x \<Rightarrow> x)"

definition obj_op :: "string \<Rightarrow> string \<Rightarrow> string" where
  "obj_op bucket name = ''obj:'' @ bucket @ ''/'' @ name"

definition obj_Put ::
  "(bytes \<Rightarrow> string) \<Rightarrow> Fault option \<Rightarrow> Identity \<Rightarrow> instant \<Rightarrow> ObjectMeta \<Rightarrow> (string + bytes) option \<Rightarrow>
     (string, objBucket) amap \<Rightarrow> (string, objBucket) amap \<times> ObjectMeta res" where
  "obj_Put hexsum off i now meta r objs =
     (case off of Some e \<Rightarrow> (objs, Inl e)
      | None \<Rightarrow>
          if om_Name meta = '''' then
            (objs, Inl (mkFault FaultSchema (''obj:'' @ om_Bucket meta)
                          (''principal '' @ Identity_String i @ '': object name is empty'')))
          else case read_all r of
            Inl err \<Rightarrow>
              (objs, Inl \<lparr>Code = FaultUnhandled, Op = obj_op (om_Bucket meta) (om_Name meta),
                          Message = ''principal '' @ Identity_String i @ '': '' @ err, Err = Some (WrapText err)\<rparr>)
          | Inr data \<Rightarrow>
              (case obj_lookup i (om_Bucket meta) objs of
                 Inl e \<Rightarrow> (objs, Inl e)
               | Inr b \<Rightarrow>
                   if 0 < bs_MaxBytes (o_spec b) \<and> bs_MaxBytes (o_spec b) < int (length data) then
                     (objs, Inl (mkFault FaultBudget (obj_op (om_Bucket meta) (om_Name meta))
                        (''principal '' @ Identity_String i @ '': object exceeds the bucket's MaxBytes'')))
                   else
                     (let out = meta\<lparr>om_Size := int (length data), om_Digest := ''sha-256='' @ hexsum data,
                                     om_Modified := now, om_Headers := Headers_Clone (om_Headers meta)\<rparr>;
                          b' = b\<lparr>o_objs := AList.update (om_Name meta) \<lparr>ob_meta = out, ob_data = data\<rparr> (o_objs b),
                                 o_watchers := map (obj_offer out) (o_watchers b)\<rparr>
                      in (AList.update (om_Bucket meta) b' objs, Inr out))))"

definition obj_find ::
  "Identity \<Rightarrow> string \<Rightarrow> string \<Rightarrow> (string, objBucket) amap \<Rightarrow> (objBucket \<times> object) res" where
  "obj_find i bucket name objs =
     (case obj_lookup i bucket objs of
        Inl e \<Rightarrow> Inl e
      | Inr b \<Rightarrow>
          (case map_of (o_objs b) name of
             None \<Rightarrow> Inl (mkFault FaultNotFound (obj_op bucket name)
                       (''principal '' @ Identity_String i @ '': no such object''))
           | Some x \<Rightarrow> Inr (b, x)))"

definition obj_Get ::
  "Fault option \<Rightarrow> Identity \<Rightarrow> string \<Rightarrow> string \<Rightarrow> (string, objBucket) amap \<Rightarrow> (bytes \<times> ObjectMeta) res" where
  "obj_Get off i bucket name objs =
     (case off of Some e \<Rightarrow> Inl e
      | None \<Rightarrow> (case obj_find i bucket name objs of Inl e \<Rightarrow> Inl e | Inr (b, x) \<Rightarrow> Inr (ob_data x, ob_meta x)))"

definition obj_Info ::
  "Fault option \<Rightarrow> Identity \<Rightarrow> string \<Rightarrow> string \<Rightarrow> (string, objBucket) amap \<Rightarrow> ObjectMeta res" where
  "obj_Info off i bucket name objs =
     (case off of Some e \<Rightarrow> Inl e
      | None \<Rightarrow> (case obj_find i bucket name objs of Inl e \<Rightarrow> Inl e | Inr (b, x) \<Rightarrow> Inr (ob_meta x)))"

definition obj_Delete ::
  "Fault option \<Rightarrow> Identity \<Rightarrow> instant \<Rightarrow> string \<Rightarrow> string \<Rightarrow> (string, objBucket) amap \<Rightarrow>
     (string, objBucket) amap \<times> unit res" where
  "obj_Delete off i now bucket name objs =
     (case off of Some e \<Rightarrow> (objs, Inl e)
      | None \<Rightarrow>
          (case obj_find i bucket name objs of
             Inl e \<Rightarrow> (objs, Inl e)
           | Inr (b, x) \<Rightarrow>
               (let gone = (ob_meta x)\<lparr>om_Size := 0, om_Digest := '''', om_Modified := now\<rparr>;
                    b' = b\<lparr>o_objs := AList.delete name (o_objs b), o_watchers := map (obj_offer gone) (o_watchers b)\<rparr>
                in (AList.update bucket b' objs, Inr ()))))"

definition obj_List :: "Fault option \<Rightarrow> Identity \<Rightarrow> string \<Rightarrow> (string, objBucket) amap \<Rightarrow> ObjectMeta list res" where
  "obj_List off i bucket objs =
     (case off of Some e \<Rightarrow> Inl e
      | None \<Rightarrow>
          (case obj_lookup i bucket objs of
             Inl e \<Rightarrow> Inl e
           | Inr b \<Rightarrow> Inr (sort_key om_Name (map (\<lambda>(n, x). ob_meta x) (o_objs b)))))"

definition obj_snapshot :: "objBucket \<Rightarrow> ObjectMeta list" where
  "obj_snapshot b =
     concat (map (\<lambda>n. case map_of (o_objs b) n of None \<Rightarrow> [] | Some x \<Rightarrow> [ob_meta x]) (sort (map fst (o_objs b))))"

definition newObjWatcher :: "ObjectMeta list \<Rightarrow> objWatcher" where
  "newObjWatcher q =
     \<lparr>ow_queue = q, ow_err = None, ow_stopped = False, ow_wake = False, ow_done = False,
      ow_hand = None, ow_received = [], ow_exited = False\<rparr>"

definition obj_Watch ::
  "Fault option \<Rightarrow> Identity \<Rightarrow> string \<Rightarrow> (string, objBucket) amap \<Rightarrow> (string, objBucket) amap \<times> nat res" where
  \<comment> \<open>answers the index of the new watcher in its bucket\<close>
  "obj_Watch off i bucket objs =
     (case off of Some e \<Rightarrow> (objs, Inl e)
      | None \<Rightarrow>
          (case obj_lookup i bucket objs of
             Inl e \<Rightarrow> (objs, Inl e)
           | Inr b \<Rightarrow>
               (AList.update bucket (b\<lparr>o_watchers := o_watchers b @ [newObjWatcher (obj_snapshot b)]\<rparr>) objs,
                Inr (length (o_watchers b)))))"

section \<open>What the operations do to the map\<close>

lemma obj_lookup_Inr: "obj_lookup i name objs = Inr b \<longleftrightarrow> CanUse (Id_Grants i) AssetObjects name \<and> map_of objs name = Some b"
  by (auto simp: obj_lookup_def obj_grant_def split: option.splits)

lemma obj_Put_Inr:
  assumes "obj_Put hexsum off i now meta r objs = (objs', Inr out)"
  obtains b data where "off = None" "om_Name meta \<noteq> ''''" "read_all r = Inr data"
    "obj_lookup i (om_Bucket meta) objs = Inr b"
    "\<not> (0 < bs_MaxBytes (o_spec b) \<and> bs_MaxBytes (o_spec b) < int (length data))"
    "out = meta\<lparr>om_Size := int (length data), om_Digest := ''sha-256='' @ hexsum data,
              om_Modified := now, om_Headers := Headers_Clone (om_Headers meta)\<rparr>"
    "objs' = AList.update (om_Bucket meta)
       (b\<lparr>o_objs := AList.update (om_Name meta) \<lparr>ob_meta = out, ob_data = data\<rparr> (o_objs b),
          o_watchers := map (obj_offer out) (o_watchers b)\<rparr>) objs"
  using assms by (auto simp: obj_Put_def Let_def split: option.splits if_splits sum.splits)

section \<open>Properties\<close>

text \<open>C20. Objects round trip: after a successful \<open>Put\<close>, a \<open>Get\<close> of that name returns exactly the bytes that
  were read and the metadata \<open>Put\<close> returned, with their size and digest; within the bucket's
  \<open>MaxBytes\<close>; and a \<open>Get\<close> of any other object gives what it gave before.\<close>

theorem object_put_get:
  assumes "obj_Put hexsum off i now meta (Some (Inr data)) objs = (objs', Inr out)"
  shows "obj_Get None i (om_Bucket meta) (om_Name meta) objs' = Inr (data, out) \<and>
    om_Size out = int (length data) \<and> om_Digest out = ''sha-256='' @ hexsum data \<and>
    (\<exists>b. map_of objs (om_Bucket meta) = Some b \<and>
       (0 < bs_MaxBytes (o_spec b) \<longrightarrow> int (length data) \<le> bs_MaxBytes (o_spec b))) \<and>
    ((bucket, name) \<noteq> (om_Bucket meta, om_Name meta) \<longrightarrow>
       obj_Get None i' bucket name objs' = obj_Get None i' bucket name objs)"
proof -
  obtain b where b: "obj_lookup i (om_Bucket meta) objs = Inr b"
    "\<not> (0 < bs_MaxBytes (o_spec b) \<and> bs_MaxBytes (o_spec b) < int (length data))"
    "out = meta\<lparr>om_Size := int (length data), om_Digest := ''sha-256='' @ hexsum data,
              om_Modified := now, om_Headers := Headers_Clone (om_Headers meta)\<rparr>"
    "objs' = AList.update (om_Bucket meta)
       (b\<lparr>o_objs := AList.update (om_Name meta) \<lparr>ob_meta = out, ob_data = data\<rparr> (o_objs b),
          o_watchers := map (obj_offer out) (o_watchers b)\<rparr>) objs"
    using assms by (elim obj_Put_Inr) (auto simp: read_all_def)
  have b': "CanUse (Id_Grants i) AssetObjects (om_Bucket meta)" "map_of objs (om_Bucket meta) = Some b"
    using b(1) by (simp_all add: obj_lookup_Inr)
  have "obj_Get None i (om_Bucket meta) (om_Name meta) objs' = Inr (data, out)"
    using b' b(4) by (simp add: obj_Get_def obj_find_def obj_lookup_def obj_grant_def amap_simps)
  moreover have "obj_Get None i' bucket name objs' = obj_Get None i' bucket name objs"
    if "(bucket, name) \<noteq> (om_Bucket meta, om_Name meta)"
    using b' b(4) that
    by (auto simp: obj_Get_def obj_find_def obj_lookup_def obj_grant_def amap_simps split: option.split)
  ultimately show ?thesis using b' b(2,3) by auto
qed

definition demo_objects :: "(string, objBucket) amap" where
  "demo_objects =
     [(''o'', \<lparr>o_spec = \<lparr>bs_Name = ''o'', bs_History = 0, bs_TTL = 0, bs_MaxBytes = 3, bs_Metadata = []\<rparr>,
               o_objs = [], o_watchers = []\<rparr>)]"

definition demo_meta :: ObjectMeta where
  "demo_meta = \<lparr>om_Name = ''n'', om_Bucket = ''o'', om_Size = 0, om_Digest = '''', om_Modified = 0,
                om_Description = '''', om_Headers = []\<rparr>"

definition demo_owner :: Identity where
  "demo_owner = demo_who\<lparr>Id_Grants := (Id_Grants demo_who)\<lparr>g_Objects := [''o'']\<rparr>\<rparr>"

lemma demo_put:
  "\<exists>objs' out. obj_Put id None demo_owner 5 demo_meta (Some (Inr ''xyz'')) demo_objects = (objs', Inr out)"
  by (simp add: obj_Put_def demo_meta_def read_all_def obj_lookup_def obj_grant_def CanUse_def
      AssetObjects_def AssetKV_def AssetStream_def demo_owner_def demo_who_def demo_objects_def Let_def)

theorem object_put_get_witness:
  "\<exists>objs' out. obj_Put id None demo_owner 5 demo_meta (Some (Inr ''xyz'')) demo_objects = (objs', Inr out) \<and>
     obj_Get None demo_owner ''o'' ''n'' objs' = Inr (''xyz'', out) \<and> om_Size out = 3"
proof -
  obtain objs' out where
    p: "obj_Put id None demo_owner 5 demo_meta (Some (Inr ''xyz'')) demo_objects = (objs', Inr out)"
    using demo_put by blast
  have "om_Bucket demo_meta = ''o''" "om_Name demo_meta = ''n''" by (simp_all add: demo_meta_def)
  with object_put_get [OF p, of "''o''" "''m''" demo_owner] p show ?thesis by auto
qed

end
