(* ===== verification/Cron.thy ===== *)
theory Cron
  imports Bus_Prelude
begin

text \<open>
  The cron expressions of the scheduler, \<^verbatim>\<open>src/v2/bus/memory/cron.go\<close>: the parser and the search for
  the next fire time, with the part of \<^verbatim>\<open>time\<close> they use. Instants are UTC; the civil date of a day is
  that of the proleptic Gregorian calendar. Day 0 is Monday, 1 January of year 1, and years and months
  are counted from 0 inside this theory.

  The Booleans of the Go arrays are lists of the same length. The texts of parse errors quote the
  field with \<^verbatim>\<open>strconv.Quote\<close>, which is an argument (\<open>Quote\<close>). \<^verbatim>\<open>strings.Fields\<close> is modelled for
  ASCII text.
\<close>

section \<open>Reading numbers\<close>

definition is_space :: "char \<Rightarrow> bool" where
  "is_space c = (code c \<in> {9, 10, 11, 12, 13, 32})"

fun fields_from :: "string \<Rightarrow> string \<Rightarrow> string list" where
  "fields_from acc [] = (if acc = [] then [] else [acc])"
| "fields_from acc (c # cs) =
     (if is_space c then (if acc = [] then fields_from [] cs else acc # fields_from [] cs)
      else fields_from (acc @ [c]) cs)"

definition Fields :: "string \<Rightarrow> string list" where
  "Fields s = fields_from [] s"

definition Atoi :: "string \<Rightarrow> int option" where
  \<comment> \<open>\<^verbatim>\<open>strconv.Atoi\<close>: an optional sign, decimal digits, in range of a 64-bit \<^verbatim>\<open>int\<close>\<close>
  "Atoi s =
     (let neg = (case s of c # _ \<Rightarrow> c = CHR ''-'' | [] \<Rightarrow> False);
          ds = (case s of c # cs \<Rightarrow> if c = CHR ''-'' \<or> c = CHR ''+'' then cs else s | [] \<Rightarrow> s);
          n = (if neg then - int (undecimal ds) else int (undecimal ds))
      in if ds = [] \<or> \<not> list_all is_digit ds then None
         else if - (2 ^ 63) \<le> n \<and> n < 2 ^ 63 then Some n else None)"

definition Itoa :: "int \<Rightarrow> string" where
  "Itoa n = (if n < 0 then CHR ''-'' # decimal (nat (- n)) else decimal (nat n))"

definition wrap64 :: "int \<Rightarrow> int" where
  "wrap64 n = (n + 2 ^ 63) mod 2 ^ 64 - 2 ^ 63"

section \<open>Parsing\<close>

record cronExpr =
  cr_minute :: "bool list"
  cr_hour :: "bool list"
  cr_dom :: "bool list"
  cr_month :: "bool list"
  cr_dow :: "bool list"
  cr_domRestricted :: bool
  cr_dowRestricted :: bool

text \<open>\<^verbatim>\<open>fold\<close> is the identity or the folding of Sunday; \<^verbatim>\<open>mark\<close> fails out of range.\<close>

definition fold_dow :: "int \<Rightarrow> int" where
  "fold_dow n = (if n = 7 then 0 else n)"

definition cron_mark :: "(int \<Rightarrow> int) \<Rightarrow> int \<Rightarrow> int \<Rightarrow> int \<Rightarrow> bool list \<Rightarrow> bool list option" where
  "cron_mark f mn mx n bs =
     (let n' = f n
      in if n' < mn \<or> mx < n' \<or> int (length bs) \<le> n' then None else Some (bs[nat n' := True]))"

text \<open>The loop over a range with a step. The addition wraps like Go's; a number that wrapped is
  negative, so below every minimum, and ends the loop in the error of \<^verbatim>\<open>mark\<close>.\<close>

function mark_range ::
  "(int \<Rightarrow> int) \<Rightarrow> int \<Rightarrow> int \<Rightarrow> int \<Rightarrow> int \<Rightarrow> int \<Rightarrow> bool list \<Rightarrow> bool list option" where
  "mark_range f mn mx n hi step bs =
     (if hi < n then Some bs
      else if n < 0 \<or> 2 ^ 63 \<le> n \<or> step \<le> 0 \<or> 2 ^ 63 \<le> step then None
      else case cron_mark f mn mx n bs of
             None \<Rightarrow> None
           | Some bs' \<Rightarrow> mark_range f mn mx (wrap64 (n + step)) hi step bs')"
  by pat_completeness auto
termination
proof (relation "measure (\<lambda>(f, mn, mx, n, hi, step, bs). if n < 0 then 0 else Suc (nat (hi + 1 - n)))",
    goal_cases)
  case (2 f mn mx n hi step bs bs')
  then have "n + step < 2 ^ 64" by simp
  show ?case
  proof (cases "n + step < 2 ^ 63")
    case True
    with 2 have "wrap64 (n + step) = n + step" by (simp add: wrap64_def)
    with 2 show ?thesis by auto
  next
    case False
    have "(n + step + 2 ^ 63) mod 2 ^ 64 = (n + step + 2 ^ 63 - 2 ^ 64) mod 2 ^ 64"
      by (rule minus_mod_self2 [symmetric])
    also have "\<dots> = n + step + 2 ^ 63 - 2 ^ 64"
      using False \<open>n + step < 2 ^ 64\<close> by (intro mod_pos_pos_trivial) auto
    finally have "(n + step + 2 ^ 63) mod 2 ^ 64 = n + step + 2 ^ 63 - 2 ^ 64" .
    with False 2 have "wrap64 (n + step) < 0" by (simp add: wrap64_def)
    with 2 show ?thesis by auto
  qed
qed auto

declare mark_range.simps [simp del]

definition has_char :: "char \<Rightarrow> string \<Rightarrow> bool" where
  "has_char c s = (c \<in> set s)"

text \<open>One comma-separated part of a field: \<open>None\<close> is the error \<^verbatim>\<open>bad()\<close>.\<close>

definition fill_part :: "(int \<Rightarrow> int) \<Rightarrow> int \<Rightarrow> int \<Rightarrow> string \<Rightarrow> bool list \<Rightarrow> bool list option" where
  "fill_part f mn mx part0 bs =
     (if part0 = '''' then None
      else
        case (case cut_on (CHR ''/'') part0 of
                None \<Rightarrow> Some (part0, 1)
              | Some (base, s) \<Rightarrow>
                  (case Atoi s of Some n \<Rightarrow> if n \<le> 0 then None else Some (base, n) | None \<Rightarrow> None)) of
          None \<Rightarrow> None
        | Some (part, step) \<Rightarrow>
            if part = ''*'' then mark_range f mn mx mn mx step bs
            else if has_char (CHR ''-'') part then
              (case cut_on (CHR ''-'') part of
                 None \<Rightarrow> None
               | Some (a, b) \<Rightarrow>
                   (case (Atoi a, Atoi b) of
                      (Some x, Some y) \<Rightarrow>
                        (let x' = f x; y' = f y
                         in if y' < x' \<or> x' < mn \<or> mx < y' then None
                            else mark_range f mn mx x' y' step bs)
                    | _ \<Rightarrow> None))
            else
              (case Atoi part of
                 None \<Rightarrow> None
               | Some n \<Rightarrow> if step \<noteq> 1 then None else cron_mark f mn mx n bs))"

fun fill_parts :: "(int \<Rightarrow> int) \<Rightarrow> int \<Rightarrow> int \<Rightarrow> string list \<Rightarrow> bool list \<Rightarrow> bool list option" where
  "fill_parts f mn mx [] bs = Some bs"
| "fill_parts f mn mx (p # ps) bs =
     (case fill_part f mn mx p bs of None \<Rightarrow> None | Some bs' \<Rightarrow> fill_parts f mn mx ps bs')"

definition fillField ::
  "(string \<Rightarrow> string) \<Rightarrow> nat \<Rightarrow> string \<Rightarrow> int \<Rightarrow> int \<Rightarrow> (int \<Rightarrow> int) \<Rightarrow> string + bool list" where
  "fillField Quote cells field mn mx f =
     (let bad = Inl (''cron field '' @ Quote field @ '' is not valid for range '' @ Itoa mn @ ''-'' @ Itoa mx)
      in case fill_parts f mn mx (split_on (CHR '','') field) (replicate cells False) of
           None \<Rightarrow> bad
         | Some bs \<Rightarrow> if list_ex id bs then Inr bs else bad)"

definition parseCron :: "(string \<Rightarrow> string) \<Rightarrow> string \<Rightarrow> string + cronExpr" where
  "parseCron Quote expr =
     (case Fields expr of
        [f0, f1, f2, f3, f4] \<Rightarrow>
          (case fillField Quote 60 f0 0 59 id of Inl e \<Rightarrow> Inl e | Inr mi \<Rightarrow>
          (case fillField Quote 24 f1 0 23 id of Inl e \<Rightarrow> Inl e | Inr ho \<Rightarrow>
          (case fillField Quote 32 f2 1 31 id of Inl e \<Rightarrow> Inl e | Inr dm \<Rightarrow>
          (case fillField Quote 13 f3 1 12 id of Inl e \<Rightarrow> Inl e | Inr mo \<Rightarrow>
          (case fillField Quote 7 f4 0 6 fold_dow of Inl e \<Rightarrow> Inl e | Inr dw \<Rightarrow>
             Inr \<lparr>cr_minute = mi, cr_hour = ho, cr_dom = dm, cr_month = mo, cr_dow = dw,
                  cr_domRestricted = (f2 \<noteq> ''*''), cr_dowRestricted = (f4 \<noteq> ''*'')\<rparr>)))))
      | _ \<Rightarrow> Inl (''cron expression '' @ Quote expr @
               '' must have 5 fields: minute hour day-of-month month day-of-week''))"

section \<open>The calendar\<close>

definition minute_ns :: duration where "minute_ns = 60 * second"
definition hour_ns :: duration where "hour_ns = 60 * minute_ns"
definition day_ns :: duration where "day_ns = 24 * hour_ns"

definition leap :: "int \<Rightarrow> bool" where
  "leap y = ((y + 1) mod 4 = 0 \<and> ((y + 1) mod 100 \<noteq> 0 \<or> (y + 1) mod 400 = 0))"

definition year_start :: "int \<Rightarrow> int" where
  "year_start y = 365 * y + y div 4 - y div 100 + y div 400"

definition year_of :: "int \<Rightarrow> int" where
  "year_of d =
     (let n400 = d div 146097; r = d mod 146097;
          n100 = min 3 (r div 36524); s = r - 36524 * n100;
          n4 = s div 1461; u = s mod 1461;
          n1 = min 3 (u div 365)
      in 400 * n400 + 100 * n100 + 4 * n4 + n1)"

definition days_before :: "bool \<Rightarrow> nat \<Rightarrow> int" where
  "days_before lp m =
     [0, 31, 59, 90, 120, 151, 181, 212, 243, 273, 304, 334, 365] ! m + (if lp \<and> 2 \<le> m then 1 else 0)"

definition month_of :: "int \<Rightarrow> nat" where
  \<comment> \<open>0 is January\<close>
  "month_of d =
     (let y = year_of d
      in length (filter (\<lambda>m. days_before (leap y) m \<le> d - year_start y) [1 ..< 12]))"

definition month_start :: "int \<Rightarrow> nat \<Rightarrow> int" where
  "month_start y m = year_start y + days_before (leap y) m"

definition dom_of :: "int \<Rightarrow> nat" where
  "dom_of d = nat (d - month_start (year_of d) (month_of d)) + 1"

definition dow_of :: "int \<Rightarrow> nat" where
  "dow_of d = nat ((d + 1) mod 7)"

definition next_month :: "int \<Rightarrow> int" where
  "next_month d = month_start (year_of d) (month_of d + 1)"

definition AddYears :: "int \<Rightarrow> instant \<Rightarrow> instant" where
  \<comment> \<open>\<^verbatim>\<open>AddDate(n, 0, 0)\<close>; a day the month does not have moves into the next month\<close>
  "AddYears n t =
     (let d = t div day_ns
      in (month_start (year_of d + n) (month_of d) + int (dom_of d) - 1) * day_ns + t mod day_ns)"

section \<open>The next fire time\<close>

definition matchesDay :: "cronExpr \<Rightarrow> int \<Rightarrow> bool" where
  "matchesDay c d =
     (let dom = cr_dom c ! dom_of d; dow = cr_dow c ! dow_of d
      in if cr_domRestricted c \<and> cr_dowRestricted c then dom \<or> dow
         else if cr_domRestricted c then dom
         else if cr_dowRestricted c then dow
         else True)"

definition hour_of :: "instant \<Rightarrow> nat" where
  "hour_of t = nat (t mod day_ns div hour_ns)"

definition minute_of :: "instant \<Rightarrow> nat" where
  "minute_of t = nat (t mod hour_ns div minute_ns)"

lemma ns_defs: "minute_ns = 60000000000" "hour_ns = 3600000000000" "day_ns = 86400000000000"
  by (simp_all add: minute_ns_def hour_ns_def day_ns_def second_def)

subsection \<open>The calendar is consistent\<close>

lemma div_plus1:
  fixes y k :: int
  assumes "0 < k"
  shows "(y + 1) div k = y div k + (if (y + 1) mod k = 0 then 1 else 0)"
proof -
  define q r where "q = y div k" and "r = y mod k"
  have r: "0 \<le> r" "r < k" using assms by (simp_all add: r_def)
  have y: "y + 1 = (r + 1) + k * q" by (simp add: q_def r_def)
  have "(y + 1) div k = q + (r + 1) div k" "(y + 1) mod k = (r + 1) mod k"
    unfolding y using assms by simp_all
  moreover have "(r + 1) div k = (if (r + 1) mod k = 0 then 1 else 0)"
    using r by (cases "r + 1 = k") auto
  ultimately show ?thesis by (simp add: q_def)
qed

lemma leap_days:
  "(P \<longrightarrow> Q) \<Longrightarrow> (Q \<longrightarrow> R) \<Longrightarrow>
     (if R then 1 else 0) - (if Q then 1 else 0) + (if P then 1 else 0) =
     (if R \<and> (\<not> Q \<or> P) then 1 else 0 :: int)"
  by (cases P; cases Q; cases R) simp_all

lemma year_start_Suc: "year_start (y + 1) = year_start y + 365 + (if leap y then 1 else 0)"
proof -
  have p: "(y + 1) mod 400 = 0 \<longrightarrow> (y + 1) mod 100 = 0" "(y + 1) mod 100 = 0 \<longrightarrow> (y + 1) mod 4 = 0"
    unfolding mod_eq_0_iff_dvd using dvd_trans [of "100 :: int" 400] dvd_trans [of "4 :: int" 100] by simp_all
  have "(y + 1) div 4 - (y + 1) div 100 + (y + 1) div 400 =
      y div 4 - y div 100 + y div 400 + (if leap y then 1 else 0)"
    using leap_days [OF p] unfolding leap_def div_plus1 [of 4 y, simplified] div_plus1 [of 100 y, simplified]
      div_plus1 [of 400 y, simplified] by linarith
  moreover have "365 * (y + 1) + p - q + r = 365 * y + p' - q' + r' + 365 + l"
    if "p - q + r = p' - q' + r' + l" for p q r p' q' r' l :: int using that by simp
  ultimately show ?thesis unfolding year_start_def by blast
qed

lemma year_start_mono: "y < z \<Longrightarrow> year_start y < year_start z"
proof (induction rule: int_less_induct [of _ z])
  case base
  then show ?case using year_start_Suc [of "z - 1"] by simp
next
  case (step i)
  then show ?case using year_start_Suc [of "i - 1"] by (simp split: if_splits)
qed

lemma year_of_bounds: "year_start (year_of d) \<le> d \<and> d < year_start (year_of d + 1)"
proof -
  define a r where "a = d div 146097" and "r = d mod 146097"
  define b where "b = min 3 (r div 36524)"
  define s where "s = r - 36524 * b"
  define c u where "c = s div 1461" and "u = s mod 1461"
  define e where "e = min 3 (u div 365)"
  have r: "0 \<le> r" "r < 146097" "d = 146097 * a + r" by (simp_all add: a_def r_def)
  have b: "0 \<le> b" "b \<le> 3" "0 \<le> s" "s < 36524 \<or> b = 3 \<and> s = 36524"
    using r unfolding b_def s_def by (auto simp: min_def)
  have s: "0 \<le> u" "u < 1461" "s = 1461 * c + u" by (simp_all add: c_def u_def)
  have c: "0 \<le> c" "c \<le> 24" using b s by auto
  have e: "0 \<le> e" "e \<le> 3" "365 * e \<le> u" "u < 365 * e + 365 \<or> e = 3 \<and> u = 1460"
    using s unfolding e_def by (auto simp: min_def)
  have y: "year_of d = 400 * a + 100 * b + 4 * c + e"
    by (simp add: year_of_def Let_def a_def r_def b_def s_def c_def u_def e_def)
  have div_add: "(k * q + x) div k = q" if "0 \<le> x" "x < k" for k q x :: int
    using that by (simp add: div_add1_eq)
  have d4: "year_of d div 4 = 100 * a + 25 * b + c"
    using div_add [of e 4 "100 * a + 25 * b + c"] e by (simp add: y algebra_simps)
  have d100: "year_of d div 100 = 4 * a + b"
    using div_add [of "4 * c + e" 100 "4 * a + b"] e c by (simp add: y algebra_simps)
  have d400: "year_of d div 400 = a"
    using div_add [of "100 * b + 4 * c + e" 400 a] e c b by (simp add: y algebra_simps)
  have start: "year_start (year_of d) = 146097 * a + 36524 * b + 1461 * c + 365 * e"
    unfolding year_start_def d4 d100 d400 using y by simp
  have leap: "leap (year_of d)" if "u = 1460" "e = 3"
  proof -
    have y1: "year_of d + 1 = 400 * a + 100 * b + 4 * (c + 1)" using y that by simp
    have m4: "(year_of d + 1) mod 4 = 0" unfolding y1 by presburger
    have m100: "(year_of d + 1) mod 100 = (4 * (c + 1)) mod 100"
    proof -
      have "year_of d + 1 = 4 * (c + 1) + (4 * a + b) * 100" unfolding y1 by simp
      then show ?thesis by (simp only: mod_mult_self1)
    qed
    show ?thesis
    proof (cases "c = 24")
      case True
      then have "b = 3" using b(4) s that by auto
      then have "year_of d + 1 = (a + 1) * 400" using y1 True by simp
      then show ?thesis using m4 by (simp add: leap_def)
    next
      case False
      then have "(4 * (c + 1)) mod 100 = 4 * (c + 1)" using c by (intro mod_pos_pos_trivial) auto
      then show ?thesis using m4 m100 c by (simp add: leap_def)
    qed
  qed
  have "d = year_start (year_of d) + (u - 365 * e)" using start r(3) s(3) unfolding s_def by simp
  with e leap show ?thesis by (auto simp: year_start_Suc)
qed

lemma year_of_unique:
  assumes "year_start y \<le> d" and "d < year_start (y + 1)"
  shows "year_of d = y"
proof -
  have "\<not> year_of d < y"
    using year_of_bounds [of d] year_start_mono [of "year_of d + 1" y] assms(1)
    by (cases "year_of d + 1 = y") auto
  moreover have "\<not> y < year_of d"
    using year_of_bounds [of d] year_start_mono [of "y + 1" "year_of d"] assms(2)
    by (cases "y + 1 = year_of d") auto
  ultimately show ?thesis by simp
qed

lemma days_before_12: "days_before lp 12 = 365 + (if lp then 1 else 0)" "days_before lp 0 = 0"
  by (simp_all add: days_before_def)

lemma month_list: "[1 ..< 12] = [1, 2, 3, 4, 5, 6, 7, 8, 9, 10, 11 :: nat]"
  by (simp add: upt_rec)

lemma months:
  "m < 12 \<Longrightarrow> m = 0 \<or> m = 1 \<or> m = 2 \<or> m = 3 \<or> m = 4 \<or> m = 5 \<or> m = 6 \<or> m = 7 \<or> m = 8 \<or> m = 9 \<or> m = 10 \<or> m = (11 :: nat)"
  by presburger

lemma month_of_interval:
  assumes "m < 12" and "month_start y m \<le> d" and "d < month_start y (m + 1)"
  shows "year_of d = y" and "month_of d = m"
proof -
  have lo: "0 \<le> days_before (leap y) m" and hi: "days_before (leap y) (m + 1) \<le> 365 + (if leap y then 1 else 0)"
    using months [OF assms(1)] by (elim disjE; simp add: days_before_def)+
  then show y: "year_of d = y"
    using assms(2,3) by (intro year_of_unique) (auto simp: month_start_def year_start_Suc)
  define x where "x = d - year_start y"
  have x: "days_before (leap y) m \<le> x" "x < days_before (leap y) (m + 1)"
    using assms(2,3) by (auto simp: month_start_def x_def)
  have "length (filter (\<lambda>m. days_before (leap y) m \<le> x) [1 ..< 12]) = m"
    unfolding month_list using x months [OF assms(1)]
    by (cases "leap y"; elim disjE; simp add: days_before_def)
  then show "month_of d = m" by (simp add: month_of_def y x_def)
qed


lemma month_bounds:
  "month_of d < 12 \<and> month_start (year_of d) (month_of d) \<le> d \<and> d < next_month d"
proof -
  define y x where "y = year_of d" and "x = d - year_start (year_of d)"
  have x: "0 \<le> x" "x < days_before (leap y) 12"
    using year_of_bounds [of d] by (auto simp: x_def y_def days_before_12 year_start_Suc)
  have "\<exists>m < n. days_before (leap y) m \<le> x \<and> x < days_before (leap y) (m + 1)"
    if "x < days_before (leap y) n" for n
    using that
  proof (induction n)
    case 0
    with x(1) show ?case by (simp add: days_before_12)
  next
    case (Suc n)
    then show ?case by (cases "x < days_before (leap y) n") (auto intro: less_SucI)
  qed
  from this [OF x(2)] obtain m where m: "m < 12" "days_before (leap y) m \<le> x" "x < days_before (leap y) (m + 1)"
    by blast
  then have "month_start y m \<le> d" "d < month_start y (m + 1)"
    by (auto simp: month_start_def x_def y_def)
  with month_of_interval [OF m(1) this] m(1) show ?thesis by (simp add: next_month_def y_def)
qed

lemma same_month: "d \<le> d' \<Longrightarrow> d' < next_month d \<Longrightarrow> month_of d' = month_of d"
  using month_bounds [of d] month_of_interval(2) [of "month_of d" "year_of d" d'] by (simp add: next_month_def)

subsection \<open>The search\<close>

definition fires :: "cronExpr \<Rightarrow> instant \<Rightarrow> bool" where
  "fires c t \<longleftrightarrow>
     cr_month c ! (month_of (t div day_ns) + 1) \<and> matchesDay c (t div day_ns) \<and>
     cr_hour c ! hour_of t \<and> cr_minute c ! minute_of t"

lemma ns_pos [simp]: "0 < minute_ns" "0 < hour_ns" "0 < day_ns"
  by (simp_all add: ns_defs)

lemma ns_nonneg [simp]: "0 \<le> minute_ns" "0 \<le> hour_ns" "0 \<le> day_ns"
  by (simp_all add: ns_defs)

lemma ns_nonzero [simp]: "minute_ns \<noteq> 0" "hour_ns \<noteq> 0" "day_ns \<noteq> 0"
  by (simp_all add: ns_defs)

lemma div_less_mult: "0 < k \<Longrightarrow> u < q * k \<Longrightarrow> u div k < q" for u q k :: int
proof (rule ccontr)
  assume k: "0 < k" "u < q * k" and "\<not> u div k < q"
  then have "q * k \<le> u div k * k" by (intro mult_right_mono) simp_all
  moreover have "u div k * k \<le> u" using k(1) by (simp add: minus_mod_eq_div_mult [symmetric])
  ultimately show False using k(2) by simp
qed

lemma next_unit: "0 < k \<Longrightarrow> t < (t div k + 1) * k" for t k :: int
  by (metis add.commute distrib_left div_mult_mod_eq mult.commute mult.right_neutral add_strict_left_mono pos_mod_bound)

lemma next_month_after: "t < next_month (t div day_ns) * day_ns"
proof -
  have "t div day_ns + 1 \<le> next_month (t div day_ns)" using month_bounds [of "t div day_ns"] by simp
  then have "(t div day_ns + 1) * day_ns \<le> next_month (t div day_ns) * day_ns"
    by (intro mult_right_mono) simp_all
  moreover have "t < (t div day_ns + 1) * day_ns" by (rule next_unit) simp
  ultimately show ?thesis by (rule less_le_trans [rotated])
qed

text \<open>The loop of \<^verbatim>\<open>next\<close>. Every round moves \<open>t\<close> forward, and it stops at \<open>limit\<close>.\<close>

function cron_search :: "cronExpr \<Rightarrow> instant \<Rightarrow> instant \<Rightarrow> instant option" where
  "cron_search c limit t =
     (if \<not> t < limit then None
      else if \<not> cr_month c ! (month_of (t div day_ns) + 1) then
        cron_search c limit (next_month (t div day_ns) * day_ns)
      else if \<not> matchesDay c (t div day_ns) then cron_search c limit ((t div day_ns + 1) * day_ns)
      else if \<not> cr_hour c ! hour_of t then cron_search c limit ((t div hour_ns + 1) * hour_ns)
      else if \<not> cr_minute c ! minute_of t then cron_search c limit (t + minute_ns)
      else Some t)"
  by pat_completeness auto
termination
  by (relation "measure (\<lambda>(c, limit, t). nat (limit - t))")
    (auto simp: next_month_after next_unit)

declare cron_search.simps [simp del]

definition cron_next :: "cronExpr \<Rightarrow> instant \<Rightarrow> instant option" where
  "cron_next c from =
     cron_search c (AddYears 5 from) ((from - from mod minute_ns) + minute_ns)"

lemma div_between:
  fixes k :: int
  assumes "0 < k" and "t \<le> u" and "u < (t div k + 1) * k"
  shows "u div k = t div k"
proof -
  have "t div k \<le> u div k" using assms(1,2) by (intro zdiv_mono1)
  moreover have "u div k < t div k + 1" using assms(1,3) by (rule div_less_mult)
  ultimately show ?thesis by simp
qed

lemma day_div: "t div day_ns = t div hour_ns div 24"
  by (simp add: day_ns_def zdiv_zmult2_eq mult.commute [of 24])

lemma hour_of_div: "hour_of t = nat (t div hour_ns mod 24)"
proof -
  have "t mod day_ns = hour_ns * (t div hour_ns mod 24) + t mod hour_ns"
    by (simp add: day_ns_def zmod_zmult2_eq mult.commute [of 24])
  moreover have "(hour_ns * x + t mod hour_ns) div hour_ns = x" for x
    by (simp add: div_add1_eq)
  ultimately have "t mod day_ns div hour_ns = t div hour_ns mod 24" by metis
  then show ?thesis by (simp add: hour_of_def)
qed

text \<open>Between two rounds no instant fires: the field that sent the search on is the same for all of
  them.\<close>

lemma skip_month:
  assumes "\<not> cr_month c ! (month_of (t div day_ns) + 1)" "t \<le> u" "u < next_month (t div day_ns) * day_ns"
  shows "\<not> fires c u"
proof -
  have "t div day_ns \<le> u div day_ns" using assms(2) by (intro zdiv_mono1) simp_all
  moreover have "u div day_ns < next_month (t div day_ns)"
    using assms(3) by (intro div_less_mult) simp_all
  ultimately show ?thesis using assms(1) by (simp add: fires_def same_month)
qed

lemma skip_day:
  "\<not> matchesDay c (t div day_ns) \<Longrightarrow> t \<le> u \<Longrightarrow> u < (t div day_ns + 1) * day_ns \<Longrightarrow> \<not> fires c u"
  using div_between [of day_ns t u] by (simp add: fires_def)

lemma skip_hour:
  assumes "\<not> cr_hour c ! hour_of t" "t \<le> u" "u < (t div hour_ns + 1) * hour_ns"
  shows "\<not> fires c u"
proof -
  have h: "u div hour_ns = t div hour_ns" using div_between [of hour_ns t u] assms(2,3) by simp
  with assms(1) show ?thesis by (simp add: fires_def hour_of_div)
qed

text \<open>Both outcomes of a search from \<open>t\<close>: \<open>r\<close> is the first minute that fires before the limit.\<close>

definition first_fire :: "cronExpr \<Rightarrow> instant \<Rightarrow> instant \<Rightarrow> instant option \<Rightarrow> bool" where
  "first_fire c limit t r \<longleftrightarrow>
     (case r of
        None \<Rightarrow> (\<forall>u. t \<le> u \<longrightarrow> u < limit \<longrightarrow> minute_ns dvd u \<longrightarrow> \<not> fires c u)
      | Some x \<Rightarrow> t \<le> x \<and> x < limit \<and> minute_ns dvd x \<and> fires c x \<and>
          (\<forall>u. t \<le> u \<longrightarrow> u < x \<longrightarrow> minute_ns dvd u \<longrightarrow> \<not> fires c u))"

lemma first_fire_skip:
  assumes "first_fire c limit t' r" and "t \<le> t'"
    and "\<And>u. t \<le> u \<Longrightarrow> u < t' \<Longrightarrow> minute_ns dvd u \<Longrightarrow> \<not> fires c u"
  shows "first_fire c limit t r"
proof (cases r)
  case None
  with assms show ?thesis unfolding first_fire_def by (auto, meson not_le)
next
  case (Some x)
  then have "\<not> fires c u" if "t \<le> u" "u < x" "minute_ns dvd u" for u
    using assms(1,3) that by (cases "u < t'") (auto simp: first_fire_def)
  with Some assms(1,2) show ?thesis by (simp add: first_fire_def)
qed

lemma dvd_units: "minute_ns dvd x * hour_ns" "minute_ns dvd x * day_ns"
  by (simp_all add: day_ns_def hour_ns_def mult.assoc [symmetric])

lemma next_minute:
  assumes "minute_ns dvd t" "minute_ns dvd u" "t \<le> u" "u < t + minute_ns"
  shows "u = t"
proof -
  from assms obtain a b where "t = minute_ns * a" "u = minute_ns * b" by (auto simp: dvd_def)
  with assms(3,4) have "minute_ns * (b - a) < minute_ns * 1" "0 \<le> minute_ns * (b - a)"
    by (simp_all add: algebra_simps)
  then have "b - a < 1" "0 \<le> b - a"
    using mult_less_cancel_left_pos [OF ns_pos(1)] mult_le_cancel_left_pos [OF ns_pos(1), of 0] by auto
  with \<open>t = minute_ns * a\<close> \<open>u = minute_ns * b\<close> show ?thesis by simp
qed

lemma cron_search_spec: "minute_ns dvd t \<Longrightarrow> first_fire c limit t (cron_search c limit t)"
proof (induction c limit t rule: cron_search.induct)
  case (1 c limit t)
  note eq = cron_search.simps [of c limit t]
  consider (stop) "\<not> t < limit"
    | (month) "t < limit" "\<not> cr_month c ! (month_of (t div day_ns) + 1)"
    | (day) "t < limit" "cr_month c ! (month_of (t div day_ns) + 1)" "\<not> matchesDay c (t div day_ns)"
    | (hour) "t < limit" "cr_month c ! (month_of (t div day_ns) + 1)" "matchesDay c (t div day_ns)"
        "\<not> cr_hour c ! hour_of t"
    | (minute) "t < limit" "cr_month c ! (month_of (t div day_ns) + 1)" "matchesDay c (t div day_ns)"
        "cr_hour c ! hour_of t" "\<not> cr_minute c ! minute_of t"
    | (hit) "t < limit" "fires c t"
    by (auto simp: fires_def)
  then show ?case
  proof cases
    case stop
    with eq show ?thesis by (simp add: first_fire_def)
  next
    case month
    with "1.IH"(1) dvd_units have "first_fire c limit (next_month (t div day_ns) * day_ns) (cron_search c limit t)"
      by (simp add: eq)
    then show ?thesis
      by (rule first_fire_skip) (use month next_month_after [of t] skip_month in auto)
  next
    case day
    with "1.IH"(2) dvd_units have "first_fire c limit ((t div day_ns + 1) * day_ns) (cron_search c limit t)"
      by (simp add: eq)
    then show ?thesis
      by (rule first_fire_skip) (use day next_unit [of day_ns t] skip_day in auto)
  next
    case hour
    with "1.IH"(3) dvd_units have "first_fire c limit ((t div hour_ns + 1) * hour_ns) (cron_search c limit t)"
      by (simp add: eq)
    then show ?thesis
      by (rule first_fire_skip) (use hour next_unit [of hour_ns t] skip_hour in auto)
  next
    case minute
    with "1.IH"(4) "1.prems" have "first_fire c limit (t + minute_ns) (cron_search c limit t)"
      by (simp add: eq)
    then show ?thesis
      by (rule first_fire_skip) (use minute "1.prems" next_minute in \<open>auto simp: fires_def\<close>)
  next
    case hit
    then have "cron_search c limit t = Some t" by (simp add: eq fires_def)
    with hit "1.prems" show ?thesis by (simp add: first_fire_def)
  qed
qed


lemma next_aligned:
  assumes "from < u" and "minute_ns dvd u"
  shows "(from - from mod minute_ns) + minute_ns \<le> u"
proof -
  have a: "minute_ns dvd from - from mod minute_ns" by (simp add: minus_mod_eq_div_mult)
  have "from - from mod minute_ns \<le> u" using assms(1) pos_mod_sign [OF ns_pos(1), of "from"] by linarith
  then have "u = from - from mod minute_ns" if "u < from - from mod minute_ns + minute_ns"
    using next_minute [OF a assms(2)] that by simp
  moreover have "from - from mod minute_ns \<le> from" using pos_mod_sign [OF ns_pos(1), of "from"] by linarith
  ultimately show ?thesis using assms(1) by (metis not_le order.strict_trans2 less_irrefl)
qed

section \<open>Parsed expressions are well formed\<close>

lemma cron_mark_length: "cron_mark f mn mx n bs = Some bs' \<Longrightarrow> length bs' = length bs"
  by (auto simp: cron_mark_def Let_def split: if_splits)

lemma mark_range_length: "mark_range f mn mx n hi step bs = Some bs' \<Longrightarrow> length bs' = length bs"
proof (induction f mn mx n hi step bs rule: mark_range.induct)
  case (1 f mn mx n hi step bs)
  then show ?case
    by (subst (asm) mark_range.simps) (auto split: if_splits option.splits dest: cron_mark_length)
qed

lemma fill_part_length: "fill_part f mn mx p bs = Some bs' \<Longrightarrow> length bs' = length bs"
  by (auto simp: fill_part_def Let_def split: if_splits option.splits prod.splits
      dest: cron_mark_length mark_range_length)

lemma fill_parts_length: "fill_parts f mn mx ps bs = Some bs' \<Longrightarrow> length bs' = length bs"
  by (induction ps arbitrary: bs) (auto split: option.splits dest: fill_part_length)

lemma fillField_ok:
  "fillField Quote cells field mn mx f = Inr bs \<Longrightarrow> length bs = cells \<and> True \<in> set bs"
  by (auto simp: fillField_def Let_def list_ex_iff split: option.splits if_splits dest: fill_parts_length)

section \<open>Properties\<close>

text \<open>C18. The next fire time is the first: \<^verbatim>\<open>next\<close> returns a whole minute after \<open>from\<close> that the expression
  matches, with no earlier one in between, and it returns nothing only when no minute of the next five
  years matches. The jumps over months, days and hours never jump over a match, and the search ends.\<close>

theorem cron_next_is_first:
  "case cron_next c from of
     None \<Rightarrow> {u. from < u \<and> u < AddYears 5 from \<and> minute_ns dvd u \<and> fires c u} = {}
   | Some t \<Rightarrow> from < t \<and> t < AddYears 5 from \<and> minute_ns dvd t \<and> fires c t \<and>
       {u. from < u \<and> u < t \<and> minute_ns dvd u \<and> fires c u} = {}"
proof -
  let ?t = "(from - from mod minute_ns) + minute_ns"
  have "minute_ns dvd ?t" by (simp add: minus_mod_eq_div_mult)
  from cron_search_spec [OF this, of c "AddYears 5 from"]
  have ff: "first_fire c (AddYears 5 from) ?t (cron_next c from)" by (simp add: cron_next_def)
  have lt: "from < ?t" using pos_mod_bound [OF ns_pos(1), of "from"] by linarith
  show ?thesis
  proof (cases "cron_next c from")
    case None
    with ff next_aligned show ?thesis by (auto simp: first_fire_def)
  next
    case (Some t)
    with ff have t: "?t \<le> t" "t < AddYears 5 from" "minute_ns dvd t" "fires c t"
      by (simp_all add: first_fire_def)
    have "\<not> fires c u" if "from < u" "u < t" "minute_ns dvd u" for u
      using ff Some next_aligned [OF that(1,3)] that by (simp add: first_fire_def)
    moreover have "from < t" using lt t(1) by (rule less_le_trans)
    ultimately show ?thesis using Some t by auto
  qed
qed

text \<open>Parsed expressions are well formed: each field has its size and at least one value, and the
  values lie in the range of the field, so every lookup of the search is in bounds.\<close>

theorem parsed_cron_is_well_formed:
  assumes "parseCron Quote expr = Inr c"
  shows "length (cr_minute c) = 60 \<and> length (cr_hour c) = 24 \<and> length (cr_dom c) = 32 \<and>
    length (cr_month c) = 13 \<and> length (cr_dow c) = 7 \<and>
    True \<in> set (cr_minute c) \<and> True \<in> set (cr_hour c) \<and> True \<in> set (cr_dom c) \<and>
    True \<in> set (cr_month c) \<and> True \<in> set (cr_dow c) \<and>
    month_of d + 1 < 13 \<and> dom_of d < 32 \<and> dow_of d < 7 \<and> hour_of t < 24 \<and> minute_of t < 60"
proof -
  have "dom_of d < 32"
  proof -
    have "days_before lp (m + 1) - days_before lp m \<le> 31" if "m < 12" for lp m
      using months [OF that] by (elim disjE; simp add: days_before_def)
    from this [of "month_of d" "leap (year_of d)"] month_bounds [of d] show ?thesis
      by (auto simp: dom_of_def next_month_def month_start_def)
  qed
  moreover have "dow_of d < 7" by (simp add: dow_of_def nat_less_iff)
  moreover have "hour_of t < 24" by (simp add: hour_of_div nat_less_iff)
  moreover have "minute_of t < 60"
  proof -
    have "t mod hour_ns < 60 * minute_ns" using pos_mod_bound [OF ns_pos(2), of t] by (simp add: hour_ns_def)
    then have "t mod hour_ns div minute_ns < 60" by (intro div_less_mult) simp_all
    then show ?thesis by (simp add: minute_of_def nat_less_iff)
  qed
  moreover obtain f0 f1 f2 f3 f4 where "fillField Quote 60 f0 0 59 id = Inr (cr_minute c)"
    "fillField Quote 24 f1 0 23 id = Inr (cr_hour c)" "fillField Quote 32 f2 1 31 id = Inr (cr_dom c)"
    "fillField Quote 13 f3 1 12 id = Inr (cr_month c)" "fillField Quote 7 f4 0 6 fold_dow = Inr (cr_dow c)"
    using assms by (auto simp: parseCron_def split: list.splits sum.splits)
  ultimately show ?thesis using month_bounds [of d] by (auto dest!: fillField_ok)
qed

lemma demo_cron_parses: "\<exists>c. parseCron id ''*/15 9-17 1,15 * 1-5'' = Inr c"
proof -
  have "case parseCron id ''*/15 9-17 1,15 * 1-5'' of Inl _ \<Rightarrow> False | Inr _ \<Rightarrow> True" by code_simp
  then show ?thesis by (simp split: sum.splits)
qed

theorem parsed_cron_is_well_formed_witness:
  "\<exists>c. parseCron id ''*/15 9-17 1,15 * 1-5'' = Inr c \<and> length (cr_minute c) = 60 \<and> True \<in> set (cr_dow c)"
proof -
  obtain c where "parseCron id ''*/15 9-17 1,15 * 1-5'' = Inr c" using demo_cron_parses by blast
  with parsed_cron_is_well_formed [OF this, of 0 0] show ?thesis by blast
qed

text \<open>A weekday range that ends on the alternative number of Sunday is refused, because its end is
  folded to 0 before the comparison with its start.\<close>

lemma range_to_sunday_refused: "fill_part fold_dow 0 6 ''5-7'' (replicate 7 False) = None"
  by code_simp

lemma sunday_alone_accepted:
  "fill_part fold_dow 0 6 ''7'' (replicate 7 False) = Some [True, False, False, False, False, False, False]"
  by code_simp

end
