(* ===== verification/Substrate.thy ===== *)
theory Substrate
  imports Sub Consumer Objects Cron
begin

text \<open>
  The state of the in-memory substrate, \<^verbatim>\<open>src/v2/bus/memory/store.go\<close>, and its life cycle: connecting,
  restarting, revoking a principal and closing. The structs the store points to are declared here;
  their operations are in the theories of the components.

  Go pointers are addresses: the record \<open>Store\<close> has one list per kind of object that is shared by
  pointer (connections, subscriptions, reply channels, consumer states, consumers, key/value buckets,
  services), an address is a position in that list, and allocating appends. A stream, an object bucket
  and a schedule entry are reached through the store's maps only, so they are stored there. A buffered
  channel of one reply is a \<^typ>\<open>Msg option\<close>.

  Every call of the API is one step on this state; the interleavings inside a subscription, a
  consumer and a watcher are in the theories of these components. The goroutine that \<^verbatim>\<open>finish\<close> starts
  to take a subscription out of the store is the separate operation \<open>dropSub\<close>.
\<close>

type_synonym addr = nat

section \<open>Services and schedules as data\<close>

record EndpointSpec =
  ep_Name :: string
  ep_Subject :: Subject
  ep_QueueGroup :: string
  ep_Handler :: bool
    \<comment> \<open>whether a handler is given; what it does is code of the plugin\<close>
  ep_Point :: string

record ServiceSpec =
  sv_Name :: string
  sv_Version :: string
  sv_Description :: string
  sv_QueueGroup :: string
  sv_Endpoints :: "EndpointSpec list"
  sv_Metadata :: "(string, string) amap"

record EndpointInfo =
  ei_Name :: string
  ei_Subject :: Subject
  ei_QueueGroup :: string
  ei_Point :: string

record ServiceInfo =
  si_ID :: string
  si_Name :: string
  si_Version :: string
  si_Endpoints :: "EndpointInfo list"
  si_Metadata :: "(string, string) amap"

record ServiceStats =
  ss_ID :: string
  ss_SvcName :: string
  ss_Requests :: "64 word"
  ss_Errors :: "64 word"
  ss_Processing :: "64 word"
  ss_Started :: instant

record Schedule =
  sd_Name :: string
  sd_Subject :: Subject
  sd_Data :: bytes
  sd_Headers :: Headers
  sd_At :: instant
  sd_Every :: duration
  sd_Cron :: string
  sd_Next :: instant

section \<open>The structs\<close>

record service =
  v_conn :: addr
  v_info :: ServiceInfo
  v_subs :: "addr list"
  v_requests :: "64 word"
  v_errors :: "64 word"
  v_processing :: "64 word"
  v_started :: instant
  v_err :: "Fault option"
  v_finished :: bool
  v_done :: bool

record consumer =
  k_conn :: addr
  k_stream :: string
  k_st :: addr
  k_durable :: bool
  k_err :: "Fault option"
  k_finished :: bool
  k_draining :: bool
  k_done :: bool
  k_drained :: bool
  k_wake :: bool

record scheduleEntry =
  sc_id :: Identity
  sc_name :: string
  sc_subject :: Subject
  sc_data :: bytes
  sc_headers :: Headers
  sc_kind :: string
  sc_at :: instant
  sc_every :: duration
  sc_cron :: string
  sc_expr :: "cronExpr option"
  sc_next :: instant

text \<open>A \<^verbatim>\<open>stopper\<close>: a watcher of a key/value bucket or of an object bucket, by its position.\<close>

datatype stopper = kv_stopper addr nat | obj_stopper string nat

record conn =
  c_id :: Identity
  c_gen :: "64 word"
  c_closed :: bool
  c_subs :: "addr list"
  c_services :: "addr list"
  c_consumers :: "addr list"
  c_watchers :: "stopper list"
  c_fetchers :: "(string, addr) amap"
  c_inboxN :: "64 word"

section \<open>Configuration\<close>

record config =
  cfg_maxPayload :: int
  cfg_caps :: Capabilities
  cfg_deny :: "Pattern list"

definition DefaultMaxPayload :: int where
  "DefaultMaxPayload = 64 * 1024"

datatype store_option = WithMaxPayload int | WithCapabilities Capabilities | WithDeny "Pattern list"

fun apply_option :: "config \<Rightarrow> store_option \<Rightarrow> config" where
  "apply_option c (WithMaxPayload n) =
     (if 0 < n then c\<lparr>cfg_maxPayload := n, cfg_caps := (cfg_caps c)\<lparr>MaxPayload := n\<rparr>\<rparr> else c)"
| "apply_option c (WithCapabilities caps) =
     c\<lparr>cfg_caps := (if MaxPayload caps \<le> 0 then caps\<lparr>MaxPayload := cfg_maxPayload c\<rparr> else caps)\<rparr>"
| "apply_option c (WithDeny p) = c\<lparr>cfg_deny := cfg_deny c @ p\<rparr>"

definition defaultConfig :: config where
  "defaultConfig =
     \<lparr>cfg_maxPayload = DefaultMaxPayload,
      cfg_caps = \<lparr>Durable = True, Cap_KV = True, Cap_Objects = True, Cap_Services = True,
                  Cap_Schedule = True, Counters = True, Batch = True, Cap_Trace = False,
                  MaxPayload = DefaultMaxPayload\<rparr>,
      cfg_deny = []\<rparr>"

section \<open>The store\<close>

text \<open>\<open>S_env\<close> holds the cursor key of the store, with the functions of the standard library it is
  used with.\<close>

record Store =
  S_cfg :: config
  S_env :: cursorEnv
  S_closed :: bool
  S_gen :: "64 word"
  S_nextID :: "64 word"
  S_conns :: "addr list"
  S_subs :: "addr list"
  S_rr :: "(string, 64 word) amap"
  S_inboxes :: "(Subject, addr) amap"
  S_streams :: "(string, stream) amap"
  S_buckets :: "(string, addr) amap"
  S_objects :: "(string, objBucket) amap"
  S_schedules :: "(string, (string, scheduleEntry) amap) amap"
  S_services :: "(string, addr) amap"
  S_stop :: bool
  H_conns :: "conn list"
  H_subs :: "subscription list"
  H_chans :: "Msg option list"
  H_states :: "consumerState list"
  H_consumers :: "consumer list"
  H_buckets :: "kvBucket list"
  H_services :: "service list"

definition NewStore :: "cursorEnv \<Rightarrow> store_option option list \<Rightarrow> Store" where
  "NewStore env opts =
     \<lparr>S_cfg = apply_opts apply_option defaultConfig opts, S_env = env, S_closed = False, S_gen = 0,
      S_nextID = 0, S_conns = [], S_subs = [], S_rr = [], S_inboxes = [], S_streams = [],
      S_buckets = [], S_objects = [], S_schedules = [], S_services = [], S_stop = False,
      H_conns = [], H_subs = [], H_chans = [], H_states = [], H_consumers = [], H_buckets = [],
      H_services = []\<rparr>"

definition mod_conn :: "addr \<Rightarrow> (conn \<Rightarrow> conn) \<Rightarrow> Store \<Rightarrow> Store" where
  "mod_conn a f S = S\<lparr>H_conns := (H_conns S)[a := f (H_conns S ! a)]\<rparr>"

definition mod_sub :: "addr \<Rightarrow> (subscription \<Rightarrow> subscription) \<Rightarrow> Store \<Rightarrow> Store" where
  "mod_sub a f S = S\<lparr>H_subs := (H_subs S)[a := f (H_subs S ! a)]\<rparr>"

definition mod_svc :: "addr \<Rightarrow> (service \<Rightarrow> service) \<Rightarrow> Store \<Rightarrow> Store" where
  "mod_svc a f S = S\<lparr>H_services := (H_services S)[a := f (H_services S ! a)]\<rparr>"

definition mod_cons :: "addr \<Rightarrow> (consumer \<Rightarrow> consumer) \<Rightarrow> Store \<Rightarrow> Store" where
  "mod_cons a f S = S\<lparr>H_consumers := (H_consumers S)[a := f (H_consumers S ! a)]\<rparr>"

definition mod_bucket :: "addr \<Rightarrow> (kvBucket \<Rightarrow> kvBucket) \<Rightarrow> Store \<Rightarrow> Store" where
  "mod_bucket a f S = S\<lparr>H_buckets := (H_buckets S)[a := f (H_buckets S ! a)]\<rparr>"

lemmas mod_defs = mod_conn_def mod_sub_def mod_svc_def mod_cons_def mod_bucket_def

abbreviation id_of :: "Store \<Rightarrow> addr \<Rightarrow> Identity" where
  "id_of S c \<equiv> c_id (H_conns S ! c)"

definition withdrawn :: "string \<Rightarrow> Fault" where
  "withdrawn why = mkFault FaultWithdrawn ''connection'' why"

section \<open>Numbers and identifiers\<close>

text \<open>The loop of \<^verbatim>\<open>formatUint\<close> fills a buffer from the end; \<open>acc\<close> is what is written so far.\<close>

function format_loop :: "64 word \<Rightarrow> string \<Rightarrow> string" where
  "format_loop n acc =
     (if 0 < n then format_loop (n div 10) (char_of (48 + unat (n mod 10)) # acc) else acc)"
  by pat_completeness auto
termination
proof (relation "measure (\<lambda>(n, acc). unat n)", simp_all)
  fix n :: "64 word" assume "0 < n"
  then have "0 < unat n" by (simp add: word_greater_zero_iff unat_gt_0)
  then show "unat (n div 10) < unat n" by (simp add: unat_div)
qed

declare format_loop.simps [simp del]

definition formatUint :: "64 word \<Rightarrow> string" where
  "formatUint n = (if n = 0 then ''0'' else format_loop n '''')"

definition newID :: "string \<Rightarrow> Store \<Rightarrow> Store \<times> string" where
  "newID pre S = (let n = S_nextID S + 1 in (S\<lparr>S_nextID := n\<rparr>, pre @ ''-'' @ formatUint n))"

definition denySubject :: "Store \<Rightarrow> Subject \<Rightarrow> bool" where
  "denySubject S s = MatchedByAny (cfg_deny (S_cfg S)) s"

definition denyPattern :: "Store \<Rightarrow> Pattern \<Rightarrow> bool" where
  "denyPattern S p = list_ex (\<lambda>d. Covers d p \<or> Covers p d) (cfg_deny (S_cfg S))"

section \<open>Ending what a connection owns\<close>

definition finish_subs :: "Fault option \<Rightarrow> addr list \<Rightarrow> Store \<Rightarrow> Store" where
  "finish_subs err as S = fold (\<lambda>a. mod_sub a (sub_finish err)) as S"

definition service_end :: "Fault option \<Rightarrow> service \<Rightarrow> service" where
  "service_end err s =
     (if v_finished s then s
      else s\<lparr>v_finished := True, v_err := (case err of Some e \<Rightarrow> Some e | None \<Rightarrow> v_err s), v_done := True\<rparr>)"

definition service_finish :: "Fault option \<Rightarrow> addr \<Rightarrow> Store \<Rightarrow> Store" where
  "service_finish err a S =
     mod_svc a (service_end err) (finish_subs err (v_subs (H_services S ! a)) S)"

definition consumer_end :: "Fault option \<Rightarrow> consumer \<Rightarrow> consumer" where
  "consumer_end err k =
     (if k_finished k then k
      else k\<lparr>k_finished := True, k_err := (case err of Some e \<Rightarrow> Some e | None \<Rightarrow> k_err k),
             k_done := True, k_drained := True\<rparr>)"

definition consumer_finish :: "Fault option \<Rightarrow> addr \<Rightarrow> Store \<Rightarrow> Store" where
  "consumer_finish err a S = mod_cons a (consumer_end err) S"

definition stop_kv_watcher :: "Fault option \<Rightarrow> nat \<Rightarrow> kvBucket \<Rightarrow> kvBucket" where
  "stop_kv_watcher err n b = b\<lparr>b_watchers := (b_watchers b)[n := stopWith err (b_watchers b ! n)]\<rparr>"

definition stop_obj_watcher :: "Fault option \<Rightarrow> nat \<Rightarrow> objBucket \<Rightarrow> objBucket" where
  "stop_obj_watcher err n b = b\<lparr>o_watchers := (o_watchers b)[n := obj_stopWith err (o_watchers b ! n)]\<rparr>"

fun stopper_stopWith :: "Fault option \<Rightarrow> stopper \<Rightarrow> Store \<Rightarrow> Store" where
  "stopper_stopWith err (kv_stopper a n) S = mod_bucket a (stop_kv_watcher err n) S"
| "stopper_stopWith err (obj_stopper name n) S =
     S\<lparr>S_objects := map (\<lambda>(k, b). (k, if k = name then stop_obj_watcher err n b else b)) (S_objects S)\<rparr>"

definition conn_kill :: "conn \<Rightarrow> conn" where
  "conn_kill c =
     c\<lparr>c_closed := True, c_subs := [], c_services := [], c_consumers := [], c_watchers := [], c_fetchers := []\<rparr>"

definition markDead :: "addr \<Rightarrow> Store \<Rightarrow> Store" where
  "markDead c S =
     (let cons = c_consumers (H_conns S ! c); watchers = c_watchers (H_conns S ! c);
          S1 = mod_conn c conn_kill S;
          err = Some (withdrawn ''connection closed'');
          S2 = fold (consumer_finish err) cons S1
      in fold (stopper_stopWith err) watchers S2)"

definition finishAll :: "addr list \<Rightarrow> addr list \<Rightarrow> addr list \<Rightarrow> Fault option \<Rightarrow> Store \<Rightarrow> Store" where
  "finishAll conns subs svcs err S =
     fold markDead conns (fold (service_finish err) svcs (finish_subs err subs S))"

definition dropSubsLocked :: "addr list \<Rightarrow> Store \<Rightarrow> Store" where
  "dropSubsLocked subs S = S\<lparr>S_subs := filter (\<lambda>a. a \<notin> set subs) (S_subs S)\<rparr>"

definition dropSub :: "addr \<Rightarrow> Store \<Rightarrow> Store" where
  "dropSub a S =
     mod_conn (s_conn (H_subs S ! a)) (\<lambda>c. c\<lparr>c_subs := filter (\<lambda>x. x \<noteq> a) (c_subs c)\<rparr>)
       (dropSubsLocked [a] S)"

section \<open>The life cycle\<close>

definition Connect :: "Identity \<Rightarrow> Store \<Rightarrow> Store \<times> addr" where
  "Connect i S =
     (let a = length (H_conns S);
          c = \<lparr>c_id = i, c_gen = S_gen S, c_closed = S_closed S, c_subs = [], c_services = [],
               c_consumers = [], c_watchers = [], c_fetchers = [], c_inboxN = 0\<rparr>
      in (S\<lparr>H_conns := H_conns S @ [c],
            S_conns := (if \<not> S_closed S then S_conns S @ [a] else S_conns S)\<rparr>, a))"

definition alive :: "addr \<Rightarrow> Store \<Rightarrow> Fault option" where
  "alive c S =
     (if c_closed (H_conns S ! c) then Some (withdrawn ''connection closed'')
      else if S_closed S \<or> c_gen (H_conns S ! c) \<noteq> S_gen S then
        Some (withdrawn ''connection belongs to a previous generation'')
      else None)"

definition takeEphemeralLocked :: "Store \<Rightarrow> Store \<times> addr list \<times> addr list \<times> addr list" where
  "takeEphemeralLocked S =
     (S\<lparr>S_conns := [], S_subs := [], S_services := [], S_inboxes := []\<rparr>,
      S_conns S, S_subs S, map snd (S_services S))"

definition Restart :: "Store \<Rightarrow> Store" where
  "Restart S =
     (if S_closed S then S
      else let (S1, conns, subs, svcs) = takeEphemeralLocked (S\<lparr>S_gen := S_gen S + 1\<rparr>)
           in finishAll conns subs svcs (Some (withdrawn ''substrate restarted'')) S1)"

definition Revoke :: "string \<Rightarrow> Store \<Rightarrow> Store" where
  "Revoke pluginID S =
     (let mine = (\<lambda>c. PluginID (id_of S c) = pluginID);
          conns = filter mine (S_conns S);
          subs = filter (\<lambda>a. mine (s_conn (H_subs S ! a))) (S_subs S);
          svcs = map snd (filter (\<lambda>(k, v). mine (v_conn (H_services S ! v))) (S_services S));
          S1 = S\<lparr>S_conns := filter (\<lambda>c. \<not> mine c) (S_conns S),
                 S_subs := filter (\<lambda>a. \<not> mine (s_conn (H_subs S ! a))) (S_subs S),
                 S_services := filter (\<lambda>(k, v). \<not> mine (v_conn (H_services S ! v))) (S_services S)\<rparr>
      in finishAll conns subs svcs (Some (withdrawn (''principal '' @ pluginID @ '' revoked''))) S1)"

definition Store_Close :: "Store \<Rightarrow> Store" where
  "Store_Close S =
     (if S_closed S then S
      else let (S1, conns, subs, svcs) = takeEphemeralLocked (S\<lparr>S_closed := True\<rparr>)
           in finishAll conns subs svcs (Some (withdrawn ''substrate closed'')) (S1\<lparr>S_stop := True\<rparr>))"

definition conn_Close :: "addr \<Rightarrow> Store \<Rightarrow> Store" where
  "conn_Close c S =
     (let subs = c_subs (H_conns S ! c); svcs = c_services (H_conns S ! c);
          S1 = mod_conn c (\<lambda>k. k\<lparr>c_subs := [], c_services := [], c_closed := True\<rparr>)
                 (S\<lparr>S_conns := filter (\<lambda>x. x \<noteq> c) (S_conns S)\<rparr>);
          S2 = dropSubsLocked subs S1;
          S3 = S2\<lparr>S_services := fold (\<lambda>v. AList.delete (si_ID (v_info (H_services S ! v)))) svcs (S_services S2)\<rparr>
      in markDead c (finishAll [] subs svcs (Some (withdrawn ''connection closed'')) S3))"

section \<open>Frames\<close>

text \<open>What an operation leaves alone, field by field, so that a proof about one component does not see
  the others.\<close>

lemma fold_frame: "(\<And>x S. f (g x S) = f S) \<Longrightarrow> f (fold g xs S) = f S"
  by (induction xs arbitrary: S) auto

lemma heap_nth: "(xs[i := v]) ! a = (if a = i \<and> i < length xs then v else xs ! a)"
proof (cases "a < length xs")
  case False
  then have "(xs[i := v]) ! a = [] ! (a - length xs)" "xs ! a = [] ! (a - length xs)"
    using nth_append [of "xs[i := v]" "[]" a] nth_append [of xs "[]" a] by simp_all
  with False show ?thesis by auto
qed (auto simp: nth_list_update)

lemma mod_conn_frame [simp]:
  "S_cfg (mod_conn a f S) = S_cfg S" "S_env (mod_conn a f S) = S_env S" "S_closed (mod_conn a f S) = S_closed S"
  "S_gen (mod_conn a f S) = S_gen S" "S_nextID (mod_conn a f S) = S_nextID S" "S_conns (mod_conn a f S) = S_conns S"
  "S_subs (mod_conn a f S) = S_subs S" "S_rr (mod_conn a f S) = S_rr S" "S_inboxes (mod_conn a f S) = S_inboxes S"
  "S_streams (mod_conn a f S) = S_streams S" "S_buckets (mod_conn a f S) = S_buckets S"
  "S_objects (mod_conn a f S) = S_objects S" "S_schedules (mod_conn a f S) = S_schedules S"
  "S_services (mod_conn a f S) = S_services S" "H_subs (mod_conn a f S) = H_subs S"
  "H_chans (mod_conn a f S) = H_chans S" "H_states (mod_conn a f S) = H_states S"
  "H_consumers (mod_conn a f S) = H_consumers S" "H_buckets (mod_conn a f S) = H_buckets S"
  "H_services (mod_conn a f S) = H_services S" "H_conns (mod_conn a f S) = (H_conns S)[a := f (H_conns S ! a)]"
  by (simp_all add: mod_conn_def)

lemma mod_sub_frame [simp]:
  "S_cfg (mod_sub a f S) = S_cfg S" "S_env (mod_sub a f S) = S_env S" "S_closed (mod_sub a f S) = S_closed S"
  "S_gen (mod_sub a f S) = S_gen S" "S_nextID (mod_sub a f S) = S_nextID S" "S_conns (mod_sub a f S) = S_conns S"
  "S_subs (mod_sub a f S) = S_subs S" "S_rr (mod_sub a f S) = S_rr S" "S_inboxes (mod_sub a f S) = S_inboxes S"
  "S_streams (mod_sub a f S) = S_streams S" "S_buckets (mod_sub a f S) = S_buckets S"
  "S_objects (mod_sub a f S) = S_objects S" "S_schedules (mod_sub a f S) = S_schedules S"
  "S_services (mod_sub a f S) = S_services S" "H_conns (mod_sub a f S) = H_conns S"
  "H_chans (mod_sub a f S) = H_chans S" "H_states (mod_sub a f S) = H_states S"
  "H_consumers (mod_sub a f S) = H_consumers S" "H_buckets (mod_sub a f S) = H_buckets S"
  "H_services (mod_sub a f S) = H_services S" "H_subs (mod_sub a f S) = (H_subs S)[a := f (H_subs S ! a)]"
  by (simp_all add: mod_sub_def)

lemma mod_svc_frame [simp]:
  "S_cfg (mod_svc a f S) = S_cfg S" "S_env (mod_svc a f S) = S_env S" "S_closed (mod_svc a f S) = S_closed S"
  "S_gen (mod_svc a f S) = S_gen S" "S_nextID (mod_svc a f S) = S_nextID S" "S_conns (mod_svc a f S) = S_conns S"
  "S_subs (mod_svc a f S) = S_subs S" "S_rr (mod_svc a f S) = S_rr S" "S_inboxes (mod_svc a f S) = S_inboxes S"
  "S_streams (mod_svc a f S) = S_streams S" "S_buckets (mod_svc a f S) = S_buckets S"
  "S_objects (mod_svc a f S) = S_objects S" "S_schedules (mod_svc a f S) = S_schedules S"
  "S_services (mod_svc a f S) = S_services S" "H_conns (mod_svc a f S) = H_conns S"
  "H_chans (mod_svc a f S) = H_chans S" "H_states (mod_svc a f S) = H_states S"
  "H_consumers (mod_svc a f S) = H_consumers S" "H_buckets (mod_svc a f S) = H_buckets S"
  "H_subs (mod_svc a f S) = H_subs S" "H_services (mod_svc a f S) = (H_services S)[a := f (H_services S ! a)]"
  by (simp_all add: mod_svc_def)

lemma mod_cons_frame [simp]:
  "S_cfg (mod_cons a f S) = S_cfg S" "S_env (mod_cons a f S) = S_env S" "S_closed (mod_cons a f S) = S_closed S"
  "S_gen (mod_cons a f S) = S_gen S" "S_nextID (mod_cons a f S) = S_nextID S" "S_conns (mod_cons a f S) = S_conns S"
  "S_subs (mod_cons a f S) = S_subs S" "S_rr (mod_cons a f S) = S_rr S" "S_inboxes (mod_cons a f S) = S_inboxes S"
  "S_streams (mod_cons a f S) = S_streams S" "S_buckets (mod_cons a f S) = S_buckets S"
  "S_objects (mod_cons a f S) = S_objects S" "S_schedules (mod_cons a f S) = S_schedules S"
  "S_services (mod_cons a f S) = S_services S" "H_conns (mod_cons a f S) = H_conns S"
  "H_chans (mod_cons a f S) = H_chans S" "H_states (mod_cons a f S) = H_states S"
  "H_subs (mod_cons a f S) = H_subs S" "H_buckets (mod_cons a f S) = H_buckets S"
  "H_services (mod_cons a f S) = H_services S"
  "H_consumers (mod_cons a f S) = (H_consumers S)[a := f (H_consumers S ! a)]"
  by (simp_all add: mod_cons_def)

lemma mod_bucket_frame [simp]:
  "S_cfg (mod_bucket a f S) = S_cfg S" "S_env (mod_bucket a f S) = S_env S" "S_closed (mod_bucket a f S) = S_closed S"
  "S_gen (mod_bucket a f S) = S_gen S" "S_nextID (mod_bucket a f S) = S_nextID S" "S_conns (mod_bucket a f S) = S_conns S"
  "S_subs (mod_bucket a f S) = S_subs S" "S_rr (mod_bucket a f S) = S_rr S" "S_inboxes (mod_bucket a f S) = S_inboxes S"
  "S_streams (mod_bucket a f S) = S_streams S" "S_buckets (mod_bucket a f S) = S_buckets S"
  "S_objects (mod_bucket a f S) = S_objects S" "S_schedules (mod_bucket a f S) = S_schedules S"
  "S_services (mod_bucket a f S) = S_services S" "H_conns (mod_bucket a f S) = H_conns S"
  "H_chans (mod_bucket a f S) = H_chans S" "H_states (mod_bucket a f S) = H_states S"
  "H_subs (mod_bucket a f S) = H_subs S" "H_consumers (mod_bucket a f S) = H_consumers S"
  "H_services (mod_bucket a f S) = H_services S"
  "H_buckets (mod_bucket a f S) = (H_buckets S)[a := f (H_buckets S ! a)]"
  by (simp_all add: mod_bucket_def)

text \<open>
  \<open>kept f\<close>: the observation \<open>f\<close> of the store is not changed by ending subscriptions, services,
  consumers and watchers. Four facts per observation carry over to \<open>finishAll\<close>.
\<close>

definition kept :: "(Store \<Rightarrow> 'a) \<Rightarrow> bool" where
  "kept f \<longleftrightarrow>
     (\<forall>S a err. f (mod_sub a (sub_finish err) S) = f S) \<and>
     (\<forall>S a err. f (mod_svc a (service_end err) S) = f S) \<and>
     (\<forall>S a err. f (mod_cons a (consumer_end err) S) = f S) \<and>
     (\<forall>S w err. f (stopper_stopWith err w S) = f S)"

lemma finish_subs_kept: "kept f \<Longrightarrow> f (finish_subs err as S) = f S"
  unfolding finish_subs_def by (rule fold_frame) (simp add: kept_def)

lemma service_finish_kept: "kept f \<Longrightarrow> f (service_finish err a S) = f S"
  using finish_subs_kept [of f] by (simp add: service_finish_def kept_def)

lemma markDead_kept:
  assumes "kept f" and "\<And>S. f (mod_conn c conn_kill S) = f S"
  shows "f (markDead c S) = f S"
proof -
  have "f (fold (consumer_finish err) cons T) = f T" for err cons T
    by (rule fold_frame) (use assms(1) in \<open>simp add: consumer_finish_def kept_def\<close>)
  moreover have "f (fold (stopper_stopWith err) ws T) = f T" for err ws T
    by (rule fold_frame) (use assms(1) in \<open>simp add: kept_def\<close>)
  ultimately show ?thesis by (simp add: markDead_def Let_def assms(2))
qed

lemma finishAll_kept:
  assumes "kept f" and "\<And>c S. f (mod_conn c conn_kill S) = f S"
  shows "f (finishAll conns subs svcs err S) = f S"
proof -
  have "f (fold markDead conns T) = f T" for T
    by (rule fold_frame) (rule markDead_kept [OF assms])
  moreover have "f (fold (service_finish err) svcs T) = f T" for T
    by (rule fold_frame) (rule service_finish_kept [OF assms(1)])
  ultimately show ?thesis using assms(1) by (simp add: finishAll_def finish_subs_kept)
qed

section \<open>What survives\<close>

record durable_state =
  d_cfg :: config
  d_env :: cursorEnv
  d_nextID :: "64 word"
  d_streams :: "(string, stream) amap"
  d_states :: "consumerState list"
  d_buckets :: "(string, addr) amap"
  d_kv :: "(BucketSpec \<times> Revision \<times> (string, Entry list) amap) list"
  d_objects :: "(string \<times> BucketSpec \<times> (string, object) amap) list"
  d_schedules :: "(string, (string, scheduleEntry) amap) amap"

definition durable :: "Store \<Rightarrow> durable_state" where
  "durable S =
     \<lparr>d_cfg = S_cfg S, d_env = S_env S, d_nextID = S_nextID S, d_streams = S_streams S,
      d_states = H_states S, d_buckets = S_buckets S,
      d_kv = map (\<lambda>b. (b_spec b, b_rev b, b_keys b)) (H_buckets S),
      d_objects = map (\<lambda>(k, b). (k, o_spec b, o_objs b)) (S_objects S),
      d_schedules = S_schedules S\<rparr>"

lemma map_update_same: "g v = g (xs ! n) \<Longrightarrow> map g (xs[n := v]) = map g xs"
  by (cases "n < length xs") (simp_all add: list_update_beyond map_update list_update_same_conv linorder_not_less)

lemma durable_kept: "kept durable"
proof -
  have "durable (stopper_stopWith err w S) = durable S" for err w S
    by (cases w)
      (auto simp: durable_def stop_kv_watcher_def stop_obj_watcher_def intro!: map_update_same)
  then show ?thesis by (simp add: kept_def durable_def)
qed

lemma finishAll_durable [simp]: "durable (finishAll conns subs svcs err S) = durable S"
  by (rule finishAll_kept [OF durable_kept]) (simp add: durable_def)

lemma markDead_durable [simp]: "durable (markDead c S) = durable S"
  by (rule markDead_kept [OF durable_kept]) (simp add: durable_def)

lemma takeEphemeral_durable: "takeEphemeralLocked S = (S1, cs, ss, vs) \<Longrightarrow> durable S1 = durable S"
  by (auto simp: takeEphemeralLocked_def durable_def)

lemma lifecycle_durable:
  "durable (Restart S) = durable S" "durable (Revoke pid S) = durable S"
  "durable (Store_Close S) = durable S" "durable (conn_Close c S) = durable S"
  by (simp_all add: Restart_def Revoke_def Store_Close_def conn_Close_def takeEphemeralLocked_def
      dropSubsLocked_def Let_def)
    (simp_all add: durable_def)

section \<open>What ends\<close>

lemma sub_finish_idem [simp]: "sub_finish e (sub_finish e' s) = sub_finish e' s"
  by (simp add: sub_finish_def finish_mark_def close_channels_def)

lemma sub_finish_finished [simp]: "s_finished (sub_finish e s)"
  by (simp add: sub_finish_def finish_mark_def close_channels_def)

lemma sub_finish_keeps [simp]:
  "s_conn (sub_finish e s) = s_conn s" "s_pattern (sub_finish e s) = s_pattern s"
  "s_group (sub_finish e s) = s_group s" "s_limit (sub_finish e s) = s_limit s"
  "s_onReply (sub_finish e s) = s_onReply s" "s_drops (sub_finish e s) = s_drops s"
  by (simp_all add: sub_finish_def finish_mark_def close_channels_def)

lemma service_end_keeps [simp]:
  "v_subs (service_end e v) = v_subs v" "v_conn (service_end e v) = v_conn v" "v_info (service_end e v) = v_info v"
  by (simp_all add: service_end_def)

lemma conn_kill_keeps [simp]:
  "c_id (conn_kill c) = c_id c" "c_gen (conn_kill c) = c_gen c" "c_closed (conn_kill c)"
  "conn_kill (conn_kill c) = conn_kill c" "c_subs (conn_kill c) = []" "c_services (conn_kill c) = []"
  "c_inboxN (conn_kill c) = c_inboxN c"
  by (simp_all add: conn_kill_def)

lemma stopper_frame [simp]:
  "H_conns (stopper_stopWith e w S) = H_conns S" "H_subs (stopper_stopWith e w S) = H_subs S"
  "H_services (stopper_stopWith e w S) = H_services S" "S_conns (stopper_stopWith e w S) = S_conns S"
  "S_subs (stopper_stopWith e w S) = S_subs S" "S_services (stopper_stopWith e w S) = S_services S"
  "S_closed (stopper_stopWith e w S) = S_closed S" "S_gen (stopper_stopWith e w S) = S_gen S"
  "S_cfg (stopper_stopWith e w S) = S_cfg S" "S_schedules (stopper_stopWith e w S) = S_schedules S"
  "S_rr (stopper_stopWith e w S) = S_rr S" "S_inboxes (stopper_stopWith e w S) = S_inboxes S"
  "H_chans (stopper_stopWith e w S) = H_chans S"
  by (cases w; simp)+

lemma core_kept [simp]:
  "kept S_conns" "kept S_subs" "kept S_services" "kept S_closed" "kept S_gen" "kept S_cfg"
  "kept S_schedules" "kept S_rr" "kept S_inboxes" "kept H_conns" "kept H_chans"
  by (simp_all add: kept_def)

lemma finishAll_frame [simp]:
  "S_conns (finishAll cs ss vs e S) = S_conns S" "S_subs (finishAll cs ss vs e S) = S_subs S"
  "S_services (finishAll cs ss vs e S) = S_services S" "S_closed (finishAll cs ss vs e S) = S_closed S"
  "S_gen (finishAll cs ss vs e S) = S_gen S" "S_cfg (finishAll cs ss vs e S) = S_cfg S"
  "S_schedules (finishAll cs ss vs e S) = S_schedules S" "S_rr (finishAll cs ss vs e S) = S_rr S"
  "S_inboxes (finishAll cs ss vs e S) = S_inboxes S" "H_chans (finishAll cs ss vs e S) = H_chans S"
  by (rule finishAll_kept; simp)+

lemma markDead_frame [simp]:
  "S_conns (markDead c S) = S_conns S" "S_subs (markDead c S) = S_subs S"
  "S_services (markDead c S) = S_services S" "S_closed (markDead c S) = S_closed S"
  "S_gen (markDead c S) = S_gen S" "S_cfg (markDead c S) = S_cfg S"
  "S_schedules (markDead c S) = S_schedules S" "S_rr (markDead c S) = S_rr S"
  "S_inboxes (markDead c S) = S_inboxes S" "H_chans (markDead c S) = H_chans S"
  by (rule markDead_kept; simp)+

text \<open>Subscriptions and services of the dead connection are not touched by \<open>markDead\<close> itself.\<close>

lemma markDead_conns [simp]:
  "H_conns (markDead c S) = (H_conns S)[c := conn_kill (H_conns S ! c)]"
  "H_subs (markDead c S) = H_subs S" "H_services (markDead c S) = H_services S"
proof -
  have fold_kept: "f (fold (stopper_stopWith e) ws (fold (consumer_finish e) ks T)) = f T"
    if "\<And>w T. f (stopper_stopWith e w T) = f T" "\<And>k T. f (mod_cons k (consumer_end e) T) = f T"
    for f :: "Store \<Rightarrow> 'b" and e ws ks T
    using fold_frame [of f "stopper_stopWith e"] fold_frame [of f "consumer_finish e"] that
    by (simp add: consumer_finish_def)
  show "H_conns (markDead c S) = (H_conns S)[c := conn_kill (H_conns S ! c)]"
    "H_subs (markDead c S) = H_subs S" "H_services (markDead c S) = H_services S"
    unfolding markDead_def Let_def by (subst fold_kept; simp)+
qed

lemma finish_subs_frame [simp]:
  "H_conns (finish_subs e as S) = H_conns S" "H_services (finish_subs e as S) = H_services S"
  "length (H_subs (finish_subs e as S)) = length (H_subs S)"
  unfolding finish_subs_def by (rule fold_frame; simp)+

lemma service_finish_frame [simp]:
  "H_conns (service_finish e v S) = H_conns S"
  "H_services (service_finish e v S) = (H_services S)[v := service_end e (H_services S ! v)]"
  "length (H_subs (service_finish e v S)) = length (H_subs S)"
  by (simp_all add: service_finish_def)

lemma finish_subs_nth:
  "H_subs (finish_subs e as S) ! a =
     (if a \<in> set as \<and> a < length (H_subs S) then sub_finish e (H_subs S ! a) else H_subs S ! a)"
  unfolding finish_subs_def
  by (induction as arbitrary: S) (auto simp: heap_nth)

definition service_subs :: "Store \<Rightarrow> addr list \<Rightarrow> addr set" where
  "service_subs S vs = (\<Union>v \<in> set vs. set (v_subs (H_services S ! v)))"

lemma v_subs_service_finish [simp]:
  "v_subs (H_services (service_finish e v S) ! w) = v_subs (H_services S ! w)"
  by (simp add: heap_nth)

lemma services_finish_nth:
  "H_subs (fold (service_finish e) vs S) ! a =
     (if a \<in> service_subs S vs \<and> a < length (H_subs S) then sub_finish e (H_subs S ! a) else H_subs S ! a)"
proof (induction vs arbitrary: S)
  case (Cons v vs)
  have "service_subs (service_finish e v S) vs = service_subs S vs"
    by (simp only: service_subs_def v_subs_service_finish)
  moreover have "H_subs (service_finish e v S) ! a =
      (if a \<in> set (v_subs (H_services S ! v)) \<and> a < length (H_subs S)
       then sub_finish e (H_subs S ! a) else H_subs S ! a)"
    by (simp add: service_finish_def finish_subs_nth)
  ultimately show ?case using Cons [of "service_finish e v S"] by (auto simp: service_subs_def)
qed (simp add: service_subs_def)

lemma fold_frames2 [simp]:
  "H_subs (fold markDead cs S) = H_subs S" "H_services (fold markDead cs S) = H_services S"
  "H_conns (fold (service_finish e) vs S) = H_conns S"
  "length (H_subs (fold (service_finish e) vs S)) = length (H_subs S)"
  "length (H_services (fold (service_finish e) vs S)) = length (H_services S)"
  by (rule fold_frame; simp)+

text \<open>\<open>finishAll\<close> ends exactly the given subscriptions and those of the given services.\<close>

lemma finishAll_subs:
  "length (H_subs (finishAll cs ss vs e S)) = length (H_subs S)"
  "H_subs (finishAll cs ss vs e S) ! a =
     (if a \<in> set ss \<union> service_subs S vs \<and> a < length (H_subs S) then sub_finish e (H_subs S ! a) else H_subs S ! a)"
  by (auto simp: finishAll_def services_finish_nth finish_subs_nth service_subs_def)

lemma fold_markDead_conns:
  "H_conns (fold markDead cs S) ! c =
     (if c \<in> set cs \<and> c < length (H_conns S) then conn_kill (H_conns S ! c) else H_conns S ! c)"
  by (induction cs arbitrary: S) (auto simp: heap_nth)

lemma finishAll_conns:
  "length (H_conns (finishAll cs ss vs e S)) = length (H_conns S)"
  "H_conns (finishAll cs ss vs e S) ! c =
     (if c \<in> set cs \<and> c < length (H_conns S) then conn_kill (H_conns S ! c) else H_conns S ! c)"
proof -
  have "length (H_conns (fold markDead cs T)) = length (H_conns T)" for T
    by (rule fold_frame) simp
  then show "length (H_conns (finishAll cs ss vs e S)) = length (H_conns S)" by (simp add: finishAll_def)
qed (simp add: finishAll_def fold_markDead_conns)

lemma finishAll_services:
  "length (H_services (finishAll cs ss vs e S)) = length (H_services S)"
  "v_subs (H_services (finishAll cs ss vs e S) ! v) = v_subs (H_services S ! v)"
  "v_conn (H_services (finishAll cs ss vs e S) ! v) = v_conn (H_services S ! v)"
proof -
  have 1: "H_services (service_finish e w T) ! v = H_services T ! v \<or>
      H_services (service_finish e w T) ! v = service_end e (H_services T ! v)" for w T
    by (cases "w < length (H_services T)") (auto simp: heap_nth)
  have "v_subs (H_services (fold (service_finish e) vs T) ! v) = v_subs (H_services T ! v)" for T
    by (rule fold_frame [where f = "\<lambda>T. v_subs (H_services T ! v)"]) (metis 1 service_end_keeps(1))
  moreover have "v_conn (H_services (fold (service_finish e) vs T) ! v) = v_conn (H_services T ! v)" for T
    by (rule fold_frame [where f = "\<lambda>T. v_conn (H_services T ! v)"]) (metis 1 service_end_keeps(2))
  ultimately show "v_subs (H_services (finishAll cs ss vs e S) ! v) = v_subs (H_services S ! v)"
    "v_conn (H_services (finishAll cs ss vs e S) ! v) = v_conn (H_services S ! v)"
    by (simp_all add: finishAll_def)
qed (simp add: finishAll_def)

section \<open>Decimal output\<close>

lemma format_loop_decimal: "0 < n \<Longrightarrow> format_loop n acc = decimal (unat n) @ acc"
proof (induction n acc rule: format_loop.induct)
  case (1 n acc)
  let ?d = "char_of (48 + unat (n mod 10)) :: char"
  have d: "?d = digit_char (unat n mod 10)" by (simp add: digit_char_def unat_mod)
  have step: "format_loop n acc = format_loop (n div 10) (?d # acc)"
    using 1 by (subst format_loop.simps) simp
  show ?case
  proof (cases "n div 10 = 0")
    case True
    then have "unat (n div 10) = 0" by simp
    then have "unat n div 10 = 0" by (simp add: unat_div)
    then have "unat n < 10" by (simp add: div_eq_0_iff)
    moreover have "format_loop 0 xs = xs" for xs by (subst format_loop.simps) simp
    ultimately show ?thesis using step True d by (simp add: decimal.simps [of "unat n"])
  next
    case False
    then have "0 < n div 10" by (simp add: word_greater_zero_iff)
    moreover from False have "\<not> unat n < 10" by (auto simp: word_less_nat_alt div_word_less)
    ultimately show ?thesis
      using "1.IH" [OF "1.prems"] step d by (simp add: decimal.simps [of "unat n"] unat_div)
  qed
qed

lemma formatUint_decimal: "formatUint n = decimal (unat n)"
proof (cases "n = 0")
  case True
  have "char_of (48 :: nat) = CHR ''0''" by code_simp
  with True show ?thesis by (simp add: formatUint_def decimal.simps [of 0] digit_char_def)
qed (simp add: formatUint_def format_loop_decimal word_greater_zero_iff)

end
