(* ===== verification/Delivery.thy ===== *)
theory Delivery
  imports Substrate
begin

text \<open>
  A connection's publish, subscribe and request/reply, \<^verbatim>\<open>src/v2/bus/memory/conn.go\<close>, with the answers
  of \<^verbatim>\<open>src/v2/bus/msg.go\<close>. An operation takes the address of the connection and the store. A
  \<^verbatim>\<open>Request\<close> waits between sending and returning, so it is two operations: \<open>request_begin\<close> up to the
  \<^verbatim>\<open>select\<close>, and \<open>request_end\<close> for the case the \<^verbatim>\<open>select\<close> takes and the deferred removal of the inbox.
\<close>

section \<open>Durations as text\<close>

text \<open>\<^verbatim>\<open>time.Duration.String\<close>, which occurs in the text of a timeout: the fraction has no trailing
  zeros.\<close>

definition pad_digits :: "nat \<Rightarrow> nat \<Rightarrow> string" where
  "pad_digits w n = replicate (w - length (decimal n)) (CHR ''0'') @ decimal n"

definition fmtFrac :: "nat \<Rightarrow> nat \<Rightarrow> string" where
  "fmtFrac w v = (if v = 0 then '''' else CHR ''.'' # rev (dropWhile (\<lambda>c. c = CHR ''0'') (rev (pad_digits w v))))"

definition Duration_String :: "duration \<Rightarrow> string" where
  "Duration_String d =
     (let u = nat (abs d);
          body = (if u = 0 then ''0s''
            else if u < 10 ^ 3 then decimal u @ ''ns''
            else if u < 10 ^ 6 then decimal (u div 10 ^ 3) @ fmtFrac 3 (u mod 10 ^ 3) @ [CHR 0xC2, CHR 0xB5] @ ''s''
            else if u < 10 ^ 9 then decimal (u div 10 ^ 6) @ fmtFrac 6 (u mod 10 ^ 6) @ ''ms''
            else
              (let secs = u div 10 ^ 9; mins = secs div 60; hours = mins div 60;
                   s = decimal (secs mod 60) @ fmtFrac 9 (u mod 10 ^ 9) @ ''s''
               in if mins = 0 then s
                  else if hours = 0 then decimal mins @ ''m'' @ s
                  else decimal hours @ ''h'' @ decimal (mins mod 60) @ ''m'' @ s))
      in if d < 0 then CHR ''-'' # body else body)"

section \<open>Gates\<close>

definition too_big :: "Store \<Rightarrow> bytes \<Rightarrow> bool" where
  "too_big S data =
     (let mx = MaxPayload (cfg_caps (S_cfg S)) in 0 < mx \<and> mx < int (length data))"

definition budget_fault :: "Identity \<Rightarrow> Subject \<Rightarrow> bytes \<Rightarrow> Store \<Rightarrow> Fault" where
  "budget_fault i subject data S =
     mkFault FaultBudget subject
       (''principal '' @ Identity_String i @ '': payload '' @ formatUint (of_nat (length data)) @
        '' bytes exceeds MaxPayload '' @ formatUint (of_int (MaxPayload (cfg_caps (S_cfg S)))))"

definition checkPublish :: "GrantKind \<Rightarrow> Subject \<Rightarrow> bytes \<Rightarrow> addr \<Rightarrow> Store \<Rightarrow> Fault option" where
  "checkPublish kind subject data c S =
     (case alive c S of Some e \<Rightarrow> Some e
      | None \<Rightarrow>
          (case ParseSubject subject of Inl err \<Rightarrow> Some (parseFault subject err)
           | Inr _ \<Rightarrow>
               if denySubject S subject then
                 Some (Denied subject (Identity_String (id_of S c)) ''subject is permanently ineligible'')
               else if \<not> Can (Id_Grants (id_of S c)) kind subject then
                 Some (Denied subject (Identity_String (id_of S c)) (''no '' @ kind @ '' grant covers this subject''))
               else if too_big S data then Some (budget_fault (id_of S c) subject data S)
               else None))"

definition ctx_fault :: "Subject \<Rightarrow> string \<Rightarrow> Fault" where
  "ctx_fault subject err =
     \<lparr>Code = FaultTimeout, Op = subject, Message = err, Err = Some (WrapText err)\<rparr>"

section \<open>Selecting receivers\<close>

text \<open>The variables of the loop of \<^verbatim>\<open>matchLocked\<close>.\<close>

record match_acc =
  ma_out :: "addr list"
  ma_groups :: "(string, addr list) amap"
  ma_order :: "string list"
  ma_live :: "addr list"

definition members :: "(string, addr list) amap \<Rightarrow> string \<Rightarrow> addr list" where
  "members gs g = (case map_of gs g of Some as \<Rightarrow> as | None \<Rightarrow> [])"

definition match_one :: "Subject \<Rightarrow> Store \<Rightarrow> addr \<Rightarrow> match_acc \<Rightarrow> match_acc" where
  "match_one subject S a m =
     (let s = H_subs S ! a in
      if s_done s then m
      else
        (let m1 = m\<lparr>ma_live := ma_live m @ [a]\<rparr> in
         if \<not> Matches (s_pattern s) subject \<or> sub_stopped s then m1
         else if s_group s = '''' then m1\<lparr>ma_out := ma_out m1 @ [a]\<rparr>
         else
           m1\<lparr>ma_order := (if map_of (ma_groups m1) (s_group s) = None then ma_order m1 @ [s_group s] else ma_order m1),
              ma_groups := AList.update (s_group s) (members (ma_groups m1) (s_group s) @ [a]) (ma_groups m1)\<rparr>))"

definition match_scan :: "Subject \<Rightarrow> Store \<Rightarrow> addr list \<Rightarrow> match_acc" where
  "match_scan subject S as =
     fold (match_one subject S) as \<lparr>ma_out = [], ma_groups = [], ma_order = [], ma_live = []\<rparr>"

definition rr_of :: "(string, 64 word) amap \<Rightarrow> string \<Rightarrow> 64 word" where
  "rr_of rr g = (case map_of rr g of Some n \<Rightarrow> n | None \<Rightarrow> 0)"

fun pick_groups ::
  "(string, addr list) amap \<Rightarrow> string list \<Rightarrow> (string, 64 word) amap \<Rightarrow> addr list \<times> (string, 64 word) amap" where
  "pick_groups gs [] rr = ([], rr)"
| "pick_groups gs (g # order) rr =
     (let ms = members gs g; i = unat (rr_of rr g) mod length ms;
          (out, rr') = pick_groups gs order (AList.update g (rr_of rr g + 1) rr)
      in ((ms ! i) # out, rr'))"

definition matchLocked :: "Subject \<Rightarrow> Store \<Rightarrow> Store \<times> addr list" where
  "matchLocked subject S =
     (let m = match_scan subject S (S_subs S);
          (picked, rr) = pick_groups (ma_groups m) (ma_order m) (S_rr S)
      in (S\<lparr>S_subs := ma_live m, S_rr := rr\<rparr>, ma_out m @ picked))"

section \<open>Delivering\<close>

definition copyFor :: "Msg \<Rightarrow> addr \<Rightarrow> Subject option \<Rightarrow> Msg" where
  "copyFor m a reply =
     NewMsg (m_Subject m) (m_Reply m) (Headers_Clone (m_Headers m)) (m_Data m)
       (case reply of None \<Rightarrow> None | Some to \<Rightarrow> Some (to, a))"

definition enqueue_at :: "Msg \<Rightarrow> Subject option \<Rightarrow> addr \<Rightarrow> Store \<Rightarrow> Store" where
  "enqueue_at m reply a S =
     mod_sub a (enqueue (Identity_String (id_of S (s_conn (H_subs S ! a)))) (copyFor m a reply)) S"

definition deliver :: "Subject \<Rightarrow> Msg \<Rightarrow> Subject option \<Rightarrow> Store \<Rightarrow> Store \<times> nat" where
  "deliver subject m reply S =
     (let (S1, targets) = matchLocked subject S
      in (fold (enqueue_at m reply) targets S1, length targets))"

definition Publish ::
  "string \<Rightarrow> Context \<Rightarrow> addr \<Rightarrow> Subject \<Rightarrow> bytes \<Rightarrow> PublishOpt option list \<Rightarrow> Store \<Rightarrow> Store \<times> unit res" where
  "Publish minted ctx c subject data opts S =
     (let po = ResolvePublish opts in
      case checkPublish GrantPublish subject data c S of Some e \<Rightarrow> (S, Inl e)
      | None \<Rightarrow>
          (case ctx_err ctx of Some err \<Rightarrow> (S, Inl (ctx_fault subject err))
           | None \<Rightarrow>
               (let m = NewMsg subject '''' (stampWith minted (Some ctx) (id_of S c) (po_Headers po)) data None
                in (fst (deliver subject m None S), Inr ()))))"

section \<open>Subscribing\<close>

definition subscribe ::
  "addr \<Rightarrow> Pattern \<Rightarrow> bool \<Rightarrow> SubOptions \<Rightarrow> addr option \<Rightarrow> bool \<Rightarrow> Store \<Rightarrow> Store \<times> addr res" where
  "subscribe c pattern h opts onReply checkGrant S =
     (let who = Identity_String (id_of S c) in
      case alive c S of Some e \<Rightarrow> (S, Inl e)
      | None \<Rightarrow>
          if \<not> h then (S, Inl (mkFault FaultSchema pattern (''principal '' @ who @ '': handler is nil'')))
          else case ParsePattern pattern of
            Inl err \<Rightarrow> (S, Inl (parseFault pattern err))
          | Inr _ \<Rightarrow>
              if denyPattern S pattern then
                (S, Inl (Denied pattern who ''pattern reaches a permanently ineligible subject family''))
              else if checkGrant \<and> \<not> CanPattern (Id_Grants (id_of S c)) GrantSubscribe pattern then
                (S, Inl (Denied pattern who ''no subscribe grant covers this pattern''))
              else
                (let a = length (H_subs S); sub = newSubscription c pattern opts onReply;
                     gone = withdrawn ''connection belongs to a previous generation'' in
                 if S_closed S \<or> c_gen (H_conns S ! c) \<noteq> S_gen S then
                   (S\<lparr>H_subs := H_subs S @ [sub_finish (Some gone) sub]\<rparr>, Inl gone)
                 else
                   (mod_conn c (\<lambda>k. k\<lparr>c_subs := c_subs k @ [a]\<rparr>)
                      (S\<lparr>H_subs := H_subs S @ [sub], S_subs := S_subs S @ [a]\<rparr>),
                    Inr a)))"

definition Subscribe ::
  "addr \<Rightarrow> Pattern \<Rightarrow> bool \<Rightarrow> SubOpt option list \<Rightarrow> Store \<Rightarrow> Store \<times> addr res" where
  "Subscribe c pattern h opts S = subscribe c pattern h (ResolveSub opts) None True S"

section \<open>Request and reply\<close>

definition inbox_name :: "conn \<Rightarrow> 64 word \<Rightarrow> Subject" where
  "inbox_name c n = ''_INBOX.'' @ PluginID (c_id c) @ ''.'' @ formatUint (c_gen c) @ ''.'' @ formatUint n"

definition no_responders :: "Identity \<Rightarrow> Subject \<Rightarrow> Fault" where
  "no_responders i subject =
     mkFault FaultNoResponders subject (''principal '' @ Identity_String i @ '': nothing is listening'')"

text \<open>On success, the inbox and the address of its channel.\<close>

definition request_begin ::
  "string \<Rightarrow> Context \<Rightarrow> addr \<Rightarrow> Subject \<Rightarrow> bytes \<Rightarrow> ReqOpt option list \<Rightarrow> Store \<Rightarrow> Store \<times> (Subject \<times> addr) res" where
  "request_begin minted ctx c subject data opts S =
     (let ro = ResolveReq opts in
      case checkPublish GrantRequest subject data c S of Some e \<Rightarrow> (S, Inl e)
      | None \<Rightarrow>
          (case ctx_err ctx of Some err \<Rightarrow> (S, Inl (ctx_fault subject err))
           | None \<Rightarrow>
               (let n = c_inboxN (H_conns S ! c) + 1;
                    reply = inbox_name (H_conns S ! c) n;
                    ch = length (H_chans S);
                    S1 = (mod_conn c (\<lambda>k. k\<lparr>c_inboxN := n\<rparr>) S)
                           \<lparr>H_chans := H_chans S @ [None], S_inboxes := AList.update reply ch (S_inboxes S)\<rparr>;
                    m = NewMsg subject reply (stampWith minted (Some ctx) (id_of S c) (ro_Headers ro)) data None;
                    (S2, k) = deliver subject m (Some reply) S1
                in if k = 0 then
                     (S2\<lparr>S_inboxes := AList.delete reply (S_inboxes S2)\<rparr>, Inl (no_responders (id_of S c) subject))
                   else (S2, Inr (reply, ch)))))"

text \<open>The case of the \<^verbatim>\<open>select\<close>: a reply is there, the context ended, or the timer fired. A Go
  \<^verbatim>\<open>select\<close> takes the first only when the channel holds a message.\<close>

datatype request_event = Replied | CtxDone string | TimerFired

definition request_end ::
  "request_event \<Rightarrow> addr \<Rightarrow> Subject \<Rightarrow> ReqOpt option list \<Rightarrow> Subject \<times> addr \<Rightarrow> Store \<Rightarrow> (Store \<times> Msg res) option" where
  "request_end ev c subject opts inbox S =
     (let (reply, ch) = inbox; who = Identity_String (id_of S c);
          S1 = S\<lparr>S_inboxes := AList.delete reply (S_inboxes S)\<rparr> in
      case ev of
        Replied \<Rightarrow>
          (case H_chans S ! ch of
             None \<Rightarrow> None
           | Some r \<Rightarrow> Some (S1\<lparr>H_chans := (H_chans S)[ch := None]\<rparr>, Inr r))
      | CtxDone err \<Rightarrow>
          Some (S1, Inl \<lparr>Code = FaultTimeout, Op = subject, Message = ''principal '' @ who @ '': '' @ err,
                         Err = Some (WrapText err)\<rparr>)
      | TimerFired \<Rightarrow>
          Some (S1, Inl (mkFault FaultTimeout subject
            (''principal '' @ who @ '': no reply within '' @ Duration_String (ro_Timeout (ResolveReq opts))))))"

definition respond_headers :: "Identity \<Rightarrow> Headers \<Rightarrow> Headers" where
  "respond_headers i h =
     (let out = StripReserved h;
          fc = Headers_Get h HeaderFault;
          out1 = (if fc \<noteq> '''' then AList.update HeaderFault fc out else out);
          corr = Headers_Get h HeaderCorrelation;
          out2 = (if corr \<noteq> '''' then AList.update HeaderCorrelation corr out1 else out1);
          out3 = AList.update HeaderGeneration (Generation i) (AList.update HeaderCaller (PluginID i) out2)
      in if \<not> Lease_IsZero (Id_Lease i) then AList.update HeaderSubject (lease_token (Id_Lease i)) out3 else out3)"

definition respondTo :: "addr \<Rightarrow> Subject \<Rightarrow> Headers \<Rightarrow> bytes \<Rightarrow> Store \<Rightarrow> Store \<times> unit res" where
  "respondTo c reply h data S =
     (let i = id_of S c; out = respond_headers i h;
          refuse = (\<lambda>why. (S, Inl (mkFault FaultUnhandled reply (''principal '' @ Identity_String i @ why)))) in
      case map_of (S_inboxes S) reply of
        None \<Rightarrow> refuse '': requester is no longer waiting''
      | Some ch \<Rightarrow>
          (case H_chans S ! ch of
             None \<Rightarrow> (S\<lparr>H_chans := (H_chans S)[ch := Some (NewMsg reply '''' out data None)]\<rparr>, Inr ())
           | Some _ \<Rightarrow> refuse '': request already answered''))"

text \<open>\<^verbatim>\<open>onReply\<close> of an endpoint: count the answer as an error when it carries a fault.\<close>

definition onReply :: "addr option \<Rightarrow> Headers \<Rightarrow> Store \<Rightarrow> Store" where
  "onReply v h S =
     (case v of None \<Rightarrow> S
      | Some a \<Rightarrow> if Headers_Get h HeaderFault \<noteq> '''' then mod_svc a (\<lambda>s. s\<lparr>v_errors := v_errors s + 1\<rparr>) S else S)"

definition Respond :: "Msg option \<Rightarrow> Headers \<Rightarrow> bytes \<Rightarrow> Store \<Rightarrow> Store \<times> unit res" where
  "Respond m h data S =
     (case m of
        None \<Rightarrow> (S, Inl (mkFault FaultUnhandled '''' ''message is not a request''))
      | Some msg \<Rightarrow>
          (case m_respond msg of
             None \<Rightarrow> (S, Inl (mkFault FaultUnhandled (m_Subject msg) ''message is not a request''))
           | Some (to, a) \<Rightarrow>
               respondTo (s_conn (H_subs S ! a)) to h data (onReply (s_onReply (H_subs S ! a)) h S)))"

definition RespondFault :: "Msg option \<Rightarrow> Fault \<Rightarrow> Store \<Rightarrow> Store \<times> unit res" where
  "RespondFault m f S = Respond m [(HeaderFault, Code f)] (Fault_Error f) S"

section \<open>The delivery set\<close>

definition eligible :: "Subject \<Rightarrow> Store \<Rightarrow> addr \<Rightarrow> bool" where
  "eligible subject S a \<longleftrightarrow>
     (let s = H_subs S ! a in \<not> s_done s \<and> Matches (s_pattern s) subject \<and> \<not> sub_stopped s)"

definition in_group :: "Store \<Rightarrow> string \<Rightarrow> addr \<Rightarrow> bool" where
  "in_group S g a \<longleftrightarrow> s_group (H_subs S ! a) = g"

definition matched :: "Subject \<Rightarrow> Store \<Rightarrow> string \<Rightarrow> addr list \<Rightarrow> addr list" where
  "matched subject S g as = filter (\<lambda>a. eligible subject S a \<and> in_group S g a) as"

definition scan_ok :: "match_acc \<Rightarrow> bool" where
  "scan_ok m \<longleftrightarrow> distinct (ma_order m) \<and> '''' \<notin> set (ma_order m) \<and>
     (\<forall>g. g \<in> set (ma_order m) \<longleftrightarrow> members (ma_groups m) g \<noteq> []) \<and>
     (\<forall>g. map_of (ma_groups m) g = None \<longleftrightarrow> members (ma_groups m) g = [])"

lemma members_update:
  "members (AList.update g as gs) g' = (if g' = g then as else members gs g')"
  by (simp add: members_def amap_simps)

lemma match_one_spec:
  fixes a subject S m
  defines "m' \<equiv> match_one subject S a m"
  shows "ma_out m' = ma_out m @ matched subject S '''' [a]"
    and "ma_live m' = ma_live m @ filter (\<lambda>a. \<not> s_done (H_subs S ! a)) [a]"
    and "g \<noteq> '''' \<Longrightarrow> members (ma_groups m') g = members (ma_groups m) g @ matched subject S g [a]"
    and "scan_ok m \<Longrightarrow> scan_ok m'"
  unfolding m'_def
  by (auto simp: match_one_def Let_def matched_def eligible_def in_group_def members_update scan_ok_def amap_simps)

lemma match_fold_spec:
  fixes as subject S m
  defines "m' \<equiv> fold (match_one subject S) as m"
  shows "ma_out m' = ma_out m @ matched subject S '''' as"
    and "ma_live m' = ma_live m @ filter (\<lambda>a. \<not> s_done (H_subs S ! a)) as"
    and "g \<noteq> '''' \<Longrightarrow> members (ma_groups m') g = members (ma_groups m) g @ matched subject S g as"
    and "scan_ok m \<Longrightarrow> scan_ok m'"
  unfolding m'_def
  by (induction as arbitrary: m) (auto simp: match_one_spec matched_def)

lemma match_scan_spec:
  fixes subject S as
  defines "m \<equiv> match_scan subject S as"
  shows "ma_out m = matched subject S '''' as"
    and "ma_live m = filter (\<lambda>a. \<not> s_done (H_subs S ! a)) as"
    and "g \<noteq> '''' \<Longrightarrow> members (ma_groups m) g = matched subject S g as"
    and "distinct (ma_order m)"
    and "set (ma_order m) = {g. g \<noteq> '''' \<and> matched subject S g as \<noteq> []}"
proof -
  let ?m0 = "\<lparr>ma_out = [], ma_groups = [], ma_order = [], ma_live = []\<rparr>"
  have "scan_ok ?m0" by (simp add: scan_ok_def members_def)
  then have ok: "scan_ok m" unfolding m_def match_scan_def by (rule match_fold_spec)
  show "ma_out m = matched subject S '''' as" "ma_live m = filter (\<lambda>a. \<not> s_done (H_subs S ! a)) as"
    unfolding m_def match_scan_def by (simp_all add: match_fold_spec)
  have mem: "members (ma_groups m) g = matched subject S g as" if "g \<noteq> ''''" for g
    using that unfolding m_def match_scan_def by (simp add: match_fold_spec members_def [of "[]"])
  then show "g \<noteq> '''' \<Longrightarrow> members (ma_groups m) g = matched subject S g as" .
  show "distinct (ma_order m)" using ok by (simp add: scan_ok_def)
  show "set (ma_order m) = {g. g \<noteq> '''' \<and> matched subject S g as \<noteq> []}"
    using ok mem by (auto simp: scan_ok_def) metis+
qed

text \<open>What \<open>pick_groups\<close> takes from each group, and the counters it leaves.\<close>

lemma pick_groups_spec:
  "distinct order \<Longrightarrow>
     fst (pick_groups gs order rr) =
       map (\<lambda>g. members gs g ! (unat (rr_of rr g) mod length (members gs g))) order \<and>
     (\<forall>g. rr_of (snd (pick_groups gs order rr)) g = (if g \<in> set order then rr_of rr g + 1 else rr_of rr g))"
proof (induction order arbitrary: rr)
  case (Cons x xs)
  let ?rr = "AList.update x (rr_of rr x + 1) rr"
  have rr: "rr_of ?rr g = (if g = x then rr_of rr x + 1 else rr_of rr g)" for g
    by (simp add: rr_of_def amap_simps)
  have "map (\<lambda>g. members gs g ! (unat (rr_of ?rr g) mod length (members gs g))) xs =
      map (\<lambda>g. members gs g ! (unat (rr_of rr g) mod length (members gs g))) xs"
    using Cons.prems by (intro map_cong) (auto simp: rr)
  then show ?case using Cons.IH [of ?rr] Cons.prems rr by (auto simp: Let_def split_beta)
qed simp

definition chosen :: "Subject \<Rightarrow> Store \<Rightarrow> string \<Rightarrow> addr" where
  "chosen subject S g =
     (let ms = matched subject S g (S_subs S) in ms ! (unat (rr_of (S_rr S) g) mod length ms))"

lemma matchLocked_spec:
  obtains order where "distinct order" "set order = {g. g \<noteq> '''' \<and> matched subject S g (S_subs S) \<noteq> []}"
    "snd (matchLocked subject S) = matched subject S '''' (S_subs S) @ map (chosen subject S) order"
    "\<And>g. rr_of (S_rr (fst (matchLocked subject S))) g =
       (if g \<in> set order then rr_of (S_rr S) g + 1 else rr_of (S_rr S) g)"
    "fst (matchLocked subject S) =
       S\<lparr>S_subs := filter (\<lambda>a. \<not> s_done (H_subs S ! a)) (S_subs S), S_rr := S_rr (fst (matchLocked subject S))\<rparr>"
proof
  let ?m = "match_scan subject S (S_subs S)"
  show d: "distinct (ma_order ?m)" by (rule match_scan_spec)
  show o: "set (ma_order ?m) = {g. g \<noteq> '''' \<and> matched subject S g (S_subs S) \<noteq> []}"
    by (rule match_scan_spec)
  have "map (\<lambda>g. members (ma_groups ?m) g ! (unat (rr_of (S_rr S) g) mod length (members (ma_groups ?m) g)))
          (ma_order ?m) = map (chosen subject S) (ma_order ?m)"
    using o by (intro map_cong) (auto simp: chosen_def match_scan_spec Let_def)
  then show "snd (matchLocked subject S) = matched subject S '''' (S_subs S) @ map (chosen subject S) (ma_order ?m)"
    using pick_groups_spec [OF d] by (simp add: matchLocked_def Let_def split_beta match_scan_spec)
  show "rr_of (S_rr (fst (matchLocked subject S))) g =
      (if g \<in> set (ma_order ?m) then rr_of (S_rr S) g + 1 else rr_of (S_rr S) g)" for g
    using pick_groups_spec [OF d] by (simp add: matchLocked_def Let_def split_beta)
  show "fst (matchLocked subject S) =
      S\<lparr>S_subs := filter (\<lambda>a. \<not> s_done (H_subs S ! a)) (S_subs S), S_rr := S_rr (fst (matchLocked subject S))\<rparr>"
    by (simp add: matchLocked_def Let_def split_beta match_scan_spec)
qed

lemma chosen_in: "matched subject S g (S_subs S) \<noteq> [] \<Longrightarrow> chosen subject S g \<in> set (matched subject S g (S_subs S))"
  by (simp add: chosen_def Let_def)

lemma matched_in: "a \<in> set (matched subject S g as) \<longleftrightarrow> a \<in> set as \<and> eligible subject S a \<and> in_group S g a"
  by (auto simp: matched_def)

lemma targets_eligible:
  "a \<in> set (snd (matchLocked subject S)) \<Longrightarrow> a \<in> set (S_subs S) \<and> eligible subject S a"
proof (rule matchLocked_spec [of subject S])
  fix order assume "a \<in> set (snd (matchLocked subject S))"
    "set order = {g. g \<noteq> '''' \<and> matched subject S g (S_subs S) \<noteq> []}"
    "snd (matchLocked subject S) = matched subject S '''' (S_subs S) @ map (chosen subject S) order"
  then show ?thesis using chosen_in [of subject S] by (force simp: matched_in)
qed

lemma matchLocked_frame [simp]:
  "H_subs (fst (matchLocked subject S)) = H_subs S" "H_conns (fst (matchLocked subject S)) = H_conns S"
  "S_cfg (fst (matchLocked subject S)) = S_cfg S" "S_conns (fst (matchLocked subject S)) = S_conns S"
  "H_services (fst (matchLocked subject S)) = H_services S" "S_services (fst (matchLocked subject S)) = S_services S"
  "S_schedules (fst (matchLocked subject S)) = S_schedules S" "S_closed (fst (matchLocked subject S)) = S_closed S"
  "S_gen (fst (matchLocked subject S)) = S_gen S" "durable (fst (matchLocked subject S)) = durable S"
  "set (S_subs (fst (matchLocked subject S))) \<subseteq> set (S_subs S)"
  "H_chans (fst (matchLocked subject S)) = H_chans S" "S_inboxes (fst (matchLocked subject S)) = S_inboxes S"
  by (auto simp: matchLocked_def Let_def split_beta match_scan_spec durable_def)

lemma enqueue_at_frame [simp]:
  "S_schedules (enqueue_at m r a S) = S_schedules S" "S_cfg (enqueue_at m r a S) = S_cfg S"
  "H_conns (enqueue_at m r a S) = H_conns S" "S_subs (enqueue_at m r a S) = S_subs S"
  "S_conns (enqueue_at m r a S) = S_conns S" "S_closed (enqueue_at m r a S) = S_closed S"
  "S_gen (enqueue_at m r a S) = S_gen S" "S_inboxes (enqueue_at m r a S) = S_inboxes S"
  "H_chans (enqueue_at m r a S) = H_chans S" "length (H_subs (enqueue_at m r a S)) = length (H_subs S)"
  "H_services (enqueue_at m r a S) = H_services S" "S_services (enqueue_at m r a S) = S_services S"
  by (simp_all add: enqueue_at_def)

lemma enqueue_fold_frame [simp]:
  "S_schedules (fold (enqueue_at m r) ts S) = S_schedules S" "S_cfg (fold (enqueue_at m r) ts S) = S_cfg S"
  "H_conns (fold (enqueue_at m r) ts S) = H_conns S" "S_subs (fold (enqueue_at m r) ts S) = S_subs S"
  "S_conns (fold (enqueue_at m r) ts S) = S_conns S" "S_closed (fold (enqueue_at m r) ts S) = S_closed S"
  "S_gen (fold (enqueue_at m r) ts S) = S_gen S" "S_inboxes (fold (enqueue_at m r) ts S) = S_inboxes S"
  "H_chans (fold (enqueue_at m r) ts S) = H_chans S"
  "length (H_subs (fold (enqueue_at m r) ts S)) = length (H_subs S)"
  "H_services (fold (enqueue_at m r) ts S) = H_services S" "S_services (fold (enqueue_at m r) ts S) = S_services S"
  by (rule fold_frame; simp)+

lemma deliver_frame [simp]:
  "S_schedules (fst (deliver s m r S)) = S_schedules S" "S_cfg (fst (deliver s m r S)) = S_cfg S"
  "H_conns (fst (deliver s m r S)) = H_conns S" "set (S_subs (fst (deliver s m r S))) \<subseteq> set (S_subs S)"
  "S_conns (fst (deliver s m r S)) = S_conns S" "S_closed (fst (deliver s m r S)) = S_closed S"
  "S_gen (fst (deliver s m r S)) = S_gen S" "S_inboxes (fst (deliver s m r S)) = S_inboxes S"
  "H_chans (fst (deliver s m r S)) = H_chans S" "length (H_subs (fst (deliver s m r S))) = length (H_subs S)"
  "H_services (fst (deliver s m r S)) = H_services S" "S_services (fst (deliver s m r S)) = S_services S"
  using matchLocked_frame(11) [of s S] by (auto simp: deliver_def Let_def split_beta)

section \<open>Round robin\<close>

lemma matchLocked_matched:
  "matched subject (fst (matchLocked subject S)) g (S_subs (fst (matchLocked subject S))) =
     matched subject S g (S_subs S)"
proof -
  have "S_subs (fst (matchLocked subject S)) = filter (\<lambda>a. \<not> s_done (H_subs S ! a)) (S_subs S)"
    by (simp add: matchLocked_def Let_def split_beta match_scan_spec)
  moreover have "eligible subject (fst (matchLocked subject S)) a = eligible subject S a"
    "in_group (fst (matchLocked subject S)) g a = in_group S g a" for a
    by (simp_all add: eligible_def in_group_def)
  ultimately show ?thesis by (auto simp: matched_def eligible_def Let_def intro!: filter_cong)
qed

lemma matchLocked_rr:
  "g \<noteq> '''' \<Longrightarrow> matched subject S g (S_subs S) \<noteq> [] \<Longrightarrow>
     rr_of (S_rr (fst (matchLocked subject S))) g = rr_of (S_rr S) g + 1"
  by (rule matchLocked_spec [of subject S]) auto

text \<open>The members of group \<open>g\<close> that \<open>n\<close> consecutive deliveries to a subject choose.\<close>

primrec picks :: "Subject \<Rightarrow> string \<Rightarrow> nat \<Rightarrow> Store \<Rightarrow> addr list" where
  "picks subject g 0 S = []"
| "picks subject g (Suc n) S = chosen subject S g # picks subject g n (fst (matchLocked subject S))"

lemma picks_nth:
  assumes "g \<noteq> ''''" and "matched subject S g (S_subs S) = ms" and "ms \<noteq> []"
    and "unat (rr_of (S_rr S) g) + n \<le> 2 ^ 64"
  shows "picks subject g n S = map (\<lambda>k. ms ! ((unat (rr_of (S_rr S) g) + k) mod length ms)) [0 ..< n]"
  using assms
proof (induction n arbitrary: S)
  case (Suc n)
  let ?S = "fst (matchLocked subject S)" and ?r = "unat (rr_of (S_rr S) g)"
  have "rr_of (S_rr ?S) g = rr_of (S_rr S) g + 1"
    using Suc.prems by (intro matchLocked_rr) auto
  moreover have "?r + 1 < 2 ^ 64 \<or> n = 0" using Suc.prems(4) by linarith
  moreover have "unat (rr_of (S_rr S) g + 1) = ?r + 1" if "?r + 1 < 2 ^ 64"
    using that unat_add_lem [THEN iffD1, of "rr_of (S_rr S) g" 1] by simp
  ultimately have r: "unat (rr_of (S_rr ?S) g) = ?r + 1 \<or> n = 0" by auto
  have "picks subject g n ?S = map (\<lambda>k. ms ! ((?r + Suc k) mod length ms)) [0 ..< n]"
  proof (cases "n = 0")
    case False
    with r have "unat (rr_of (S_rr ?S) g) = ?r + 1" by simp
    then show ?thesis using Suc.IH [of ?S] Suc.prems by (simp add: matchLocked_matched)
  qed simp
  moreover have "map f [0 ..< Suc n] = f 0 # map (f \<circ> Suc) [0 ..< n]" for f :: "nat \<Rightarrow> addr"
    by (simp only: upt_conv_Cons map_Suc_upt [symmetric] list.map map_map zero_less_Suc)
  ultimately show ?case using Suc.prems(2) by (simp add: chosen_def Let_def del: upt_Suc)
qed simp

section \<open>Properties\<close>

text \<open>C4. The delivery set of a subject is every live matching subscription outside a queue group, in
  the order they were made, and exactly one live matching member of each queue group that has one;
  nothing else receives.\<close>

theorem delivery_set:
  "filter (in_group S '''') (snd (matchLocked subject S)) = matched subject S '''' (S_subs S) \<and>
   set (snd (matchLocked subject S)) \<subseteq> {a. a \<in> set (S_subs S) \<and> eligible subject S a} \<and>
   (\<forall>g. g = '''' \<or>
      length (filter (in_group S g) (snd (matchLocked subject S))) =
        (if matched subject S g (S_subs S) = [] then 0 else 1))"
proof (rule matchLocked_spec [of subject S])
  fix order
  assume order: "distinct order" "set order = {g. g \<noteq> '''' \<and> matched subject S g (S_subs S) \<noteq> []}"
    and targets: "snd (matchLocked subject S) = matched subject S '''' (S_subs S) @ map (chosen subject S) order"
  have grp: "in_group S h (chosen subject S g) \<longleftrightarrow> h = g" if "g \<in> set order" for g h
    using chosen_in [of subject S g] that order(2) by (auto simp: matched_in in_group_def)
  have "filter (in_group S h) (map (chosen subject S) order) = map (chosen subject S) (filter (\<lambda>g. h = g) order)" for h
    unfolding filter_map by (intro arg_cong [where f = "map (chosen subject S)"] filter_cong) (simp_all add: grp)
  moreover have "filter (in_group S h) (matched subject S '''' as) = (if h = '''' then matched subject S '''' as else [])" for h as
    by (auto simp: matched_def filter_empty_conv in_group_def intro!: filter_True)
  moreover have "filter (\<lambda>g. '''' = g) order = []" using order(2) by (auto simp: filter_empty_conv)
  moreover have "length (filter (\<lambda>g. h = g) order) = (if matched subject S h (S_subs S) = [] then 0 else 1)"
    if "h \<noteq> ''''" for h
  proof -
    have "length (filter (\<lambda>g. h = g) order) = card ({g. h = g} \<inter> set order)"
      using order(1) by (rule distinct_length_filter)
    also have "{g. h = g} \<inter> set order = (if h \<in> set order then {h} else {})" by auto
    finally show ?thesis using order(2) that by simp
  qed
  ultimately show ?thesis using targets targets_eligible [of _ subject S] by (auto simp del: length_0_conv)
qed

text \<open>Queue groups are served round robin: as many consecutive deliveries as the group has live
  matching members choose each of them in turn, starting where the group's counter stands.\<close>

theorem queue_group_round_robin:
  assumes "g \<noteq> ''''" and "matched subject S g (S_subs S) = ms" and "ms \<noteq> []"
    and "unat (rr_of (S_rr S) g) + length ms \<le> 2 ^ 64"
  shows "picks subject g (length ms) S = rotate (unat (rr_of (S_rr S) g)) ms"
  by (rule nth_equalityI) (simp_all add: picks_nth [OF assms] nth_rotate add.commute)

definition demo_conn :: Store where
  "demo_conn = fst (Connect demo_identity (NewStore demo_env []))"

definition demo_group :: Store where
  "demo_group = fst (Subscribe 0 ''a.>'' True [Some (queueGroupOpt ''g'')]
     (fst (Subscribe 0 ''a.*'' True [Some (queueGroupOpt ''g'')] demo_conn)))"

lemma demo_group_members:
  "matched ''a.b'' demo_group ''g'' (S_subs demo_group) = [0, 1]" "rr_of (S_rr demo_group) ''g'' = 0"
  by code_simp+

theorem queue_group_round_robin_witness: "picks ''a.b'' ''g'' 2 demo_group = [0, 1]"
proof -
  have "picks ''a.b'' ''g'' (length [0::nat, 1]) demo_group = rotate (unat (rr_of (S_rr demo_group) ''g'')) [0, 1]"
    by (rule queue_group_round_robin [OF _ demo_group_members(1)]) (simp_all add: demo_group_members(2))
  then show ?thesis by (simp add: demo_group_members(2) numeral_2_eq_2 del: picks.simps)
qed

end
