(* ===== verification/Services.thy ===== *)
theory Services
  imports Delivery
begin

text \<open>
  Services, \<^verbatim>\<open>src/v2/bus/memory/services.go\<close>: a service is a set of queue subscriptions with counters.
  The wrapped handler of an endpoint and its \<^verbatim>\<open>onReply\<close> both capture the service; the subscription
  records that service in \<open>s_onReply\<close>. \<open>handler_call\<close> and \<open>handler_return\<close> are the two ends of a handler
  call by the delivery goroutine of a subscription.
\<close>

section \<open>Operations\<close>

definition service_Stats :: "service \<Rightarrow> ServiceStats" where
  "service_Stats v =
     \<lparr>ss_ID = si_ID (v_info v), ss_SvcName = si_Name (v_info v), ss_Requests = v_requests v,
      ss_Errors = v_errors v, ss_Processing = v_processing v, ss_Started = v_started v\<rparr>"

definition service_Stop :: "addr \<Rightarrow> Store \<Rightarrow> Store" where
  "service_Stop v S =
     (let s = H_services S ! v;
          S1 = dropSubsLocked (v_subs s) (S\<lparr>S_services := AList.delete (si_ID (v_info s)) (S_services S)\<rparr>);
          S2 = mod_conn (v_conn s) (\<lambda>c. c\<lparr>c_services := filter (\<lambda>x. x \<noteq> v) (c_services c)\<rparr>) S1
      in service_finish None v S2)"

definition services_off :: "string \<Rightarrow> addr \<Rightarrow> Store \<Rightarrow> Fault option" where
  "services_off op c S =
     (if \<not> Cap_Services (cfg_caps (S_cfg S)) then Some (Unsupported op ''services'') else alive c S)"

definition check_endpoint :: "addr \<Rightarrow> Store \<Rightarrow> EndpointSpec \<Rightarrow> Fault option" where
  "check_endpoint c S ep =
     (let subject = ep_Subject ep; who = Identity_String (id_of S c) in
      case ParseSubject subject of Inl err \<Rightarrow> Some (parseFault subject err)
      | Inr _ \<Rightarrow>
          if \<not> ep_Handler ep then
            Some (mkFault FaultSchema subject (''principal '' @ who @ '': endpoint '' @ ep_Name ep @ '' has no handler''))
          else if denySubject S subject then Some (Denied subject who ''subject is permanently ineligible'')
          else if \<not> Can (Id_Grants (id_of S c)) GrantServe subject then
            Some (Denied subject who ''no serve grant covers this subject'')
          else None)"

fun check_endpoints :: "addr \<Rightarrow> Store \<Rightarrow> EndpointSpec list \<Rightarrow> Fault option" where
  "check_endpoints c S [] = None"
| "check_endpoints c S (ep # eps) =
     (case check_endpoint c S ep of Some e \<Rightarrow> Some e | None \<Rightarrow> check_endpoints c S eps)"

definition endpoint_group :: "ServiceSpec \<Rightarrow> EndpointSpec \<Rightarrow> string" where
  "endpoint_group spec ep =
     (if ep_QueueGroup ep \<noteq> '''' then ep_QueueGroup ep
      else if sv_QueueGroup spec \<noteq> '''' then sv_QueueGroup spec else sv_Name spec)"

definition endpoint_info :: "ServiceSpec \<Rightarrow> EndpointSpec \<Rightarrow> EndpointInfo" where
  "endpoint_info spec ep =
     \<lparr>ei_Name = ep_Name ep, ei_Subject = ep_Subject ep, ei_QueueGroup = endpoint_group spec ep,
      ei_Point = ep_Point ep\<rparr>"

definition add_endpoint :: "addr \<Rightarrow> EndpointInfo \<Rightarrow> service \<Rightarrow> service" where
  "add_endpoint a ei v =
     v\<lparr>v_subs := v_subs v @ [a], v_info := (v_info v)\<lparr>si_Endpoints := si_Endpoints (v_info v) @ [ei]\<rparr>\<rparr>"

text \<open>The mounting loop of \<^verbatim>\<open>Serve\<close>, stopping at the first refusal.\<close>

fun mount_endpoints :: "addr \<Rightarrow> addr \<Rightarrow> ServiceSpec \<Rightarrow> EndpointSpec list \<Rightarrow> Store \<Rightarrow> Store \<times> Fault option" where
  "mount_endpoints c v spec [] S = (S, None)"
| "mount_endpoints c v spec (ep # eps) S =
     (case subscribe c (ep_Subject ep) True
             \<lparr>so_QueueGroup = endpoint_group spec ep, so_PendingLimit = DefaultPendingLimit\<rparr> (Some v) False S of
        (S1, Inl e) \<Rightarrow> (S1, Some e)
      | (S1, Inr a) \<Rightarrow>
          mount_endpoints c v spec eps (mod_svc v (add_endpoint a (endpoint_info spec ep)) S1))"

definition newService :: "addr \<Rightarrow> instant \<Rightarrow> string \<Rightarrow> ServiceSpec \<Rightarrow> service" where
  "newService c now i spec =
     \<lparr>v_conn = c,
      v_info = \<lparr>si_ID = i, si_Name = sv_Name spec, si_Version = sv_Version spec, si_Endpoints = [],
                si_Metadata = sv_Metadata spec\<rparr>,
      v_subs = [], v_requests = 0, v_errors = 0, v_processing = 0, v_started = now, v_err = None,
      v_finished = False, v_done = False\<rparr>"

definition Serve :: "instant \<Rightarrow> addr \<Rightarrow> ServiceSpec \<Rightarrow> Store \<Rightarrow> Store \<times> addr res" where
  "Serve now c spec S =
     (let who = Identity_String (id_of S c); op = ''svc:'' @ sv_Name spec in
      case services_off op c S of Some e \<Rightarrow> (S, Inl e)
      | None \<Rightarrow>
          if sv_Name spec = '''' then
            (S, Inl (mkFault FaultSchema ''svc:'' (''principal '' @ who @ '': service name is empty'')))
          else if length (sv_Endpoints spec) = 0 then
            (S, Inl (mkFault FaultSchema op (''principal '' @ who @ '': service declares no endpoints'')))
          else case check_endpoints c S (sv_Endpoints spec) of
            Some e \<Rightarrow> (S, Inl e)
          | None \<Rightarrow>
              (let (S1, i) = newID ''svc'' S; v = length (H_services S);
                   S2 = S1\<lparr>H_services := H_services S1 @ [newService c now i spec]\<rparr> in
               case mount_endpoints c v spec (sv_Endpoints spec) S2 of
                 (S3, Some e) \<Rightarrow>
                   (dropSubsLocked (v_subs (H_services S3 ! v)) (service_finish None v S3), Inl e)
               | (S3, None) \<Rightarrow>
                   (mod_conn c (\<lambda>k. k\<lparr>c_services := c_services k @ [v]\<rparr>)
                      (S3\<lparr>S_services := AList.update i v (S_services S3)\<rparr>),
                    Inr v)))"

definition Call_begin ::
  "string \<Rightarrow> Context \<Rightarrow> addr \<Rightarrow> Subject \<Rightarrow> bytes \<Rightarrow> ReqOpt option list \<Rightarrow> Store \<Rightarrow> Store \<times> (Subject \<times> addr) res" where
  "Call_begin minted ctx c subject data opts S =
     (case services_off subject c S of Some e \<Rightarrow> (S, Inl e)
      | None \<Rightarrow> request_begin minted ctx c subject data opts S)"

definition call_result :: "Subject \<Rightarrow> Msg \<Rightarrow> Msg res" where
  "call_result subject m =
     (if Headers_Get (m_Headers m) HeaderFault \<noteq> ''''
      then Inl (mkFault (Headers_Get (m_Headers m) HeaderFault) subject (m_Data m)) else Inr m)"

definition Call_end ::
  "request_event \<Rightarrow> addr \<Rightarrow> Subject \<Rightarrow> ReqOpt option list \<Rightarrow> Subject \<times> addr \<Rightarrow> Store \<Rightarrow> (Store \<times> Msg res) option" where
  "Call_end ev c subject opts inbox S =
     (case request_end ev c subject opts inbox S of
        None \<Rightarrow> None
      | Some (S1, Inl e) \<Rightarrow> Some (S1, Inl e)
      | Some (S1, Inr m) \<Rightarrow> Some (S1, call_result subject m))"

definition named_services :: "string \<Rightarrow> Store \<Rightarrow> service list" where
  "named_services name S =
     filter (\<lambda>v. \<not> (name \<noteq> '''' \<and> si_Name (v_info v) \<noteq> name)) (map (\<lambda>(i, a). H_services S ! a) (S_services S))"

definition Discover :: "addr \<Rightarrow> string \<Rightarrow> Store \<Rightarrow> ServiceInfo list res" where
  "Discover c name S =
     (case services_off ''svc:discover'' c S of Some e \<Rightarrow> Inl e
      | None \<Rightarrow> Inr (sort_key si_ID (map v_info (named_services name S))))"

definition Services_Stats :: "addr \<Rightarrow> string \<Rightarrow> Store \<Rightarrow> ServiceStats list res" where
  "Services_Stats c name S =
     (case services_off ''svc:stats'' c S of Some e \<Rightarrow> Inl e
      | None \<Rightarrow> Inr (sort_key ss_ID (map service_Stats (named_services name S))))"

section \<open>Handler calls\<close>

definition handler_call :: "addr \<Rightarrow> Store \<Rightarrow> (Store \<times> Msg) option" where
  "handler_call a S =
     (case run_take (H_subs S ! a) of
        None \<Rightarrow> None
      | Some (m, s) \<Rightarrow>
          (let S1 = mod_sub a (\<lambda>_. s) S in
           Some (case s_onReply s of None \<Rightarrow> S1
                 | Some v \<Rightarrow> mod_svc v (\<lambda>x. x\<lparr>v_requests := v_requests x + 1\<rparr>) S1, m)))"

definition handler_return :: "addr \<Rightarrow> duration \<Rightarrow> Store \<Rightarrow> Store" where
  "handler_return a elapsed S =
     (case s_onReply (H_subs S ! a) of None \<Rightarrow> S
      | Some v \<Rightarrow> mod_svc v (\<lambda>x. x\<lparr>v_processing := v_processing x + of_int elapsed\<rparr>) S)"

section \<open>Mounting\<close>

lemma cover_toks_literal:
  "''*'' \<notin> set p \<Longrightarrow> ''>'' \<notin> set p \<Longrightarrow> cover_toks p q \<Longrightarrow> q = p"
  by (induction p q rule: cover_toks.induct) (auto split: list.splits if_splits)

lemma check_endpoints_None:
  "check_endpoints c S eps = None \<Longrightarrow> ep \<in> set eps \<Longrightarrow>
     in_grammar False (ep_Subject ep) \<and> ep_Handler ep \<and> \<not> denySubject S (ep_Subject ep) \<and>
     Can (Id_Grants (id_of S c)) GrantServe (ep_Subject ep)"
  by (induction eps)
    (auto simp: check_endpoint_def Let_def split: option.splits sum.splits if_splits)

text \<open>On a concrete subject the two deny checks agree.\<close>

lemma deny_subject_pattern:
  assumes "in_grammar False p" and "\<not> denySubject S p"
  shows "\<not> denyPattern S p"
proof
  assume "denyPattern S p"
  then obtain d where d: "d \<in> set (cfg_deny (S_cfg S))" "Covers d p \<or> Covers p d"
    by (auto simp: denyPattern_def list_ex_iff)
  have p: "''*'' \<notin> set (Tokens p)" "''>'' \<notin> set (Tokens p)"
    using assms(1) by (auto simp: parse_accepts_grammar [symmetric] parse_None dest!: toks_ok_no_wildcard)
  have "Matches p p" using assms(1) by (simp add: Matches_subject)
  then have "Matches d p"
    using d(2) p cover_toks_sound cover_toks_literal unfolding Covers_def Matches_def by metis
  with d(1) assms(2) show False by (auto simp: denySubject_def MatchedByAny_def list_ex_iff)
qed

definition endpoint_sub :: "addr \<Rightarrow> addr \<Rightarrow> ServiceSpec \<Rightarrow> EndpointSpec \<Rightarrow> subscription" where
  "endpoint_sub c v spec ep =
     newSubscription c (ep_Subject ep)
       \<lparr>so_QueueGroup = endpoint_group spec ep, so_PendingLimit = DefaultPendingLimit\<rparr> (Some v)"

lemma newService_fields [simp]:
  "v_subs (newService c now i spec) = []" "si_Endpoints (v_info (newService c now i spec)) = []"
  "si_ID (v_info (newService c now i spec)) = i"
  by (simp_all add: newService_def)

lemma subscribe_endpoint:
  assumes "alive c S = None" and "in_grammar False pat" and "\<not> denySubject S pat"
  shows "subscribe c pat True opts r False S =
    (mod_conn c (\<lambda>k. k\<lparr>c_subs := c_subs k @ [length (H_subs S)]\<rparr>)
       (S\<lparr>H_subs := H_subs S @ [newSubscription c pat opts r], S_subs := S_subs S @ [length (H_subs S)]\<rparr>),
     Inr (length (H_subs S)))"
proof -
  have p: "ParsePattern pat = Inr pat" using assms(2) by (simp add: subject_in_pattern_grammar)
  have "\<not> (S_closed S \<or> c_gen (H_conns S ! c) \<noteq> S_gen S)"
    using assms(1) by (auto simp: alive_def split: if_splits)
  then show ?thesis
    unfolding subscribe_def Let_def p assms(1) using deny_subject_pattern [OF assms(2,3)] by simp
qed

lemma mount_all:
  assumes "alive c S = None" and "v < length (H_services S)"
    and "\<And>ep. ep \<in> set eps \<Longrightarrow> in_grammar False (ep_Subject ep) \<and> \<not> denySubject S (ep_Subject ep)"
  shows "\<exists>S'. mount_endpoints c v spec eps S = (S', None) \<and>
    H_subs S' = H_subs S @ map (endpoint_sub c v spec) eps \<and>
    S_subs S' = S_subs S @ [length (H_subs S) ..< length (H_subs S) + length eps] \<and>
    v_subs (H_services S' ! v) = v_subs (H_services S ! v) @ [length (H_subs S) ..< length (H_subs S) + length eps] \<and>
    si_Endpoints (v_info (H_services S' ! v)) = si_Endpoints (v_info (H_services S ! v)) @ map (endpoint_info spec) eps \<and>
    si_ID (v_info (H_services S' ! v)) = si_ID (v_info (H_services S ! v)) \<and>
    durable S' = durable S \<and> S_services S' = S_services S \<and> length (H_services S') = length (H_services S)"
  using assms
proof (induction eps arbitrary: S)
  case (Cons ep eps)
  let ?n = "length (H_subs S)"
  let ?S1 = "mod_conn c (\<lambda>k. k\<lparr>c_subs := c_subs k @ [?n]\<rparr>)
    (S\<lparr>H_subs := H_subs S @ [endpoint_sub c v spec ep], S_subs := S_subs S @ [?n]\<rparr>)"
  let ?S2 = "mod_svc v (add_endpoint ?n (endpoint_info spec ep)) ?S1"
  have step: "mount_endpoints c v spec (ep # eps) S = mount_endpoints c v spec eps ?S2"
    using Cons.prems(1,3) by (simp add: subscribe_endpoint endpoint_sub_def)
  have "alive c ?S2 = None"
    using Cons.prems(1) by (auto simp: alive_def heap_nth split: if_splits)
  moreover have "denySubject ?S2 = denySubject S" by (rule ext) (simp add: denySubject_def)
  ultimately obtain S' where S': "mount_endpoints c v spec eps ?S2 = (S', None)"
    "H_subs S' = H_subs ?S2 @ map (endpoint_sub c v spec) eps"
    "S_subs S' = S_subs ?S2 @ [length (H_subs ?S2) ..< length (H_subs ?S2) + length eps]"
    "v_subs (H_services S' ! v) = v_subs (H_services ?S2 ! v) @ [length (H_subs ?S2) ..< length (H_subs ?S2) + length eps]"
    "si_Endpoints (v_info (H_services S' ! v)) = si_Endpoints (v_info (H_services ?S2 ! v)) @ map (endpoint_info spec) eps"
    "si_ID (v_info (H_services S' ! v)) = si_ID (v_info (H_services ?S2 ! v))"
    "durable S' = durable ?S2" "S_services S' = S_services ?S2" "length (H_services S') = length (H_services ?S2)"
    using Cons.IH [of ?S2] Cons.prems by auto
  have "durable ?S2 = durable S" by (simp add: durable_def)
  moreover have "[?n ..< ?n + length (ep # eps)] = ?n # [Suc ?n ..< Suc ?n + length eps]"
    by (simp add: upt_conv_Cons del: upt_Suc)
  ultimately show ?case
    using S' Cons.prems(2) step by (simp add: add_endpoint_def del: upt_Suc)
qed simp

section \<open>Properties\<close>

text \<open>C6. \<open>Serve\<close> mounts the whole service or nothing: a refusal leaves the store exactly as it was; on
  success every endpoint of the specification, in order, is a new queue subscription on its subject in
  its group, the service advertises exactly these endpoints, and it is found under its id.\<close>

theorem serve_all_or_nothing:
  "case Serve now c spec S of
     (S', Inl e) \<Rightarrow> S' = S
   | (S', Inr v) \<Rightarrow>
       H_subs S' = H_subs S @ map (endpoint_sub c v spec) (sv_Endpoints spec) \<and>
       S_subs S' = S_subs S @ v_subs (H_services S' ! v) \<and>
       v_subs (H_services S' ! v) = [length (H_subs S) ..< length (H_subs S')] \<and>
       si_Endpoints (v_info (H_services S' ! v)) = map (endpoint_info spec) (sv_Endpoints spec) \<and>
       map_of (S_services S') (si_ID (v_info (H_services S' ! v))) = Some v"
proof (cases "services_off (''svc:'' @ sv_Name spec) c S = None \<and> sv_Name spec \<noteq> '''' \<and>
    length (sv_Endpoints spec) \<noteq> 0 \<and> check_endpoints c S (sv_Endpoints spec) = None")
  case True
  let ?i = "snd (newID ''svc'' S)" and ?v = "length (H_services S)"
  let ?S2 = "(fst (newID ''svc'' S))\<lparr>H_services := H_services S @ [newService c now ?i spec]\<rparr>"
  have alive: "alive c ?S2 = None"
    using True by (auto simp: services_off_def alive_def newID_def Let_def split: if_splits)
  have deny: "denySubject ?S2 = denySubject S" by (rule ext) (simp add: denySubject_def newID_def Let_def)
  have S2: "H_subs ?S2 = H_subs S" "S_subs ?S2 = S_subs S" "H_services (fst (newID ''svc'' S)) = H_services S"
    by (simp_all add: newID_def Let_def)
  have ok: "in_grammar False (ep_Subject ep) \<and> \<not> denySubject ?S2 (ep_Subject ep)" if "ep \<in> set (sv_Endpoints spec)" for ep
    unfolding deny using check_endpoints_None [of c S "sv_Endpoints spec" ep] True that by simp
  obtain S3 where S3: "mount_endpoints c ?v spec (sv_Endpoints spec) ?S2 = (S3, None)"
    "H_subs S3 = H_subs S @ map (endpoint_sub c ?v spec) (sv_Endpoints spec)"
    "S_subs S3 = S_subs S @ [length (H_subs S) ..< length (H_subs S) + length (sv_Endpoints spec)]"
    "v_subs (H_services S3 ! ?v) = [length (H_subs S) ..< length (H_subs S) + length (sv_Endpoints spec)]"
    "si_Endpoints (v_info (H_services S3 ! ?v)) = map (endpoint_info spec) (sv_Endpoints spec)"
    "si_ID (v_info (H_services S3 ! ?v)) = ?i"
    using mount_all [OF alive, of ?v "sv_Endpoints spec" spec] ok by (auto simp: S2)
  then show ?thesis
    using True by (simp add: Serve_def Let_def split_beta S2 amap_simps)
qed (auto simp: Serve_def Let_def split: option.splits)

end
