(* ===== verification/Scheduler.thy ===== *)
theory Scheduler
  imports Delivery
begin

text \<open>
  Durable schedules, \<^verbatim>\<open>src/v2/bus/memory/scheduler.go\<close>. \<open>fireDue\<close> is one tick of the goroutine
  \<^verbatim>\<open>runSchedules\<close>; the ticker itself is the environment.
\<close>

definition entry_schedule :: "scheduleEntry \<Rightarrow> Schedule" where
  "entry_schedule e =
     \<lparr>sd_Name = sc_name e, sd_Subject = sc_subject e, sd_Data = sc_data e,
      sd_Headers = Headers_Clone (sc_headers e), sd_At = sc_at e, sd_Every = sc_every e,
      sd_Cron = sc_cron e, sd_Next = sc_next e\<rparr>"

section \<open>Firing\<close>

definition is_due :: "instant \<Rightarrow> scheduleEntry \<Rightarrow> bool" where
  "is_due now e = (\<not> (sc_next e = 0 \<or> now < sc_next e))"

text \<open>What becomes of an entry that fires; \<open>None\<close> is removal.\<close>

definition after_fire :: "instant \<Rightarrow> scheduleEntry \<Rightarrow> scheduleEntry option" where
  "after_fire now e =
     (if sc_kind e = ''at'' then None
      else if sc_kind e = ''every'' then
        (let n = sc_next e + sc_every e
         in Some (e\<lparr>sc_next := (if \<not> now < n then now + sc_every e else n)\<rparr>))
      else if sc_kind e = ''cron'' then
        (case sc_expr e of
           None \<Rightarrow> None
         | Some x \<Rightarrow> (case cron_next x now of Some n \<Rightarrow> Some (e\<lparr>sc_next := n\<rparr>) | None \<Rightarrow> None))
      else Some e)"

definition advance_entry :: "instant \<Rightarrow> scheduleEntry \<Rightarrow> scheduleEntry option" where
  "advance_entry now e = (if is_due now e then after_fire now e else Some e)"

definition advance_plugin :: "instant \<Rightarrow> (string, scheduleEntry) amap \<Rightarrow> (string, scheduleEntry) amap" where
  "advance_plugin now byName =
     concat (map (\<lambda>(name, e). case advance_entry now e of Some e' \<Rightarrow> [(name, e')] | None \<Rightarrow> []) byName)"

definition shots :: "instant \<Rightarrow> Store \<Rightarrow> scheduleEntry list" where
  "shots now S = concat (map (\<lambda>(p, byName). filter (is_due now) (map snd byName)) (S_schedules S))"

definition advance_all :: "instant \<Rightarrow> Store \<Rightarrow> Store" where
  "advance_all now S =
     S\<lparr>S_schedules :=
        filter (\<lambda>(p, byName). byName \<noteq> []) (map (\<lambda>(p, byName). (p, advance_plugin now byName)) (S_schedules S))\<rparr>"

definition fire_shot :: "scheduleEntry \<times> string \<Rightarrow> Store \<Rightarrow> Store" where
  "fire_shot em S =
     (let (e, minted) = em in
      if denySubject S (sc_subject e) \<or> \<not> Can (Id_Grants (sc_id e)) GrantPublish (sc_subject e) then S
      else
        (let h = stampWith minted (Some Background) (sc_id e) (Headers_Clone (sc_headers e))
         in fst (deliver (sc_subject e) (NewMsg (sc_subject e) '''' h (sc_data e) None) None S)))"

text \<open>\<open>mint k\<close> is the correlation id drawn for the \<open>k\<close>-th shot.\<close>

definition fireDue :: "(nat \<Rightarrow> string) \<Rightarrow> instant \<Rightarrow> Store \<Rightarrow> Store" where
  "fireDue mint now S =
     (let sh = shots now S in fold fire_shot (zip sh (map mint [0 ..< length sh])) (advance_all now S))"

section \<open>The API\<close>

definition scheduler_off :: "string \<Rightarrow> addr \<Rightarrow> Store \<Rightarrow> Fault option" where
  "scheduler_off op c S =
     (if \<not> Cap_Schedule (cfg_caps (S_cfg S)) then Some (Unsupported op ''schedule'') else alive c S)"

definition schedule_check :: "string \<Rightarrow> Subject \<Rightarrow> bytes \<Rightarrow> addr \<Rightarrow> Store \<Rightarrow> Fault option" where
  "schedule_check name subject data c S =
     (if name = '''' then
        Some (mkFault FaultSchema subject
               (''principal '' @ Identity_String (id_of S c) @ '': schedule name is empty''))
      else checkPublish GrantPublish subject data c S)"

definition by_name :: "string \<Rightarrow> Store \<Rightarrow> (string, scheduleEntry) amap" where
  "by_name pid S = (case map_of (S_schedules S) pid of Some m \<Rightarrow> m | None \<Rightarrow> [])"

definition register :: "addr \<Rightarrow> scheduleEntry \<Rightarrow> Store \<Rightarrow> Store \<times> unit res" where
  "register c e S =
     (if S_closed S then (S, Inl (withdrawn ''substrate closed''))
      else
        (let pid = PluginID (id_of S c)
         in (S\<lparr>S_schedules := AList.update pid (AList.update (sc_name e) e (by_name pid S)) (S_schedules S)\<rparr>, Inr ())))"

definition new_entry ::
  "Identity \<Rightarrow> string \<Rightarrow> Subject \<Rightarrow> bytes \<Rightarrow> PublishOpt option list \<Rightarrow> string \<Rightarrow> scheduleEntry" where
  "new_entry i name subject data opts kind =
     \<lparr>sc_id = i, sc_name = name, sc_subject = subject, sc_data = data,
      sc_headers = StripReserved (po_Headers (ResolvePublish opts)), sc_kind = kind, sc_at = 0,
      sc_every = 0, sc_cron = '''', sc_expr = None, sc_next = 0\<rparr>"

definition schedule_gate :: "string \<Rightarrow> Subject \<Rightarrow> bytes \<Rightarrow> addr \<Rightarrow> Store \<Rightarrow> Fault option" where
  \<comment> \<open>the two checks \<^verbatim>\<open>At\<close>, \<^verbatim>\<open>Every\<close> and \<^verbatim>\<open>Cron\<close> start with\<close>
  "schedule_gate name subject data c S =
     (case scheduler_off subject c S of Some e \<Rightarrow> Some e | None \<Rightarrow> schedule_check name subject data c S)"

definition At ::
  "addr \<Rightarrow> string \<Rightarrow> instant \<Rightarrow> Subject \<Rightarrow> bytes \<Rightarrow> PublishOpt option list \<Rightarrow> Store \<Rightarrow> Store \<times> unit res" where
  "At c name t subject data opts S =
     (case schedule_gate name subject data c S of Some e \<Rightarrow> (S, Inl e)
      | None \<Rightarrow> register c ((new_entry (id_of S c) name subject data opts ''at'')\<lparr>sc_at := t, sc_next := t\<rparr>) S)"

definition Every ::
  "instant \<Rightarrow> addr \<Rightarrow> string \<Rightarrow> duration \<Rightarrow> Subject \<Rightarrow> bytes \<Rightarrow> PublishOpt option list \<Rightarrow> Store \<Rightarrow> Store \<times> unit res" where
  "Every now c name d subject data opts S =
     (case schedule_gate name subject data c S of Some e \<Rightarrow> (S, Inl e)
      | None \<Rightarrow>
          if d \<le> 0 then
            (S, Inl (mkFault FaultSchema subject
               (''principal '' @ Identity_String (id_of S c) @ '': interval must be positive'')))
          else register c ((new_entry (id_of S c) name subject data opts ''every'')
                 \<lparr>sc_every := d, sc_next := now + d\<rparr>) S)"

definition Schedule_Cron ::
  "(string \<Rightarrow> string) \<Rightarrow> instant \<Rightarrow> addr \<Rightarrow> string \<Rightarrow> string \<Rightarrow> Subject \<Rightarrow> bytes \<Rightarrow> PublishOpt option list \<Rightarrow> Store \<Rightarrow>
     Store \<times> unit res" where
  "Schedule_Cron qt now c name expr subject data opts S =
     (let who = ''principal '' @ Identity_String (id_of S c) in
      case schedule_gate name subject data c S of Some e \<Rightarrow> (S, Inl e)
      | None \<Rightarrow>
          (case parseCron qt expr of
             Inl err \<Rightarrow>
               (S, Inl \<lparr>Code = FaultSchema, Op = subject, Message = who @ '': '' @ err, Err = Some (WrapText err)\<rparr>)
           | Inr x \<Rightarrow>
               (case cron_next x now of
                  None \<Rightarrow> (S, Inl (mkFault FaultSchema subject (who @ '': cron expression '' @ expr @ '' never fires'')))
                | Some n \<Rightarrow>
                    register c ((new_entry (id_of S c) name subject data opts ''cron'')
                      \<lparr>sc_cron := expr, sc_expr := Some x, sc_next := n\<rparr>) S)))"

definition Schedule_Cancel :: "addr \<Rightarrow> string \<Rightarrow> Store \<Rightarrow> Store \<times> unit res" where
  "Schedule_Cancel c name S =
     (case scheduler_off (''schedule:'' @ name) c S of Some e \<Rightarrow> (S, Inl e)
      | None \<Rightarrow>
          (let pid = PluginID (id_of S c) in
           case map_of (S_schedules S) pid of
             None \<Rightarrow> (S, Inr ())
           | Some byName \<Rightarrow>
               (let m = AList.delete name byName in
                (S\<lparr>S_schedules := (if m = [] then AList.delete pid (S_schedules S)
                                    else AList.update pid m (S_schedules S))\<rparr>, Inr ()))))"

definition Schedule_List :: "addr \<Rightarrow> Store \<Rightarrow> Schedule list res" where
  "Schedule_List c S =
     (case scheduler_off ''schedule:list'' c S of Some e \<Rightarrow> Inl e
      | None \<Rightarrow> Inr (sort_key sd_Name (map (\<lambda>(n, e). entry_schedule e) (by_name (PluginID (id_of S c)) S))))"

section \<open>What a tick does to the schedules\<close>

text \<open>The entries of the store, and the shape the API gives them.\<close>

definition entries :: "Store \<Rightarrow> scheduleEntry set" where
  "entries S = (\<Union>(p, byName) \<in> set (S_schedules S). snd ` set byName)"

definition entry_ok :: "scheduleEntry \<Rightarrow> bool" where
  "entry_ok e \<longleftrightarrow>
     (sc_kind e = ''at'' \<or> sc_kind e = ''every'' \<and> 0 < sc_every e \<or> sc_kind e = ''cron'' \<and> sc_expr e \<noteq> None)"

lemma cron_next_after:
  assumes "cron_next x now = Some n"
  shows "now < n"
proof -
  let ?t = "(now - now mod minute_ns) + minute_ns"
  have "minute_ns dvd ?t" by (simp add: minus_mod_eq_div_mult)
  from cron_search_spec [OF this, of x "AddYears 5 now"] assms have "?t \<le> n"
    by (simp add: cron_next_def first_fire_def)
  moreover have "now mod minute_ns < minute_ns" using pos_mod_bound [OF ns_pos(1), of now] .
  ultimately show ?thesis by linarith
qed

lemma after_fire_not_due:
  assumes "entry_ok e" and "after_fire now e = Some e'"
  shows "\<not> is_due now e' \<and> entry_ok e' \<and> sc_id e' = sc_id e"
proof -
  have "sc_kind e \<noteq> ''at''" using assms(2) by (auto simp: after_fire_def)
  with assms show ?thesis
    by (auto simp: entry_ok_def after_fire_def is_due_def Let_def split: if_splits option.splits dest: cron_next_after)
qed

lemma advance_entry_not_due:
  "entry_ok e \<Longrightarrow> advance_entry now e = Some e' \<Longrightarrow> \<not> is_due now e' \<and> entry_ok e' \<and> sc_id e' = sc_id e"
  using after_fire_not_due [of e now e'] by (auto simp: advance_entry_def split: if_splits)

lemma entries_advance:
  "entries (advance_all now S) = {e'. \<exists>e \<in> entries S. advance_entry now e = Some e'}"
  by (force simp: entries_def advance_all_def advance_plugin_def split: option.splits)

lemma entries_schedules: "S_schedules T = S_schedules S \<Longrightarrow> entries T = entries S"
  by (simp add: entries_def)

lemma fire_shot_schedules [simp]: "S_schedules (fire_shot em S) = S_schedules S"
  by (simp add: fire_shot_def Let_def split_beta)

lemma fireDue_schedules: "S_schedules (fireDue mint now S) = S_schedules (advance_all now S)"
  unfolding fireDue_def Let_def by (rule fold_frame) simp

lemma tick_entries:
  assumes "\<And>e. e \<in> entries S \<Longrightarrow> entry_ok e"
  shows "entries (fireDue mint now S) \<subseteq>
      {e'. \<not> is_due now e' \<and> entry_ok e' \<and> sc_id e' \<in> sc_id ` entries S} \<and>
    {e. e \<in> entries S \<and> \<not> is_due now e} \<subseteq> entries (fireDue mint now S)"
proof -
  have e: "entries (fireDue mint now S) = {e'. \<exists>e \<in> entries S. advance_entry now e = Some e'}"
    using entries_schedules [OF fireDue_schedules] by (simp add: entries_advance)
  have "\<not> is_due now e' \<and> entry_ok e' \<and> sc_id e' \<in> sc_id ` entries S"
    if "x \<in> entries S" "advance_entry now x = Some e'" for x e'
    using advance_entry_not_due [OF assms that(2)] that(1) by force
  moreover have "advance_entry now x = Some x" if "\<not> is_due now x" for x
    using that by (simp add: advance_entry_def)
  ultimately show ?thesis unfolding e by blast
qed

end
