(* ===== verification/Streams_API.thy ===== *)
theory Streams_API
  imports Delivery
begin

text \<open>
  The streams of a connection, the API half of \<^verbatim>\<open>src/v2/bus/memory/streams.go\<close>: declaring, routing,
  publishing one message or a batch, counters, purging, consuming and fetching, on the store. The log
  of one stream and the state of one consumer are in their own theories; a consumer state is shared
  by pointer between a stream's durables, a connection's fetchers and the running consumers, so it is
  at an address.

  \<^verbatim>\<open>Fetch\<close> polls: \<open>Fetch_enter\<close> is what it does before its loop, \<open>Fetch_round\<close> one round under the store
  lock (an empty batch means another round), \<open>Fetch_timeout\<close> its way out when the context ends.
\<close>

record StreamInfo =
  sf_Name :: string
  sf_Subjects :: "Pattern list"
  sf_Msgs :: nat
  sf_Bytes :: "64 word"
  sf_FirstSeq :: Seq
  sf_LastSeq :: Seq
  sf_Created :: instant

record BatchMsg =
  bm_Subject :: Subject
  bm_Data :: bytes
  bm_Opts :: "PublishOpt option list"

definition put_stream :: "string \<Rightarrow> stream \<Rightarrow> Store \<Rightarrow> Store" where
  "put_stream name st S = S\<lparr>S_streams := AList.update name st (S_streams S)\<rparr>"

definition mod_state :: "addr \<Rightarrow> (consumerState \<Rightarrow> consumerState) \<Rightarrow> Store \<Rightarrow> Store" where
  "mod_state a f S = S\<lparr>H_states := (H_states S)[a := f (H_states S ! a)]\<rparr>"

section \<open>Gates and routing\<close>

definition streams_off :: "string \<Rightarrow> addr \<Rightarrow> Store \<Rightarrow> Fault option" where
  "streams_off op c S =
     (if \<not> Durable (cfg_caps (S_cfg S)) then Some (Unsupported op ''durable'') else alive c S)"

definition stream_deny :: "string \<Rightarrow> addr \<Rightarrow> Store \<Rightarrow> Fault option" where
  "stream_deny name c S =
     (if \<not> CanUse (Id_Grants (id_of S c)) AssetStream name then
        Some (Denied name (Identity_String (id_of S c)) ''stream is not provisioned for this principal'')
      else None)"

fun check_subjects :: "string \<Rightarrow> addr \<Rightarrow> Store \<Rightarrow> Pattern list \<Rightarrow> Fault option" where
  "check_subjects name c S [] = None"
| "check_subjects name c S (p # ps) =
     (case ParsePattern p of
        Inl err \<Rightarrow> Some (parseFault (''stream:'' @ name) err)
      | Inr _ \<Rightarrow>
          if denyPattern S p then
            Some (Denied (''stream:'' @ name) (Identity_String (id_of S c))
                   (''subject '' @ p @ '' is permanently ineligible''))
          else check_subjects name c S ps)"

definition Stream_Declare :: "instant \<Rightarrow> addr \<Rightarrow> StreamSpec \<Rightarrow> Store \<Rightarrow> Store \<times> unit res" where
  "Stream_Declare now c spec S =
     (let name = ss_Name spec; who = ''principal '' @ Identity_String (id_of S c) in
      case streams_off (''stream:'' @ name) c S of Some e \<Rightarrow> (S, Inl e)
      | None \<Rightarrow>
          if name = '''' then (S, Inl (mkFault FaultSchema ''stream:'' (who @ '': stream name is empty'')))
          else case stream_deny name c S of Some e \<Rightarrow> (S, Inl e)
          | None \<Rightarrow>
              if ss_MaxBytes spec = 0 \<or> ss_MaxAge spec = 0 then
                (S, Inl (mkFault FaultSchema (''stream:'' @ name)
                   (who @ '': MaxBytes and MaxAge are both required; an unbounded stream is refused, not defaulted'')))
              else case check_subjects name c S (ss_Subjects spec) of Some e \<Rightarrow> (S, Inl e)
              | None \<Rightarrow>
                  (let spec' = (if ss_Retention spec = '''' then spec\<lparr>ss_Retention := RetentionLimits\<rparr> else spec) in
                   if map_of (S_streams S) name \<noteq> None then (S, Inr ())
                   else (put_stream name (newStream spec' now) S, Inr ())))"

definition stream_lookup :: "string \<Rightarrow> addr \<Rightarrow> Store \<Rightarrow> stream res" where
  "stream_lookup name c S =
     (case stream_deny name c S of Some e \<Rightarrow> Inl e
      | None \<Rightarrow>
          (case map_of (S_streams S) name of
             None \<Rightarrow> Inl (no_such_stream (id_of S c) name)
           | Some st \<Rightarrow> Inr st))"

text \<open>The loop of \<^verbatim>\<open>routeLocked\<close>: the first stream of the iteration the principal may use that covers
  the subject, by its name.\<close>

definition routes :: "Identity \<Rightarrow> Subject \<Rightarrow> string \<times> stream \<Rightarrow> bool" where
  "routes i subject = (\<lambda>(name, st). CanUse (Id_Grants i) AssetStream name \<and> stream_covers st subject)"

definition routeLocked :: "Subject \<Rightarrow> addr \<Rightarrow> Store \<Rightarrow> string res" where
  "routeLocked subject c S =
     (case find (routes (id_of S c) subject) (S_streams S) of
        Some (name, st) \<Rightarrow> Inr name
      | None \<Rightarrow> Inl (mkFault FaultNotFound subject
                  (''principal '' @ Identity_String (id_of S c) @
                   '': no stream this principal may use covers this subject'')))"

definition stream_checkPublish :: "Subject \<Rightarrow> bytes \<Rightarrow> addr \<Rightarrow> Store \<Rightarrow> Fault option" where
  "stream_checkPublish subject data c S =
     (case ParseSubject subject of Inl err \<Rightarrow> Some (parseFault subject err)
      | Inr _ \<Rightarrow>
          if denySubject S subject then
            Some (Denied subject (Identity_String (id_of S c)) ''subject is permanently ineligible'')
          else if too_big S data then Some (budget_fault (id_of S c) subject data S)
          else None)"

section \<open>Publishing\<close>

text \<open>The routed stream is in the map; its name is the pointer. A missing name cannot occur.\<close>

definition on_stream :: "string \<Rightarrow> addr \<Rightarrow> (stream \<Rightarrow> stream \<times> 'a res) \<Rightarrow> Store \<Rightarrow> Store \<times> 'a res" where
  "on_stream name c f S =
     (case map_of (S_streams S) name of
        None \<Rightarrow> (S, Inl (no_such_stream (id_of S c) name))
      | Some st \<Rightarrow> (let (st', r) = f st in (put_stream name st' S, r)))"

definition Stream_Publish ::
  "string \<Rightarrow> Context \<Rightarrow> instant \<Rightarrow> addr \<Rightarrow> Subject \<Rightarrow> bytes \<Rightarrow> PublishOpt option list \<Rightarrow> Store \<Rightarrow> Store \<times> Seq res" where
  "Stream_Publish minted ctx now c subject data opts S =
     (case streams_off subject c S of Some e \<Rightarrow> (S, Inl e)
      | None \<Rightarrow>
          (case stream_checkPublish subject data c S of Some e \<Rightarrow> (S, Inl e)
           | None \<Rightarrow>
               (case routeLocked subject c S of Inl e \<Rightarrow> (S, Inl e)
                | Inr name \<Rightarrow>
                    on_stream name c
                      (publish_to minted ctx (id_of S c) subject data (ResolvePublish opts) now) S)))"

record plan =
  pl_stream :: string
  pl_msg :: BatchMsg
  pl_opts :: PublishOptions

fun check_batch :: "addr \<Rightarrow> Store \<Rightarrow> BatchMsg list \<Rightarrow> Fault option" where
  "check_batch c S [] = None"
| "check_batch c S (m # ms) =
     (case stream_checkPublish (bm_Subject m) (bm_Data m) c S of Some e \<Rightarrow> Some e | None \<Rightarrow> check_batch c S ms)"

definition projected_seq :: "(string, Seq) amap \<Rightarrow> string \<Rightarrow> Store \<Rightarrow> Seq" where
  "projected_seq pr name S =
     (case map_of pr name of Some n \<Rightarrow> n
      | None \<Rightarrow> (case map_of (S_streams S) name of Some st \<Rightarrow> st_lastSeq st | None \<Rightarrow> 0))"

text \<open>The pre-flight loop: the plans of the rest of the batch, or the first refusal.\<close>

fun preflight :: "addr \<Rightarrow> Store \<Rightarrow> (string, Seq) amap \<Rightarrow> BatchMsg list \<Rightarrow> plan list res" where
  "preflight c S pr [] = Inr []"
| "preflight c S pr (m # ms) =
     (case routeLocked (bm_Subject m) c S of Inl e \<Rightarrow> Inl e
      | Inr name \<Rightarrow>
          (let at_seq = projected_seq pr name S; po = ResolvePublish (bm_Opts m) in
           if po_ExpectLastSeq po \<noteq> 0 \<and> po_ExpectLastSeq po \<noteq> at_seq then
             Inl (conflict_fault (id_of S c) (bm_Subject m) (po_ExpectLastSeq po)
                    (case map_of (S_streams S) name of Some st \<Rightarrow> ss_Name (st_spec st) | None \<Rightarrow> name) at_seq)
           else
             (case preflight c S (AList.update name (at_seq + 1) pr) ms of
                Inl e \<Rightarrow> Inl e
              | Inr ps \<Rightarrow> Inr (\<lparr>pl_stream = name, pl_msg = m, pl_opts = po\<rparr> # ps))))"

definition batch_opts :: "PublishOptions \<Rightarrow> PublishOptions" where
  \<comment> \<open>the options the append is called with: no expected sequence\<close>
  "batch_opts po = po\<lparr>po_ExpectLastSeq := 0\<rparr>"

text \<open>The append loop; \<open>mint k\<close> and \<open>clk k\<close> are the correlation id and the clock of the \<open>k\<close>-th append.\<close>

fun append_all ::
  "(nat \<Rightarrow> string) \<Rightarrow> (nat \<Rightarrow> instant) \<Rightarrow> nat \<Rightarrow> Context \<Rightarrow> addr \<Rightarrow> plan list \<Rightarrow> Store \<Rightarrow> Store \<times> Seq list res" where
  "append_all mint clk k ctx c [] S = (S, Inr [])"
| "append_all mint clk k ctx c (p # ps) S =
     (case on_stream (pl_stream p) c
             (appendLocked (mint k) ctx (id_of S c) (bm_Subject (pl_msg p)) (bm_Data (pl_msg p))
                (batch_opts (pl_opts p)) (clk k)) S of
        (S1, Inl e) \<Rightarrow> (S1, Inl e)
      | (S1, Inr seq) \<Rightarrow>
          (case append_all mint clk (Suc k) ctx c ps S1 of
             (S2, Inl e) \<Rightarrow> (S2, Inl e)
           | (S2, Inr seqs) \<Rightarrow> (S2, Inr (seq # seqs))))"

definition trim_streams :: "string set \<Rightarrow> Store \<Rightarrow> Store" where
  "trim_streams touched S =
     S\<lparr>S_streams := map (\<lambda>(name, st). (name, if name \<in> touched then trim st else st)) (S_streams S)\<rparr>"

definition PublishBatch ::
  "(nat \<Rightarrow> string) \<Rightarrow> (nat \<Rightarrow> instant) \<Rightarrow> Context \<Rightarrow> addr \<Rightarrow> BatchMsg list \<Rightarrow> Store \<Rightarrow> Store \<times> Seq list res" where
  "PublishBatch mint clk ctx c msgs S =
     (case streams_off ''stream:batch'' c S of Some e \<Rightarrow> (S, Inl e)
      | None \<Rightarrow>
          if \<not> Batch (cfg_caps (S_cfg S)) then (S, Inl (Unsupported ''stream:batch'' ''batch''))
          else if length msgs = 0 then (S, Inr [])
          else case check_batch c S msgs of Some e \<Rightarrow> (S, Inl e)
          | None \<Rightarrow>
              (case preflight c S [] msgs of Inl e \<Rightarrow> (S, Inl e)
               | Inr plans \<Rightarrow>
                   (case append_all mint clk 0 ctx c plans S of
                      (S1, Inl e) \<Rightarrow> (S1, Inl e)
                    | (S1, Inr seqs) \<Rightarrow> (trim_streams (set (map pl_stream plans)) S1, Inr seqs))))"

definition Counter :: "addr \<Rightarrow> Subject \<Rightarrow> 64 word \<Rightarrow> Store \<Rightarrow> Store \<times> 64 word res" where
  "Counter c subject delta S =
     (case streams_off subject c S of Some e \<Rightarrow> (S, Inl e)
      | None \<Rightarrow>
          if \<not> Counters (cfg_caps (S_cfg S)) then (S, Inl (Unsupported subject ''counters''))
          else case stream_checkPublish subject [] c S of Some e \<Rightarrow> (S, Inl e)
          | None \<Rightarrow>
              (case routeLocked subject c S of Inl e \<Rightarrow> (S, Inl e)
               | Inr name \<Rightarrow> on_stream name c (\<lambda>st. let (st', v) = add_counter subject delta st in (st', Inr v)) S))"

definition Stream_Purge :: "addr \<Rightarrow> string \<Rightarrow> Pattern \<Rightarrow> Store \<Rightarrow> Store \<times> unit res" where
  "Stream_Purge c name filt S =
     (case streams_off (''stream:'' @ name) c S of Some e \<Rightarrow> (S, Inl e)
      | None \<Rightarrow>
          (case stream_lookup name c S of Inl e \<Rightarrow> (S, Inl e)
           | Inr st \<Rightarrow>
               if filt = '''' then (put_stream name (purge_all st) S, Inr ())
               else (case ParsePattern filt of
                       Inl err \<Rightarrow> (S, Inl (parseFault (''stream:'' @ name) err))
                     | Inr _ \<Rightarrow> (put_stream name (purge_matching filt st) S, Inr ()))))"

definition Stream_Info :: "instant \<Rightarrow> addr \<Rightarrow> string \<Rightarrow> Store \<Rightarrow> Store \<times> StreamInfo res" where
  "Stream_Info now c name S =
     (case streams_off (''stream:'' @ name) c S of Some e \<Rightarrow> (S, Inl e)
      | None \<Rightarrow>
          (case stream_lookup name c S of Inl e \<Rightarrow> (S, Inl e)
           | Inr st0 \<Rightarrow>
               (let st = expire now st0 in
                (put_stream name st S,
                 Inr \<lparr>sf_Name = ss_Name (st_spec st), sf_Subjects = ss_Subjects (st_spec st),
                      sf_Msgs = length (st_msgs st), sf_Bytes = st_bytes st, sf_FirstSeq = firstSeq st,
                      sf_LastSeq = st_lastSeq st, sf_Created = st_created st\<rparr>))))"

definition Stream_Delete :: "addr \<Rightarrow> string \<Rightarrow> Store \<Rightarrow> Store \<times> unit res" where
  "Stream_Delete c name S =
     (case streams_off (''stream:'' @ name) c S of Some e \<Rightarrow> (S, Inl e)
      | None \<Rightarrow>
          (case stream_lookup name c S of Inl e \<Rightarrow> (S, Inl e)
           | Inr st \<Rightarrow> (S\<lparr>S_streams := AList.delete name (S_streams S)\<rparr>, Inr ())))"

section \<open>Consumer states\<close>

definition new_state :: "string \<Rightarrow> stream \<Rightarrow> ConsumerSpec \<Rightarrow> Seq \<Rightarrow> Store \<Rightarrow> Store \<times> addr" where
  "new_state cname st spec start S =
     (S\<lparr>H_states := H_states S @ [newConsumerState cname (ss_Name (st_spec st)) spec start]\<rparr>, length (H_states S))"

definition stateLocked ::
  "addr \<Rightarrow> string \<Rightarrow> stream \<Rightarrow> ConsumerSpec \<Rightarrow> string \<Rightarrow> Store \<Rightarrow> Store \<times> addr res" where
  "stateLocked c name st spec key S =
     (let explicit = (co_Start spec = StartCursor \<and> \<not> Cursor_IsZero (co_Cursor spec));
          durable_hit = (if co_Name spec \<noteq> '''' \<and> \<not> explicit then map_of (st_durables st) (co_Name spec) else None);
          fetch_hit = (if co_Name spec = '''' \<and> key \<noteq> '''' \<and> \<not> explicit
                       then map_of (c_fetchers (H_conns S ! c)) key else None) in
      case durable_hit of Some a \<Rightarrow> (mod_state a (\<lambda>cs. cs\<lparr>cs_spec := spec\<rparr>) S, Inr a)
      | None \<Rightarrow>
          (case fetch_hit of Some a \<Rightarrow> (mod_state a (\<lambda>cs. cs\<lparr>cs_spec := spec\<rparr>) S, Inr a)
           | None \<Rightarrow>
               (case startSeqLocked (S_env S) (id_of S c) st spec of Inl e \<Rightarrow> (S, Inl e)
                | Inr start \<Rightarrow>
                    if co_Name spec \<noteq> '''' then
                      (let (S1, a) = new_state (co_Name spec) st spec start S in
                       (put_stream name (st\<lparr>st_durables := AList.update (co_Name spec) a (st_durables st)\<rparr>) S1, Inr a))
                    else
                      (let (S1, i) = newID ''eph'' S; (S2, a) = new_state i st spec start S1 in
                       (if key \<noteq> '''' then
                          mod_conn c (\<lambda>k. k\<lparr>c_fetchers := AList.update key a (c_fetchers k)\<rparr>) S2
                        else S2, Inr a)))))"

definition newConsumer :: "addr \<Rightarrow> string \<Rightarrow> addr \<Rightarrow> ConsumerSpec \<Rightarrow> consumer" where
  "newConsumer c name a spec =
     \<lparr>k_conn = c, k_stream = name, k_st = a, k_durable = (co_Name spec \<noteq> ''''), k_err = None,
      k_finished = False, k_draining = False, k_done = False, k_drained = False, k_wake = False\<rparr>"

definition Consume :: "addr \<Rightarrow> string \<Rightarrow> ConsumerSpec \<Rightarrow> bool \<Rightarrow> Store \<Rightarrow> Store \<times> addr res" where
  "Consume c name spec h S =
     (case streams_off (''stream:'' @ name) c S of Some e \<Rightarrow> (S, Inl e)
      | None \<Rightarrow>
          if \<not> h then
            (S, Inl (mkFault FaultSchema (''stream:'' @ name)
               (''principal '' @ Identity_String (id_of S c) @ '': handler is nil'')))
          else case (if co_Filter spec \<noteq> '''' then
                       (case ParsePattern (co_Filter spec) of
                          Inl err \<Rightarrow> Some (parseFault (''stream:'' @ name) err) | Inr _ \<Rightarrow> None)
                     else None) of
            Some e \<Rightarrow> (S, Inl e)
          | None \<Rightarrow>
              (case stream_lookup name c S of Inl e \<Rightarrow> (S, Inl e)
               | Inr st \<Rightarrow>
                   (case stateLocked c name st spec '''' S of (S1, Inl e) \<Rightarrow> (S1, Inl e)
                    | (S1, Inr a) \<Rightarrow>
                        (let k = length (H_consumers S1) in
                         (mod_conn c (\<lambda>x. x\<lparr>c_consumers := c_consumers x @ [k]\<rparr>)
                            (S1\<lparr>H_consumers := H_consumers S1 @ [newConsumer c name a spec]\<rparr>), Inr k)))))"

definition fetch_key :: "string \<Rightarrow> ConsumerSpec \<Rightarrow> string" where
  "fetch_key name spec =
     name @ CHR 0x00 # co_Filter spec @ CHR 0x00 # co_Start spec @ CHR 0x00 # co_Ack spec @ CHR 0x00 # co_Cursor spec"

text \<open>\<open>None\<close>: go on to the rounds.\<close>

definition Fetch_enter :: "addr \<Rightarrow> string \<Rightarrow> int \<Rightarrow> Store \<Rightarrow> StreamMsg list res option" where
  "Fetch_enter c name n S =
     (case streams_off (''stream:'' @ name) c S of Some e \<Rightarrow> Some (Inl e)
      | None \<Rightarrow> if n \<le> 0 then Some (Inr []) else None)"

definition Fetch_round ::
  "(nat \<Rightarrow> instant) \<Rightarrow> addr \<Rightarrow> string \<Rightarrow> ConsumerSpec \<Rightarrow> int \<Rightarrow> Store \<Rightarrow> Store \<times> StreamMsg list res" where
  "Fetch_round clk c name spec n S =
     (case stream_lookup name c S of Inl e \<Rightarrow> (S, Inl e)
      | Inr st \<Rightarrow>
          (case stateLocked c name st spec (fetch_key name spec) S of (S1, Inl e) \<Rightarrow> (S1, Inl e)
           | (S1, Inr a) \<Rightarrow>
               (case map_of (S_streams S1) name of None \<Rightarrow> (S1, Inl (no_such_stream (id_of S c) name))
                | Some st1 \<Rightarrow>
                    (let (st2, cs, out) = fetch_loop clk 0 (nat n) st1 (H_states S1 ! a)
                     in (mod_state a (\<lambda>_. cs) (put_stream name st2 S1), Inr out)))))"

definition Fetch_timeout :: "addr \<Rightarrow> string \<Rightarrow> string \<Rightarrow> Store \<Rightarrow> Fault" where
  "Fetch_timeout c name err S =
     \<lparr>Code = FaultTimeout, Op = ''stream:'' @ name,
      Message = ''principal '' @ Identity_String (id_of S c) @ '': '' @ err, Err = Some (WrapText err)\<rparr>"

section \<open>The running consumer\<close>

text \<open>One round of \<^verbatim>\<open>run\<close> under the store lock: the message it hands to the handler, if any.\<close>

definition consumer_pull :: "instant \<Rightarrow> instant \<Rightarrow> addr \<Rightarrow> Store \<Rightarrow> Store \<times> StreamMsg option" where
  "consumer_pull now now' k S =
     (let x = H_consumers S ! k in
      if k_done x then (S, None)
      else case map_of (S_streams S) (k_stream x) of
        None \<Rightarrow> (S, None)
      | Some st \<Rightarrow>
          (case nextLocked now st (H_states S ! k_st x) of
             (st1, cs1, None) \<Rightarrow> (mod_state (k_st x) (\<lambda>_. cs1) (put_stream (k_stream x) st1 S), None)
           | (st1, cs1, Some m) \<Rightarrow>
               (let (cs2, sm) = buildLocked now' cs1 m
                in (mod_state (k_st x) (\<lambda>_. cs2) (put_stream (k_stream x) st1 S), Some sm))))"

definition consumer_idle :: "consumer \<Rightarrow> consumer" where
  "consumer_idle x = (if k_draining x then x\<lparr>k_drained := True\<rparr> else x)"

definition consumer_panic :: "addr \<Rightarrow> Store \<Rightarrow> Store" where
  "consumer_panic k S =
     (let x = H_consumers S ! k in
      consumer_finish
        (Some (mkFault FaultUnhandled (''stream:'' @ k_stream x)
           (''principal '' @ Identity_String (id_of S (k_conn x)) @ '': handler panicked''))) k S)"

definition consumer_Cancel :: "addr \<Rightarrow> Store \<Rightarrow> Store" where
  "consumer_Cancel k S = consumer_finish None k S"

definition consumer_drain_begin :: "consumer \<Rightarrow> consumer" where
  "consumer_drain_begin x = (if k_finished x then x else x\<lparr>k_draining := True\<rparr>)"

text \<open>The \<^verbatim>\<open>select\<close> of \<^verbatim>\<open>Drain\<close>; \<open>None\<close> when the case is not ready.\<close>

datatype drain_event = DrainDone | DrainEnded | DrainCtx string

definition consumer_drain_end :: "drain_event \<Rightarrow> addr \<Rightarrow> Store \<Rightarrow> (Store \<times> Fault option) option" where
  "consumer_drain_end ev k S =
     (let x = H_consumers S ! k in
      case ev of
        DrainDone \<Rightarrow> if k_drained x then Some (consumer_finish None k S, None) else None
      | DrainEnded \<Rightarrow> if k_done x then Some (S, k_err x) else None
      | DrainCtx err \<Rightarrow>
          Some (consumer_finish None k S,
            Some \<lparr>Code = FaultTimeout, Op = ''stream:'' @ k_stream x,
                  Message = ''principal '' @ Identity_String (id_of S (k_conn x)) @ '': drain did not finish: '' @ err,
                  Err = Some (WrapText err)\<rparr>))"

definition consumer_Cursor_at :: "addr \<Rightarrow> Store \<Rightarrow> Cursor" where
  "consumer_Cursor_at k S =
     (let x = H_consumers S ! k in consumer_Cursor (S_env S) (k_stream x) (H_states S ! k_st x))"

definition consumer_Reset_at :: "addr \<Rightarrow> Store \<Rightarrow> Store \<times> unit res" where
  "consumer_Reset_at k S =
     (let x = H_consumers S ! k in
      case Reset (S_env S) (id_of S (k_conn x)) (S_streams S) (k_stream x) (H_states S ! k_st x) of
        (cs, Inl e) \<Rightarrow> (S, Inl e)
      | (cs, Inr u) \<Rightarrow> (mod_cons k (\<lambda>y. y\<lparr>k_wake := True\<rparr>) (mod_state (k_st x) (\<lambda>_. cs) S), Inr u))"

definition consumer_Info_at :: "addr \<Rightarrow> Store \<Rightarrow> ConsumerInfo res" where
  "consumer_Info_at k S =
     (let x = H_consumers S ! k in
      consumer_Info (id_of S (k_conn x)) (S_streams S) (k_stream x) (H_states S ! k_st x))"

text \<open>An acknowledgement through the closure of \<^verbatim>\<open>buildLocked\<close>, which captured the state at \<open>a\<close>.\<close>

definition acknowledge_at ::
  "instant \<Rightarrow> addr \<Rightarrow> StreamMsg option \<Rightarrow> string \<Rightarrow> duration \<Rightarrow> string \<Rightarrow> Store \<Rightarrow> Store \<times> unit res" where
  "acknowledge_at now a m kind delay reason S =
     (let (cs, r) = acknowledge now m kind delay reason (H_states S ! a) in (mod_state a (\<lambda>_. cs) S, r))"

section \<open>Batches\<close>

lemma append_unconditional:
  assumes "po_ExpectLastSeq po = 0"
  shows "\<exists>st' seq. appendLocked minted ctx i subject data po now st = (st', Inr seq) \<and>
    (po_MsgID po = '''' \<longrightarrow> seq = st_lastSeq st + 1 \<and> st_lastSeq st' = seq)"
proof -
  have "st_lastSeq (expire now st) = st_lastSeq st" by (simp add: expire_def split_beta)
  moreover have "po_MsgID po \<noteq> ''''" if "dedupe_hit (expire now st) po now = Some n" for n
    using that by (auto simp: dedupe_hit_def split: if_splits)
  ultimately show ?thesis
    using assms
    by (cases "dedupe_hit (expire now st) po now") (auto simp: appendLocked_def Let_def store_msg_def)
qed

lemma routed_exists:
  assumes "routeLocked subject c S = Inr name"
  shows "\<exists>st. map_of (S_streams S) name = Some st"
proof -
  obtain st where "find (routes (id_of S c) subject) (S_streams S) = Some (name, st)"
    using assms by (auto simp: routeLocked_def split: option.splits)
  then have "(name, st) \<in> set (S_streams S)" by (metis find_Some_iff nth_mem)
  then show ?thesis by (rule weak_map_of_SomeI)
qed

definition has_streams :: "Store \<Rightarrow> plan list \<Rightarrow> bool" where
  "has_streams S ps \<longleftrightarrow> (\<forall>p \<in> set ps. map_of (S_streams S) (pl_stream p) \<noteq> None)"

lemma preflight_plans:
  "preflight c S pr ms = Inr ps \<Longrightarrow>
     map pl_msg ps = ms \<and> map pl_opts ps = map (\<lambda>m. ResolvePublish (bm_Opts m)) ms \<and> has_streams S ps"
proof (induction ms arbitrary: pr ps)
  case (Cons m ms)
  let ?po = "ResolvePublish (bm_Opts m)"
  from Cons.prems obtain name pr' qs where q: "routeLocked (bm_Subject m) c S = Inr name"
    "preflight c S pr' ms = Inr qs" "ps = \<lparr>pl_stream = name, pl_msg = m, pl_opts = ?po\<rparr> # qs"
    by (auto simp: Let_def split: sum.splits if_splits)
  then show ?case using Cons.IH [OF q(2)] routed_exists [OF q(1)] by (auto simp: has_streams_def)
qed (simp add: has_streams_def)

lemma append_step:
  assumes "map_of (S_streams T) name = Some st"
  shows "\<exists>st' seq. on_stream name c (appendLocked minted ctx i subject data (batch_opts po) now) T =
      (put_stream name st' T, Inr seq) \<and>
    (po_MsgID po = '''' \<longrightarrow> seq = st_lastSeq st + 1 \<and> st_lastSeq st' = seq)"
proof -
  obtain st' seq where "appendLocked minted ctx i subject data (batch_opts po) now st = (st', Inr seq)"
    "po_MsgID po = '''' \<longrightarrow> seq = st_lastSeq st + 1 \<and> st_lastSeq st' = seq"
    using append_unconditional [of "batch_opts po" minted ctx i subject data now st] by (auto simp: batch_opts_def)
  then show ?thesis using assms by (intro exI [of _ st'] exI [of _ seq]) (simp add: on_stream_def)
qed

lemma append_all_total:
  "has_streams T ps \<Longrightarrow> \<exists>T' seqs. append_all mint clk k ctx c ps T = (T', Inr seqs) \<and> length seqs = length ps"
proof (induction ps arbitrary: k T)
  case (Cons p ps)
  then obtain st where "map_of (S_streams T) (pl_stream p) = Some st" by (auto simp: has_streams_def)
  then obtain T1 st' seq where T1:
    "on_stream (pl_stream p) c (appendLocked (mint k) ctx (id_of T c) (bm_Subject (pl_msg p)) (bm_Data (pl_msg p))
       (batch_opts (pl_opts p)) (clk k)) T = (T1, Inr seq)"
    "T1 = put_stream (pl_stream p) st' T" using append_step by metis
  moreover have "has_streams T1 ps"
    using Cons.prems T1(2) by (simp add: has_streams_def put_stream_def amap_simps)
  ultimately show ?case using Cons.IH [of T1 "Suc k"] by fastforce
qed simp

lemma append_all_expected:
  assumes "preflight c S pr ms = Inr ps"
    and "\<And>m. m \<in> set ms \<Longrightarrow> po_MsgID (ResolvePublish (bm_Opts m)) = ''''"
    and "\<And>name. map_of (S_streams S) name \<noteq> None \<Longrightarrow>
           \<exists>st. map_of (S_streams T) name = Some st \<and> st_lastSeq st = projected_seq pr name S"
    and "append_all mint clk k ctx c ps T = (T', Inr seqs)"
    and "j < length ms" and "po_ExpectLastSeq (ResolvePublish (bm_Opts (ms ! j))) \<noteq> 0"
  shows "seqs ! j = po_ExpectLastSeq (ResolvePublish (bm_Opts (ms ! j))) + 1"
  using assms
proof (induction ms arbitrary: pr ps k T seqs j)
  case (Cons m ms)
  let ?po = "ResolvePublish (bm_Opts m)"
  from Cons.prems(1) obtain name qs where q: "routeLocked (bm_Subject m) c S = Inr name"
    "po_ExpectLastSeq ?po \<noteq> 0 \<Longrightarrow> po_ExpectLastSeq ?po = projected_seq pr name S"
    "preflight c S (AList.update name (projected_seq pr name S + 1) pr) ms = Inr qs"
    "ps = \<lparr>pl_stream = name, pl_msg = m, pl_opts = ?po\<rparr> # qs"
    by (auto simp: Let_def split: sum.splits if_splits)
  let ?pr = "AList.update name (projected_seq pr name S + 1) pr"
  obtain st where st: "map_of (S_streams T) name = Some st" "st_lastSeq st = projected_seq pr name S"
    using Cons.prems(3) routed_exists [OF q(1)] by blast
  obtain T1 st1 s where T1:
    "on_stream name c (appendLocked (mint k) ctx (id_of T c) (bm_Subject m) (bm_Data m) (batch_opts ?po) (clk k)) T = (T1, Inr s)"
    "T1 = put_stream name st1 T" "s = st_lastSeq st + 1" "st_lastSeq st1 = s"
    using append_step [OF st(1), of c "mint k" ctx "id_of T c" "bm_Subject m" "bm_Data m" ?po "clk k"]
      Cons.prems(2) [of m] by auto
  with Cons.prems(4) q(4) obtain ss where ss: "append_all mint clk (Suc k) ctx c qs T1 = (T', Inr ss)" "seqs = s # ss"
    by (auto split: sum.splits prod.splits)
  show ?case
  proof (cases j)
    case 0
    then show ?thesis using Cons.prems(6) ss(2) T1(3) st(2) q(2) by simp
  next
    case (Suc i)
    have "\<exists>st. map_of (S_streams T1) x = Some st \<and> st_lastSeq st = projected_seq ?pr x S"
      if "map_of (S_streams S) x \<noteq> None" for x
      using Cons.prems(3) [OF that] T1 st(2) by (auto simp: put_stream_def projected_seq_def amap_simps)
    then show ?thesis
      using Cons.IH [OF q(3) _ _ ss(1), of i] Cons.prems(2,5,6) Suc ss(2) by simp
  qed
qed simp

section \<open>Properties\<close>


text \<open>The projected sequence is the real one: in an accepted batch whose messages carry no message id,
  a message that expects the last sequence number \<open>n\<close> of its stream is stored with number \<open>n + 1\<close>,
  also when earlier messages of the same batch went to that stream.\<close>

theorem batch_expectations_hold:
  assumes "PublishBatch mint clk ctx c msgs S = (S', Inr seqs)"
    and "\<And>m. m \<in> set msgs \<Longrightarrow> po_MsgID (ResolvePublish (bm_Opts m)) = ''''"
    and "k < length msgs" and "po_ExpectLastSeq (ResolvePublish (bm_Opts (msgs ! k))) \<noteq> 0"
  shows "seqs ! k = po_ExpectLastSeq (ResolvePublish (bm_Opts (msgs ! k))) + 1"
proof -
  obtain ps S1 where a: "preflight c S [] msgs = Inr ps" "append_all mint clk 0 ctx c ps S = (S1, Inr seqs)"
    using assms(1,3) by (auto simp: PublishBatch_def split: option.splits sum.splits prod.splits if_splits)
  show ?thesis
    by (rule append_all_expected [OF a(1) assms(2) _ a(2) assms(3,4)]) (auto simp: projected_seq_def)
qed

definition demo_stream :: Store where
  "demo_stream = fst (Stream_Declare 1 0 demo_spec demo_conn)"

definition demo_batch :: "BatchMsg list" where
  "demo_batch =
     [\<lparr>bm_Subject = ''a.b'', bm_Data = ''x'', bm_Opts = []\<rparr>,
      \<lparr>bm_Subject = ''a.c'', bm_Data = ''y'', bm_Opts = [Some (expectSeqOpt 1)]\<rparr>]"

lemma demo_batch_accepted:
  "case PublishBatch (\<lambda>_. ''m'') (\<lambda>_. 2) Background 0 demo_batch demo_stream of
     (S, Inl e) \<Rightarrow> False | (S, Inr seqs) \<Rightarrow> seqs = [1, 2]"
  by code_simp

theorem batch_expectations_hold_witness:
  "\<exists>seqs. snd (PublishBatch (\<lambda>_. ''m'') (\<lambda>_. 2) Background 0 demo_batch demo_stream) = Inr seqs \<and> seqs ! 1 = 2"
proof -
  obtain S seqs where b: "PublishBatch (\<lambda>_. ''m'') (\<lambda>_. 2) Background 0 demo_batch demo_stream = (S, Inr seqs)"
    using demo_batch_accepted by (auto split: prod.splits sum.splits)
  have "po_MsgID (ResolvePublish (bm_Opts m)) = ''''" if "m \<in> set demo_batch" for m
    using that by (auto simp: demo_batch_def ResolvePublish_def apply_opts_def)
  from batch_expectations_hold [OF b this, of 1] have "seqs ! 1 = 2"
    by (simp add: demo_batch_def ResolvePublish_def apply_opts_def)
  with b show ?thesis by simp
qed

end
