(* ===== verification/Buckets_API.thy ===== *)
theory Buckets_API
  imports Delivery
begin

text \<open>
  The key/value and object APIs of a connection on the store: the rest of
  \<^verbatim>\<open>src/v2/bus/memory/kv.go\<close> and \<^verbatim>\<open>src/v2/bus/memory/objects.go\<close>. A handle on a bucket keeps the
  pointer it was opened with, so it still reaches a bucket that has been deleted since.
\<close>

section \<open>Key/value buckets\<close>

definition kv_off :: "string \<Rightarrow> addr \<Rightarrow> Store \<Rightarrow> Fault option" where
  "kv_off op c S = (if \<not> Cap_KV (cfg_caps (S_cfg S)) then Some (Unsupported op ''kv'') else alive c S)"

definition kv_grant :: "string \<Rightarrow> addr \<Rightarrow> Store \<Rightarrow> Fault option" where
  "kv_grant name c S =
     (if \<not> CanUse (Id_Grants (id_of S c)) AssetKV name then
        Some (Denied (''kv:'' @ name) (Identity_String (id_of S c)) ''bucket is not provisioned for this principal'')
      else None)"

definition kv_gate :: "string \<Rightarrow> addr \<Rightarrow> Store \<Rightarrow> Fault option" where
  \<comment> \<open>the two checks \<^verbatim>\<open>Open\<close> and \<^verbatim>\<open>Delete\<close> start with\<close>
  "kv_gate name c S = (case kv_off (''kv:'' @ name) c S of Some e \<Rightarrow> Some e | None \<Rightarrow> kv_grant name c S)"

definition no_such_bucket :: "string \<Rightarrow> addr \<Rightarrow> Store \<Rightarrow> Fault" where
  "no_such_bucket name c S =
     mkFault FaultNotFound (''kv:'' @ name) (''principal '' @ Identity_String (id_of S c) @ '': no such bucket'')"

definition KV_Declare :: "addr \<Rightarrow> BucketSpec \<Rightarrow> Store \<Rightarrow> Store \<times> unit res" where
  "KV_Declare c spec S =
     (let name = bs_Name spec in
      case kv_off (''kv:'' @ name) c S of Some e \<Rightarrow> (S, Inl e)
      | None \<Rightarrow>
          if name = '''' then
            (S, Inl (mkFault FaultSchema ''kv:''
               (''principal '' @ Identity_String (id_of S c) @ '': bucket name is empty'')))
          else case kv_grant name c S of Some e \<Rightarrow> (S, Inl e)
          | None \<Rightarrow>
              if map_of (S_buckets S) name \<noteq> None then (S, Inr ())
              else (S\<lparr>S_buckets := AList.update name (length (H_buckets S)) (S_buckets S),
                       H_buckets := H_buckets S @ [newBucket spec]\<rparr>, Inr ()))"

record bucket =
  bk_c :: addr
  bk_name :: string
  bk_b :: addr

definition KV_Open :: "addr \<Rightarrow> string \<Rightarrow> Store \<Rightarrow> bucket res" where
  "KV_Open c name S =
     (case kv_gate name c S of Some e \<Rightarrow> Inl e
      | None \<Rightarrow>
          (case map_of (S_buckets S) name of
             None \<Rightarrow> Inl (no_such_bucket name c S)
           | Some b \<Rightarrow> Inr \<lparr>bk_c = c, bk_name = name, bk_b = b\<rparr>))"

definition KV_Delete :: "addr \<Rightarrow> string \<Rightarrow> Store \<Rightarrow> Store \<times> unit res" where
  "KV_Delete c name S =
     (case kv_gate name c S of Some e \<Rightarrow> (S, Inl e)
      | None \<Rightarrow>
          (case map_of (S_buckets S) name of
             None \<Rightarrow> (S, Inl (no_such_bucket name c S))
           | Some b \<Rightarrow>
               ((mod_bucket b (withdraw_watchers name) S)\<lparr>S_buckets := AList.delete name (S_buckets S)\<rparr>, Inr ())))"

definition KV_List :: "addr \<Rightarrow> Store \<Rightarrow> string list res" where
  "KV_List c S =
     (case kv_off ''kv:list'' c S of Some e \<Rightarrow> Inl e
      | None \<Rightarrow> Inr (sort (filter (CanUse (Id_Grants (id_of S c)) AssetKV) (map fst (S_buckets S)))))"

text \<open>An operation of a handle that may change the bucket, and one that only reads it: \<open>f\<close> gets the
  result of \<^verbatim>\<open>alive\<close>, the identity and the name of the handle.\<close>

definition on_bucket ::
  "(Fault option \<Rightarrow> Identity \<Rightarrow> string \<Rightarrow> kvBucket \<Rightarrow> kvBucket \<times> 'a res) \<Rightarrow> bucket \<Rightarrow> Store \<Rightarrow> Store \<times> 'a res" where
  "on_bucket f h S =
     (let (b, r) = f (alive (bk_c h) S) (id_of S (bk_c h)) (bk_name h) (H_buckets S ! bk_b h)
      in (mod_bucket (bk_b h) (\<lambda>_. b) S, r))"

definition read_bucket ::
  "(Fault option \<Rightarrow> Identity \<Rightarrow> string \<Rightarrow> kvBucket \<Rightarrow> 'a res) \<Rightarrow> bucket \<Rightarrow> Store \<Rightarrow> 'a res" where
  "read_bucket f h S = f (alive (bk_c h) S) (id_of S (bk_c h)) (bk_name h) (H_buckets S ! bk_b h)"

definition KV_Get :: "instant \<Rightarrow> string \<Rightarrow> bucket \<Rightarrow> Store \<Rightarrow> Entry res" where
  "KV_Get now key = read_bucket (\<lambda>al i name. bucket_Get al i name now key)"

definition KV_Put :: "instant \<Rightarrow> string \<Rightarrow> bytes \<Rightarrow> bucket \<Rightarrow> Store \<Rightarrow> Store \<times> Revision res" where
  "KV_Put now key v = on_bucket (\<lambda>al i name. bucket_Put al now key v)"

definition KV_Create :: "instant \<Rightarrow> instant \<Rightarrow> string \<Rightarrow> bytes \<Rightarrow> bucket \<Rightarrow> Store \<Rightarrow> Store \<times> Revision res" where
  "KV_Create now now' key v = on_bucket (\<lambda>al i name. bucket_Create al i name now now' key v)"

definition KV_Update :: "instant \<Rightarrow> instant \<Rightarrow> string \<Rightarrow> bytes \<Rightarrow> Revision \<Rightarrow> bucket \<Rightarrow> Store \<Rightarrow> Store \<times> Revision res" where
  "KV_Update now now' key v expect = on_bucket (\<lambda>al i name. bucket_Update al i name now now' key v expect)"

definition KV_Delete_key :: "instant \<Rightarrow> string \<Rightarrow> bucket \<Rightarrow> Store \<Rightarrow> Store \<times> unit res" where
  "KV_Delete_key now key = on_bucket (\<lambda>al i name. bucket_Delete al i name now key)"

definition KV_Purge :: "instant \<Rightarrow> string \<Rightarrow> bucket \<Rightarrow> Store \<Rightarrow> Store \<times> unit res" where
  "KV_Purge now key = on_bucket (\<lambda>al i name. bucket_Purge al i name now key)"

definition KV_Watch :: "instant \<Rightarrow> string \<Rightarrow> bucket \<Rightarrow> Store \<Rightarrow> Store \<times> nat res" where
  "KV_Watch now filt h S =
     (case on_bucket (\<lambda>al i name. bucket_Watch al name now filt) h S of
        (S1, Inl e) \<Rightarrow> (S1, Inl e)
      | (S1, Inr n) \<Rightarrow>
          (mod_conn (bk_c h) (\<lambda>k. k\<lparr>c_watchers := c_watchers k @ [kv_stopper (bk_b h) n]\<rparr>) S1, Inr n))"

section \<open>Object buckets\<close>

definition objects_off :: "string \<Rightarrow> addr \<Rightarrow> Store \<Rightarrow> Fault option" where
  "objects_off op c S =
     (if \<not> Cap_Objects (cfg_caps (S_cfg S)) then Some (Unsupported op ''objects'') else alive c S)"

definition Objects_Declare :: "addr \<Rightarrow> BucketSpec \<Rightarrow> Store \<Rightarrow> Store \<times> unit res" where
  "Objects_Declare c spec S =
     (let (objs, r) = obj_Declare (objects_off (''obj:'' @ bs_Name spec) c S) (id_of S c) spec (S_objects S)
      in (S\<lparr>S_objects := objs\<rparr>, r))"

definition Objects_Put ::
  "(bytes \<Rightarrow> string) \<Rightarrow> instant \<Rightarrow> addr \<Rightarrow> ObjectMeta \<Rightarrow> (string + bytes) option \<Rightarrow> Store \<Rightarrow> Store \<times> ObjectMeta res" where
  "Objects_Put hexsum now c meta r S =
     (let (objs, x) = obj_Put hexsum (objects_off (obj_op (om_Bucket meta) (om_Name meta)) c S) (id_of S c) now meta r
                        (S_objects S)
      in (S\<lparr>S_objects := objs\<rparr>, x))"

definition Objects_Get :: "addr \<Rightarrow> string \<Rightarrow> string \<Rightarrow> Store \<Rightarrow> (bytes \<times> ObjectMeta) res" where
  "Objects_Get c bname name S = obj_Get (objects_off (obj_op bname name) c S) (id_of S c) bname name (S_objects S)"

definition Objects_Info :: "addr \<Rightarrow> string \<Rightarrow> string \<Rightarrow> Store \<Rightarrow> ObjectMeta res" where
  "Objects_Info c bname name S = obj_Info (objects_off (obj_op bname name) c S) (id_of S c) bname name (S_objects S)"

definition Objects_Delete :: "instant \<Rightarrow> addr \<Rightarrow> string \<Rightarrow> string \<Rightarrow> Store \<Rightarrow> Store \<times> unit res" where
  "Objects_Delete now c bname name S =
     (let (objs, r) = obj_Delete (objects_off (obj_op bname name) c S) (id_of S c) now bname name (S_objects S)
      in (S\<lparr>S_objects := objs\<rparr>, r))"

definition Objects_List :: "addr \<Rightarrow> string \<Rightarrow> Store \<Rightarrow> ObjectMeta list res" where
  "Objects_List c bname S = obj_List (objects_off (''obj:'' @ bname) c S) (id_of S c) bname (S_objects S)"

definition Objects_Watch :: "addr \<Rightarrow> string \<Rightarrow> Store \<Rightarrow> Store \<times> nat res" where
  "Objects_Watch c bname S =
     (case obj_Watch (objects_off (''obj:'' @ bname) c S) (id_of S c) bname (S_objects S) of
        (objs, Inl e) \<Rightarrow> (S\<lparr>S_objects := objs\<rparr>, Inl e)
      | (objs, Inr n) \<Rightarrow>
          (mod_conn c (\<lambda>k. k\<lparr>c_watchers := c_watchers k @ [obj_stopper bname n]\<rparr>) (S\<lparr>S_objects := objs\<rparr>), Inr n))"

end
