(* ===== verification/System.thy ===== *)
theory System
  imports Services Scheduler Streams_API Buckets_API
begin

text \<open>
  The whole in-memory bus as a transition system: a step is one call of the API by any connection, one
  tick of the scheduler, or one step of a goroutine of the substrate, in any order. The reachable
  stores are those a run reaches from a new store.
\<close>

section \<open>Steps\<close>

text \<open>Steps that deliver messages, or change who receives them.\<close>

inductive bus_step :: "Store \<Rightarrow> Store \<Rightarrow> bool" where
  connect: "bus_step S (fst (Connect i S))"
| restart: "bus_step S (Restart S)"
| revoke: "bus_step S (Revoke pid S)"
| close_store: "bus_step S (Store_Close S)"
| close_conn: "c < length (H_conns S) \<Longrightarrow> bus_step S (conn_Close c S)"
| publish: "c < length (H_conns S) \<Longrightarrow> bus_step S (fst (Publish minted ctx c subject data opts S))"
| subscribe: "c < length (H_conns S) \<Longrightarrow> bus_step S (fst (Subscribe c pat h sopts S))"
| request: "c < length (H_conns S) \<Longrightarrow> bus_step S (fst (request_begin minted ctx c subject data ropts S))"
| request_return: "request_end ev c subject ropts inbox S = Some (S', r) \<Longrightarrow> bus_step S S'"
| respond: "bus_step S (fst (Respond m hs data S))"
| serve: "c < length (H_conns S) \<Longrightarrow> bus_step S (fst (Serve now c spec S))"
| stop_service: "bus_step S (service_Stop v S)"
| handle: "handler_call a S = Some (S', m) \<Longrightarrow> bus_step S S'"
| handled: "bus_step S (handler_return a elapsed S)"
| end_sub: "bus_step S (mod_sub a (sub_finish err) S)"
| drain_sub: "bus_step S (mod_sub a (\<lambda>s. wake_up (drain_begin s)) S)"
| idle_sub: "bus_step S (mod_sub a run_idle S)"
| drop_sub: "bus_step S (dropSub a S)"

inductive schedule_step :: "Store \<Rightarrow> Store \<Rightarrow> bool" where
  at: "c < length (H_conns S) \<Longrightarrow> schedule_step S (fst (At c name t subject data opts S))"
| every: "c < length (H_conns S) \<Longrightarrow> schedule_step S (fst (Every now c name d subject data opts S))"
| cron: "c < length (H_conns S) \<Longrightarrow> schedule_step S (fst (Schedule_Cron qt now c name expr subject data opts S))"
| cancel: "schedule_step S (fst (Schedule_Cancel c name S))"
| tick: "schedule_step S (fireDue mint now S)"

text \<open>Steps on streams and buckets.\<close>

inductive asset_step :: "Store \<Rightarrow> Store \<Rightarrow> bool" where
  declare_stream: "asset_step S (fst (Stream_Declare now c sspec S))"
| publish_stream: "asset_step S (fst (Stream_Publish minted ctx now c subject data opts S))"
| publish_batch: "asset_step S (fst (PublishBatch mint clk ctx c msgs S))"
| counter: "asset_step S (fst (Counter c subject delta S))"
| purge: "asset_step S (fst (Stream_Purge c name filt S))"
| stream_info: "asset_step S (fst (Stream_Info now c name S))"
| delete_stream: "asset_step S (fst (Stream_Delete c name S))"
| consume: "asset_step S (fst (Consume c name cspec h S))"
| fetch: "asset_step S (fst (Fetch_round clk c name cspec n S))"
| pull: "asset_step S (fst (consumer_pull now now' k S))"
| idle_consumer: "asset_step S (mod_cons k consumer_idle S)"
| panic: "asset_step S (consumer_panic k S)"
| cancel_consumer: "asset_step S (consumer_Cancel k S)"
| drain_consumer: "asset_step S (mod_cons k consumer_drain_begin S)"
| drained_consumer: "consumer_drain_end ev k S = Some (S', r) \<Longrightarrow> asset_step S S'"
| reset: "asset_step S (fst (consumer_Reset_at k S))"
| settle: "asset_step S (fst (acknowledge_at now a m kind delay reason S))"
| declare_kv: "asset_step S (fst (KV_Declare c bspec S))"
| delete_kv: "asset_step S (fst (KV_Delete c name S))"
| put_kv: "asset_step S (fst (KV_Put now key v hdl S))"
| create_kv: "asset_step S (fst (KV_Create now now' key v hdl S))"
| update_kv: "asset_step S (fst (KV_Update now now' key v expect hdl S))"
| delete_key: "asset_step S (fst (KV_Delete_key now key hdl S))"
| purge_key: "asset_step S (fst (KV_Purge now key hdl S))"
| watch_kv: "asset_step S (fst (KV_Watch now pat hdl S))"
| declare_obj: "asset_step S (fst (Objects_Declare c bspec S))"
| put_obj: "asset_step S (fst (Objects_Put hexsum now c meta r S))"
| delete_obj: "asset_step S (fst (Objects_Delete now c bname name S))"
| watch_obj: "asset_step S (fst (Objects_Watch c bname S))"

inductive store_step :: "Store \<Rightarrow> Store \<Rightarrow> bool" where
  bus: "bus_step S S' \<Longrightarrow> store_step S S'"
| schedule: "schedule_step S S' \<Longrightarrow> store_step S S'"
| asset: "asset_step S S' \<Longrightarrow> store_step S S'"

definition store_init :: "Store \<Rightarrow> bool" where
  "store_init S \<longleftrightarrow> (\<exists>env opts. S = NewStore env opts)"

definition reachable :: "Store \<Rightarrow> bool" where
  "reachable S \<longleftrightarrow> (\<exists>S0. store_init S0 \<and> store_step\<^sup>*\<^sup>* S0 S)"

lemma reachable_new: "reachable (NewStore env opts)"
  by (auto simp: reachable_def store_init_def)

lemma reachable_step: "reachable S \<Longrightarrow> store_step S S' \<Longrightarrow> reachable S'"
  unfolding reachable_def by (meson rtranclp.rtrancl_into_rtrancl)

section \<open>The frame of the asset steps\<close>

text \<open>What the bus part of the store consists of; streams and buckets leave it alone.\<close>

definition frame :: "Store \<Rightarrow> _" where
  "frame S =
     (S_cfg S, S_closed S, S_gen S, S_conns S, map (\<lambda>c. (c_id c, c_gen c, c_closed c)) (H_conns S),
      H_subs S, S_subs S, S_schedules S, S_inboxes S, H_chans S)"

lemma frame_mod [simp]:
  "frame (mod_svc a f S) = frame S" "frame (mod_cons a f2 S) = frame S" "frame (mod_bucket a f3 S) = frame S"
  "frame (mod_state a f4 S) = frame S" "frame (put_stream name st S) = frame S"
  "frame (S\<lparr>S_streams := ss\<rparr>) = frame S" "frame (S\<lparr>S_objects := os\<rparr>) = frame S"
  "frame (S\<lparr>S_nextID := n\<rparr>) = frame S" "frame (S\<lparr>H_states := hs\<rparr>) = frame S"
  "frame (S\<lparr>H_consumers := hc\<rparr>) = frame S" "frame (S\<lparr>S_buckets := bs\<rparr>) = frame S"
  "frame (S\<lparr>H_buckets := hb\<rparr>) = frame S"
  by (simp_all add: frame_def mod_state_def put_stream_def)

lemma frame_mod_conn:
  assumes "\<And>c. c_id (f c) = c_id c \<and> c_gen (f c) = c_gen c \<and> c_closed (f c) = c_closed c"
  shows "frame (mod_conn a f S) = frame S"
  unfolding frame_def using assms by (simp add: map_update_same)

lemma frame_conn_fields [simp]:
  "frame (mod_conn a (\<lambda>k. k\<lparr>c_fetchers := g1 k\<rparr>) S) = frame S"
  "frame (mod_conn a (\<lambda>k. k\<lparr>c_consumers := g2 k\<rparr>) S) = frame S"
  "frame (mod_conn a (\<lambda>k. k\<lparr>c_watchers := g3 k\<rparr>) S) = frame S"
  "frame (mod_conn a (\<lambda>k. k\<lparr>c_services := g2 k\<rparr>) S) = frame S"
  "frame (mod_conn a (\<lambda>k. k\<lparr>c_subs := g2 k\<rparr>) S) = frame S"
  "frame (mod_conn a (\<lambda>k. k\<lparr>c_inboxN := g4 k\<rparr>) S) = frame S"
  by (rule frame_mod_conn; simp)+

lemma frame_on_stream [simp]: "frame (fst (on_stream name c f S)) = frame S"
  by (simp add: on_stream_def split_beta Let_def split: option.split)

lemma frame_on_bucket [simp]: "frame (fst (on_bucket f h S)) = frame S"
  by (simp add: on_bucket_def split_beta Let_def)

lemma frame_append_all [simp]: "frame (fst (append_all mint clk k ctx c ps S)) = frame S"
proof (induction ps arbitrary: k S)
  case (Cons p ps)
  obtain S1 r where on: "on_stream (pl_stream p) c
      (appendLocked (mint k) ctx (id_of S c) (bm_Subject (pl_msg p)) (bm_Data (pl_msg p))
        (batch_opts (pl_opts p)) (clk k)) S = (S1, r)" by fastforce
  then have "frame S1 = frame S" using frame_on_stream by (metis fst_conv)
  with Cons [of "Suc k" S1] on show ?case by (auto split: sum.splits prod.splits)
qed simp

lemma frame_stateLocked [simp]: "frame (fst (stateLocked c name st spec key S)) = frame S"
  by (simp add: stateLocked_def Let_def new_state_def newID_def split: option.split sum.split)

lemma frame_stateLocked': "stateLocked c name st spec key S = (S', r) \<Longrightarrow> frame S' = frame S"
  using frame_stateLocked [of c name st spec key S] by simp

lemma asset_step_frame: "asset_step S S' \<Longrightarrow> frame S' = frame S"
proof (induction rule: asset_step.induct)
  case (publish_batch S mint clk ctx c msgs)
  have "frame S1 = frame S" if "append_all mint clk 0 ctx c ps S = (S1, r)" for ps S1 r
    using frame_append_all [of mint clk 0 ctx c ps S] that by simp
  then show ?case
    by (auto simp: PublishBatch_def trim_streams_def split: option.split sum.split prod.split)
next
  case (consume S c name cspec h)
  then show ?case
    by (auto simp: Consume_def Let_def split: option.split sum.split prod.split dest: frame_stateLocked')
next
  case (fetch S clk c name cspec n)
  then show ?case
    by (auto simp: Fetch_round_def Let_def split: option.split sum.split prod.split dest: frame_stateLocked')
next
  case (watch_kv S now pat hdl)
  have "frame S1 = frame S" if "on_bucket f hdl S = (S1, r)" for f :: "_ \<Rightarrow> _ \<Rightarrow> _ \<Rightarrow> _ \<Rightarrow> _ \<times> nat res" and S1 r
    using frame_on_bucket [of f hdl S] that by simp
  then show ?case by (auto simp: KV_Watch_def split: sum.split prod.split)
next
  case (drained_consumer ev k S S' r)
  then show ?case
    by (auto simp: consumer_drain_end_def Let_def consumer_finish_def split: drain_event.splits if_splits)
qed (simp_all add: Stream_Declare_def Stream_Publish_def Counter_def Stream_Purge_def Stream_Info_def
    Stream_Delete_def consumer_pull_def consumer_panic_def consumer_Cancel_def consumer_finish_def
    consumer_Reset_at_def acknowledge_at_def KV_Declare_def KV_Delete_def KV_Put_def KV_Create_def KV_Update_def
    KV_Delete_key_def KV_Purge_def Objects_Declare_def Objects_Put_def Objects_Delete_def Objects_Watch_def
    Let_def split_beta split: option.split sum.split prod.split)

section \<open>Every queued message is permitted at both ends\<close>

definition ids :: "Store \<Rightarrow> Identity list" where
  "ids S = map c_id (H_conns S)"

definition sender_ok :: "Store \<Rightarrow> Msg \<Rightarrow> bool" where
  "sender_ok S m \<longleftrightarrow>
     \<not> denySubject S (m_Subject m) \<and>
     (\<exists>i \<in> set (ids S). CallerOf (Some m) = identity_caller i \<and>
        (Can (Id_Grants i) GrantPublish (m_Subject m) \<or> Can (Id_Grants i) GrantRequest (m_Subject m)))"

definition receiver_ok :: "Store \<Rightarrow> subscription \<Rightarrow> bool" where
  "receiver_ok S s \<longleftrightarrow>
     s_conn s < length (H_conns S) \<and>
     (case s_onReply s of
        None \<Rightarrow> CanPattern (Id_Grants (id_of S (s_conn s))) GrantSubscribe (s_pattern s)
      | Some v \<Rightarrow> in_grammar False (s_pattern s) \<and> Can (Id_Grants (id_of S (s_conn s))) GrantServe (s_pattern s))"

definition sub_ok :: "Store \<Rightarrow> subscription \<Rightarrow> bool" where
  "sub_ok S s \<longleftrightarrow> receiver_ok S s \<and> (\<forall>m \<in> set (s_queue s). Matches (s_pattern s) (m_Subject m) \<and> sender_ok S m)"

definition grant_inv :: "Store \<Rightarrow> bool" where
  "grant_inv S \<longleftrightarrow>
     (\<forall>s \<in> set (H_subs S). sub_ok S s) \<and> set (S_subs S) \<subseteq> {..<length (H_subs S)} \<and>
     sc_id ` entries S \<subseteq> set (ids S)"

text \<open>\<open>quiet S S'\<close>: no message was added, nobody was given a subscription, and no schedule a new owner.\<close>

definition shrinks :: "subscription \<Rightarrow> subscription \<Rightarrow> bool" where
  "shrinks s t \<longleftrightarrow>
     s_conn t = s_conn s \<and> s_pattern t = s_pattern s \<and> s_onReply t = s_onReply s \<and> set (s_queue t) \<subseteq> set (s_queue s)"

definition quiet :: "Store \<Rightarrow> Store \<Rightarrow> bool" where
  "quiet S S' \<longleftrightarrow>
     S_cfg S' = S_cfg S \<and> ids S' = ids S \<and> list_all2 shrinks (H_subs S) (H_subs S') \<and>
     set (S_subs S') \<subseteq> set (S_subs S) \<and> sc_id ` entries S' \<subseteq> sc_id ` entries S"

lemma shrinks_refl [simp]: "shrinks s s"
  by (simp add: shrinks_def)

lemma shrinks_finish [simp]: "shrinks s (sub_finish e s)"
  by (auto simp: shrinks_def sub_finish_def finish_mark_def close_channels_def)

lemma id_of_ids: "c < length (H_conns S) \<Longrightarrow> id_of S c = ids S ! c"
  by (simp add: ids_def)

lemma length_ids [simp]: "length (ids S) = length (H_conns S)"
  by (simp add: ids_def)

text \<open>The invariant only reads the configuration and the identities, which may grow.\<close>

lemma ids_grow:
  assumes "ids S' = ids S @ new" and "S_cfg S' = S_cfg S"
  shows "sub_ok S s \<Longrightarrow> shrinks s t \<Longrightarrow> sub_ok S' t"
    and "set (ids S) \<subseteq> set (ids S')"
    and "sender_ok S m \<Longrightarrow> sender_ok S' m"
    and "c < length (H_conns S) \<Longrightarrow> id_of S' c = id_of S c"
proof -
  have len: "length (H_conns S') = length (H_conns S) + length new"
    using assms(1) length_ids by (metis length_append)
  show idc: "id_of S' c = id_of S c" if "c < length (H_conns S)" for c
  proof -
    have "id_of S' c = (ids S @ new) ! c" using that len assms(1) by (simp add: id_of_ids)
    also have "\<dots> = ids S ! c" using that by (simp add: nth_append)
    finally show ?thesis using that by (simp add: id_of_ids)
  qed
  show sub: "set (ids S) \<subseteq> set (ids S')" using assms(1) by auto
  show snd: "sender_ok S' m" if "sender_ok S m" for m
    using that sub assms(2) by (auto simp: sender_ok_def denySubject_def)
  show "sub_ok S' t" if "sub_ok S s" "shrinks s t"
    using that idc len snd by (auto simp: sub_ok_def receiver_ok_def shrinks_def split: option.splits)
qed

lemma quiet_grant:
  assumes "quiet S S'" and "grant_inv S"
  shows "grant_inv S'"
proof -
  have g: "ids S' = ids S @ []" "S_cfg S' = S_cfg S" using assms(1) by (simp_all add: quiet_def)
  have l: "length (H_subs S') = length (H_subs S)" using assms(1) by (auto simp: quiet_def dest: list_all2_lengthD)
  have "sub_ok S' (H_subs S' ! a)" if "a < length (H_subs S')" for a
    using that assms l ids_grow(1) [OF g, of "H_subs S ! a" "H_subs S' ! a"]
    by (simp add: quiet_def grant_inv_def list_all2_conv_all_nth)
  then have "\<forall>s \<in> set (H_subs S'). sub_ok S' s" by (metis in_set_conv_nth)
  then show ?thesis using assms l unfolding quiet_def grant_inv_def by (metis subset_trans)
qed

lemma frame_quiet: "frame S' = frame S \<Longrightarrow> quiet S S'"
proof -
  assume f: "frame S' = frame S"
  then have "map fst (map (\<lambda>c. (c_id c, c_gen c, c_closed c)) (H_conns S')) =
      map fst (map (\<lambda>c. (c_id c, c_gen c, c_closed c)) (H_conns S))" by (simp add: frame_def)
  then have "ids S' = ids S" by (simp add: ids_def o_def)
  with f show "quiet S S'"
    by (auto simp: quiet_def frame_def entries_def list_all2_refl)
qed

lemma quiet_mod_sub: "(\<And>s. shrinks s (f s)) \<Longrightarrow> quiet S (mod_sub a f S)"
  by (auto simp: quiet_def ids_def entries_def list_all2_conv_all_nth heap_nth)

lemma quiet_trans: "quiet S T \<Longrightarrow> quiet T U \<Longrightarrow> quiet S U"
proof -
  assume a: "quiet S T" "quiet T U"
  have "list_all2 shrinks (H_subs S) (H_subs U)"
    by (rule list_all2_trans [of shrinks shrinks shrinks]) (use a in \<open>auto simp: quiet_def shrinks_def\<close>)
  with a show ?thesis unfolding quiet_def by (metis subset_trans)
qed

lemma quiet_refl [simp]: "quiet S S"
  by (simp add: quiet_def list_all2_refl)

lemma quiet_finishAll: "quiet S (finishAll cs ss vs e S)"
proof -
  have "ids (finishAll cs ss vs e S) = ids S"
    by (rule nth_equalityI) (auto simp: ids_def finishAll_conns)
  moreover have "list_all2 shrinks (H_subs S) (H_subs (finishAll cs ss vs e S))"
    by (simp add: list_all2_conv_all_nth finishAll_subs)
  ultimately show ?thesis by (simp add: quiet_def entries_def)
qed

lemma quiet_markDead: "quiet S (markDead c S)"
proof -
  have "ids (markDead c S) = ids S" by (simp add: ids_def map_update_same)
  then show ?thesis by (simp add: quiet_def entries_def list_all2_refl)
qed

lemma lifecycle_quiet:
  "quiet S (Restart S)" "quiet S (Revoke pid S)" "quiet S (Store_Close S)" "quiet S (conn_Close c S)"
proof -
  have base: "quiet S T" if "S_cfg T = S_cfg S" "ids T = ids S" "H_subs T = H_subs S"
    "set (S_subs T) \<subseteq> set (S_subs S)" "S_schedules T = S_schedules S" for T
    using that by (simp add: quiet_def entries_def list_all2_refl)
  show "quiet S (Restart S)"
    by (auto simp: Restart_def takeEphemeralLocked_def ids_def intro!: quiet_trans [OF base quiet_finishAll])
  show "quiet S (Revoke pid S)"
    by (auto simp: Revoke_def Let_def ids_def intro!: quiet_trans [OF base quiet_finishAll])
  show "quiet S (Store_Close S)"
    by (auto simp: Store_Close_def takeEphemeralLocked_def ids_def intro!: quiet_trans [OF base quiet_finishAll])
  show "quiet S (conn_Close c S)"
    unfolding conn_Close_def Let_def
    by (rule quiet_trans [OF _ quiet_markDead], rule quiet_trans [OF base quiet_finishAll])
      (auto simp: ids_def dropSubsLocked_def map_update_same)
qed

text \<open>Delivering a permitted message keeps the invariant.\<close>

lemma CallerOf_copyFor: "canonical (m_Headers m) \<Longrightarrow> CallerOf (Some (copyFor m a r)) = CallerOf (Some m)"
  unfolding copyFor_def by (rule CallerOf_copy)

lemma enqueue_static [simp]:
  "s_conn (enqueue who m s) = s_conn s" "s_pattern (enqueue who m s) = s_pattern s"
  "s_onReply (enqueue who m s) = s_onReply s"
  by (simp_all add: enqueue_def Let_def count_drop_def wake_up_def push_queue_def)

lemma enqueue_queue: "set (s_queue (enqueue who m s)) \<subseteq> insert m (set (s_queue s))"
  by (auto simp: enqueue_def Let_def count_drop_def wake_up_def push_queue_def sub_finish_def finish_mark_def
      close_channels_def)

lemma sub_ok_cong: "ids S' = ids S \<Longrightarrow> S_cfg S' = S_cfg S \<Longrightarrow> sub_ok S' s = sub_ok S s"
  using ids_grow(1) [of S' S "[]" s s] ids_grow(1) [of S S' "[]" s s] by auto

lemma enqueue_at_grant:
  assumes "grant_inv S" and "a < length (H_subs S)" and "Matches (s_pattern (H_subs S ! a)) (m_Subject m)"
    and "canonical (m_Headers m)" and "sender_ok S m"
  shows "grant_inv (enqueue_at m r a S)"
proof -
  let ?S = "enqueue_at m r a S" and ?m = "copyFor m a r"
  have i: "ids ?S = ids S" by (simp add: ids_def)
  have "m_Subject ?m = m_Subject m" by (simp add: copyFor_def NewMsg_def)
  then have m: "sender_ok S ?m" using assms(4,5) by (simp add: sender_ok_def CallerOf_copyFor)
  have "sub_ok S (H_subs S ! a)" using assms(1,2) by (simp add: grant_inv_def)
  then have "sub_ok S (enqueue who ?m (H_subs S ! a))" for who
    using enqueue_queue [of who ?m "H_subs S ! a"] m assms(3) \<open>m_Subject ?m = m_Subject m\<close>
    unfolding sub_ok_def receiver_ok_def by (auto split: option.splits)
  then have "\<forall>s \<in> set (H_subs ?S). sub_ok S s"
    using assms(1) set_update_subset_insert [of "H_subs S" a] by (fastforce simp: enqueue_at_def grant_inv_def)
  then show ?thesis
    using assms(1) entries_schedules [of ?S S] sub_ok_cong [OF i] i by (simp add: grant_inv_def)
qed

lemma deliver_grant:
  assumes "grant_inv S" and "m_Subject m = subject" and "canonical (m_Headers m)" and "sender_ok S m"
  shows "grant_inv (fst (deliver subject m r S))"
proof -
  let ?ts = "snd (matchLocked subject S)" and ?S = "fst (matchLocked subject S)"
  have q: "quiet S ?S"
    using matchLocked_frame(11) [of subject S] entries_schedules [of ?S S]
    by (simp add: quiet_def ids_def list_all2_refl)
  have "grant_inv (fold (enqueue_at m r) ts T)"
    if "grant_inv T" "sender_ok T m"
      "\<And>a. a \<in> set ts \<Longrightarrow> a < length (H_subs T) \<and> Matches (s_pattern (H_subs T ! a)) subject" for ts T
    using that
  proof (induction ts arbitrary: T)
    case (Cons a ts)
    let ?T = "enqueue_at m r a T"
    have "sender_ok ?T m"
      using Cons.prems(2) ids_grow(3) [of ?T T "[]"] by (simp add: ids_def)
    moreover have "s_pattern (H_subs ?T ! x) = s_pattern (H_subs T ! x)" for x
      by (simp add: enqueue_at_def heap_nth)
    ultimately show ?case
      using Cons enqueue_at_grant [of T a m r] assms(2,3) by simp
  qed simp
  moreover have "sender_ok ?S m" using assms(4) ids_grow(3) [of ?S S "[]"] by (simp add: ids_def)
  moreover have "a < length (H_subs S) \<and> Matches (s_pattern (H_subs S ! a)) subject" if "a \<in> set ?ts" for a
    using targets_eligible [OF that] assms(1) by (auto simp: eligible_def grant_inv_def Let_def)
  ultimately show ?thesis using quiet_grant [OF q assms(1)] by (simp add: deliver_def Let_def split_beta)
qed

text \<open>A message stamped with the identity of a connection that passed the gate is permitted.\<close>

lemma checkPublish_None:
  "checkPublish kind subject data c S = None \<Longrightarrow>
     alive c S = None \<and> in_grammar False subject \<and> \<not> denySubject S subject \<and>
     Can (Id_Grants (id_of S c)) kind subject \<and> \<not> too_big S data"
  by (auto simp: checkPublish_def split: option.splits sum.splits if_splits)

lemma stamped_sender_ok:
  assumes "i \<in> set (ids S)" and "\<not> denySubject S subject" and "kind = GrantPublish \<or> kind = GrantRequest"
    and "Can (Id_Grants i) kind subject"
  shows "sender_ok S (NewMsg subject r (stampWith minted ctx i h) d re)"
proof -
  have "m_Subject (NewMsg subject r (stampWith minted ctx i h) d re) = subject" by (simp add: NewMsg_def)
  then show ?thesis using assms by (auto simp: sender_ok_def CallerOf_stamped)
qed

lemma id_in_ids: "c < length (H_conns S) \<Longrightarrow> id_of S c \<in> set (ids S)"
  by (simp add: ids_def)

lemma NewMsg_Subject [simp]: "m_Subject (NewMsg s r h d re) = s"
  by (simp add: NewMsg_def)

lemma publish_grant:
  "grant_inv S \<Longrightarrow> c < length (H_conns S) \<Longrightarrow> grant_inv (fst (Publish minted ctx c subject data opts S))"
  by (auto simp: Publish_def Let_def split: option.split
      intro!: deliver_grant stamped_sender_ok [where kind = GrantPublish] dest!: checkPublish_None intro: id_in_ids)

lemma request_grant:
  assumes "grant_inv S" and "c < length (H_conns S)"
  shows "grant_inv (fst (request_begin minted ctx c subject data opts S))"
proof (cases "checkPublish GrantRequest subject data c S = None \<and> ctx_err ctx = None")
  case True
  let ?n = "c_inboxN (H_conns S ! c) + 1"
  let ?reply = "inbox_name (H_conns S ! c) ?n"
  let ?S1 = "(mod_conn c (\<lambda>k. k\<lparr>c_inboxN := ?n\<rparr>) S)
    \<lparr>H_chans := H_chans S @ [None], S_inboxes := AList.update ?reply (length (H_chans S)) (S_inboxes S)\<rparr>"
  let ?m = "NewMsg subject ?reply (stampWith minted (Some ctx) (id_of S c) (ro_Headers (ResolveReq opts))) data None"
  have i: "ids ?S1 = ids S" by (simp add: ids_def map_update_same)
  then have q: "quiet S ?S1" by (simp add: quiet_def list_all2_refl entries_def)
  have "id_of S c \<in> set (ids ?S1)" using assms(2) i id_in_ids by simp
  moreover have "denySubject ?S1 subject = denySubject S subject" by (simp add: denySubject_def)
  ultimately have "grant_inv (fst (deliver subject ?m (Some ?reply) ?S1))"
    using True checkPublish_None [of GrantRequest subject data c S] quiet_grant [OF q assms(1)]
    by (intro deliver_grant stamped_sender_ok [where kind = GrantRequest]) auto
  moreover have "grant_inv (T\<lparr>S_inboxes := x\<rparr>) = grant_inv T" for T x
    using sub_ok_cong [of "T\<lparr>S_inboxes := x\<rparr>" T] by (simp add: grant_inv_def ids_def entries_def)
  ultimately show ?thesis
    using True by (simp add: request_begin_def Let_def split_beta)
qed (auto simp: request_begin_def assms split: option.split)

text \<open>Subscribing, and mounting endpoints.\<close>

lemma subscribe_grant:
  assumes "grant_inv S" and "c < length (H_conns S)"
    and "case onRep of None \<Rightarrow> checkGrant
      | Some v \<Rightarrow> in_grammar False pat \<and> Can (Id_Grants (id_of S c)) GrantServe pat"
  shows "grant_inv (fst (subscribe c pat h opts onRep checkGrant S))"
    and "ids (fst (subscribe c pat h opts onRep checkGrant S)) = ids S"
proof -
  let ?s = "newSubscription c pat opts onRep"
  have new: "sub_ok S ?s" "sub_ok S (sub_finish e ?s)"
    if "checkGrant \<Longrightarrow> CanPattern (Id_Grants (id_of S c)) GrantSubscribe pat" for e
    using assms that
    by (auto simp: sub_ok_def receiver_ok_def newSubscription_def sub_finish_def finish_mark_def close_channels_def
        split: option.splits)
  have add: "grant_inv S'" if "sub_ok S t" "H_subs S' = H_subs S @ [t]" "ids S' = ids S" "S_cfg S' = S_cfg S"
    "set (S_subs S') \<subseteq> insert (length (H_subs S)) (set (S_subs S))" "S_schedules S' = S_schedules S" for S' t
    using assms(1) that sub_ok_cong [OF that(3,4)] entries_schedules [OF that(6)]
    by (auto simp: grant_inv_def intro: less_SucI)
  have "grant_inv (S\<lparr>H_subs := H_subs S @ [sub_finish (Some e) ?s]\<rparr>)"
    "grant_inv (mod_conn c (\<lambda>k. k\<lparr>c_subs := c_subs k @ [length (H_subs S)]\<rparr>)
       (S\<lparr>H_subs := H_subs S @ [?s], S_subs := S_subs S @ [length (H_subs S)]\<rparr>))"
    if "checkGrant \<Longrightarrow> CanPattern (Id_Grants (id_of S c)) GrantSubscribe pat" for e
    by (rule add [OF new(2) [OF that]] add [OF new(1) [OF that]]; auto simp: ids_def map_update_same)+
  then show "grant_inv (fst (subscribe c pat h opts onRep checkGrant S))"
    using assms(1) by (simp add: subscribe_def Let_def split: option.split sum.split)
  show "ids (fst (subscribe c pat h opts onRep checkGrant S)) = ids S"
    by (auto simp: subscribe_def Let_def ids_def map_update_same split: option.split sum.split)
qed

lemma frame_grant: "frame S' = frame S \<Longrightarrow> grant_inv S \<Longrightarrow> grant_inv S'"
  by (rule quiet_grant [OF frame_quiet])

lemma mod_svc_ids [simp]: "ids (mod_svc v f S) = ids S"
  by (simp add: ids_def)

lemma mount_grant:
  assumes "grant_inv S" and "c < length (H_conns S)"
    and "\<And>ep. ep \<in> set eps \<Longrightarrow> in_grammar False (ep_Subject ep) \<and> Can (Id_Grants (id_of S c)) GrantServe (ep_Subject ep)"
  shows "grant_inv (fst (mount_endpoints c v spec eps S))"
  using assms
proof (induction eps arbitrary: S)
  case (Cons ep eps)
  let ?o = "\<lparr>so_QueueGroup = endpoint_group spec ep, so_PendingLimit = DefaultPendingLimit\<rparr>"
  obtain S1 r where s: "subscribe c (ep_Subject ep) True ?o (Some v) False S = (S1, r)" by fastforce
  have g: "grant_inv S1" "ids S1 = ids S"
    using subscribe_grant [where S = S and c = c and onRep = "Some v" and checkGrant = False
        and pat = "ep_Subject ep" and h = True and opts = ?o] Cons.prems s by simp_all
  let ?T = "\<lambda>a. mod_svc v (add_endpoint a (endpoint_info spec ep)) S1"
  have "grant_inv (?T a)" "length (H_conns (?T a)) = length (H_conns S)"
    "id_of (?T a) c = id_of S c" for a
    using g frame_grant [of "?T a" S1] length_ids [of S1] Cons.prems(2) id_of_ids [of c S1] id_of_ids [of c S]
    by (simp_all)
  then show ?case using s g Cons.IH [of "?T _"] Cons.prems(2,3) by (auto split: sum.split)
qed simp

lemma quiet_dropSubs: "quiet S (dropSubsLocked as S)"
  by (auto simp: quiet_def dropSubsLocked_def ids_def entries_def list_all2_refl)

lemma quiet_service_finish: "quiet S (service_finish e v S)"
proof -
  have "list_all2 shrinks (H_subs S) (H_subs (service_finish e v S))"
    by (simp add: list_all2_conv_all_nth service_finish_def finish_subs_nth)
  moreover have "S_cfg (service_finish e v S) = S_cfg S" "S_subs (service_finish e v S) = S_subs S"
    "S_schedules (service_finish e v S) = S_schedules S"
    by (rule service_finish_kept; simp)+
  ultimately show ?thesis by (simp add: quiet_def ids_def entries_def)
qed

lemma serve_grant:
  assumes "grant_inv S" and "c < length (H_conns S)"
  shows "grant_inv (fst (Serve now c spec S))"
proof -
  let ?S2 = "\<lambda>i. S\<lparr>S_nextID := S_nextID S + 1, H_services := H_services S @ [newService c now i spec]\<rparr>"
  have f: "frame (?S2 i) = frame S" for i by (simp add: frame_def)
  have "grant_inv S3" if "check_endpoints c S (sv_Endpoints spec) = None"
    "mount_endpoints c v spec (sv_Endpoints spec) (?S2 i) = (S3, r)" for i v S3 r
    using mount_grant [of "?S2 i" c "sv_Endpoints spec" v spec] frame_grant [OF f assms(1)] assms(2)
      check_endpoints_None [OF that(1)] that(2) by simp
  moreover have "grant_inv (dropSubsLocked as (service_finish e v T))" if "grant_inv T" for as e v T
    using that by (blast intro: quiet_grant [OF quiet_dropSubs] quiet_grant [OF quiet_service_finish])
  moreover have "grant_inv (mod_conn c (\<lambda>k. k\<lparr>c_services := c_services k @ [v]\<rparr>) (T\<lparr>S_services := x\<rparr>))"
    if "grant_inv T" for v T x
    by (rule frame_grant [OF _ that]) (subst frame_conn_fields, simp add: frame_def)
  ultimately show ?thesis
    using assms(1) by (auto simp: Serve_def Let_def newID_def split: option.split prod.split)
qed

text \<open>Schedules fire as their owner.\<close>

lemma set_AList_update: "set (AList.update k v m) \<subseteq> insert (k, v) (set m)"
  by (induction m) auto

lemma vals_update: "snd ` set (AList.update k v m) \<subseteq> insert v (snd ` set m)"
  using set_AList_update [of k v m] by force

lemma vals_delete: "snd ` set (AList.delete k m) \<subseteq> snd ` set m"
  by (auto simp: AList.delete_eq)

lemma vals_delete_update: "snd ` set (AList.delete k (AList.update k' v m)) \<subseteq> insert v (snd ` set m)"
  using order_trans [OF vals_delete vals_update] .

lemma entries_vals: "x \<in> entries S \<longleftrightarrow> (\<exists>m \<in> snd ` set (S_schedules S). x \<in> snd ` set m)"
  by (simp add: entries_def split_beta)

lemma by_name_entries: "snd ` set (by_name p S) \<subseteq> entries S"
  using map_of_SomeD [of "S_schedules S" p] unfolding entries_def
  by (cases "map_of (S_schedules S) p") (force simp: by_name_def)+

lemma register_entries: "entries (fst (register c e S)) \<subseteq> insert e (entries S)"
proof
  let ?p = "PluginID (id_of S c)"
  fix x assume x: "x \<in> entries (fst (register c e S))"
  show "x \<in> insert e (entries S)"
  proof (cases "S_closed S")
    case False
    then have "S_schedules (fst (register c e S)) =
        AList.update ?p (AList.update (sc_name e) e (by_name ?p S)) (S_schedules S)"
      by (simp add: register_def Let_def)
    with x obtain m where m: "m \<in> snd ` set (AList.update ?p (AList.update (sc_name e) e (by_name ?p S)) (S_schedules S))"
      "x \<in> snd ` set m" unfolding entries_vals by metis
    then have "m = AList.update (sc_name e) e (by_name ?p S) \<or> m \<in> snd ` set (S_schedules S)"
      using vals_update [of ?p _ "S_schedules S"] by blast
    moreover have "m \<in> snd ` set (S_schedules S) \<Longrightarrow> x \<in> entries S" using m(2) by (force simp: entries_def)
    ultimately show ?thesis
      using m(2) vals_update [of "sc_name e" e "by_name ?p S"] by_name_entries [of ?p S] by blast
  qed (use x in \<open>simp add: register_def\<close>)
qed

lemma register_grant:
  assumes "grant_inv S" and "c < length (H_conns S)" and "sc_id e = id_of S c"
  shows "grant_inv (fst (register c e S))"
proof -
  let ?S = "fst (register c e S)"
  have "sc_id ` entries ?S \<subseteq> sc_id ` insert e (entries S)" by (rule image_mono [OF register_entries])
  also have "\<dots> \<subseteq> set (ids S)" using assms id_in_ids [OF assms(2)] by (simp add: grant_inv_def)
  finally have "sc_id ` entries ?S \<subseteq> set (ids S)" .
  moreover have "ids ?S = ids S" "S_cfg ?S = S_cfg S" "H_subs ?S = H_subs S" "S_subs ?S = S_subs S"
    by (simp_all add: register_def Let_def ids_def)
  ultimately show ?thesis using assms(1) sub_ok_cong [of ?S S] by (simp add: grant_inv_def)
qed

lemma fire_shot_grant:
  "grant_inv S \<Longrightarrow> sc_id (fst em) \<in> set (ids S) \<Longrightarrow> grant_inv (fire_shot em S) \<and> ids (fire_shot em S) = ids S"
  by (auto simp: fire_shot_def Let_def split_beta ids_def
      intro!: deliver_grant stamped_sender_ok [where kind = GrantPublish])

lemma fireDue_grant:
  assumes "grant_inv S" and "\<And>e. e \<in> entries S \<Longrightarrow> entry_ok e"
  shows "grant_inv (fireDue mint now S)"
proof -
  let ?A = "advance_all now S"
  have "sc_id ` entries ?A \<subseteq> sc_id ` entries S"
    using advance_entry_not_due assms(2) by (fastforce simp: entries_advance)
  then have "quiet S ?A" by (simp add: quiet_def advance_all_def ids_def list_all2_refl)
  then have g: "grant_inv ?A" using assms(1) quiet_grant by blast
  have owner: "sc_id e \<in> set (ids ?A)" if "e \<in> set (shots now S)" for e
  proof -
    from that have "e \<in> entries S" by (force simp: shots_def entries_def)
    then show ?thesis using assms(1) by (auto simp: grant_inv_def advance_all_def ids_def)
  qed
  have fire: "grant_inv (fold fire_shot ems T)"
    if "grant_inv T" "\<And>em. em \<in> set ems \<Longrightarrow> sc_id (fst em) \<in> set (ids T)" for ems T
    using that by (induction ems arbitrary: T) (auto simp: fire_shot_grant)
  show ?thesis
    unfolding fireDue_def Let_def
  proof (rule fire [OF g])
    fix em assume "em \<in> set (zip (shots now S) (map mint [0 ..< length (shots now S)]))"
    then have "fst em \<in> set (shots now S)" by (metis prod.collapse set_zip_leftD)
    then show "sc_id (fst em) \<in> set (ids ?A)" by (rule owner)
  qed
qed

section \<open>Connections and inboxes\<close>

definition conns_inv :: "Store \<Rightarrow> bool" where
  "conns_inv S \<longleftrightarrow> (\<forall>c < length (H_conns S). c \<in> set (S_conns S) \<or> c_closed (H_conns S ! c))"

definition inbox_inv :: "Store \<Rightarrow> bool" where
  "inbox_inv S \<longleftrightarrow> snd ` set (S_inboxes S) \<subseteq> {..<length (H_chans S)}"

definition schedules_inv :: "Store \<Rightarrow> bool" where
  "schedules_inv S \<longleftrightarrow> (\<forall>e \<in> entries S. entry_ok e)"

definition store_inv :: "Store \<Rightarrow> bool" where
  "store_inv S \<longleftrightarrow> grant_inv S \<and> conns_inv S \<and> inbox_inv S \<and> schedules_inv S"

text \<open>The parts of the store these read besides the grants.\<close>

definition rest :: "Store \<Rightarrow> _" where
  "rest S = (S_conns S, map c_closed (H_conns S), S_inboxes S, length (H_chans S), S_schedules S)"

lemma conns_inv_closed:
  "conns_inv S \<longleftrightarrow>
     (\<forall>c < length (map c_closed (H_conns S)). c \<in> set (S_conns S) \<or> map c_closed (H_conns S) ! c)"
  by (auto simp: conns_inv_def)

lemma rest_conns: "rest S' = rest S \<Longrightarrow> conns_inv S \<Longrightarrow> conns_inv S'"
  by (simp only: conns_inv_closed rest_def prod.inject)

lemma rest_inv:
  "rest S' = rest S \<Longrightarrow> grant_inv S' \<Longrightarrow> store_inv S \<Longrightarrow> store_inv S'"
  using rest_conns [of S' S] by (auto simp: store_inv_def rest_def inbox_inv_def schedules_inv_def entries_def)

lemma frame_rest: "frame S' = frame S \<Longrightarrow> rest S' = rest S"
proof -
  assume f: "frame S' = frame S"
  then have "map (snd \<circ> snd) (map (\<lambda>c. (c_id c, c_gen c, c_closed c)) (H_conns S')) =
      map (snd \<circ> snd) (map (\<lambda>c. (c_id c, c_gen c, c_closed c)) (H_conns S))" by (simp add: frame_def)
  then have "map c_closed (H_conns S') = map c_closed (H_conns S)" by (simp add: o_def)
  with f show "rest S' = rest S" by (simp add: frame_def rest_def)
qed

lemma frame_inv: "frame S' = frame S \<Longrightarrow> store_inv S \<Longrightarrow> store_inv S'"
  by (rule rest_inv [OF frame_rest]) (simp_all add: store_inv_def frame_grant [of S' S])

lemma rest_mod_sub [simp]: "rest (mod_sub a f S) = rest S"
  by (simp add: rest_def)

lemma subscribe_rest: "rest (fst (subscribe c pat h opts onRep chk S)) = rest S"
  by (auto simp: subscribe_def Let_def rest_def map_update_same split: option.split sum.split)

lemma deliver_rest: "rest (fst (deliver s m r S)) = rest S"
  by (simp add: rest_def)

lemma rest_mod_svc [simp]: "rest (mod_svc v f S) = rest S"
  by (simp add: rest_def)

lemma mount_rest: "rest (fst (mount_endpoints c v spec eps S)) = rest S"
proof (induction eps arbitrary: S)
  case (Cons ep eps)
  let ?o = "\<lparr>so_QueueGroup = endpoint_group spec ep, so_PendingLimit = DefaultPendingLimit\<rparr>"
  obtain S1 r where s: "subscribe c (ep_Subject ep) True ?o (Some v) False S = (S1, r)" by fastforce
  have "rest S1 = rest S"
    using subscribe_rest [of c "ep_Subject ep" True ?o "Some v" False S] s by simp
  then show ?case using s Cons.IH by (auto split: sum.split)
qed simp

lemma service_finish_rest [simp]: "rest (service_finish e v S) = rest S"
  by (rule service_finish_kept) (simp add: kept_def rest_def)

lemma serve_rest: "rest (fst (Serve now c spec S)) = rest S"
proof -
  have "rest S3 = rest S" if "mount_endpoints c v spec eps
      (S\<lparr>S_nextID := n, H_services := hs\<rparr>) = (S3, r)" for v eps n hs S3 r
    using mount_rest [of c v spec eps "S\<lparr>S_nextID := n, H_services := hs\<rparr>"] that by (simp add: rest_def)
  moreover have "rest (dropSubsLocked as T) = rest T" for as T by (simp add: rest_def dropSubsLocked_def)
  moreover have "rest (mod_conn c (\<lambda>k. k\<lparr>c_services := g k\<rparr>) (T\<lparr>S_services := x\<rparr>)) = rest T" for g T x
    by (simp add: rest_def map_update_same)
  ultimately show ?thesis by (simp add: Serve_def Let_def newID_def split: option.split prod.split)
qed

text \<open>Ending connections keeps that every connection out of the store is closed.\<close>

lemma lifecycle_conns:
  assumes "conns_inv S"
  shows "conns_inv (Restart S)" "conns_inv (Revoke pid S)" "conns_inv (Store_Close S)" "conns_inv (conn_Close c S)"
proof -
  show "conns_inv (Restart S)" "conns_inv (Revoke pid S)" "conns_inv (Store_Close S)"
    using assms unfolding Restart_def Revoke_def Store_Close_def takeEphemeralLocked_def Let_def
    by (auto simp: conns_inv_def finishAll_conns)
  show "conns_inv (conn_Close c S)"
    using assms unfolding conn_Close_def Let_def
    by (auto simp: conns_inv_def finishAll_conns heap_nth dropSubsLocked_def)
qed

lemma lifecycle_inbox:
  assumes "inbox_inv S"
  shows "inbox_inv (Restart S)" "inbox_inv (Revoke pid S)" "inbox_inv (Store_Close S)" "inbox_inv (conn_Close c S)"
  using assms unfolding Restart_def Revoke_def Store_Close_def conn_Close_def takeEphemeralLocked_def Let_def
  by (auto simp: inbox_inv_def dropSubsLocked_def)

lemma lifecycle_schedules:
  "S_schedules (Restart S) = S_schedules S" "S_schedules (Revoke pid S) = S_schedules S"
  "S_schedules (Store_Close S) = S_schedules S" "S_schedules (conn_Close c S) = S_schedules S"
  unfolding Restart_def Revoke_def Store_Close_def conn_Close_def takeEphemeralLocked_def Let_def
  by (auto simp: dropSubsLocked_def)

lemma lifecycle_inv:
  assumes "store_inv S"
  shows "store_inv (Restart S)" "store_inv (Revoke pid S)" "store_inv (Store_Close S)" "store_inv (conn_Close c S)"
  using assms quiet_grant [OF lifecycle_quiet(1)] quiet_grant [OF lifecycle_quiet(2)]
    quiet_grant [OF lifecycle_quiet(3)] quiet_grant [OF lifecycle_quiet(4)]
    entries_schedules [OF lifecycle_schedules(1)] entries_schedules [OF lifecycle_schedules(2)]
    entries_schedules [OF lifecycle_schedules(3)] entries_schedules [OF lifecycle_schedules(4)]
  by (simp_all add: store_inv_def schedules_inv_def lifecycle_conns lifecycle_inbox)

lemma connect_inv:
  assumes "store_inv S"
  shows "store_inv (fst (Connect i S))"
proof -
  let ?S = "fst (Connect i S)"
  have g: "ids ?S = ids S @ [i]" "S_cfg ?S = S_cfg S" by (simp_all add: Connect_def Let_def ids_def)
  have "H_subs ?S = H_subs S" "S_subs ?S = S_subs S" "S_schedules ?S = S_schedules S"
    "S_inboxes ?S = S_inboxes S" "H_chans ?S = H_chans S" by (simp_all add: Connect_def Let_def)
  then have "grant_inv ?S" "inbox_inv ?S" "schedules_inv ?S"
    using assms ids_grow(1,2) [OF g] entries_schedules [of ?S S]
    by (auto simp: store_inv_def grant_inv_def inbox_inv_def schedules_inv_def)
  moreover have "conns_inv ?S"
    using assms by (auto simp: store_inv_def conns_inv_def Connect_def Let_def nth_append less_Suc_eq)
  ultimately show ?thesis by (simp add: store_inv_def)
qed

lemma request_inv:
  assumes "store_inv S" and "c < length (H_conns S)"
  shows "store_inv (fst (request_begin minted ctx c subject data opts S))"
proof -
  let ?S = "fst (request_begin minted ctx c subject data opts S)"
  have cl: "map c_closed (H_conns ?S) = map c_closed (H_conns S)" "S_conns ?S = S_conns S"
    "S_schedules ?S = S_schedules S"
    by (simp_all add: request_begin_def Let_def split_beta map_update_same split: option.split)
  have ib: "(snd ` set (S_inboxes ?S) \<subseteq> insert (length (H_chans S)) (snd ` set (S_inboxes S)) \<and>
      length (H_chans ?S) = Suc (length (H_chans S))) \<or> ?S = S"
    by (simp add: request_begin_def Let_def split_beta vals_update vals_delete_update split: option.split)
  have old: "conns_inv S" "inbox_inv S" "schedules_inv S" using assms(1) by (simp_all add: store_inv_def)
  have "conns_inv ?S" using old(1) unfolding conns_inv_closed cl .
  moreover have "inbox_inv ?S"
    using ib
  proof
    assume i: "snd ` set (S_inboxes ?S) \<subseteq> insert (length (H_chans S)) (snd ` set (S_inboxes S)) \<and>
      length (H_chans ?S) = Suc (length (H_chans S))"
    have "insert (length (H_chans S)) (snd ` set (S_inboxes S)) \<subseteq> {..<Suc (length (H_chans S))}"
      using old(2) by (auto simp: inbox_inv_def)
    then show "inbox_inv ?S"
      unfolding inbox_inv_def conjunct2 [OF i] by (rule order_trans [OF conjunct1 [OF i]])
  qed (use old(2) in simp)
  moreover have "schedules_inv ?S"
    using old(3) entries_schedules [OF cl(3)] unfolding schedules_inv_def by simp
  ultimately show ?thesis using request_grant [OF _ assms(2)] assms(1) unfolding store_inv_def by blast
qed

lemma register_inv:
  assumes "store_inv S" and "c < length (H_conns S)" and "sc_id e = id_of S c" and "entry_ok e"
  shows "store_inv (fst (register c e S))"
proof -
  let ?S = "fst (register c e S)"
  have "entries ?S \<subseteq> insert e (entries S)"
    using register_entries [of c e S] by simp
  then have "schedules_inv ?S" using assms by (auto simp: store_inv_def schedules_inv_def)
  moreover have "conns_inv ?S" "inbox_inv ?S"
    using assms by (auto simp: store_inv_def conns_inv_def inbox_inv_def register_def Let_def)
  ultimately show ?thesis using assms register_grant by (simp add: store_inv_def)
qed

lemma inv_grant: "store_inv S \<Longrightarrow> grant_inv S"
  by (simp add: store_inv_def)

lemma quiet_inv: "quiet S S' \<Longrightarrow> rest S' = rest S \<Longrightarrow> store_inv S \<Longrightarrow> store_inv S'"
  by (rule rest_inv) (auto simp: store_inv_def intro: quiet_grant)

lemma schedules_only_inv:
  assumes "store_inv S" and "S_conns S' = S_conns S" "H_conns S' = H_conns S" "S_inboxes S' = S_inboxes S"
    "H_chans S' = H_chans S" and "grant_inv S'" and "schedules_inv S'"
  shows "store_inv S'"
  using assms by (simp add: store_inv_def conns_inv_def inbox_inv_def)

lemma request_end_inv:
  assumes "request_end ev c subject opts inbox S = Some (S', r)" and "store_inv S"
  shows "store_inv S'"
proof -
  have del: "S_inboxes S' = AList.delete (fst inbox) (S_inboxes S)"
    and same: "length (H_chans S') = length (H_chans S)" "H_conns S' = H_conns S" "S_conns S' = S_conns S"
    "H_subs S' = H_subs S" "S_subs S' = S_subs S" "S_cfg S' = S_cfg S" "S_schedules S' = S_schedules S"
    using assms(1)
    by (auto simp: request_end_def Let_def split_beta split: request_event.splits option.splits)
  have "ids S' = ids S" using same(2) by (simp add: ids_def)
  then have "quiet S S'"
    using same by (simp add: quiet_def list_all2_refl entries_schedules [OF same(7)])
  moreover have "inbox_inv S'"
    using vals_delete [of "fst inbox" "S_inboxes S"] del same(1) assms(2) unfolding store_inv_def inbox_inv_def
    by (metis subset_trans)
  ultimately show ?thesis
    using assms(2) quiet_grant same entries_schedules [OF same(7)]
    by (simp add: store_inv_def conns_inv_def schedules_inv_def)
qed

lemma respond_inv: "store_inv S \<Longrightarrow> store_inv (fst (Respond m h data S))"
proof -
  assume inv: "store_inv S"
  have "frame (onReply v h S) = frame S" for v by (simp add: onReply_def split: option.split)
  then have on: "store_inv (onReply v h S)" for v using inv frame_inv by blast
  have "store_inv (fst (respondTo c to h data T))" if "store_inv T" for c to T
  proof -
    let ?T = "fst (respondTo c to h data T)"
    have "rest ?T = rest T" "quiet T ?T"
      by (simp_all add: respondTo_def Let_def rest_def quiet_def ids_def entries_def list_all2_refl split: option.split)
    with that show ?thesis by (blast intro: quiet_inv)
  qed
  with on inv show "store_inv (fst (Respond m h data S))"
    by (simp add: Respond_def split: option.split prod.split)
qed

lemma shrinks_local:
  "shrinks s (wake_up (drain_begin s))" "shrinks s (run_idle s)"
  "run_take s = Some (m, t) \<Longrightarrow> shrinks s t"
  by (auto simp: shrinks_def wake_up_def drain_begin_def run_idle_def run_take_def split: list.splits if_splits)

lemma handler_call_inv:
  assumes "handler_call a S = Some (S', m)" and "store_inv S"
  shows "store_inv S'"
proof -
  obtain t where t: "run_take (H_subs S ! a) = Some (m, t)"
    and S': "frame S' = frame (mod_sub a (\<lambda>_. t) S)"
    using assms(1) by (fastforce simp: handler_call_def Let_def split: option.splits)
  have "quiet S (mod_sub a (\<lambda>_. t) S)"
    using shrinks_local(3) [OF t]
    by (auto simp: quiet_def ids_def entries_def list_all2_conv_all_nth heap_nth)
  then have "store_inv (mod_sub a (\<lambda>_. t) S)" by (rule quiet_inv) (simp_all add: assms(2))
  then show ?thesis by (rule frame_inv [OF S'])
qed

lemma stop_service_inv: "store_inv S \<Longrightarrow> store_inv (service_Stop v S)"
proof -
  let ?s = "H_services S ! v"
  let ?T = "mod_conn (v_conn ?s) (\<lambda>c. c\<lparr>c_services := filter (\<lambda>x. x \<noteq> v) (c_services c)\<rparr>)
    (dropSubsLocked (v_subs ?s) (S\<lparr>S_services := AList.delete (si_ID (v_info ?s)) (S_services S)\<rparr>))"
  assume "store_inv S"
  moreover have "quiet S ?T" "rest ?T = rest S"
    by (auto simp: quiet_def dropSubsLocked_def ids_def entries_def list_all2_refl map_update_same rest_def)
  ultimately have "store_inv ?T" by (blast intro: quiet_inv)
  then show "store_inv (service_Stop v S)"
    unfolding service_Stop_def Let_def by (rule quiet_inv [OF quiet_service_finish service_finish_rest])
qed

lemma bus_step_inv: "bus_step S S' \<Longrightarrow> store_inv S \<Longrightarrow> store_inv S'"
proof (induction rule: bus_step.induct)
  case (publish c S minted ctx subject data opts)
  then have "grant_inv (fst (Publish minted ctx c subject data opts S))" by (simp add: store_inv_def publish_grant)
  moreover have "rest (fst (Publish minted ctx c subject data opts S)) = rest S"
    by (simp add: Publish_def Let_def deliver_rest split: option.split)
  ultimately show ?case using publish by (blast intro: rest_inv)
next
  case (subscribe c S pat h sopts)
  then have "grant_inv (fst (Subscribe c pat h sopts S))"
    unfolding Subscribe_def store_inv_def by (intro subscribe_grant) simp_all
  then show ?case using subscribe unfolding Subscribe_def by (blast intro: rest_inv subscribe_rest)
next
  case (serve c S now spec)
  then show ?case by (intro rest_inv [OF serve_rest serve_grant] inv_grant)
next
  case (handled S a elapsed)
  then show ?case by (auto simp: handler_return_def split: option.split intro: frame_inv)
next
  case (drop_sub S a)
  have "quiet S (dropSub a S)" "rest (dropSub a S) = rest S"
    by (auto simp: dropSub_def quiet_def dropSubsLocked_def ids_def entries_def list_all2_refl map_update_same rest_def)
  then show ?case using drop_sub by (rule quiet_inv)
qed (blast intro: connect_inv lifecycle_inv request_inv request_end_inv respond_inv handler_call_inv stop_service_inv
    quiet_inv quiet_mod_sub shrinks_finish shrinks_local rest_mod_sub)+

lemma cancel_entries: "entries (fst (Schedule_Cancel c name S)) \<subseteq> entries S"
proof
  let ?p = "PluginID (id_of S c)"
  fix x assume "x \<in> entries (fst (Schedule_Cancel c name S))"
  then obtain m where m: "m \<in> snd ` set (S_schedules (fst (Schedule_Cancel c name S)))" "x \<in> snd ` set m"
    unfolding entries_vals by blast
  have "m \<in> snd ` set (S_schedules S) \<or> (\<exists>b. (?p, b) \<in> set (S_schedules S) \<and> m = AList.delete name b)"
  proof (cases "S_schedules (fst (Schedule_Cancel c name S)) = S_schedules S")
    case False
    then obtain b where b: "map_of (S_schedules S) ?p = Some b"
      "S_schedules (fst (Schedule_Cancel c name S)) = AList.delete ?p (S_schedules S) \<or>
       S_schedules (fst (Schedule_Cancel c name S)) = AList.update ?p (AList.delete name b) (S_schedules S)"
      by (cases "map_of (S_schedules S) ?p")
        (auto simp: Schedule_Cancel_def Let_def split: option.splits if_splits)
    from b(2) have "m \<in> snd ` set (S_schedules S) \<or> m = AList.delete name b"
    proof
      assume "S_schedules (fst (Schedule_Cancel c name S)) = AList.delete ?p (S_schedules S)"
      with m(1) show ?thesis by (simp only: subsetD [OF vals_delete] simp_thms)
    next
      assume "S_schedules (fst (Schedule_Cancel c name S)) = AList.update ?p (AList.delete name b) (S_schedules S)"
      with m(1) have "m \<in> insert (AList.delete name b) (snd ` set (S_schedules S))"
        by (simp only: subsetD [OF vals_update])
      then show ?thesis by (simp only: insert_iff disj_commute)
    qed
    with map_of_SomeD [OF b(1)] show ?thesis by blast
  qed (use m(1) in simp)
  then obtain b where "b \<in> snd ` set (S_schedules S)" "m = b \<or> m = AList.delete name b"
    using image_eqI [of _ snd] by fastforce
  then show "x \<in> entries S"
    unfolding entries_vals using m(2) subsetD [OF vals_delete, of x name b] by blast
qed

lemma fire_shot_frame [simp]:
  "S_conns (fire_shot em S) = S_conns S" "H_conns (fire_shot em S) = H_conns S"
  "S_inboxes (fire_shot em S) = S_inboxes S" "H_chans (fire_shot em S) = H_chans S"
  by (simp_all add: fire_shot_def Let_def split_beta)

lemma fireDue_frame:
  "S_conns (fireDue mint now S) = S_conns S" "H_conns (fireDue mint now S) = H_conns S"
  "S_inboxes (fireDue mint now S) = S_inboxes S" "H_chans (fireDue mint now S) = H_chans S"
  unfolding fireDue_def Let_def by (subst fold_frame; simp add: advance_all_def)+

lemma schedule_step_inv: "schedule_step S S' \<Longrightarrow> store_inv S \<Longrightarrow> store_inv S'"
proof (induction rule: schedule_step.induct)
  case (at c S name t subject data opts)
  then show ?case
    by (auto simp: At_def split: option.split intro!: register_inv simp: new_entry_def entry_ok_def)
next
  case (every c S now name d subject data opts)
  then show ?case
    by (auto simp: Every_def split: option.split intro!: register_inv simp: new_entry_def entry_ok_def)
next
  case (cron c S qt now name expr subject data opts)
  then show ?case
    by (auto simp: Schedule_Cron_def Let_def split: option.split sum.split intro!: register_inv
        simp: new_entry_def entry_ok_def)
next
  case (cancel S c name)
  let ?S = "fst (Schedule_Cancel c name S)"
  have same: "S_cfg ?S = S_cfg S" "ids ?S = ids S" "H_subs ?S = H_subs S" "S_subs ?S = S_subs S"
    "S_conns ?S = S_conns S" "H_conns ?S = H_conns S" "S_inboxes ?S = S_inboxes S" "H_chans ?S = H_chans S"
    by (simp_all add: Schedule_Cancel_def Let_def ids_def split: option.split)
  then have "quiet S ?S"
    using image_mono [OF cancel_entries] by (simp add: quiet_def list_all2_refl)
  then show ?case
    using cancel cancel_entries [of c name S] same
    by (intro schedules_only_inv [OF cancel] quiet_grant [OF _ inv_grant [OF cancel]])
      (auto simp: store_inv_def schedules_inv_def)
next
  case (tick S mint now)
  let ?S = "fireDue mint now S"
  have ok: "entry_ok e" if "e \<in> entries S" for e using tick that by (simp add: store_inv_def schedules_inv_def)
  have "schedules_inv ?S"
    unfolding schedules_inv_def entries_schedules [OF fireDue_schedules] entries_advance
    using ok advance_entry_not_due by blast
  moreover have "grant_inv ?S" using ok by (rule fireDue_grant [OF inv_grant [OF tick]])
  ultimately show ?case by (intro schedules_only_inv [OF tick] fireDue_frame)
qed

lemma store_step_inv: "store_step S S' \<Longrightarrow> store_inv S \<Longrightarrow> store_inv S'"
  by (induction rule: store_step.induct) (blast intro: bus_step_inv schedule_step_inv frame_inv asset_step_frame)+

lemma store_init_inv: "store_init S \<Longrightarrow> store_inv S"
  by (auto simp: store_init_def NewStore_def store_inv_def grant_inv_def conns_inv_def inbox_inv_def
      schedules_inv_def entries_def)

interpretation bus_runs: invariant_system store_init store_step store_inv
  by unfold_locales (auto intro: store_init_inv store_step_inv)

lemma reachable_store_inv: "reachable S \<Longrightarrow> store_inv S"
  unfolding reachable_def using bus_runs.reachable_inv by blast

section \<open>Replies\<close>

lemma canonical_respond [simp]: "canonical (respond_headers i h)"
  by (simp add: respond_headers_def Let_def)

lemma respond_lookup:
  "map_of (respond_headers i h) HeaderCaller = Some (PluginID i)"
  "map_of (respond_headers i h) HeaderGeneration = Some (Generation i)"
  "map_of (respond_headers i h) HeaderSubject =
     (if Lease_IsZero (Id_Lease i) then None else Some (lease_token (Id_Lease i)))"
  by (simp_all add: respond_headers_def Let_def amap_simps)

lemma CallerOf_reply: "CallerOf (Some (NewMsg s r (respond_headers i h) d re)) = identity_caller i"
  by (simp add: CallerOf_def NewMsg_def identity_caller_def Headers_Get_canonical respond_lookup Lease_IsZero_def)

lemma fault_header_reply:
  assumes "c \<noteq> ''''"
  shows "Headers_Get (m_Headers (NewMsg s r (respond_headers i [(HeaderFault, c)]) d re)) HeaderFault = c"
proof -
  have "Headers_Get [(HeaderFault, c)] HeaderFault = c" by (simp add: Headers_Get_def)
  then have "map_of (respond_headers i [(HeaderFault, c)]) HeaderFault = Some c"
    using assms by (simp add: respond_headers_def Let_def amap_simps)
  then show ?thesis by (simp add: NewMsg_def Headers_Get_canonical)
qed

text \<open>What a successful answer leaves behind: the reply, in the channel of the request's inbox.\<close>

lemma answered:
  assumes "reachable S" and "m_respond m = Some (to, a)" and "Respond (Some m) h data S = (S1, Inr ())"
  shows "\<exists>ch. map_of (S_inboxes S1) to = Some ch \<and>
    H_chans S1 ! ch = Some (NewMsg to '''' (respond_headers (id_of S (s_conn (H_subs S ! a))) h) data None)"
proof -
  let ?c = "s_conn (H_subs S ! a)"
  let ?T = "onReply (s_onReply (H_subs S ! a)) h S"
  let ?r = "NewMsg to '''' (respond_headers (id_of S ?c) h) data None"
  have T: "S_inboxes ?T = S_inboxes S" "H_chans ?T = H_chans S" "id_of ?T ?c = id_of S ?c"
    by (simp_all add: onReply_def split: option.split)
  obtain ch where ch: "map_of (S_inboxes S) to = Some ch"
    and S1: "S1 = ?T\<lparr>H_chans := (H_chans ?T)[ch := Some ?r]\<rparr>"
    using assms(2,3) T by (auto simp: Respond_def respondTo_def Let_def split: option.splits)
  have "ch \<in> snd ` set (S_inboxes S)" using map_of_SomeD [OF ch] by force
  then have "ch < length (H_chans S)"
    using reachable_store_inv [OF assms(1)] by (auto simp: store_inv_def inbox_inv_def)
  then show ?thesis using S1 T ch by simp
qed

end
