(* ===== verification/Go_Text.thy ===== *)
theory Go_Text
  imports Cron Msg "HOL-Library.List_Lexorder" "HOL-Library.Char_ord"
begin

text \<open>
  What the plugin packages use of Go's \<^verbatim>\<open>strings\<close>, \<^verbatim>\<open>fmt\<close>, \<^verbatim>\<open>strconv\<close>, \<^verbatim>\<open>net/url\<close>, \<^verbatim>\<open>unicode/utf8\<close> and
  \<^verbatim>\<open>unicode\<close>. A string is its UTF-8 bytes. \<open>TrimSpace\<close> knows every white space of Unicode by its
  encoding; \<open>ToLower\<close> folds ASCII letters. \<^verbatim>\<open>strconv.Quote\<close>, behind the verb \<^verbatim>\<open>%q\<close>, is the argument \<open>qt\<close>.
\<close>

section \<open>Searching and trimming\<close>

definition ContainsAny :: "string \<Rightarrow> string \<Rightarrow> bool" where
  "ContainsAny s chars = list_ex (\<lambda>c. c \<in> set chars) s"

fun Contains :: "string \<Rightarrow> string \<Rightarrow> bool" where
  "Contains [] t = (t = [])"
| "Contains (c # s) t = (prefix t (c # s) \<or> Contains s t)"

definition HasPrefix :: "string \<Rightarrow> string \<Rightarrow> bool" where
  "HasPrefix s p = prefix p s"

definition HasSuffix :: "string \<Rightarrow> string \<Rightarrow> bool" where
  "HasSuffix s p = suffix p s"

definition TrimPrefix :: "string \<Rightarrow> string \<Rightarrow> string" where
  "TrimPrefix s p = (if prefix p s then drop (length p) s else s)"

text \<open>\<^verbatim>\<open>strings.Trim\<close> with a set of ASCII characters.\<close>

definition Trim :: "string \<Rightarrow> string \<Rightarrow> string" where
  "Trim s cutset = rev (dropWhile (\<lambda>c. c \<in> set cutset) (rev (dropWhile (\<lambda>c. c \<in> set cutset) s)))"

text \<open>The encodings of the code points of \<^verbatim>\<open>unicode.White_Space\<close>.\<close>

definition space_runes :: "string list" where
  "space_runes =
     [[CHR 0x09], [CHR 0x0A], [CHR 0x0B], [CHR 0x0C], [CHR 0x0D], [CHR 0x20], [CHR 0xC2, CHR 0x85],
      [CHR 0xC2, CHR 0xA0], [CHR 0xE1, CHR 0x9A, CHR 0x80], [CHR 0xE2, CHR 0x80, CHR 0x80],
      [CHR 0xE2, CHR 0x80, CHR 0x81], [CHR 0xE2, CHR 0x80, CHR 0x82], [CHR 0xE2, CHR 0x80, CHR 0x83],
      [CHR 0xE2, CHR 0x80, CHR 0x84], [CHR 0xE2, CHR 0x80, CHR 0x85], [CHR 0xE2, CHR 0x80, CHR 0x86],
      [CHR 0xE2, CHR 0x80, CHR 0x87], [CHR 0xE2, CHR 0x80, CHR 0x88], [CHR 0xE2, CHR 0x80, CHR 0x89],
      [CHR 0xE2, CHR 0x80, CHR 0x8A], [CHR 0xE2, CHR 0x80, CHR 0xA8], [CHR 0xE2, CHR 0x80, CHR 0xA9],
      [CHR 0xE2, CHR 0x80, CHR 0xAF], [CHR 0xE2, CHR 0x81, CHR 0x9F], [CHR 0xE3, CHR 0x80, CHR 0x80]]"

text \<open>The length of the first of the sequences \<open>qs\<close> that \<open>s\<close> begins with, or 0.\<close>

definition leading :: "string list \<Rightarrow> string \<Rightarrow> nat" where
  "leading qs s = (case find (\<lambda>q. prefix q s) qs of Some q \<Rightarrow> length q | None \<Rightarrow> 0)"

lemma leading_le: "leading qs s \<le> length s"
  by (auto simp: leading_def find_Some_iff prefix_length_le split: option.split)

function drop_leading :: "string list \<Rightarrow> string \<Rightarrow> string" where
  "drop_leading qs s = (if leading qs s = 0 then s else drop_leading qs (drop (leading qs s) s))"
  by auto

termination
proof (relation "measure (\<lambda>(qs, s). length s)")
  fix qs s
  assume "leading qs s \<noteq> 0"
  then show "((qs, drop (leading qs s) s), qs, s) \<in> measure (\<lambda>(qs, s). length s)"
    using leading_le [of qs s] by auto
qed simp

declare drop_leading.simps [simp del]

definition TrimSpace :: "string \<Rightarrow> string" where
  "TrimSpace s = rev (drop_leading (map rev space_runes) (rev (drop_leading space_runes s)))"

section \<open>Formatting\<close>

datatype fmt_arg = FStr string | FInt int

definition fmt_value :: "fmt_arg \<Rightarrow> string" where
  "fmt_value a = (case a of FStr s \<Rightarrow> s | FInt n \<Rightarrow> Itoa n)"

definition fmt_type :: "fmt_arg \<Rightarrow> string" where
  "fmt_type a = (case a of FStr _ \<Rightarrow> ''string'' | FInt _ \<Rightarrow> ''int'')"

text \<open>One verb with its argument; a verb that does not fit renders as Go renders it.\<close>

definition fmt_verb :: "(string \<Rightarrow> string) \<Rightarrow> char \<Rightarrow> fmt_arg \<Rightarrow> string" where
  "fmt_verb qt v a =
     (let bad = ''%!'' @ [v] @ ''('' @ fmt_type a @ ''='' @ fmt_value a @ '')'' in
      case a of
        FStr s \<Rightarrow> if v = CHR ''s'' then s else if v = CHR ''q'' then qt s else bad
      | FInt n \<Rightarrow> if v = CHR ''d'' then Itoa n else bad)"

text \<open>\<^verbatim>\<open>fmt.Sprintf\<close> for templates with the verbs \<^verbatim>\<open>%s\<close>, \<^verbatim>\<open>%q\<close> and \<^verbatim>\<open>%d\<close>.\<close>

fun Sprintf :: "(string \<Rightarrow> string) \<Rightarrow> string \<Rightarrow> fmt_arg list \<Rightarrow> string" where
  "Sprintf qt [] [] = []"
| "Sprintf qt [] (a # as) =
     ''%!(EXTRA '' @ join_str '', '' (map (\<lambda>a. fmt_type a @ ''='' @ fmt_value a) (a # as)) @ '')''"
| "Sprintf qt (c # v # cs) args =
     (if c = CHR ''%'' then
        (case args of [] \<Rightarrow> ''%!'' @ [v] @ ''(MISSING)'' @ Sprintf qt cs []
         | a # as \<Rightarrow> fmt_verb qt v a @ Sprintf qt cs as)
      else c # Sprintf qt (v # cs) args)"
| "Sprintf qt [c] args = (if c = CHR ''%'' then ''%!(NOVERB)'' else [c]) @ Sprintf qt [] args"

section \<open>Paths\<close>

definition hex_val :: "char \<Rightarrow> nat option" where
  "hex_val c =
     (if is_digit c then Some (code c - 48)
      else if 97 \<le> code c \<and> code c \<le> 102 then Some (code c - 87)
      else if 65 \<le> code c \<and> code c \<le> 70 then Some (code c - 55) else None)"

text \<open>\<^verbatim>\<open>url.PathUnescape\<close>: two hexadecimal digits after every per cent sign.\<close>

fun PathUnescape :: "string \<Rightarrow> string option" where
  "PathUnescape [] = Some []"
| "PathUnescape (c # cs) =
     (if c = CHR ''%'' then
        (case cs of
           a # b # rest \<Rightarrow>
             (case (hex_val a, hex_val b, PathUnescape rest) of
                (Some x, Some y, Some r) \<Rightarrow> Some (char_of (16 * x + y) # r)
              | _ \<Rightarrow> None)
         | _ \<Rightarrow> None)
      else map_option ((#) c) (PathUnescape cs))"

definition continuation :: "nat \<Rightarrow> nat \<Rightarrow> char \<Rightarrow> bool" where
  "continuation lo hi c = (lo \<le> code c \<and> code c \<le> hi)"

text \<open>\<^verbatim>\<open>utf8.ValidString\<close>: shortest encodings of the code points up to U+10FFFF less the surrogates.\<close>

fun ValidString :: "string \<Rightarrow> bool" where
  "ValidString [] = True"
| "ValidString (a # s) =
     (if code a < 128 then ValidString s
      else if 194 \<le> code a \<and> code a \<le> 223 then
        (case s of b # r \<Rightarrow> continuation 128 191 b \<and> ValidString r | _ \<Rightarrow> False)
      else if 224 \<le> code a \<and> code a \<le> 239 then
        (case s of
           b # c # r \<Rightarrow>
             continuation (if code a = 224 then 160 else 128) (if code a = 237 then 159 else 191) b \<and>
             continuation 128 191 c \<and> ValidString r
         | _ \<Rightarrow> False)
      else if 240 \<le> code a \<and> code a \<le> 244 then
        (case s of
           b # c # d # r \<Rightarrow>
             continuation (if code a = 240 then 144 else 128) (if code a = 244 then 143 else 191) b \<and>
             continuation 128 191 c \<and> continuation 128 191 d \<and> ValidString r
         | _ \<Rightarrow> False)
      else False)"

text \<open>Whether a valid string contains a control character (\<^verbatim>\<open>unicode.IsControl\<close>): U+0000 to U+001F and
  U+007F to U+009F.\<close>

fun has_control :: "string \<Rightarrow> bool" where
  "has_control [] = False"
| "has_control (a # s) =
     (code a < 32 \<or> code a = 127 \<or>
      (code a = 194 \<and> (case s of b # _ \<Rightarrow> 128 \<le> code b \<and> code b \<le> 159 | [] \<Rightarrow> False)) \<or> has_control s)"

section \<open>Facts\<close>

text \<open>Character classes by the bits of the byte, for evaluation.\<close>

lemma is_digit_code [code]:
  "is_digit (Char b0 b1 b2 b3 b4 b5 b6 b7) = (\<not> b7 \<and> \<not> b6 \<and> b5 \<and> b4 \<and> (\<not> b3 \<or> \<not> b2 \<and> \<not> b1))"
  by (cases b0; cases b1; cases b2; cases b3; cases b4; cases b5; cases b6; cases b7; simp add: is_digit_def)

lemma is_lower_code [code]:
  "is_lower (Char b0 b1 b2 b3 b4 b5 b6 b7) =
     (\<not> b7 \<and> b6 \<and> b5 \<and> (b0 \<or> b1 \<or> b2 \<or> b3 \<or> b4) \<and> \<not> (b4 \<and> b3 \<and> (b2 \<or> b1 \<and> b0)))"
  by (cases b0; cases b1; cases b2; cases b3; cases b4; cases b5; cases b6; cases b7; simp add: is_lower_def)

lemma is_upper_code [code]:
  "is_upper (Char b0 b1 b2 b3 b4 b5 b6 b7) =
     (\<not> b7 \<and> b6 \<and> \<not> b5 \<and> (b0 \<or> b1 \<or> b2 \<or> b3 \<or> b4) \<and> \<not> (b4 \<and> b3 \<and> (b2 \<or> b1 \<and> b0)))"
  by (cases b0; cases b1; cases b2; cases b3; cases b4; cases b5; cases b6; cases b7; simp add: is_upper_def)

lemma Contains_char: "Contains s [c] \<longleftrightarrow> c \<in> set s"
  by (induction s) (auto simp: prefix_def)

lemma TrimSpace_Nil [simp]: "TrimSpace [] = []"
  by (simp add: TrimSpace_def leading_def space_runes_def drop_leading.simps)

lemma drop_leading_done: "leading qs (drop_leading qs s) = 0"
  by (induction qs s rule: drop_leading.induct) (metis drop_leading.simps)

text \<open>Plain ASCII passes the checks of a decoded path segment unchanged.\<close>

definition plain_ascii :: "string \<Rightarrow> bool" where
  "plain_ascii s = list_all (\<lambda>c. 32 < code c \<and> code c < 127 \<and> c \<noteq> CHR ''%'') s"

lemma plain_ascii_Cons [simp]:
  "plain_ascii (c # s) \<longleftrightarrow> 32 < code c \<and> code c < 127 \<and> c \<noteq> CHR ''%'' \<and> plain_ascii s"
  by (simp add: plain_ascii_def)

lemma plain_unescape: "plain_ascii s \<Longrightarrow> PathUnescape s = Some s"
  by (induction s) auto

lemma plain_valid: "plain_ascii s \<Longrightarrow> ValidString s"
  by (induction s) auto

lemma plain_no_control: "plain_ascii s \<Longrightarrow> \<not> has_control s"
  by (induction s) auto

lemma leading_0:
  assumes "[] \<notin> set qs"
  shows "leading qs s = 0 \<longleftrightarrow> (\<forall>q \<in> set qs. \<not> prefix q s)"
proof -
  have "length q \<noteq> 0" if "find (\<lambda>q. prefix q s) qs = Some q" for q
    using that assms by (metis find_Some_iff length_0_conv nth_mem)
  then show ?thesis by (auto simp: leading_def find_None_iff split: option.split) (metis find_None_iff option.distinct(1))
qed

lemma drop_leading_suffix: "suffix (drop_leading qs s) s"
proof (induction qs s rule: drop_leading.induct)
  case (1 qs s)
  then show ?case by (subst drop_leading.simps) (auto intro: suffix_order.trans suffix_drop)
qed

lemma TrimSpace_idem [simp]: "TrimSpace (TrimSpace s) = TrimSpace s"
proof -
  have ne: "[] \<notin> set space_runes" "[] \<notin> set (map rev space_runes)" by (auto simp: space_runes_def)
  let ?t = "drop_leading space_runes s"
  let ?u = "drop_leading (map rev space_runes) (rev ?t)"
  have "prefix (rev ?u) ?t" using drop_leading_suffix [of "map rev space_runes" "rev ?t"] by (simp add: suffix_to_prefix)
  moreover have "leading space_runes ?t = 0" by (rule drop_leading_done)
  ultimately have "leading space_runes (rev ?u) = 0"
    unfolding leading_0 [OF ne(1)] using prefix_order.trans by blast
  then have "drop_leading space_runes (rev ?u) = rev ?u" by (subst drop_leading.simps) simp
  moreover have "drop_leading (map rev space_runes) ?u = ?u"
    by (subst drop_leading.simps) (simp add: drop_leading_done)
  ultimately show ?thesis by (simp add: TrimSpace_def)
qed

end
