(* ===== verification/Diag.thy ===== *)
theory Diag
  imports Go_Text "HOL-Library.Product_Lexorder"
begin

text \<open>
  Diagnostics of the manifest validator, \<^verbatim>\<open>src/v2/plugin/diagnostic.go\<close>, with the table of severities and
  message templates that the package embeds, \<^verbatim>\<open>src/v2/plugin/contract/v2/diagnostics.json\<close>. A rule
  appends to the \<^verbatim>\<open>collector\<close>; here it returns the list of what it appends.
\<close>

type_synonym Severity = string

definition SeverityError :: Severity where "SeverityError = ''error''"
definition SeverityWarning :: Severity where "SeverityWarning = ''warning''"

record Diagnostic =
  d_Code :: string
  d_Severity :: Severity
  d_Path :: string
  d_Message :: string

definition Diagnostic_Error :: "Diagnostic \<Rightarrow> string" where
  "Diagnostic_Error d = d_Code d @ '': '' @ d_Message d"

definition diagnosticTable :: "(string, Severity \<times> string) amap" where
  "diagnosticTable =
     [(''BDP1001'', SeverityError,
        ''plugin.json is not valid JSON: %s''),
      (''BDP1002'', SeverityError,
        ''plugin.json does not decode into a v2 manifest: %s''),
      (''BDP1003'', SeverityError,
        ''missing required property %q''),
      (''BDP1004'', SeverityError,
        ''wrong type: got %s, want %s''),
      (''BDP1005'', SeverityError,
        ''schema: %s''),
      (''BDP1006'', SeverityWarning,
        ''unknown property %q is ignored by hosts''),
      (''BDP1007'', SeverityError,
        ''manifest contract %d is below the %d this gate accepts; migrate it with `bytedesk plugin migrate`''),
      (''BDP2001'', SeverityError,
        ''plugin id required''),
      (''BDP2002'', SeverityError,
        ''plugin id must be a single path segment''),
      (''BDP2003'', SeverityError,
        ''plugin version required''),
      (''BDP2004'', SeverityError,
        ''plugin id %q implicitly Serves %q, which reaches the permanently ineligible family %q; choose a different id''),
      (''BDP2010'', SeverityError,
        ''pricing.model must be free, trial, or paid''),
      (''BDP2011'', SeverityError,
        ''pricing.sku required for %s plugins''),
      (''BDP2012'', SeverityError,
        ''pricing.trialDays must be >= 0''),
      (''BDP2020'', SeverityError,
        ''role must be system or extension''),
      (''BDP2021'', SeverityError,
        ''targets: unknown %q (gateway|vault)''),
      (''BDP2030'', SeverityError,
        ''requires.id required''),
      (''BDP2031'', SeverityError,
        ''requires.id must be a single path segment''),
      (''BDP2032'', SeverityError,
        ''requires.id cannot be self''),
      (''BDP2040'', SeverityError,
        ''spawn binary must be a relative basename''),
      (''BDP2041'', SeverityError,
        ''socket must be a relative basename''),
      (''BDP2050'', SeverityError,
        ''%s''),
      (''BDP2051'', SeverityError,
        ''%s: extension point required''),
      (''BDP2052'', SeverityError,
        ''%s: unknown extension point %q '' @ [CHR 0xE2, CHR 0x80, CHR 0x94] @ '' did you mean %q?''),
      (''BDP2053'', SeverityError,
        ''%s: %s''),
      (''BDP2054'', SeverityError,
        ''%s: %q is not a host extension point; the host's points are %s''),
      (''BDP2060'', SeverityError,
        ''document paths require explicit protocol negotiation for %s''),
      (''BDP2061'', SeverityError,
        ''%s''),
      (''BDP2062'', SeverityError,
        ''document paths require a unique panel id and document URL''),
      (''BDP2063'', SeverityError,
        ''invalid document path %q''),
      (''BDP2064'', SeverityError,
        ''overlapping document paths %q and %q''),
      (''BDP2070'', SeverityError,
        ''publicRoutes entry is empty''),
      (''BDP2071'', SeverityError,
        ''duplicate publicRoutes entry %q''),
      (''BDP2072'', SeverityError,
        ''publicRoutes %q is not one of this manifest's routes''),
      (''BDP2080'', SeverityError,
        ''config.sections: id %q is empty or repeated''),
      (''BDP2081'', SeverityError,
        ''config.sections %s: field key %q repeated''),
      (''BDP2082'', SeverityError,
        ''config.sections %s: config field key required''),
      (''BDP2083'', SeverityError,
        ''config.sections %s: config field %s: unknown kind %q''),
      (''BDP2084'', SeverityError,
        ''config.sections %s: config field %s: provider needs an exact extension point''),
      (''BDP2085'', SeverityError,
        ''config.sections %s: config field %s: invalid provider point %q''),
      (''BDP2086'', SeverityError,
        ''config.sections %s: %s''),
      (''BDP2087'', SeverityError,
        ''config.sections %s: config field %s: point/requires apply only to provider''),
      (''BDP2088'', SeverityError,
        ''config.sections %s: config field %s: min/max apply only to int''),
      (''BDP2089'', SeverityError,
        ''config.sections %s: config field %s: min %d exceeds max %d''),
      (''BDP2090'', SeverityError,
        ''config.sections %s: config field %s: an enum needs non-empty choices, and only an enum has them''),
      (''BDP2091'', SeverityError,
        ''config.sections %s: config field %s: %s''),
      (''BDP2100'', SeverityError,
        ''protocol.major %d is not this manifest schema (%d)''),
      (''BDP2101'', SeverityError,
        ''protocol.required needs an explicit major version''),
      (''BDP2102'', SeverityError,
        ''%s''),
      (''BDP2103'', SeverityError,
        ''protocol.hooks needs an explicit major version''),
      (''BDP2104'', SeverityError,
        ''%s''),
      (''BDP2105'', SeverityError,
        ''protocol.hooks: unknown lifecycle hook %q''),
      (''BDP2110'', SeverityError,
        ''%s contains duplicate %q''),
      (''BDP2111'', SeverityError,
        ''%s: %s''),
      (''BDP2112'', SeverityError,
        ''%s: %q uses the reserved token %q''),
      (''BDP2113'', SeverityError,
        ''%s: %q starts with the reserved mesh prefix %q''),
      (''BDP2114'', SeverityError,
        ''%s: %q is this plugin's own namespace, which is implicit and must not be listed''),
      (''BDP2115'', SeverityError,
        ''%s: %q reaches the permanently ineligible family %q; it is refused rather than narrowed''),
      (''BDP2120'', SeverityError,
        ''serves.name required''),
      (''BDP2121'', SeverityError,
        ''serves: duplicate service name %q''),
      (''BDP2122'', SeverityError,
        ''serves %s: endpoint name required''),
      (''BDP2123'', SeverityError,
        ''serves %s: duplicate endpoint name %q''),
      (''BDP2124'', SeverityError,
        ''serves %s.%s: subject %q is outside this plugin's own namespace (%s or %s)''),
      (''BDP2130'', SeverityError,
        ''streams.name required''),
      (''BDP2131'', SeverityError,
        ''streams: duplicate stream name %q''),
      (''BDP2132'', SeverityError,
        ''streams %s: maxBytes is required and must be positive''),
      (''BDP2133'', SeverityError,
        ''streams %s: maxAgeSeconds is required and must be positive''),
      (''BDP2134'', SeverityError,
        ''streams %s: maxMsgs must be >= 0''),
      (''BDP2135'', SeverityError,
        ''kv.name required''),
      (''BDP2136'', SeverityError,
        ''kv: duplicate bucket name %q''),
      (''BDP2137'', SeverityError,
        ''kv %s: maxBytes and history must be >= 0''),
      (''BDP2138'', SeverityError,
        ''objects.name required''),
      (''BDP2139'', SeverityError,
        ''objects: duplicate bucket name %q''),
      (''BDP2140'', SeverityError,
        ''objects %s: maxBytes must be >= 0''),
      (''BDP2150'', SeverityError,
        ''needs: empty capability''),
      (''BDP2151'', SeverityError,
        ''needs: duplicate capability %q''),
      (''BDP2152'', SeverityError,
        ''needs: unknown capability %q (known: %s)''),
      (''BDP2160'', SeverityError,
        ''%s''),
      (''BDP2161'', SeverityError,
        ''duplicate ui.id %q''),
      (''BDP2162'', SeverityError,
        ''unknown ui slot %q''),
      (''BDP2163'', SeverityError,
        ''ui command requires only command''),
      (''BDP2164'', SeverityError,
        ''%s''),
      (''BDP2165'', SeverityError,
        ''ui slot %q requires only panelId''),
      (''BDP2166'', SeverityError,
        ''ui panelId %q is not owned by this manifest''),
      (''BDP2167'', SeverityError,
        ''ui %q: unknown binding kind %q''),
      (''BDP2168'', SeverityError,
        ''ui %q: duplicate binding kind %q''),
      (''BDP2169'', SeverityError,
        ''%s''),
      (''BDP2170'', SeverityError,
        ''%s''),
      (''BDP2171'', SeverityError,
        ''ui %q: binding field %q must be one JSON key, not a path''),
      (''BDP2172'', SeverityError,
        ''capabilities: empty capability''),
      (''BDP2173'', SeverityError,
        ''capabilities: duplicate capability %q''),
      (''BDP2174'', SeverityError,
        ''capabilities: unknown capability %q (known: %s)''),
      (''BDP2180'', SeverityError,
        ''%s''),
      (''BDP2200'', SeverityError,
        ''kind %q is not one of %s''),
      (''BDP2201'', SeverityError,
        ''spawn is true but kind is %q; the two spellings must agree''),
      (''BDP2202'', SeverityError,
        ''kind is family but no family block is declared''),
      (''BDP2203'', SeverityError,
        ''family is declared but kind is %q''),
      (''BDP2204'', SeverityError,
        ''%s applies only to kind process, not %s''),
      (''BDP2210'', SeverityError,
        ''identity is required for every kind and is never host-defaulted''),
      (''BDP2211'', SeverityError,
        ''identity.displayName required''),
      (''BDP2212'', SeverityWarning,
        ''identity.displayName %q only repeats the plugin id; give a human name''),
      (''BDP2213'', SeverityError,
        ''identity.description required''),
      (''BDP2220'', SeverityError,
        ''publisher object required for a %s plugin''),
      (''BDP2221'', SeverityError,
        ''publisher.id %q must be lowercase letters, digits and hyphens, starting alphanumeric, at most 64 characters''),
      (''BDP2222'', SeverityError,
        ''publisher.kid %q must be 64 lowercase hex characters''),
      (''BDP2230'', SeverityError,
        ''static dir %q must be a single path segment inside the package''),
      (''BDP2231'', SeverityError,
        ''static mount %q must be a single path segment''),
      (''BDP2232'', SeverityError,
        ''%s contains duplicate %q''),
      (''BDP2240'', SeverityError,
        ''alias %q must be a leading slash and one path segment''),
      (''BDP2241'', SeverityError,
        ''alias %q claims the reserved prefix %q''),
      (''BDP3001'', SeverityError,
        ''%s is outside every root allowed for a %s package''),
      (''BDP3002'', SeverityError,
        ''%s is forbidden in a package (%s)''),
      (''BDP3003'', SeverityError,
        ''required file %s is missing''),
      (''BDP3004'', SeverityError,
        ''package exceeds %s: %d > %d''),
      (''BDP3005'', SeverityError,
        ''image %s must be svg, png or webp and at most %d bytes''),
      (''BDP4001'', SeverityError,
        ''spawn binary missing: %s''),
      (''BDP4002'', SeverityError,
        ''spawn binary is not executable: %s''),
      (''BDP4003'', SeverityError,
        ''symlink %s does not resolve inside the package root (%s)''),
      (''BDP5001'', SeverityWarning,
        ''publisher as a string is deprecated; declare {\"id\", \"name\"}''),
      (''BDP5002'', SeverityWarning,
        ''%s is superseded by the package attestation and is ignored''),
      (''BDP5003'', SeverityWarning,
        ''spawn is deprecated; declare \"kind\": \"process\"''),
      (''BDP5004'', SeverityWarning,
        ''top-level homepage is deprecated; move it to identity.homepage''),
      (''BDP6001'', SeverityError,
        ''plugin %s does not target %s''),
      (''BDP6002'', SeverityError,
        ''minCoreVersion %s exceeds the host core version %s''),
      (''BDP6003'', SeverityError,
        ''%s %q is not a semantic version''),
      (''BDP6004'', SeverityError,
        ''version %s is below the minimum the host accepts (%s)''),
      (''BDP6011'', SeverityError,
        ''alias %q is reserved by the %s host (%s); a host's own routes are not a plugin's to claim''),
      (''BDP6020'', SeverityError,
        ''publisher %q is reserved; only ByteDesk may claim it, and only with a Store countersignature'')]"

definition NewDiagnostic :: "(string \<Rightarrow> string) \<Rightarrow> string \<Rightarrow> string \<Rightarrow> fmt_arg list \<Rightarrow> Diagnostic" where
  "NewDiagnostic qt c path args =
     (case map_of diagnosticTable c of
        None \<Rightarrow>
          \<lparr>d_Code = c, d_Severity = SeverityError, d_Path = path,
           d_Message = ''unknown diagnostic '' @ c @ '' (args ['' @ join_str '' '' (map fmt_value args) @ ''])''\<rparr>
      | Some (sev, msg) \<Rightarrow>
          \<lparr>d_Code = c, d_Severity = sev, d_Path = path, d_Message = Sprintf qt msg args\<rparr>)"

definition DiagnosticCodes :: "string list" where
  "DiagnosticCodes = sort (map fst diagnosticTable)"

definition SortDiagnostics :: "Diagnostic list \<Rightarrow> Diagnostic list" where
  "SortDiagnostics = sort_key (\<lambda>d. (d_Path d, d_Code d, d_Severity d, d_Message d))"

definition FirstError :: "Diagnostic list \<Rightarrow> Diagnostic option" where
  "FirstError ds = find (\<lambda>d. d_Severity d = SeverityError) ds"

section \<open>Severities\<close>

definition warning_codes :: "string list" where
  "warning_codes = map fst (filter (\<lambda>(c, sev, msg). sev \<noteq> SeverityError) diagnosticTable)"

lemma warning_codes_are: "warning_codes = [''BDP1006'', ''BDP2212'', ''BDP5001'', ''BDP5002'', ''BDP5003'', ''BDP5004'']"
  by code_simp

lemma d_Code_New [simp]: "d_Code (NewDiagnostic qt c path args) = c"
  by (simp add: NewDiagnostic_def split: option.split prod.split)

lemma d_Path_New [simp]: "d_Path (NewDiagnostic qt c path args) = path"
  by (simp add: NewDiagnostic_def split: option.split prod.split)

lemma New_is_error: "c \<notin> set warning_codes \<Longrightarrow> d_Severity (NewDiagnostic qt c path args) = SeverityError"
  by (force simp: NewDiagnostic_def warning_codes_def split: option.split dest: map_of_SomeD)

lemma FirstError_None: "FirstError ds = None \<longleftrightarrow> (\<forall>d \<in> set ds. d_Severity d \<noteq> SeverityError)"
  by (auto simp: FirstError_def find_None_iff)

section \<open>Rules\<close>

text \<open>\<open>report\<close> is \<^verbatim>\<open>collector.add\<close>; \<open>for_index\<close> and \<open>for_state\<close> are the loops of the rules: \<open>for_state\<close> threads
  the set of what was seen, and its body returns the new set with what it reports.\<close>

definition report :: "(string \<Rightarrow> string) \<Rightarrow> string \<Rightarrow> string \<Rightarrow> fmt_arg list \<Rightarrow> Diagnostic list" where
  "report qt c path args = [NewDiagnostic qt c path args]"

definition for_index :: "(nat \<Rightarrow> 'a \<Rightarrow> Diagnostic list) \<Rightarrow> 'a list \<Rightarrow> Diagnostic list" where
  "for_index body xs = concat (map (\<lambda>(i, x). body i x) (enumerate 0 xs))"

fun for_state ::
  "('s \<Rightarrow> nat \<Rightarrow> 'a \<Rightarrow> 's \<times> Diagnostic list) \<Rightarrow> 's \<Rightarrow> nat \<Rightarrow> 'a list \<Rightarrow> 's \<times> Diagnostic list" where
  "for_state body s i [] = (s, [])"
| "for_state body s i (x # xs) =
     (let (s1, ds) = body s i x; (s2, ds') = for_state body s1 (Suc i) xs in (s2, ds @ ds'))"

definition at_index :: "string \<Rightarrow> nat \<Rightarrow> string" where
  \<comment> \<open>\<^verbatim>\<open>fmt.Sprintf("label[%d]", i)\<close>\<close>
  "at_index label i = label @ ''['' @ decimal i @ '']''"

text \<open>A list of findings that refuses nothing. The rules below reduce acceptance of a report to its
  conditions.\<close>

definition accepted :: "Diagnostic list \<Rightarrow> bool" where
  "accepted ds \<longleftrightarrow> FirstError ds = None"

named_theorems accepts \<open>when a report is accepted\<close>

lemma accepted_Nil [accepts]: "accepted []"
  by (simp add: accepted_def FirstError_None)

lemma accepted_append [accepts]: "accepted (a @ b) \<longleftrightarrow> accepted a \<and> accepted b"
  by (auto simp: accepted_def FirstError_None)

lemma accepted_concat_map [accepts]: "accepted (concat (map f xs)) \<longleftrightarrow> (\<forall>x \<in> set xs. accepted (f x))"
  by (auto simp: accepted_def FirstError_None)

lemma accepted_if [accepts]: "accepted (if b then x else y) \<longleftrightarrow> (b \<longrightarrow> accepted x) \<and> (\<not> b \<longrightarrow> accepted y)"
  by simp

lemma accepted_report [accepts]: "c \<notin> set warning_codes \<Longrightarrow> \<not> accepted (report qt c path args)"
  by (simp add: accepted_def FirstError_None report_def New_is_error)

lemma report_not_Nil [simp]: "report qt c path args \<noteq> []"
  by (simp add: report_def)

lemma accepted_for_index [accepts]:
  "accepted (for_index body xs) \<longleftrightarrow> (\<forall>i < length xs. accepted (body i (xs ! i)))"
proof -
  have "set (enumerate 0 xs) = {(i, xs ! i) | i. i < length xs}" by (auto simp: in_set_enumerate_eq)
  then show ?thesis by (auto simp: for_index_def accepted_concat_map)
qed

lemma accepted_for_state:
  "accepted (snd (for_state body s i xs)) \<Longrightarrow> x \<in> set xs \<Longrightarrow> \<exists>s' j. accepted (snd (body s' j x))"
proof (induction xs arbitrary: s i)
  case (Cons y ys)
  then show ?case by (auto simp: split_beta Let_def accepted_append)
qed simp

lemma accepted_distinct:
  assumes "\<And>s i x. accepted (snd (body s i x)) \<Longrightarrow> fst (body s i x) = key x # s \<and> key x \<notin> set s"
    and "accepted (snd (for_state body s i xs))"
  shows "distinct (map key xs) \<and> key ` set xs \<inter> set s = {}"
  using assms(2)
proof (induction xs arbitrary: s i)
  case (Cons x xs)
  then have "accepted (snd (body s i x))" "accepted (snd (for_state body (fst (body s i x)) (Suc i) xs))"
    by (auto simp: split_beta Let_def accepted_append)
  with assms(1) [of s i x] Cons.IH [of "fst (body s i x)" "Suc i"] show ?case by auto
qed simp

end
