(* ===== verification/Manifest.thy ===== *)
theory Manifest
  imports Diag
begin

text \<open>
  The plugin manifest as decoded from \<^verbatim>\<open>plugin.json\<close>: the types of \<^verbatim>\<open>src/v2/plugin/manifest.go\<close>, of
  \<^verbatim>\<open>navigation.go\<close> and of \<^verbatim>\<open>projects.go\<close> that it contains, the methods of \<^verbatim>\<open>Manifest\<close>, and the implicit
  namespace of a plugin. A pointer that may be nil is an \<open>option\<close>; decoding is \<^verbatim>\<open>encoding/json\<close>.
\<close>

section \<open>Parts of a manifest\<close>

record Images =
  im_Icon :: string
  im_Logo :: string
  im_Banner :: string
  im_Screenshots :: "string list"

record Support =
  su_Email :: string
  su_URL :: string

record ManifestIdentity =
  mi_DisplayName :: string
  mi_Description :: string
  mi_Categories :: "string list"
  mi_Keywords :: "string list"
  mi_Images :: "Images option"
  mi_Homepage :: string
  mi_License :: string
  mi_Readme :: string
  mi_Changelog :: string
  mi_Support :: "Support option"
  mi_ThirdPartyNotices :: string

record StaticMount =
  stm_Dir :: string
  stm_Mount :: string

record Permissions =
  pm_Publish :: "Pattern list"
  pm_Subscribe :: "Pattern list"
  pm_Request :: "Pattern list"

record EndpointDecl =
  ed_Name :: string
  ed_Subject :: Subject
  ed_Point :: string

record ServiceDecl =
  sd_SvcName :: string
  sd_Version :: string
  sd_QueueGroup :: string
  sd_Endpoints :: "EndpointDecl list"

record StreamDecl =
  std_Name :: string
  std_Subjects :: "Pattern list"
  std_MaxBytes :: int
  std_MaxAgeSeconds :: int
  std_MaxMsgs :: int

record KVDecl =
  kd_Name :: string
  kd_MaxBytes :: int
  kd_TTLSeconds :: int
  kd_History :: int

record ObjectDecl =
  od_Name :: string
  od_MaxBytes :: int
  od_TTLSeconds :: int

record ProtocolRequirements =
  pr_Major :: nat
  pr_Required :: "string list"
  pr_Hooks :: "string list"

record ConfigField =
  cf_Key :: string
  cf_Kind :: string
  cf_Label :: string
  cf_Description :: string
  cf_Default :: string
  cf_Min :: "int option"
  cf_Max :: "int option"
  cf_Nullable :: bool
  cf_Choices :: "string list"
  cf_Point :: string
  cf_Requires :: "string list"
  cf_ReadOnly :: bool
  cf_RequiresRestart :: bool

record ConfigSection =
  cs_ID :: string
  cs_Title :: string
  cs_Description :: string
  cs_Fields :: "ConfigField list"

record Config =
  cg_Sections :: "ConfigSection list"

record When =
  wh_OS :: "string list"

record FamilyMember =
  fm_ID :: string
  fm_When :: When

record Family =
  fa_Selector :: string
  fa_Members :: "FamilyMember list"

record ExtensionPoint =
  xp_Name :: string
  xp_Interface :: string
  xp_Description :: string

record Provider =
  pv_Point :: string
  pv_ID :: string
  pv_Priority :: int

record Requirement =
  rq_ID :: string
  rq_Version :: string

record NavReference =
  nr_Owner :: string
  nr_ID :: string
  nr_Point :: string

record NavItem =
  nv_ID :: string
  nv_Label :: string
  nv_Icon :: string
  nv_Href :: string
  nv_Order :: int
  nv_Kind :: string
  nv_Section :: "NavReference option"
  nv_Parent :: "NavReference option"
  nv_ChildrenPoint :: string
  nv_Placement :: string
  nv_NewTab :: bool

record PanelSpec =
  pn_ID :: string
  pn_Kind :: string
  pn_URL :: string
  pn_Module :: string
  pn_DocumentPaths :: "string list"

record LauncherSpec =
  la_Kind :: string
  la_Title :: string
  la_Description :: string
  la_Group :: string

record Pricing =
  pc_Model :: string
  pc_SKU :: string
  pc_TrialDays :: int

record Publisher =
  pb_ID :: string
  pb_Name :: string
  pb_LegalName :: string
  pb_URL :: string
  pb_SupportEmail :: string
  pb_KID :: string

record UIBinding =
  ub_Kind :: string
  ub_Event :: string
  ub_Field :: string

record UIContribution =
  ui_ID :: string
  ui_Slot :: string
  ui_PanelID :: string
  ui_Command :: string
  ui_Label :: string
  ui_Icon :: string
  ui_Priority :: int
  ui_Bindings :: "UIBinding list"

record ProjectViewContribution =
  vw_ID :: string
  vw_Label :: string
  vw_Icon :: string
  vw_Order :: int
  vw_PanelID :: string

record DirectoryContextActionContribution =
  da_ID :: string
  da_Label :: string
  da_Icon :: string
  da_Order :: int
  da_WizardPanelID :: string

section \<open>The manifest\<close>

record Manifest =
  mf_Contract :: int
  mf_Kind :: string
  mf_ID :: string
  mf_Version :: string
  mf_Identity :: "ManifestIdentity option"
  mf_Nav :: "NavItem list"
  mf_Panels :: "PanelSpec list"
  mf_Launchers :: "LauncherSpec list"
  mf_Scopes :: "string list"
  mf_Routes :: "string list"
  mf_PublicRoutes :: "string list"
  mf_Spawn :: bool
  mf_Binary :: string
  mf_Socket :: string
  mf_Helpers :: "string list"
  mf_Scripts :: "string list"
  mf_Services :: "string list"
  mf_Static :: "StaticMount list"
  mf_Aliases :: "string list"
  mf_Trust :: bytes
  mf_MinCoreVersion :: string
  mf_Targets :: "string list"
  mf_Role :: string
  mf_Requires :: "Requirement list"
  mf_Pricing :: "Pricing option"
  mf_Publisher :: "Publisher option"
  mf_Family :: "Family option"
  mf_When :: When
  mf_Extends :: "ExtensionPoint list"
  mf_Implements :: "Provider list"
  mf_Critical :: bool
  mf_Protocol :: "ProtocolRequirements option"
  mf_Permissions :: Permissions
  mf_UI :: "UIContribution list"
  mf_ProjectViews :: "ProjectViewContribution list"
  mf_DirectoryContextActions :: "DirectoryContextActionContribution list"
  mf_Serves :: "ServiceDecl list"
  mf_Streams :: "StreamDecl list"
  mf_KV :: "KVDecl list"
  mf_Objects :: "ObjectDecl list"
  mf_Needs :: "string list"
  mf_Capabilities :: "string list"
  mf_Config :: "Config option"

section \<open>Vocabularies\<close>

definition KindBuiltin :: string where "KindBuiltin = ''builtin''"
definition KindProcess :: string where "KindProcess = ''process''"
definition KindUI :: string where "KindUI = ''ui''"
definition KindFamily :: string where "KindFamily = ''family''"

definition Kinds :: "string list" where
  "Kinds = [KindBuiltin, KindProcess, KindUI, KindFamily]"

definition ReservedAliasPrefixes :: "string list" where
  "ReservedAliasPrefixes = [''/p'', ''/.well-known'']"

definition ProtocolMajor :: nat where "ProtocolMajor = 2"

definition FeatureDocumentPaths :: string where "FeatureDocumentPaths = ''ui.document-paths.v1''"

definition MeshPrefix :: string where "MeshPrefix = ''bd''"

definition HostPointNamespace :: string where "HostPointNamespace = ''host.''"

definition ConfigKindBool :: string where "ConfigKindBool = ''bool''"
definition ConfigKindInt :: string where "ConfigKindInt = ''int''"
definition ConfigKindString :: string where "ConfigKindString = ''string''"
definition ConfigKindStringList :: string where "ConfigKindStringList = ''stringList''"
definition ConfigKindEnum :: string where "ConfigKindEnum = ''enum''"
definition ConfigKindSecret :: string where "ConfigKindSecret = ''secret''"
definition ConfigKindProvider :: string where "ConfigKindProvider = ''provider''"

lemmas config_kind_defs =
  ConfigKindBool_def ConfigKindInt_def ConfigKindString_def ConfigKindStringList_def ConfigKindEnum_def
  ConfigKindSecret_def ConfigKindProvider_def

definition TargetGateway :: string where "TargetGateway = ''gateway''"
definition TargetVault :: string where "TargetVault = ''vault''"

definition RoleSystem :: string where "RoleSystem = ''system''"
definition RoleExtension :: string where "RoleExtension = ''extension''"

definition BindCount :: string where "BindCount = ''count''"
definition BindBadge :: string where "BindBadge = ''badge''"
definition BindLiveness :: string where "BindLiveness = ''liveness''"
definition BindToggle :: string where "BindToggle = ''toggle''"

definition SlotCommand :: string where "SlotCommand = ''command''"

text \<open>\<^verbatim>\<open>ContributionEligibility\<close> and the table of the roles with their eligibility.\<close>

type_synonym ContributionEligibility = string

definition ContributionInstalledAllowed :: ContributionEligibility where
  "ContributionInstalledAllowed = ''installed-allowed''"
definition ContributionConsentRequired :: ContributionEligibility where
  "ContributionConsentRequired = ''consent-required''"
definition ContributionCompiledOnly :: ContributionEligibility where
  "ContributionCompiledOnly = ''compiled-only''"

record ContributionRole =
  ctr_Slot :: string
  ctr_Eligibility :: ContributionEligibility

definition role :: "string \<Rightarrow> ContributionEligibility \<Rightarrow> ContributionRole" where
  "role slot e = \<lparr>ctr_Slot = slot, ctr_Eligibility = e\<rparr>"

definition ContributionRoles :: "ContributionRole list" where
  "ContributionRoles =
     [role ''default-view'' ContributionInstalledAllowed,
      role ''main-navigation'' ContributionConsentRequired,
      role ''sub-navigation'' ContributionConsentRequired,
      role ''primary-action'' ContributionConsentRequired,
      role ''secondary-actions'' ContributionConsentRequired,
      role ''status-indicator'' ContributionConsentRequired,
      role ''object-actions'' ContributionInstalledAllowed,
      role ''launcher'' ContributionConsentRequired,
      role ''settings'' ContributionInstalledAllowed,
      role SlotCommand ContributionConsentRequired]"

definition ContributionRoleFor :: "string \<Rightarrow> ContributionRole option" where
  "ContributionRoleFor slot = find (\<lambda>r. ctr_Slot r = slot) ContributionRoles"

section \<open>The implicit namespace\<close>

definition no_grants :: Grants where
  "no_grants =
     \<lparr>g_Publish = [], g_Subscribe = [], g_Request = [], g_Serves = [], g_Streams = [], g_KV = [], g_Objects = []\<rparr>"

definition OwnNamespace :: "string \<Rightarrow> Grants" where
  "OwnNamespace i =
     (let id = TrimSpace i in
      if id = '''' then no_grants
      else no_grants
        \<lparr>g_Publish := [''event.'' @ id @ ''.>'', ''tick.'' @ id @ ''.>''],
         g_Subscribe := [''tick.'' @ id @ ''.>'', ''_INBOX.'' @ id @ ''.>''],
         g_Serves := [''cmd.'' @ id @ ''.>'', ''svc.'' @ id @ ''.>'']\<rparr>)"

fun first_seen :: "Pattern list \<Rightarrow> Pattern list \<Rightarrow> Pattern list" where
  "first_seen seen [] = []"
| "first_seen seen (p # ps) =
     (if p \<in> set seen then first_seen seen ps else p # first_seen (p # seen) ps)"

definition ownNamespacePatterns :: "string \<Rightarrow> Pattern list" where
  "ownNamespacePatterns i =
     (let g = OwnNamespace i in first_seen [] (g_Publish g @ g_Subscribe g @ g_Serves g))"

section \<open>Names\<close>

definition point_chars :: string where
  "point_chars = ''abcdefghijklmnopqrstuvwxyz0123456789-''"

definition ValidateExtendsName :: "(string \<Rightarrow> string) \<Rightarrow> Publisher option \<Rightarrow> string \<Rightarrow> string option" where
  \<comment> \<open>\<open>Some\<close> is the text of the error\<close>
  "ValidateExtendsName qt publisher name =
     (let segments = split_on (CHR ''.'') name; point = ''extends: extension point '' @ qt name in
      if length segments < 2 then Some (point @ '' needs at least two dot-separated segments'')
      else if list_ex (\<lambda>s. s = '''' \<or> Trim s point_chars \<noteq> '''') segments then
        Some (point @ '' must be lowercase letters, digits and hyphens between dots'')
      else if HasPrefix name HostPointNamespace then
        (if length segments < 3 then
           Some (''extends: host extension point '' @ qt name @ '' needs an area and a name after '' @ qt HostPointNamespace)
         else None)
      else if (case publisher of None \<Rightarrow> False
               | Some p \<Rightarrow> (let namespace = ToLower (TrimSpace (pb_ID p))
                            in namespace \<noteq> '''' \<and> HasPrefix name (namespace @ ''.''))) then None
      else Some (point @ '' must start with the publisher id or '' @ qt HostPointNamespace))"

definition valid_id_char :: "nat \<Rightarrow> char \<Rightarrow> bool" where
  "valid_id_char i c = (is_lower c \<or> is_digit c \<or> (c = CHR ''-'' \<and> 0 < i))"

definition validPublisherID :: "string \<Rightarrow> bool" where
  "validPublisherID i =
     (\<not> (i = '''' \<or> 64 < length i) \<and> list_all (\<lambda>(k, c). valid_id_char k c) (enumerate 0 i))"

definition validKID :: "string \<Rightarrow> bool" where
  "validKID s = (length s = 64 \<and> list_all (\<lambda>c. is_digit c \<or> (97 \<le> code c \<and> code c \<le> 102)) s)"

section \<open>Methods\<close>

definition StreamDecl_MaxAge :: "StreamDecl \<Rightarrow> duration" where
  "StreamDecl_MaxAge s = wrap64 (std_MaxAgeSeconds s * second)"

definition KVDecl_TTL :: "KVDecl \<Rightarrow> duration" where
  "KVDecl_TTL k = wrap64 (kd_TTLSeconds k * second)"

definition ObjectDecl_TTL :: "ObjectDecl \<Rightarrow> duration" where
  "ObjectDecl_TTL k = wrap64 (od_TTLSeconds k * second)"

definition EqualFold :: "string \<Rightarrow> string \<Rightarrow> bool" where
  \<comment> \<open>\<^verbatim>\<open>strings.EqualFold\<close> on ASCII\<close>
  "EqualFold a b = (ToLower a = ToLower b)"

definition When_Matches :: "When \<Rightarrow> string \<Rightarrow> bool" where
  "When_Matches w goos =
     (if length (wh_OS w) = 0 then True
      else list_ex (\<lambda>v. EqualFold (TrimSpace v) (TrimSpace (ToLower goos))) (wh_OS w))"

definition OSAllowed :: "Manifest \<Rightarrow> string \<Rightarrow> bool" where
  "OSAllowed m goos = When_Matches (mf_When m) goos"

definition MissingNeeds :: "Manifest \<Rightarrow> Capabilities \<Rightarrow> string list" where
  "MissingNeeds m have_caps = Missing have_caps (mf_Needs m)"

definition KindOrInferred :: "Manifest \<Rightarrow> string" where
  "KindOrInferred m =
     (let k = ToLower (TrimSpace (mf_Kind m)) in
      if k \<noteq> '''' then k
      else if mf_Family m \<noteq> None then KindFamily
      else if mf_Spawn m then KindProcess
      else KindBuiltin)"

definition TargetsOrDefault :: "Manifest \<Rightarrow> string list" where
  "TargetsOrDefault m =
     (if length (mf_Targets m) = 0 then [TargetGateway]
      else
        (let out = filter (\<lambda>t. t \<noteq> '''') (map (\<lambda>t. ToLower (TrimSpace t)) (mf_Targets m))
         in if length out = 0 then [TargetGateway] else out))"

definition Supports :: "Manifest \<Rightarrow> string \<Rightarrow> bool" where
  "Supports m host = list_ex (\<lambda>t. t = ToLower (TrimSpace host)) (TargetsOrDefault m)"

definition RoleOrDefault :: "Manifest \<Rightarrow> string" where
  "RoleOrDefault m = (if ToLower (TrimSpace (mf_Role m)) = RoleSystem then RoleSystem else RoleExtension)"

definition PublicRoute :: "Manifest \<Rightarrow> string \<Rightarrow> bool" where
  "PublicRoute m p =
     (let path = TrimSpace p in
      if path = '''' then False
      else list_ex (\<lambda>r. let route = TrimSpace r in
             if route = '''' then False
             else if HasSuffix route ''/'' then HasPrefix path route
             else path = route) (mf_PublicRoutes m))"

definition RequiredIDs :: "Manifest \<Rightarrow> string list" where
  "RequiredIDs m = filter (\<lambda>i. i \<noteq> '''') (map (\<lambda>r. TrimSpace (rq_ID r)) (mf_Requires m))"

end
