(* ===== verification/Points.thy ===== *)
theory Points
  imports Manifest
begin

text \<open>
  The closed vocabularies of the plugin contract: extension points (\<^verbatim>\<open>src/v2/plugin/points.go\<close>) with the
  suggestion for a near miss, the permanently ineligible subject families (\<^verbatim>\<open>ineligible.go\<close>), the side-effect
  capabilities (\<^verbatim>\<open>capabilities.go\<close>), and the shape of navigation items (\<^verbatim>\<open>navigation.go\<close>).
\<close>

section \<open>Extension points\<close>

definition KnownPoints :: "string list" where
  "KnownPoints =
     [''mcp.tool'', ''files.s3'', ''acp.provider'', ''ai.decision'', ''project.tasks'', ''project.knowledge'',
      ''terminal.presentation'', ''host.settings.section'', ''host.session.backend'']"

definition IsKnownPoint :: "string \<Rightarrow> bool" where
  "IsKnownPoint s = list_ex (\<lambda>p. p = s) KnownPoints"

fun isOneDeletionFrom :: "string \<Rightarrow> string \<Rightarrow> bool" where
  "isOneDeletionFrom long [] = True"
| "isOneDeletionFrom [] (y # short) = False"
| "isOneDeletionFrom (x # long) (y # short) =
     (if x \<noteq> y then long = y # short else isOneDeletionFrom long short)"

text \<open>The loop over strings of one length: \<open>d\<close> differences were found so far.\<close>

fun count_diff :: "nat \<Rightarrow> string \<Rightarrow> string \<Rightarrow> bool" where
  "count_diff d (x # a) (y # b) =
     (if x \<noteq> y then (if Suc d > 1 then False else count_diff (Suc d) a b) else count_diff d a b)"
| "count_diff d _ _ = (d = 1)"

definition withinOneEdit :: "string \<Rightarrow> string \<Rightarrow> bool" where
  "withinOneEdit a b =
     (if length a = length b then count_diff 0 a b
      else if length a = Suc (length b) then isOneDeletionFrom a b
      else if length b = Suc (length a) then isOneDeletionFrom b a
      else False)"

definition SuggestPoint :: "string \<Rightarrow> string option" where
  "SuggestPoint name =
     (let s = ToLower (TrimSpace name) in
      if s = '''' then None
      else if IsKnownPoint s then Some s
      else case find (\<lambda>p. HasSuffix p (''.'' @ s)) KnownPoints of
        Some p \<Rightarrow> Some p
      | None \<Rightarrow> find (\<lambda>p. withinOneEdit p s) KnownPoints)"

section \<open>Ineligible families\<close>

definition PermanentlyIneligible :: "Pattern list" where
  "PermanentlyIneligible =
     [''$SYS.>'', ''cmd.host.auth.>'', ''cmd.host.session.>'', ''cmd.host.identity.>'', ''cmd.host.secrets.>'',
      ''cmd.host.cutover.>'', ''cmd.plugin.v1.disable'', ''cmd.plugin.v1.announce'', ''cmd.host.statedir.>'',
      ''cmd.terminal.v1.write'']"

section \<open>Capabilities with side effects\<close>

record ConsentCapability =
  cc_ID :: string
  cc_Sentence :: string

definition CapabilityCatalog :: "ConsentCapability list" where
  "CapabilityCatalog =
     [\<lparr>cc_ID = ''credential.secret'',
       cc_Sentence = ''Stores a secret for this plugin. The host holds the value. The plugin receives a handle, not the secret.''\<rparr>,
      \<lparr>cc_ID = ''egress.provider'',
       cc_Sentence = ''Calls a provider API on the host allowlist, using the secret this plugin stored. The plugin names an operation, not a URL.''\<rparr>,
      \<lparr>cc_ID = ''process.supervised'',
       cc_Sentence = ''Runs one program from the host allowlist, outside the plugin sandbox. The plugin does not choose the executable.''\<rparr>,
      \<lparr>cc_ID = ''ingress.publish'',
       cc_Sentence = ''Publishes a local origin through that program. The operator confirms the destination. The plugin cannot substitute another.''\<rparr>]"

definition CapabilityIDs :: "string list" where
  "CapabilityIDs = map cc_ID CapabilityCatalog"

definition ConsentCapabilities :: "Manifest \<Rightarrow> ConsentCapability list" where
  "ConsentCapabilities m =
     (let declared = map TrimSpace (mf_Capabilities m)
      in filter (\<lambda>line. cc_ID line \<in> set declared) CapabilityCatalog)"

definition knownCapability :: "string \<Rightarrow> bool" where
  "knownCapability i = list_ex (\<lambda>line. cc_ID line = i) CapabilityCatalog"

definition CapabilityEnabled :: "string list \<Rightarrow> string \<Rightarrow> bool" where
  "CapabilityEnabled granted name =
     (let i = TrimSpace name in
      if i = '''' \<or> \<not> knownCapability i then False else list_ex (\<lambda>g. TrimSpace g = i) granted)"

section \<open>Navigation\<close>

definition NavKindLink :: string where "NavKindLink = ''link''"
definition NavKindGroup :: string where "NavKindGroup = ''group''"
definition NavKindSection :: string where "NavKindSection = ''section''"
definition NavPlacementMain :: string where "NavPlacementMain = ''main''"
definition NavPlacementPinned :: string where "NavPlacementPinned = ''pinned''"
definition NavPlacementFooter :: string where "NavPlacementFooter = ''footer''"

definition EffectiveKind :: "NavItem \<Rightarrow> string" where
  "EffectiveKind n = (if nv_Kind n = '''' then NavKindLink else nv_Kind n)"

definition validNavigationPointName :: "string \<Rightarrow> bool" where
  "validNavigationPointName name =
     (if name = '''' then True
      else if TrimSpace name \<noteq> name then False
      else \<not> list_ex (\<lambda>s. s = '''' \<or> Trim s point_chars \<noteq> '''') (split_on (CHR ''.'') name))"

definition check_nav_kind :: "(string \<Rightarrow> string) \<Rightarrow> NavItem \<Rightarrow> string option" where
  "check_nav_kind qt n =
     (if EffectiveKind n = NavKindLink then
        (if nv_Href n = '''' then Some (''navigation '' @ qt (nv_ID n) @ '': link requires href'') else None)
      else if EffectiveKind n = NavKindGroup \<or> EffectiveKind n = NavKindSection then
        (if nv_Href n \<noteq> '''' \<or> nv_NewTab n
         then Some (''navigation '' @ qt (nv_ID n) @ '': structural node cannot navigate'') else None)
      else Some (''navigation '' @ qt (nv_ID n) @ '': unknown kind '' @ qt (nv_Kind n)))"

definition check_nav_ref :: "(string \<Rightarrow> string) \<Rightarrow> NavItem \<Rightarrow> NavReference option \<Rightarrow> string option" where
  "check_nav_ref qt n r =
     (case r of None \<Rightarrow> None
      | Some ref \<Rightarrow>
          if nr_Owner ref = '''' \<or> nr_ID ref = '''' then
            Some (''navigation '' @ qt (nv_ID n) @ '': references require owner and id'')
          else if \<not> validNavigationPointName (nr_Point ref) then
            Some (''navigation '' @ qt (nv_ID n) @ '': reference point '' @ qt (nr_Point ref) @ '' is invalid'')
          else None)"

definition validate_nav_item :: "(string \<Rightarrow> string) \<Rightarrow> NavItem \<Rightarrow> string option" where
  "validate_nav_item qt n =
     (if nv_ID n = '''' \<or> nv_Label n = '''' then Some ''navigation: id and label required''
      else case check_nav_kind qt n of Some e \<Rightarrow> Some e
      | None \<Rightarrow>
          if nv_Placement n \<notin> {'''', NavPlacementMain, NavPlacementPinned, NavPlacementFooter} then
            Some (''navigation '' @ qt (nv_ID n) @ '': unknown placement '' @ qt (nv_Placement n))
          else case check_nav_ref qt n (nv_Parent n) of Some e \<Rightarrow> Some e
          | None \<Rightarrow>
              (case check_nav_ref qt n (nv_Section n) of Some e \<Rightarrow> Some e
               | None \<Rightarrow>
                   if EffectiveKind n = NavKindSection \<and>
                      (nv_Parent n \<noteq> None \<or> nv_Section n \<noteq> None \<or>
                       nv_Placement n \<noteq> '''' \<and> nv_Placement n \<noteq> NavPlacementMain)
                   then Some (''navigation '' @ qt (nv_ID n) @ '': section must be a main root'')
                   else None))"

fun ValidateNavigation :: "(string \<Rightarrow> string) \<Rightarrow> NavItem list \<Rightarrow> string option" where
  "ValidateNavigation qt [] = None"
| "ValidateNavigation qt (n # items) =
     (case validate_nav_item qt n of Some e \<Rightarrow> Some e | None \<Rightarrow> ValidateNavigation qt items)"

section \<open>Suggestions\<close>

text \<open>The reference: \<open>b\<close> is \<open>a\<close> after one substitution, one deletion or one insertion of a byte.\<close>

definition one_deletion :: "string \<Rightarrow> string \<Rightarrow> bool" where
  "one_deletion a b \<longleftrightarrow> (\<exists>u v x. a = u @ x # v \<and> b = u @ v)"

definition one_substitution :: "string \<Rightarrow> string \<Rightarrow> bool" where
  "one_substitution a b \<longleftrightarrow> (\<exists>u v x y. a = u @ x # v \<and> b = u @ y # v \<and> x \<noteq> y)"

definition one_edit :: "string \<Rightarrow> string \<Rightarrow> bool" where
  "one_edit a b \<longleftrightarrow> one_substitution a b \<or> one_deletion a b \<or> one_deletion b a"

lemma one_deletion_length: "one_deletion a b \<Longrightarrow> length a = Suc (length b)"
  by (auto simp: one_deletion_def)

lemma one_substitution_length: "one_substitution a b \<Longrightarrow> length a = length b"
  by (auto simp: one_substitution_def)

lemma one_deletion_Cons:
  "one_deletion (x # a) (y # b) \<longleftrightarrow> (if x = y then one_deletion a b else a = y # b)"
proof (cases "x = y")
  case True
  have "one_deletion a b" if "x # a = u @ z # v" "x # b = u @ v" for u v z
  proof (cases u)
    case Nil
    with that have "a = [] @ x # b" "b = [] @ b" by auto
    then show ?thesis unfolding one_deletion_def by blast
  next
    case (Cons w u')
    with that show ?thesis unfolding one_deletion_def by auto
  qed
  moreover have "one_deletion (x # a) (x # b)" if "a = u @ z # v" "b = u @ v" for u v z
    unfolding one_deletion_def using that by (metis append_Cons)
  ultimately show ?thesis using True by (auto simp: one_deletion_def)
qed (auto simp: one_deletion_def Cons_eq_append_conv)

lemma one_substitution_Cons:
  "one_substitution (x # a) (y # b) \<longleftrightarrow> (if x = y then one_substitution a b else a = b)"
proof (cases "x = y")
  case True
  have "one_substitution (x # a) (x # b)" if "a = u @ p # v" "b = u @ q # v" "p \<noteq> q" for u v p q
    unfolding one_substitution_def using that by (metis append_Cons)
  with True show ?thesis by (auto simp: one_substitution_def Cons_eq_append_conv)
qed (auto simp: one_substitution_def Cons_eq_append_conv)

lemma isOneDeletionFrom_iff:
  "length long = Suc (length short) \<Longrightarrow> isOneDeletionFrom long short \<longleftrightarrow> one_deletion long short"
proof (induction long short rule: isOneDeletionFrom.induct)
  case (1 long)
  then show ?case by (auto simp: length_Suc_conv one_deletion_def)
qed (simp_all add: one_deletion_Cons)

lemma count_diff_iff:
  "length a = length b \<Longrightarrow> count_diff 0 a b \<longleftrightarrow> one_substitution a b"
  "length a = length b \<Longrightarrow> count_diff (Suc 0) a b \<longleftrightarrow> a = b"
proof (induction a b rule: list_induct2')
  case 1
  { case 1 then show ?case by (simp add: one_substitution_def) next case 2 then show ?case by simp }
next
  case (4 x a y b)
  { case 1 with 4 show ?case by (simp add: one_substitution_Cons) next case 2 with 4 show ?case by simp }
qed simp_all

lemma withinOneEdit_iff: "withinOneEdit a b \<longleftrightarrow> one_edit a b"
proof -
  have none: "length a \<noteq> length b \<Longrightarrow> \<not> one_substitution a b"
    "length a \<noteq> Suc (length b) \<Longrightarrow> \<not> one_deletion a b" "length b \<noteq> Suc (length a) \<Longrightarrow> \<not> one_deletion b a"
    using one_deletion_length one_substitution_length by blast+
  consider "length a = length b" | "length a = Suc (length b)" | "length b = Suc (length a)"
    | "length a \<noteq> length b" "length a \<noteq> Suc (length b)" "length b \<noteq> Suc (length a)" by blast
  then show ?thesis
    by cases (simp_all add: one_edit_def withinOneEdit_def none count_diff_iff(1) isOneDeletionFrom_iff)
qed

lemma IsKnownPoint_iff: "IsKnownPoint s \<longleftrightarrow> s \<in> set KnownPoints"
  by (auto simp: IsKnownPoint_def list_ex_iff)

section \<open>Properties\<close>

text \<open>A suggestion is exact: \<open>SuggestPoint\<close> only ever proposes a registered point, and it proposes one
  exactly when the lower-cased trimmed name is a point, is the tail of a point after a dot, or is one
  substitution, insertion or deletion away from a point.\<close>

theorem suggestion_is_a_near_miss:
  "(case SuggestPoint name of Some p \<Rightarrow> p \<in> set KnownPoints | None \<Rightarrow> True) \<and>
   (SuggestPoint name \<noteq> None \<longleftrightarrow>
      ToLower (TrimSpace name) \<noteq> '''' \<and>
      (\<exists>p \<in> set KnownPoints.
         p = ToLower (TrimSpace name) \<or> suffix (''.'' @ ToLower (TrimSpace name)) p \<or>
         one_edit p (ToLower (TrimSpace name))))"
proof -
  let ?s = "ToLower (TrimSpace name)"
  have f: "find Q KnownPoints = None \<longleftrightarrow> (\<forall>p \<in> set KnownPoints. \<not> Q p)"
    "find Q KnownPoints = Some p \<Longrightarrow> p \<in> set KnownPoints \<and> Q p" for Q p
    by (auto simp: find_None_iff find_Some_iff)
  have "SuggestPoint name = None \<longleftrightarrow> ?s = '''' \<or>
      \<not> IsKnownPoint ?s \<and> (\<forall>p \<in> set KnownPoints. \<not> suffix (''.'' @ ?s) p) \<and> (\<forall>p \<in> set KnownPoints. \<not> one_edit p ?s)"
    by (simp add: SuggestPoint_def Let_def HasSuffix_def withinOneEdit_iff f(1) split: option.split)
      (metis f(1) option.distinct(1))
  moreover have "p \<in> set KnownPoints" if "SuggestPoint name = Some p" for p
    using that f(2) by (auto simp: SuggestPoint_def Let_def IsKnownPoint_iff split: if_splits option.splits)
  ultimately show ?thesis by (auto simp: IsKnownPoint_iff split: option.split)
qed

end
