(* ===== verification/Document_Path.thy ===== *)
theory Document_Path
  imports Manifest
begin

text \<open>
  Document paths of panels, the part of \<^verbatim>\<open>src/v2/plugin/validate.go\<close> from \<^verbatim>\<open>ValidateDocumentPath\<close> to
  \<^verbatim>\<open>DocumentPathsOverlap\<close>: parsing a pattern into segments, matching an escaped path, and the overlap
  test. The theorem at the end is that the overlap test is exact.
\<close>

section \<open>Patterns\<close>

datatype segment_kind = Literal | Param | CatchAll

record documentSegment =
  ds_value :: string
  ds_kind :: segment_kind

definition documentLetter :: "char \<Rightarrow> bool" where
  "documentLetter c = (is_lower c \<or> is_upper c)"

definition literal_char :: "char \<Rightarrow> bool" where
  "literal_char c = (documentLetter c \<or> is_digit c \<or> c \<in> set ''._~-'')"

definition name_char :: "char \<Rightarrow> bool" where
  "name_char c = (documentLetter c \<or> is_digit c \<or> c = CHR ''_'')"

text \<open>The loop of \<^verbatim>\<open>parseDocumentPath\<close>; \<open>None\<close> is \<^verbatim>\<open>bad()\<close>.\<close>

fun parse_parts :: "string list \<Rightarrow> string list \<Rightarrow> documentSegment list option" where
  "parse_parts names [] = Some []"
| "parse_parts names (part # parts) =
     (if part = '''' \<or> part = ''.'' \<or> part = ''..'' then None
      else if hd part = CHR '':'' \<or> hd part = CHR ''*'' then
        (let name = tl part in
         if name = '''' \<or> \<not> documentLetter (hd name) \<or> name \<in> set names \<or> (hd part = CHR ''*'' \<and> parts \<noteq> [])
         then None
         else if \<not> list_all name_char (tl name) then None
         else map_option ((#) \<lparr>ds_value = name, ds_kind = (if hd part = CHR '':'' then Param else CatchAll)\<rparr>)
                (parse_parts (name # names) parts))
      else if \<not> list_all literal_char part then None
      else map_option ((#) \<lparr>ds_value = part, ds_kind = Literal\<rparr>) (parse_parts names parts))"

definition parseDocumentPath :: "string \<Rightarrow> documentSegment list option" where
  "parseDocumentPath pattern =
     (if \<not> HasPrefix pattern ''/'' \<or> pattern = ''/'' then None
      else parse_parts [] (split_on (CHR ''/'') (tl pattern)))"

definition ValidateDocumentPath :: "(string \<Rightarrow> string) \<Rightarrow> string \<Rightarrow> string option" where
  "ValidateDocumentPath qt pattern =
     (case parseDocumentPath pattern of
        None \<Rightarrow> Some (''invalid document path '' @ qt pattern)
      | Some _ \<Rightarrow> None)"

section \<open>Matching\<close>

definition decode_part :: "string \<Rightarrow> string option" where
  "decode_part part =
     (case PathUnescape part of
        None \<Rightarrow> None
      | Some d \<Rightarrow>
          if d = '''' \<or> d = ''.'' \<or> d = ''..'' \<or> \<not> ValidString d \<or> ContainsAny d [CHR ''/'', CHR 0x5C] \<or> has_control d
          then None else Some d)"

fun decode_parts :: "string list \<Rightarrow> string list option" where
  "decode_parts [] = Some []"
| "decode_parts (p # ps) =
     (case decode_part p of None \<Rightarrow> None | Some d \<Rightarrow> map_option ((#) d) (decode_parts ps))"

fun bind_params ::
  "(string, string) amap \<Rightarrow> documentSegment list \<Rightarrow> string list \<Rightarrow> (string, string) amap option" where
  "bind_params params [] parts = Some params"
| "bind_params params (s # segs) [] = None"
| "bind_params params (s # segs) (p # parts) =
     (case ds_kind s of
        Param \<Rightarrow> bind_params (AList.update (ds_value s) p params) segs parts
      | CatchAll \<Rightarrow> bind_params (AList.update (ds_value s) (join_on (CHR ''/'') (p # parts)) params) segs parts
      | Literal \<Rightarrow> if ds_value s \<noteq> p then None else bind_params params segs parts)"

definition MatchDocumentPath :: "string \<Rightarrow> string \<Rightarrow> (string, string) amap option" where
  "MatchDocumentPath pattern escapedPath =
     (case parseDocumentPath pattern of
        None \<Rightarrow> None
      | Some segs \<Rightarrow>
          if \<not> HasPrefix escapedPath ''/'' \<or> ContainsAny escapedPath [CHR ''?'', CHR 0x23, CHR 0x5C] then None
          else
            (let parts = split_on (CHR ''/'') (tl escapedPath) in
             if length parts < length segs \<or> (ds_kind (last segs) \<noteq> CatchAll \<and> length parts \<noteq> length segs)
             then None
             else case decode_parts parts of None \<Rightarrow> None | Some ds \<Rightarrow> bind_params [] segs ds))"

section \<open>Overlap\<close>

fun overlap_loop :: "documentSegment list \<Rightarrow> documentSegment list \<Rightarrow> bool" where
  "overlap_loop (x # left) (y # right) =
     (if ds_kind x = CatchAll \<or> ds_kind y = CatchAll then True
      else if ds_kind x = Literal \<and> ds_kind y = Literal \<and> ds_value x \<noteq> ds_value y then False
      else overlap_loop left right)"
| "overlap_loop _ _ = True"

definition overlap_segments :: "documentSegment list \<Rightarrow> documentSegment list \<Rightarrow> bool" where
  "overlap_segments left right =
     (if ds_kind (last left) \<noteq> CatchAll \<and> length left < length right \<or>
         ds_kind (last right) \<noteq> CatchAll \<and> length right < length left then False
      else overlap_loop left right)"

text \<open>\<open>None\<close> is the error for an invalid pattern.\<close>

definition DocumentPathsOverlap :: "string \<Rightarrow> string \<Rightarrow> bool option" where
  "DocumentPathsOverlap a b =
     (case parseDocumentPath a of
        None \<Rightarrow> None
      | Some left \<Rightarrow>
          (case parseDocumentPath b of None \<Rightarrow> None | Some right \<Rightarrow> Some (overlap_segments left right)))"

section \<open>What a pattern matches\<close>

fun seg_match :: "documentSegment list \<Rightarrow> string list \<Rightarrow> bool" where
  "seg_match [] ps = (ps = [])"
| "seg_match (s # segs) ps =
     (case ds_kind s of
        CatchAll \<Rightarrow> ps \<noteq> []
      | Param \<Rightarrow> ps \<noteq> [] \<and> seg_match segs (tl ps)
      | Literal \<Rightarrow> ps \<noteq> [] \<and> hd ps = ds_value s \<and> seg_match segs (tl ps))"

text \<open>A segment that a path can carry unescaped.\<close>

definition clean :: "string \<Rightarrow> bool" where
  "clean d \<longleftrightarrow> d \<notin> {'''', ''.'', ''..''} \<and> list_all literal_char d"

fun segs_ok :: "documentSegment list \<Rightarrow> bool" where
  "segs_ok [] = True"
| "segs_ok (s # segs) =
     ((ds_kind s = CatchAll \<longrightarrow> segs = []) \<and> (ds_kind s = Literal \<longrightarrow> clean (ds_value s)) \<and> segs_ok segs)"

lemma parse_parts_ok: "parse_parts names parts = Some segs \<Longrightarrow> segs_ok segs \<and> (segs = [] \<longleftrightarrow> parts = [])"
  by (induction names parts arbitrary: segs rule: parse_parts.induct)
    (auto simp: Let_def clean_def split: if_splits)

lemma parsed_ok: "parseDocumentPath pat = Some segs \<Longrightarrow> segs_ok segs \<and> segs \<noteq> []"
  by (auto simp: parseDocumentPath_def split: if_splits dest: parse_parts_ok)

lemma bind_params_match:
  assumes "segs_ok segs" and "segs \<noteq> []"
    and "\<not> (length ps < length segs \<or> (ds_kind (last segs) \<noteq> CatchAll \<and> length ps \<noteq> length segs))"
  shows "bind_params params segs ps \<noteq> None \<longleftrightarrow> seg_match segs ps"
  using assms
proof (induction params segs ps rule: bind_params.induct)
  case (3 params s segs p ps)
  show ?case
  proof (cases "segs = []")
    case True
    with "3.prems" show ?thesis by (auto split: segment_kind.split)
  next
    case False
    with "3.prems" have "ds_kind s \<noteq> CatchAll" by auto
    with "3" False show ?thesis by (auto split: segment_kind.split)
  qed
qed auto

lemma seg_match_length:
  "segs_ok segs \<Longrightarrow> segs \<noteq> [] \<Longrightarrow> seg_match segs ps \<Longrightarrow>
     \<not> (length ps < length segs \<or> (ds_kind (last segs) \<noteq> CatchAll \<and> length ps \<noteq> length segs))"
proof (induction segs arbitrary: ps)
  case (Cons s segs)
  then show ?case
  proof (cases "segs = []")
    case False
    with Cons.prems have k: "ds_kind s \<noteq> CatchAll" "ps \<noteq> []" "seg_match segs (tl ps)"
      by (auto split: segment_kind.splits)
    with Cons.IH [of "tl ps"] Cons.prems(1) False show ?thesis by (cases ps) auto
  next
    case True
    with Cons.prems show ?thesis by (cases ps) (auto split: segment_kind.splits)
  qed
qed simp

lemma decode_parts_length: "decode_parts ps = Some ds \<Longrightarrow> length ds = length ps"
  by (induction ps arbitrary: ds) (auto split: option.splits)

lemma MatchDocumentPath_iff:
  "MatchDocumentPath pat path \<noteq> None \<longleftrightarrow>
     (\<exists>segs ds. parseDocumentPath pat = Some segs \<and> HasPrefix path ''/'' \<and>
        \<not> ContainsAny path [CHR ''?'', CHR 0x23, CHR 0x5C] \<and>
        decode_parts (split_on (CHR ''/'') (tl path)) = Some ds \<and> seg_match segs ds)"
proof (cases "parseDocumentPath pat")
  case (Some segs)
  note ok = parsed_ok [OF Some]
  let ?ps = "split_on (CHR ''/'') (tl path)"
  show ?thesis
  proof (cases "decode_parts ?ps")
    case ds: (Some ds)
    note len = decode_parts_length [OF ds]
    show ?thesis
      using Some ds bind_params_match [of segs ds "[]"] seg_match_length [of segs ds] ok
      unfolding MatchDocumentPath_def Let_def len by auto
  qed (use Some in \<open>auto simp: MatchDocumentPath_def Let_def\<close>)
qed (simp add: MatchDocumentPath_def)

section \<open>The overlap test\<close>

fun joint :: "documentSegment list \<Rightarrow> documentSegment list \<Rightarrow> bool" where
  "joint [] right = (right = [])"
| "joint (x # left) [] = False"
| "joint (x # left) (y # right) =
     (if ds_kind x = CatchAll \<or> ds_kind y = CatchAll then True
      else \<not> (ds_kind x = Literal \<and> ds_kind y = Literal \<and> ds_value x \<noteq> ds_value y) \<and> joint left right)"

lemma overlap_joint:
  "segs_ok left \<Longrightarrow> segs_ok right \<Longrightarrow> left \<noteq> [] \<Longrightarrow> right \<noteq> [] \<Longrightarrow> overlap_segments left right = joint left right"
proof (induction left right rule: joint.induct)
  case (3 x left y right)
  show ?case
  proof (cases "ds_kind x = CatchAll \<or> ds_kind y = CatchAll")
    case True
    with "3.prems" show ?thesis by (auto simp: overlap_segments_def)
  next
    case False
    show ?thesis
    proof (cases "left = [] \<or> right = []")
      case True
      with False show ?thesis by (cases left; cases right) (auto simp: overlap_segments_def)
    next
      case b: False
      with "3.IH" [OF False] "3.prems" have "overlap_segments left right = joint left right" by simp
      with False b show ?thesis by (auto simp: overlap_segments_def split: if_splits)
    qed
  qed
qed simp_all

lemma joint_sound: "segs_ok left \<Longrightarrow> segs_ok right \<Longrightarrow> seg_match left ds \<Longrightarrow> seg_match right ds \<Longrightarrow> joint left right"
proof (induction left right arbitrary: ds rule: joint.induct)
  case (1 right)
  then show ?case by (cases right) (auto split: segment_kind.splits)
next
  case (3 x left y right)
  then show ?case by (cases ds) (auto split: segment_kind.splits if_splits)
qed (auto split: segment_kind.splits)

lemma clean_a: "clean ''a''"
  by (simp add: clean_def literal_char_def documentLetter_def is_lower_def)

lemma some_match: "segs_ok segs \<Longrightarrow> \<exists>ds. seg_match segs ds \<and> list_all clean ds"
proof (induction segs)
  case (Cons s segs)
  then obtain ds where ds: "seg_match segs ds" "list_all clean ds" by auto
  let ?d = "if ds_kind s = Literal then ds_value s else ''a''"
  have "seg_match (s # segs) (?d # ds)" using ds(1) by (auto split: segment_kind.split)
  moreover have "list_all clean (?d # ds)" using ds(2) Cons.prems clean_a by simp
  ultimately show ?case by blast
qed simp

lemma joint_complete:
  "segs_ok left \<Longrightarrow> segs_ok right \<Longrightarrow> joint left right \<Longrightarrow>
     \<exists>ds. seg_match left ds \<and> seg_match right ds \<and> list_all clean ds"
proof (induction left right rule: joint.induct)
  case (3 x left y right)
  have ne: "ds \<noteq> []" if "seg_match (z # zs) ds" for z zs ds
    using that by (auto split: segment_kind.splits)
  show ?case
  proof (cases "ds_kind x = CatchAll \<or> ds_kind y = CatchAll")
    case True
    have all: "seg_match (z # zs) ds" if "ds_kind z = CatchAll" "ds \<noteq> []" for z zs ds
      using that by simp
    obtain ds es where "seg_match (x # left) ds" "list_all clean ds" "seg_match (y # right) es" "list_all clean es"
      using some_match [OF "3.prems"(1)] some_match [OF "3.prems"(2)] by blast
    with True ne all show ?thesis by metis
  next
    case False
    with 3 obtain ds where ds: "seg_match left ds" "seg_match right ds" "list_all clean ds" by auto
    let ?d = "if ds_kind x = Literal then ds_value x else if ds_kind y = Literal then ds_value y else ''a''"
    have "seg_match (x # left) (?d # ds) \<and> seg_match (y # right) (?d # ds)"
      using ds "3.prems"(3) False by (auto split: segment_kind.split)
    moreover have "list_all clean (?d # ds)" using ds(3) "3.prems"(1,2) clean_a by auto
    ultimately show ?thesis by blast
  qed
qed auto

lemma literal_char_facts:
  assumes "literal_char c"
  shows "32 < code c \<and> code c < 127 \<and> c \<noteq> CHR ''%'' \<and> c \<noteq> CHR ''/'' \<and> c \<noteq> CHR 0x5C \<and> c \<noteq> CHR ''?'' \<and> c \<noteq> CHR 0x23"
  using assms by (auto simp: literal_char_def documentLetter_def is_lower_def is_upper_def is_digit_def)

lemma clean_facts:
  assumes "clean d"
  shows "plain_ascii d" "\<not> ContainsAny d [CHR ''/'', CHR 0x5C]" "CHR ''/'' \<notin> set d"
    "\<not> ContainsAny d [CHR ''?'', CHR 0x23, CHR 0x5C]"
  using assms by (auto simp: clean_def plain_ascii_def ContainsAny_def list_all_iff list_ex_iff dest!: literal_char_facts bspec)

lemma decode_clean: "list_all clean ds \<Longrightarrow> decode_parts ds = Some ds"
proof (induction ds)
  case (Cons d ds)
  then have d: "clean d" by simp
  have "decode_part d = Some d"
    using clean_facts [OF d] d
    by (auto simp: decode_part_def plain_unescape plain_valid plain_no_control clean_def)
  with Cons show ?case by simp
qed simp

lemma ContainsAny_join:
  "ContainsAny (join_on c ts) cs \<Longrightarrow> c \<notin> set cs \<Longrightarrow> \<exists>t \<in> set ts. ContainsAny t cs"
  by (induction c ts rule: join_on.induct) (auto simp: ContainsAny_def)

lemma documents_overlap:
  "DocumentPathsOverlap a b = Some True \<longleftrightarrow>
     (\<exists>path. MatchDocumentPath a path \<noteq> None \<and> MatchDocumentPath b path \<noteq> None)"
proof (cases "\<exists>l r. parseDocumentPath a = Some l \<and> parseDocumentPath b = Some r")
  case True
  then obtain l r where p: "parseDocumentPath a = Some l" "parseDocumentPath b = Some r" by blast
  note ok = parsed_ok [OF p(1)] parsed_ok [OF p(2)]
  have o: "DocumentPathsOverlap a b = Some (joint l r)"
    using p ok by (simp add: DocumentPathsOverlap_def overlap_joint)
  have "\<exists>path. MatchDocumentPath a path \<noteq> None \<and> MatchDocumentPath b path \<noteq> None" if j: "joint l r"
  proof -
    obtain ds where ds: "seg_match l ds" "seg_match r ds" "list_all clean ds"
      using joint_complete ok j by blast
    let ?path = "CHR ''/'' # join_on (CHR ''/'') ds"
    have "ds \<noteq> []" using ds(1) ok by (cases l) (auto split: segment_kind.splits)
    then have "split_on (CHR ''/'') (tl ?path) = ds"
      using ds(3) clean_facts(3) by (simp add: split_join list_all_iff)
    moreover have "\<not> ContainsAny (join_on (CHR ''/'') ds) [CHR ''?'', CHR 0x23, CHR 0x5C]"
      using ds(3) clean_facts(4) by (auto simp: list_all_iff dest!: ContainsAny_join)
    then have "\<not> ContainsAny ?path [CHR ''?'', CHR 0x23, CHR 0x5C]" by (simp add: ContainsAny_def)
    ultimately have "MatchDocumentPath a ?path \<noteq> None" "MatchDocumentPath b ?path \<noteq> None"
      unfolding MatchDocumentPath_iff using p ds decode_clean [OF ds(3)] by (auto simp: HasPrefix_def)
    then show ?thesis by blast
  qed
  moreover have "joint l r" if "MatchDocumentPath a path \<noteq> None" "MatchDocumentPath b path \<noteq> None" for path
    using that p ok joint_sound unfolding MatchDocumentPath_iff by auto
  ultimately show ?thesis using o p by auto
qed (auto simp: DocumentPathsOverlap_def MatchDocumentPath_def split: option.splits)

section \<open>Properties\<close>

text \<open>The overlap test is exact: on two valid patterns \<open>DocumentPathsOverlap\<close> says yes exactly when some
  pathname is matched by both, and on an invalid one it is an error, never a claim of safety.\<close>

theorem document_overlap_exact:
  "(DocumentPathsOverlap a b = None \<longleftrightarrow> parseDocumentPath a = None \<or> parseDocumentPath b = None) \<and>
   (DocumentPathsOverlap a b = Some True \<longleftrightarrow>
      (\<exists>path. MatchDocumentPath a path \<noteq> None \<and> MatchDocumentPath b path \<noteq> None))"
  using documents_overlap [of a b] by (auto simp: DocumentPathsOverlap_def split: option.splits)

end
