(* ===== verification/Package_Rules.thy ===== *)
theory Package_Rules
  imports Points Document_Path
begin

text \<open>
  The rules of the manifest validator, \<^verbatim>\<open>src/v2/plugin/validate.go\<close>, about the package: its identity, kind,
  publisher, requirements, executables, served directories, document paths and public routes. A rule is a
  function from the manifest to what it reports.
\<close>

section \<open>Names\<close>

text \<open>\<open>None\<close> is acceptance, \<open>Some\<close> the message.\<close>

definition idSegment :: "string \<Rightarrow> string \<Rightarrow> string option" where
  "idSegment what str =
     (let s = TrimSpace str in
      if s = '''' then Some (what @ '' required'')
      else if ContainsAny s [CHR ''/'', CHR 0x5C, CHR '' ''] \<or> Contains s ''..'' then
        Some (what @ '' must be a single path segment'')
      else None)"

fun exact_names :: "(string \<Rightarrow> string) \<Rightarrow> string \<Rightarrow> string list \<Rightarrow> string list \<Rightarrow> string option" where
  "exact_names qt label seen [] = None"
| "exact_names qt label seen (v # vs) =
     (if v = '''' \<or> TrimSpace v \<noteq> v \<or> ContainsAny v [CHR ''*'', CHR ''?'', CHR 0x0D, CHR 0x0A, CHR 0x09, CHR '' ''] then
        Some (label @ '' must contain nonempty exact names'')
      else if v \<in> set seen then Some (label @ '' contains duplicate '' @ qt v)
      else exact_names qt label (v # seen) vs)"

definition exactNames :: "(string \<Rightarrow> string) \<Rightarrow> string \<Rightarrow> string list \<Rightarrow> string option" where
  "exactNames qt label values = exact_names qt label [] values"

definition safeSegment :: "string \<Rightarrow> bool" where
  "safeSegment s = (s \<noteq> '''' \<and> s \<noteq> ''.'' \<and> s \<noteq> ''..'' \<and> \<not> ContainsAny s [CHR ''/'', CHR 0x5C] \<and> \<not> Contains s ''..'')"

definition absolutePath :: "string \<Rightarrow> bool" where
  "absolutePath s =
     (if \<not> HasPrefix s ''/'' \<or> Contains s [CHR 0x5C] then False
      else \<not> list_ex (\<lambda>seg. seg = '''' \<or> seg = ''.'' \<or> seg = ''..'') (split_on (CHR ''/'') (Trim s ''/'')))"

definition reservedAlias :: "string \<Rightarrow> string" where
  "reservedAlias alias =
     (case find (\<lambda>p. alias = p \<or> HasPrefix alias (p @ ''/'')) ReservedAliasPrefixes of Some p \<Rightarrow> p | None \<Rightarrow> '''')"

section \<open>Identity and packaging\<close>

definition validateHead :: "(string \<Rightarrow> string) \<Rightarrow> Manifest \<Rightarrow> bool \<Rightarrow> Diagnostic list" where
  \<comment> \<open>\<^verbatim>\<open>Diagnostics\<close> up to the pricing\<close>
  "validateHead qt m requireVersion =
     (let i = TrimSpace (mf_ID m) in
      (if i = '''' then report qt ''BDP2001'' ''id'' []
       else if idSegment ''plugin id'' i \<noteq> None then report qt ''BDP2002'' ''id'' [] else []) @
      (if requireVersion \<and> TrimSpace (mf_Version m) = '''' then report qt ''BDP2003'' ''version'' [] else []))"

definition validatePricing :: "(string \<Rightarrow> string) \<Rightarrow> Manifest \<Rightarrow> Diagnostic list" where
  "validatePricing qt m =
     (case mf_Pricing m of None \<Rightarrow> []
      | Some p \<Rightarrow>
          (let model = ToLower (TrimSpace (pc_Model p)) in
           (if model \<notin> {''free'', ''trial'', ''paid''} then report qt ''BDP2010'' ''pricing.model'' [] else []) @
           (if (model = ''paid'' \<or> model = ''trial'') \<and> TrimSpace (pc_SKU p) = ''''
            then report qt ''BDP2011'' ''pricing.sku'' [FStr model] else []) @
           (if model = ''trial'' \<and> pc_TrialDays p < 0 then report qt ''BDP2012'' ''pricing.trialDays'' [] else [])))"

definition validateRole :: "(string \<Rightarrow> string) \<Rightarrow> Manifest \<Rightarrow> Diagnostic list" where
  "validateRole qt m =
     (if ToLower (TrimSpace (mf_Role m)) \<notin> {'''', RoleSystem, RoleExtension} then report qt ''BDP2020'' ''role'' [] else [])"

definition validateRequires :: "(string \<Rightarrow> string) \<Rightarrow> Manifest \<Rightarrow> Diagnostic list" where
  "validateRequires qt m =
     for_index (\<lambda>k req.
       let path = at_index ''requires'' k @ ''.id''; rid = TrimSpace (rq_ID req) in
       if rid = '''' then report qt ''BDP2030'' path []
       else
         (if idSegment ''requires.id'' rid \<noteq> None then report qt ''BDP2031'' path [] else []) @
         (if rid = TrimSpace (mf_ID m) then report qt ''BDP2032'' path [] else [])) (mf_Requires m)"

definition validateExecutables :: "(string \<Rightarrow> string) \<Rightarrow> Manifest \<Rightarrow> Diagnostic list" where
  "validateExecutables qt m =
     (let bin = TrimSpace (mf_Binary m); sock = TrimSpace (mf_Socket m) in
      (if mf_Spawn m \<and> (bin = '''' \<or> ContainsAny bin [CHR ''/'', CHR 0x5C] \<or> Contains bin ''..'')
       then report qt ''BDP2040'' ''binary'' [] else []) @
      (if sock \<noteq> '''' \<and> (ContainsAny sock [CHR ''/'', CHR 0x5C] \<or> Contains sock ''..'')
       then report qt ''BDP2041'' ''socket'' [] else []))"

definition validateTargets :: "(string \<Rightarrow> string) \<Rightarrow> Manifest \<Rightarrow> Diagnostic list" where
  "validateTargets qt m =
     for_index (\<lambda>k raw. let t = ToLower (TrimSpace raw) in
       if t \<noteq> TargetGateway \<and> t \<noteq> TargetVault then report qt ''BDP2021'' (at_index ''targets'' k) [FStr t] else [])
       (mf_Targets m)"

definition validatePointName ::
  "(string \<Rightarrow> string) \<Rightarrow> string \<Rightarrow> string \<Rightarrow> Publisher option \<Rightarrow> string \<Rightarrow> Diagnostic list" where
  "validatePointName qt path label publisher raw =
     (let name = TrimSpace raw in
      if name = '''' then report qt ''BDP2051'' path [FStr label]
      else if IsKnownPoint name then []
      else case SuggestPoint name of
        Some suggestion \<Rightarrow> report qt ''BDP2052'' path [FStr label, FStr name, FStr suggestion]
      | None \<Rightarrow>
          (case ValidateExtendsName qt publisher name of
             Some err \<Rightarrow> report qt ''BDP2053'' path [FStr label, FStr err]
           | None \<Rightarrow>
               if HasPrefix name HostPointNamespace
               then report qt ''BDP2054'' path [FStr label, FStr name, FStr (join_str '', '' (sort KnownPoints))]
               else []))"

definition validateSeams :: "(string \<Rightarrow> string) \<Rightarrow> Manifest \<Rightarrow> Diagnostic list" where
  \<comment> \<open>the loops over \<^verbatim>\<open>Extends\<close>, \<^verbatim>\<open>Implements\<close> and \<^verbatim>\<open>Nav\<close>\<close>
  "validateSeams qt m =
     for_index (\<lambda>k point.
       case ValidateExtendsName qt (mf_Publisher m) (TrimSpace (xp_Name point)) of None \<Rightarrow> []
       | Some err \<Rightarrow> report qt ''BDP2050'' (at_index ''extends'' k @ ''.name'') [FStr err]) (mf_Extends m) @
     for_index (\<lambda>k impl.
       validatePointName qt (at_index ''implements'' k @ ''.point'') ''implements'' (mf_Publisher m) (pv_Point impl))
       (mf_Implements m) @
     for_index (\<lambda>k n.
       case ValidateNavigation qt [n] of None \<Rightarrow> []
       | Some err \<Rightarrow> report qt ''BDP2180'' (at_index ''nav'' k) [FStr err]) (mf_Nav m)"

definition validateKind :: "(string \<Rightarrow> string) \<Rightarrow> Manifest \<Rightarrow> Diagnostic list" where
  "validateKind qt m =
     (let kind = ToLower (TrimSpace (mf_Kind m)) in
      if kind \<noteq> '''' \<and> kind \<notin> set Kinds then
        report qt ''BDP2200'' ''kind'' [FStr (mf_Kind m), FStr (join_str '', '' Kinds)]
      else
        (if mf_Spawn m then report qt ''BDP5003'' ''spawn'' [] else []) @
        (if kind = '''' then []
         else
           (if mf_Spawn m \<and> kind \<noteq> KindProcess then report qt ''BDP2201'' ''kind'' [FStr (mf_Kind m)] else []) @
           (if kind = KindFamily \<and> mf_Family m = None then report qt ''BDP2202'' ''kind'' [] else []) @
           (if kind \<noteq> KindFamily \<and> mf_Family m \<noteq> None then report qt ''BDP2203'' ''family'' [FStr (mf_Kind m)] else []) @
           (if kind \<noteq> KindProcess \<and> \<not> mf_Spawn m then
              (if TrimSpace (mf_Binary m) \<noteq> '''' then report qt ''BDP2204'' ''binary'' [FStr ''binary'', FStr kind] else []) @
              (if TrimSpace (mf_Socket m) \<noteq> '''' then report qt ''BDP2204'' ''socket'' [FStr ''socket'', FStr kind] else [])
            else [])))"

definition validateIdentity :: "(string \<Rightarrow> string) \<Rightarrow> Manifest \<Rightarrow> Diagnostic list" where
  "validateIdentity qt m =
     (case mf_Identity m of None \<Rightarrow> report qt ''BDP2210'' ''identity'' []
      | Some i \<Rightarrow>
          (let name = TrimSpace (mi_DisplayName i) in
           (if name = '''' then report qt ''BDP2211'' ''identity.displayName'' []
            else if name = TrimSpace (mf_ID m) then report qt ''BDP2212'' ''identity.displayName'' [FStr name]
            else []) @
           (if TrimSpace (mi_Description i) = '''' then report qt ''BDP2213'' ''identity.description'' [] else [])))"

definition validatePublisher :: "(string \<Rightarrow> string) \<Rightarrow> Manifest \<Rightarrow> Diagnostic list" where
  "validatePublisher qt m =
     (let kind = KindOrInferred m in
      case mf_Publisher m of
        None \<Rightarrow> if kind \<noteq> KindBuiltin \<and> kind \<in> set Kinds then report qt ''BDP2220'' ''publisher'' [FStr kind] else []
      | Some p \<Rightarrow>
          (if \<not> validPublisherID (TrimSpace (pb_ID p)) then report qt ''BDP2221'' ''publisher.id'' [FStr (pb_ID p)] else []) @
          (if TrimSpace (pb_KID p) \<noteq> '''' \<and> \<not> validKID (TrimSpace (pb_KID p))
           then report qt ''BDP2222'' ''publisher.kid'' [FStr (pb_KID p)] else []))"

definition static_entry ::
  "(string \<Rightarrow> string) \<Rightarrow> string list \<times> string list \<Rightarrow> nat \<Rightarrow> StaticMount \<Rightarrow> (string list \<times> string list) \<times> Diagnostic list" where
  "static_entry qt seen k s =
     (let dir = TrimSpace (stm_Dir s); mount = TrimSpace (stm_Mount s);
          dirPath = at_index ''static'' k @ ''.dir''; mountPath = at_index ''static'' k @ ''.mount'' in
      ((dir # fst seen, mount # snd seen),
       (if \<not> safeSegment dir then report qt ''BDP2230'' dirPath [FStr (stm_Dir s)]
        else if dir \<in> set (fst seen) then report qt ''BDP2232'' dirPath [FStr ''static[].dir'', FStr dir] else []) @
       (if \<not> safeSegment mount then report qt ''BDP2231'' mountPath [FStr (stm_Mount s)]
        else if mount \<in> set (snd seen) then report qt ''BDP2232'' mountPath [FStr ''static[].mount'', FStr mount] else [])))"

definition validateStatic :: "(string \<Rightarrow> string) \<Rightarrow> Manifest \<Rightarrow> Diagnostic list" where
  "validateStatic qt m = snd (for_state (static_entry qt) ([], []) 0 (mf_Static m))"

definition alias_entry :: "(string \<Rightarrow> string) \<Rightarrow> string list \<Rightarrow> nat \<Rightarrow> string \<Rightarrow> string list \<times> Diagnostic list" where
  "alias_entry qt seen k raw =
     (let path = at_index ''aliases'' k; alias = TrimSpace raw in
      if \<not> absolutePath alias then (seen, report qt ''BDP2240'' path [FStr raw])
      else
        (let normal = ''/'' @ Trim alias ''/''; reserved = reservedAlias normal in
         if reserved \<noteq> '''' then (seen, report qt ''BDP2241'' path [FStr raw, FStr reserved])
         else (normal # seen,
           if normal \<in> set seen then report qt ''BDP2232'' path [FStr ''aliases'', FStr normal] else [])))"

definition validateAliases :: "(string \<Rightarrow> string) \<Rightarrow> Manifest \<Rightarrow> Diagnostic list" where
  "validateAliases qt m = snd (for_state (alias_entry qt) [] 0 (mf_Aliases m))"

section \<open>Document paths and public routes\<close>

definition document_pattern ::
  "(string \<Rightarrow> string) \<Rightarrow> string \<Rightarrow> string list \<Rightarrow> nat \<Rightarrow> string \<Rightarrow> string list \<times> Diagnostic list" where
  "document_pattern qt path claimed k pattern =
     (let pp = at_index (path @ ''.documentPaths'') k in
      if ValidateDocumentPath qt pattern \<noteq> None then (claimed, report qt ''BDP2063'' pp [FStr pattern])
      else
        (claimed @ [pattern],
         concat (map (\<lambda>previous. if DocumentPathsOverlap previous pattern = Some True
                                 then report qt ''BDP2064'' pp [FStr previous, FStr pattern] else []) claimed)))"

definition document_panel_ok :: "Manifest \<Rightarrow> PanelSpec \<Rightarrow> bool" where
  "document_panel_ok m panel =
     (\<not> (pn_ID panel \<noteq> TrimSpace (pn_ID panel) \<or>
         length (filter (\<lambda>p. pn_ID p = pn_ID panel) (mf_Panels m)) \<noteq> 1 \<or> TrimSpace (pn_URL panel) = ''''))"

definition negotiates_documents :: "Manifest \<Rightarrow> bool" where
  "negotiates_documents m =
     (case mf_Protocol m of None \<Rightarrow> False
      | Some p \<Rightarrow> \<not> (pr_Major p = 0 \<or> FeatureDocumentPaths \<notin> set (pr_Required p)))"

text \<open>The loop over the panels; it returns at the first claim without the negotiated feature.\<close>

fun document_panels ::
  "(string \<Rightarrow> string) \<Rightarrow> Manifest \<Rightarrow> string list \<Rightarrow> nat \<Rightarrow> PanelSpec list \<Rightarrow> Diagnostic list" where
  "document_panels qt m claimed k [] = []"
| "document_panels qt m claimed k (panel # panels) =
     (let path = at_index ''panels'' k in
      if length (pn_DocumentPaths panel) = 0 then document_panels qt m claimed (Suc k) panels
      else if \<not> negotiates_documents m then report qt ''BDP2060'' (path @ ''.documentPaths'') [FStr FeatureDocumentPaths]
      else case idSegment ''panel.id'' (pn_ID panel) of
        Some msg \<Rightarrow> report qt ''BDP2061'' (path @ ''.id'') [FStr msg] @ document_panels qt m claimed (Suc k) panels
      | None \<Rightarrow>
          if \<not> document_panel_ok m panel then
            report qt ''BDP2062'' path [] @ document_panels qt m claimed (Suc k) panels
          else
            (let (claimed', ds) = for_state (document_pattern qt path) claimed 0 (pn_DocumentPaths panel)
             in ds @ document_panels qt m claimed' (Suc k) panels))"

definition validateDocumentPaths :: "(string \<Rightarrow> string) \<Rightarrow> Manifest \<Rightarrow> Diagnostic list" where
  "validateDocumentPaths qt m = document_panels qt m [] 0 (mf_Panels m)"

definition public_route ::
  "(string \<Rightarrow> string) \<Rightarrow> string list \<Rightarrow> string list \<Rightarrow> nat \<Rightarrow> string \<Rightarrow> string list \<times> Diagnostic list" where
  "public_route qt declared seen k raw =
     (let path = at_index ''publicRoutes'' k; route = TrimSpace raw in
      if route = '''' then (seen, report qt ''BDP2070'' path [])
      else (route # seen,
        (if route \<in> set seen then report qt ''BDP2071'' path [FStr route] else []) @
        (if route \<notin> set declared then report qt ''BDP2072'' path [FStr route] else [])))"

definition validatePublicRoutes :: "(string \<Rightarrow> string) \<Rightarrow> Manifest \<Rightarrow> Diagnostic list" where
  "validatePublicRoutes qt m =
     (if length (mf_PublicRoutes m) = 0 then []
      else snd (for_state (public_route qt (map TrimSpace (mf_Routes m))) [] 0 (mf_PublicRoutes m)))"

end
