(* ===== verification/Authority_Rules.thy ===== *)
theory Authority_Rules
  imports Package_Rules
begin

text \<open>
  The rules of \<^verbatim>\<open>src/v2/plugin/validate.go\<close> about authority: the subject patterns a manifest asks for, the
  endpoints it serves, the storage it has provisioned, the substrate capabilities it needs and the side
  effects it declares.
\<close>

section \<open>Overlap of patterns\<close>

fun overlap_toks :: "string list \<Rightarrow> string list \<Rightarrow> bool" where
  "overlap_toks [] bt = (bt = [])"
| "overlap_toks (x # at) [] = False"
| "overlap_toks (x # at) (y # bt) =
     (if x = ''>'' \<or> y = ''>'' then True
      else if x = ''*'' \<or> y = ''*'' then overlap_toks at bt
      else if x \<noteq> y then False
      else overlap_toks at bt)"

definition patternsOverlap :: "Pattern \<Rightarrow> Pattern \<Rightarrow> bool" where
  "patternsOverlap a b = overlap_toks (Tokens a) (Tokens b)"

section \<open>Subject patterns\<close>

fun reserved_tokens ::
  "(string \<Rightarrow> string) \<Rightarrow> string \<Rightarrow> string \<Rightarrow> Pattern \<Rightarrow> nat \<Rightarrow> string list \<Rightarrow> Diagnostic list" where
  "reserved_tokens qt path label p k [] = []"
| "reserved_tokens qt path label p k (tok # toks) =
     (if IsReservedToken tok then report qt ''BDP2112'' path [FStr label, FStr p, FStr tok]
      else if k = 0 \<and> tok = MeshPrefix then report qt ''BDP2113'' path [FStr label, FStr p, FStr (MeshPrefix @ ''.'')]
      else reserved_tokens qt path label p (Suc k) toks)"

definition refuseReservedTokens :: "(string \<Rightarrow> string) \<Rightarrow> string \<Rightarrow> string \<Rightarrow> Pattern \<Rightarrow> Diagnostic list" where
  \<comment> \<open>the result of the Go function is that the list is not empty\<close>
  "refuseReservedTokens qt path label p = reserved_tokens qt path label p 0 (Tokens p)"

definition hostCommands :: Pattern where
  "hostCommands = ''cmd.gateway.>''"

definition hostProviders :: "Pattern list" where
  "hostProviders = [''svc.*.ai.decision.>'', ''svc.*.project.tasks.>'', ''svc.*.project.knowledge.>'']"

definition check_pattern :: "(string \<Rightarrow> string) \<Rightarrow> string \<Rightarrow> string \<Rightarrow> string \<Rightarrow> Pattern \<Rightarrow> Diagnostic list" where
  \<comment> \<open>what is asked of a pattern that parses and has no reserved token\<close>
  "check_pattern qt i label path p =
     (if label \<noteq> ''permissions.request'' \<and> patternsOverlap hostCommands p
      then report qt ''BDP2115'' path [FStr label, FStr p, FStr hostCommands] else []) @
     (case find (\<lambda>provider. patternsOverlap provider p \<and>
                   (label \<noteq> ''permissions.subscribe'' \<or> \<not> Covers (''svc.'' @ i @ ''.>'') p)) hostProviders of
        None \<Rightarrow> []
      | Some provider \<Rightarrow> report qt ''BDP2115'' path [FStr label, FStr p, FStr provider]) @
     concat (map (\<lambda>g. if Covers g p then report qt ''BDP2114'' path [FStr label, FStr p] else []) (ownNamespacePatterns i)) @
     (case find (\<lambda>d. patternsOverlap d p) PermanentlyIneligible of
        None \<Rightarrow> []
      | Some d \<Rightarrow> report qt ''BDP2115'' path [FStr label, FStr p, FStr d])"

definition permission_entry ::
  "(string \<Rightarrow> string) \<Rightarrow> string \<Rightarrow> string \<Rightarrow> Pattern list \<Rightarrow> nat \<Rightarrow> Pattern \<Rightarrow> Pattern list \<times> Diagnostic list" where
  "permission_entry qt i label seen k p =
     (let path = at_index label k; reserved = refuseReservedTokens qt path label p in
      (p # seen,
       (if p \<in> set seen then report qt ''BDP2110'' path [FStr label, FStr p] else []) @
       (case ParsePattern p of
          Inl err \<Rightarrow> report qt ''BDP2111'' path [FStr label, FStr (parseError_Error err)]
        | Inr _ \<Rightarrow> if reserved \<noteq> [] then reserved else check_pattern qt i label path p)))"

definition validateSubjectPatterns :: "(string \<Rightarrow> string) \<Rightarrow> Manifest \<Rightarrow> Diagnostic list" where
  "validateSubjectPatterns qt m =
     (let i = TrimSpace (mf_ID m); perms = mf_Permissions m;
          check = (\<lambda>label ps. snd (for_state (permission_entry qt i label) [] 0 ps)) in
      (if i = ''gateway'' then
         report qt ''BDP2004'' ''id'' [FStr (mf_ID m), FStr ''cmd.gateway.>'', FStr ''cmd.gateway.>''] else []) @
      concat (map (\<lambda>g. case find (\<lambda>d. patternsOverlap d g) PermanentlyIneligible of
                         None \<Rightarrow> []
                       | Some d \<Rightarrow> report qt ''BDP2004'' ''id'' [FStr (mf_ID m), FStr g, FStr d])
               (ownNamespacePatterns i)) @
      check ''permissions.publish'' (pm_Publish perms) @
      check ''permissions.subscribe'' (pm_Subscribe perms) @
      check ''permissions.request'' (pm_Request perms))"

section \<open>Services\<close>

definition endpoint_entry ::
  "(string \<Rightarrow> string) \<Rightarrow> Manifest \<Rightarrow> nat \<Rightarrow> string \<Rightarrow> string list \<Rightarrow> nat \<Rightarrow> EndpointDecl \<Rightarrow> string list \<times> Diagnostic list" where
  "endpoint_entry qt m si name seen ei ep =
     (let i = TrimSpace (mf_ID m); svcPrefix = ''svc.'' @ i @ ''.''; cmdPrefix = ''cmd.'' @ i @ ''.'';
          epPath = at_index (at_index ''serves'' si @ ''.endpoints'') ei; epName = TrimSpace (ed_Name ep);
          label = ''serves '' @ name @ ''.'' @ epName; path = epPath @ ''.subject'';
          reserved = refuseReservedTokens qt path label (ed_Subject ep) in
      if epName = '''' then (seen, report qt ''BDP2122'' (epPath @ ''.name'') [FStr name])
      else (epName # seen,
        (if epName \<in> set seen then report qt ''BDP2123'' (epPath @ ''.name'') [FStr name, FStr epName] else []) @
        (case ParseSubject (ed_Subject ep) of
           Inl err \<Rightarrow> report qt ''BDP2111'' path [FStr label, FStr (parseError_Error err)]
         | Inr _ \<Rightarrow>
             if reserved \<noteq> [] then reserved
             else if \<not> (HasPrefix (ed_Subject ep) svcPrefix \<or> HasPrefix (ed_Subject ep) cmdPrefix) then
               report qt ''BDP2124'' path [FStr name, FStr epName, FStr (ed_Subject ep), FStr svcPrefix, FStr cmdPrefix]
             else []) @
        (if TrimSpace (ed_Point ep) = '''' then []
         else validatePointName qt (epPath @ ''.point'') label (mf_Publisher m) (ed_Point ep))))"

definition service_entry ::
  "(string \<Rightarrow> string) \<Rightarrow> Manifest \<Rightarrow> string list \<Rightarrow> nat \<Rightarrow> ServiceDecl \<Rightarrow> string list \<times> Diagnostic list" where
  "service_entry qt m seen si svc =
     (let name = TrimSpace (sd_SvcName svc); path = at_index ''serves'' si @ ''.name'' in
      if name = '''' then (seen, report qt ''BDP2120'' path [])
      else (name # seen,
        (if name \<in> set seen then report qt ''BDP2121'' path [FStr name] else []) @
        snd (for_state (endpoint_entry qt m si name) [] 0 (sd_Endpoints svc))))"

definition validateServes :: "(string \<Rightarrow> string) \<Rightarrow> Manifest \<Rightarrow> Diagnostic list" where
  "validateServes qt m = snd (for_state (service_entry qt m) [] 0 (mf_Serves m))"

section \<open>Storage\<close>

definition stream_subject :: "(string \<Rightarrow> string) \<Rightarrow> string \<Rightarrow> string \<Rightarrow> nat \<Rightarrow> Pattern \<Rightarrow> Diagnostic list" where
  "stream_subject qt path name j subject =
     (let sp = at_index (path @ ''.subjects'') j; label = ''streams '' @ name in
      case ParsePattern subject of
        Inl err \<Rightarrow> report qt ''BDP2111'' sp [FStr label, FStr (parseError_Error err)]
      | Inr _ \<Rightarrow> refuseReservedTokens qt sp label subject)"

definition stream_entry ::
  "(string \<Rightarrow> string) \<Rightarrow> string list \<Rightarrow> nat \<Rightarrow> StreamDecl \<Rightarrow> string list \<times> Diagnostic list" where
  "stream_entry qt seen k s =
     (let path = at_index ''streams'' k; name = TrimSpace (std_Name s) in
      if name = '''' then (seen, report qt ''BDP2130'' (path @ ''.name'') [])
      else (name # seen,
        (if name \<in> set seen then report qt ''BDP2131'' (path @ ''.name'') [FStr name] else []) @
        (if std_MaxBytes s \<le> 0 then report qt ''BDP2132'' (path @ ''.maxBytes'') [FStr name] else []) @
        (if std_MaxAgeSeconds s \<le> 0 then report qt ''BDP2133'' (path @ ''.maxAgeSeconds'') [FStr name] else []) @
        (if std_MaxMsgs s < 0 then report qt ''BDP2134'' (path @ ''.maxMsgs'') [FStr name] else []) @
        for_index (stream_subject qt path name) (std_Subjects s)))"

definition kv_entry :: "(string \<Rightarrow> string) \<Rightarrow> string list \<Rightarrow> nat \<Rightarrow> KVDecl \<Rightarrow> string list \<times> Diagnostic list" where
  "kv_entry qt seen k b =
     (let path = at_index ''kv'' k; name = TrimSpace (kd_Name b) in
      if name = '''' then (seen, report qt ''BDP2135'' (path @ ''.name'') [])
      else (name # seen,
        (if name \<in> set seen then report qt ''BDP2136'' (path @ ''.name'') [FStr name] else []) @
        (if kd_MaxBytes b < 0 \<or> kd_History b < 0 then report qt ''BDP2137'' path [FStr name] else [])))"

definition object_entry :: "(string \<Rightarrow> string) \<Rightarrow> string list \<Rightarrow> nat \<Rightarrow> ObjectDecl \<Rightarrow> string list \<times> Diagnostic list" where
  "object_entry qt seen k b =
     (let path = at_index ''objects'' k; name = TrimSpace (od_Name b) in
      if name = '''' then (seen, report qt ''BDP2138'' (path @ ''.name'') [])
      else (name # seen,
        (if name \<in> set seen then report qt ''BDP2139'' (path @ ''.name'') [FStr name] else []) @
        (if od_MaxBytes b < 0 then report qt ''BDP2140'' (path @ ''.maxBytes'') [FStr name] else [])))"

definition validateAssets :: "(string \<Rightarrow> string) \<Rightarrow> Manifest \<Rightarrow> Diagnostic list" where
  "validateAssets qt m =
     snd (for_state (stream_entry qt) [] 0 (mf_Streams m)) @
     snd (for_state (kv_entry qt) [] 0 (mf_KV m)) @
     snd (for_state (object_entry qt) [] 0 (mf_Objects m))"

section \<open>Capabilities\<close>

definition capability_entry :: "(string \<Rightarrow> string) \<Rightarrow> string list \<Rightarrow> nat \<Rightarrow> string \<Rightarrow> string list \<times> Diagnostic list" where
  "capability_entry qt seen k raw =
     (let path = at_index ''capabilities'' k; i = TrimSpace raw in
      if i = '''' then (seen, report qt ''BDP2172'' path [])
      else (i # seen,
        (if i \<in> set seen then report qt ''BDP2173'' path [FStr i] else []) @
        (if \<not> knownCapability i then report qt ''BDP2174'' path [FStr i, FStr (join_str '' '' CapabilityIDs)] else [])))"

definition validateCapabilities :: "(string \<Rightarrow> string) \<Rightarrow> Manifest \<Rightarrow> Diagnostic list" where
  "validateCapabilities qt m = snd (for_state (capability_entry qt) [] 0 (mf_Capabilities m))"

definition need_entry :: "(string \<Rightarrow> string) \<Rightarrow> string list \<Rightarrow> nat \<Rightarrow> string \<Rightarrow> string list \<times> Diagnostic list" where
  "need_entry qt seen k raw =
     (let path = at_index ''needs'' k; need = TrimSpace raw in
      if need = '''' then (seen, report qt ''BDP2150'' path [])
      else (need # seen,
        (if need \<in> set seen then report qt ''BDP2151'' path [FStr need] else []) @
        (if need \<notin> set CapabilityNames then report qt ''BDP2152'' path [FStr need, FStr (join_str '' '' CapabilityNames)] else [])))"

definition validateNeeds :: "(string \<Rightarrow> string) \<Rightarrow> Manifest \<Rightarrow> Diagnostic list" where
  "validateNeeds qt m = snd (for_state (need_entry qt) [] 0 (mf_Needs m))"

section \<open>Overlap is a common subject\<close>

lemma overlap_toks_complete: "match_toks p s \<Longrightarrow> match_toks q s \<Longrightarrow> overlap_toks p q"
proof (induction p q arbitrary: s rule: overlap_toks.induct)
  case (1 bt)
  then show ?case by (simp add: match_toks_Nil_right)
next
  case (2 x at)
  then show ?case by (auto split: list.splits if_splits)
next
  case (3 x at y bt)
  then show ?case by (cases s) (auto split: if_splits)
qed

text \<open>A common instance of two patterns uses their own tokens and one more.\<close>

lemma overlap_toks_sound:
  assumes "overlap_toks p q" and "gt_last p" and "gt_last q"
  shows "\<exists>s. match_toks p s \<and> match_toks q s \<and> set s \<subseteq> insert ''x'' (set p \<union> set q)"
  using assms
proof (induction p q rule: overlap_toks.induct)
  case (1 bt)
  then show ?case by (auto intro: exI [of _ "[]"])
next
  case (3 x at y bt)
  have inst: "set (instance_of ''x'' r) \<subseteq> insert ''x'' (set r)" for r by (auto simp: instance_of_def)
  have ne: "instance_of ''x'' (z # r) \<noteq> []" for z r by (simp add: instance_of_def)
  show ?case
  proof (cases "x = ''>'' \<or> y = ''>''")
    case True
    let ?r = "if x = ''>'' then y # bt else x # at"
    let ?s = "instance_of ''x'' ?r"
    have "match_toks ?r ?s" using "3.prems" match_instance by presburger
    moreover have "?s \<noteq> []" using ne by simp
    moreover have tail: "match_toks (''>'' # r) s \<longleftrightarrow> s \<noteq> []" for r s by simp
    ultimately have "match_toks (x # at) ?s" "match_toks (y # bt) ?s"
      using True by (cases "x = ''>''"; simp add: tail del: match_toks.simps)+
    moreover have "set ?s \<subseteq> insert ''x'' (set (x # at) \<union> set (y # bt))" using inst [of ?r] by (auto split: if_splits)
    ultimately show ?thesis by blast
  next
    case False
    then have rest: "overlap_toks at bt" "x = ''*'' \<or> y = ''*'' \<or> x = y" "gt_last at" "gt_last bt"
      using "3.prems" gt_last_Cons by (auto split: if_splits)
    then obtain s where s: "match_toks at s" "match_toks bt s" "set s \<subseteq> insert ''x'' (set at \<union> set bt)"
      using "3.IH" False by blast
    let ?t = "if x \<noteq> ''*'' then x else if y \<noteq> ''*'' then y else ''x''"
    have "match_toks (x # at) (?t # s) \<and> match_toks (y # bt) (?t # s)" using s rest False by auto
    moreover have "set (?t # s) \<subseteq> insert ''x'' (set (x # at) \<union> set (y # bt))" using s(3) by auto
    ultimately show ?thesis by blast
  qed
qed simp

lemma patternsOverlap_complete: "Matches a s \<Longrightarrow> Matches b s \<Longrightarrow> patternsOverlap a b"
  unfolding Matches_def patternsOverlap_def by (rule overlap_toks_complete)

section \<open>Accepted reports\<close>

lemma accepted_reserved: "accepted (reserved_tokens qt path label p k toks) \<longleftrightarrow> reserved_tokens qt path label p k toks = []"
  by (induction toks arbitrary: k) (auto simp: accepts warning_codes_are)

lemma accepted_find:
  "c \<notin> set warning_codes \<Longrightarrow>
     accepted (case find P xs of None \<Rightarrow> [] | Some x \<Rightarrow> report qt c path (f x)) \<longleftrightarrow> (\<forall>x \<in> set xs. \<not> P x)"
  by (auto simp: accepts find_None_iff split: option.split) (metis find_None_iff not_Some_eq)

lemma accepted_check_pattern:
  assumes "accepted (check_pattern qt i label path p)"
  shows "(label = ''permissions.request'' \<or> \<not> patternsOverlap hostCommands p) \<and>
    (\<forall>g \<in> set (ownNamespacePatterns i). \<not> Covers g p) \<and>
    (\<forall>h \<in> set hostProviders. \<not> patternsOverlap h p \<or> label = ''permissions.subscribe'' \<and> Covers (''svc.'' @ i @ ''.>'') p) \<and>
    (\<forall>d \<in> set PermanentlyIneligible. \<not> patternsOverlap d p)"
  using assms unfolding check_pattern_def
  by (simp add: accepts accepted_find warning_codes_are split: if_splits)

lemma accepted_permission:
  assumes "accepted (snd (for_state (permission_entry qt i label) seen k ps))" and "p \<in> set ps"
  shows "in_grammar True p \<and> (\<exists>path. accepted (check_pattern qt i label path p))"
proof -
  obtain s j where "accepted (snd (permission_entry qt i label s j p))"
    using accepted_for_state [OF assms] by blast
  then show ?thesis
    by (auto simp: permission_entry_def Let_def accepts warning_codes_are refuseReservedTokens_def accepted_reserved
        split: sum.splits if_splits)
qed

lemma accepted_endpoint:
  assumes "accepted (snd (endpoint_entry qt m si name seen ei ep))"
  shows "in_grammar False (ed_Subject ep) \<and>
    (prefix (''svc.'' @ TrimSpace (mf_ID m) @ ''.'') (ed_Subject ep) \<or>
     prefix (''cmd.'' @ TrimSpace (mf_ID m) @ ''.'') (ed_Subject ep))"
  using assms
  by (auto simp: endpoint_entry_def Let_def accepts warning_codes_are refuseReservedTokens_def accepted_reserved
      HasPrefix_def split: sum.splits if_splits)

lemma accepted_serves:
  assumes "accepted (validateServes qt m)" and "svc \<in> set (mf_Serves m)" and "ep \<in> set (sd_Endpoints svc)"
  shows "in_grammar False (ed_Subject ep) \<and>
    (prefix (''svc.'' @ TrimSpace (mf_ID m) @ ''.'') (ed_Subject ep) \<or>
     prefix (''cmd.'' @ TrimSpace (mf_ID m) @ ''.'') (ed_Subject ep))"
proof -
  obtain s j where "accepted (snd (service_entry qt m s j svc))"
    using accepted_for_state [OF assms(1) [unfolded validateServes_def] assms(2)] by blast
  then have "accepted (snd (for_state (endpoint_entry qt m j (TrimSpace (sd_SvcName svc))) [] 0 (sd_Endpoints svc)))"
    by (auto simp: service_entry_def Let_def accepts warning_codes_are split: if_splits)
  from accepted_for_state [OF this assms(3)] show ?thesis using accepted_endpoint by blast
qed

lemma accepted_stream_subject: "accepted (stream_subject qt path name j p) \<Longrightarrow> in_grammar True p"
  by (auto simp: stream_subject_def Let_def accepts warning_codes_are split: sum.splits)

lemma accepted_stream:
  assumes "accepted (validateAssets qt m)" and "s \<in> set (mf_Streams m)"
  shows "TrimSpace (std_Name s) \<noteq> '''' \<and> 0 < std_MaxBytes s \<and> 0 < std_MaxAgeSeconds s \<and> 0 \<le> std_MaxMsgs s \<and>
    list_all (in_grammar True) (std_Subjects s)"
proof -
  have "accepted (snd (for_state (stream_entry qt) [] 0 (mf_Streams m)))"
    using assms(1) by (simp add: validateAssets_def accepts)
  from accepted_for_state [OF this assms(2)] obtain seen k where "accepted (snd (stream_entry qt seen k s))" by blast
  then show ?thesis
    by (auto simp: stream_entry_def Let_def accepts warning_codes_are list_all_length
        split: if_splits dest!: accepted_stream_subject)
qed

section \<open>Properties\<close>

text \<open>Overlap of patterns is exact: two parsed patterns overlap for the validator exactly when some subject
  matches both, so a refusal is never written against a pattern that cannot reach the family, and no
  pattern that can reach it passes.\<close>

theorem overlap_is_common_subject:
  assumes "ParsePattern a = Inr p" and "ParsePattern b = Inr q"
  shows "patternsOverlap p q \<longleftrightarrow> (\<exists>s. Matches p s \<and> Matches q s)"
proof
  assume "patternsOverlap p q"
  moreover have "gt_last (Tokens p)" "gt_last (Tokens q)"
    using assms valid_pattern_gt_last by (auto simp: valid_pattern_def parse_accepts_grammar)
  ultimately obtain s where s: "match_toks (Tokens p) s" "match_toks (Tokens q) s"
    "set s \<subseteq> insert ''x'' (set (Tokens p) \<union> set (Tokens q))"
    using overlap_toks_sound unfolding patternsOverlap_def by blast
  have "s \<noteq> []" using s(1) by (metis Tokens_not_Nil match_toks_Nil_right)
  moreover have "CHR ''.'' \<notin> set t" if "t \<in> set s" for t using that s(3) Tokens_free by auto
  ultimately have "Tokens (join_on (CHR ''.'') s) = s" by (rule Tokens_join)
  with s show "\<exists>s. Matches p s \<and> Matches q s" unfolding Matches_def by metis
qed (blast intro: patternsOverlap_complete)

theorem overlap_is_common_subject_witness:
  "ParsePattern ''cmd.>'' = Inr ''cmd.>'' \<and> patternsOverlap ''cmd.>'' ''cmd.host.auth.>'' \<and>
   (\<exists>s. Matches ''cmd.>'' s \<and> Matches ''cmd.host.auth.>'' s)"
proof -
  have p: "ParsePattern ''cmd.>'' = Inr ''cmd.>''" "ParsePattern ''cmd.host.auth.>'' = Inr ''cmd.host.auth.>''"
    "patternsOverlap ''cmd.>'' ''cmd.host.auth.>''"
    by code_simp+
  with overlap_is_common_subject [OF p(1,2)] show ?thesis by blast
qed

end
