(* ===== verification/Surface_Rules.thy ===== *)
theory Surface_Rules
  imports Package_Rules
begin

text \<open>
  The rules of \<^verbatim>\<open>src/v2/plugin/validate.go\<close> about what a plugin shows and how it is configured: settings
  sections, the protocol it negotiates, its contributions to the shell and to the Projects surface.
\<close>

section \<open>Configuration\<close>

definition ParseBool :: "string \<Rightarrow> bool option" where
  "ParseBool s =
     (if s \<in> {''1'', ''t'', ''T'', ''true'', ''TRUE'', ''True''} then Some True
      else if s \<in> {''0'', ''f'', ''F'', ''false'', ''FALSE'', ''False''} then Some False else None)"

definition config_provider :: "(string \<Rightarrow> string) \<Rightarrow> string \<Rightarrow> string \<Rightarrow> ConfigField \<Rightarrow> Diagnostic list" where
  \<comment> \<open>the branch of \<^verbatim>\<open>validateConfigField\<close> for the kind provider\<close>
  "config_provider qt path sect f =
     (let parts = split_on (CHR ''.'') (cf_Point f) in
      (if length parts < 2 \<or> (HasPrefix (cf_Point f) HostPointNamespace \<and> length parts < 3)
       then report qt ''BDP2084'' (path @ ''.point'') [FStr sect, FStr (cf_Key f)]
       else if list_ex (\<lambda>part. part = '''' \<or> Trim part point_chars \<noteq> '''') parts
       then report qt ''BDP2085'' (path @ ''.point'') [FStr sect, FStr (cf_Key f), FStr (cf_Point f)] else []) @
      (case exactNames qt ''config provider requires'' (cf_Requires f) of None \<Rightarrow> []
       | Some msg \<Rightarrow> report qt ''BDP2086'' (path @ ''.requires'') [FStr sect, FStr msg]) @
      (if cf_Default f = '''' then []
       else case exactNames qt ''config provider default'' [cf_Default f] of None \<Rightarrow> []
            | Some msg \<Rightarrow> report qt ''BDP2086'' (path @ ''.default'') [FStr sect, FStr msg]))"

definition int_default_ok :: "ConfigField \<Rightarrow> bool" where
  "int_default_ok f =
     (case Atoi (cf_Default f) of None \<Rightarrow> False
      | Some n \<Rightarrow> \<not> ((case cf_Min f of Some lo \<Rightarrow> n < lo | None \<Rightarrow> False) \<or>
                      (case cf_Max f of Some hi \<Rightarrow> hi < n | None \<Rightarrow> False)))"

definition config_default :: "(string \<Rightarrow> string) \<Rightarrow> string \<Rightarrow> string \<Rightarrow> ConfigField \<Rightarrow> Diagnostic list" where
  \<comment> \<open>the \<^verbatim>\<open>switch\<close> at the end of \<^verbatim>\<open>validateConfigField\<close>\<close>
  "config_default qt path sect f =
     (let refuse = (\<lambda>why. report qt ''BDP2091'' (path @ ''.default'') [FStr sect, FStr (cf_Key f), FStr why]);
          quoted = ''default '' @ qt (cf_Default f) in
      if cf_Default f = '''' then []
      else if cf_Kind f = ConfigKindBool then
        (if ParseBool (cf_Default f) = None then refuse (quoted @ '' is not a bool'') else [])
      else if cf_Kind f = ConfigKindInt then
        (if \<not> int_default_ok f then refuse (quoted @ '' is not an int within bounds'') else [])
      else if cf_Kind f = ConfigKindEnum then
        (if cf_Default f \<notin> set (cf_Choices f) then refuse (quoted @ '' is not one of its choices'') else [])
      else if cf_Kind f = ConfigKindStringList \<or> cf_Kind f = ConfigKindSecret then
        refuse (''a '' @ cf_Kind f @ '' field takes no default'')
      else [])"

definition validateConfigField :: "(string \<Rightarrow> string) \<Rightarrow> string \<Rightarrow> string \<Rightarrow> ConfigField \<Rightarrow> Diagnostic list" where
  "validateConfigField qt path sect f =
     (let key = cf_Key f in
      if TrimSpace key = '''' then report qt ''BDP2082'' (path @ ''.key'') [FStr sect]
      else if cf_Kind f \<notin> {ConfigKindBool, ConfigKindInt, ConfigKindString, ConfigKindStringList, ConfigKindEnum,
                           ConfigKindSecret, ConfigKindProvider}
      then report qt ''BDP2083'' (path @ ''.kind'') [FStr sect, FStr key, FStr (cf_Kind f)]
      else
        (if cf_Kind f = ConfigKindProvider then config_provider qt path sect f
         else if cf_Point f \<noteq> '''' \<or> length (cf_Requires f) \<noteq> 0
         then report qt ''BDP2087'' path [FStr sect, FStr key] else []) @
        (if (cf_Min f \<noteq> None \<or> cf_Max f \<noteq> None) \<and> cf_Kind f \<noteq> ConfigKindInt
         then report qt ''BDP2088'' path [FStr sect, FStr key] else []) @
        (case (cf_Min f, cf_Max f) of
           (Some lo, Some hi) \<Rightarrow> if hi < lo then report qt ''BDP2089'' path [FStr sect, FStr key, FInt lo, FInt hi] else []
         | _ \<Rightarrow> []) @
        (if (0 < length (cf_Choices f)) \<noteq> (cf_Kind f = ConfigKindEnum) \<or> '''' \<in> set (cf_Choices f)
         then report qt ''BDP2090'' (path @ ''.choices'') [FStr sect, FStr key] else []) @
        config_default qt path sect f)"

definition config_field_entry ::
  "(string \<Rightarrow> string) \<Rightarrow> string \<Rightarrow> string \<Rightarrow> string list \<Rightarrow> nat \<Rightarrow> ConfigField \<Rightarrow> string list \<times> Diagnostic list" where
  "config_field_entry qt path sect keys j f =
     (let fp = at_index (path @ ''.fields'') j in
      (cf_Key f # keys,
       validateConfigField qt fp sect f @
       (if cf_Key f \<in> set keys then report qt ''BDP2081'' (fp @ ''.key'') [FStr sect, FStr (cf_Key f)] else [])))"

definition config_section ::
  "(string \<Rightarrow> string) \<Rightarrow> string list \<Rightarrow> nat \<Rightarrow> ConfigSection \<Rightarrow> string list \<times> Diagnostic list" where
  "config_section qt seen k s =
     (let path = at_index ''config.sections'' k; i = TrimSpace (cs_ID s) in
      if i = '''' \<or> i \<in> set seen then (seen, report qt ''BDP2080'' (path @ ''.id'') [FStr (cs_ID s)])
      else (i # seen, snd (for_state (config_field_entry qt path i) [] 0 (cs_Fields s))))"

definition validateConfig :: "(string \<Rightarrow> string) \<Rightarrow> Config option \<Rightarrow> Diagnostic list" where
  "validateConfig qt cfg =
     (case cfg of None \<Rightarrow> [] | Some c \<Rightarrow> snd (for_state (config_section qt) [] 0 (cg_Sections c)))"

section \<open>Protocol\<close>

definition lifecycleHookVocabulary :: "string list" where
  "lifecycleHookVocabulary = [''activation.check'', ''ready'', ''health'']"

definition validateProtocol :: "(string \<Rightarrow> string) \<Rightarrow> ProtocolRequirements option \<Rightarrow> Diagnostic list" where
  "validateProtocol qt pr =
     (case pr of None \<Rightarrow> []
      | Some p \<Rightarrow>
          (if pr_Major p \<noteq> 0 \<and> pr_Major p \<noteq> ProtocolMajor
           then report qt ''BDP2100'' ''protocol.major'' [FInt (int (pr_Major p)), FInt (int ProtocolMajor)] else []) @
          (if pr_Major p = 0 \<and> length (pr_Required p) \<noteq> 0 then report qt ''BDP2101'' ''protocol.required'' [] else []) @
          (case exactNames qt ''protocol.required'' (pr_Required p) of None \<Rightarrow> []
           | Some msg \<Rightarrow> report qt ''BDP2102'' ''protocol.required'' [FStr msg]) @
          (if pr_Major p = 0 \<and> length (pr_Hooks p) \<noteq> 0 then report qt ''BDP2103'' ''protocol.hooks'' [] else []) @
          (case exactNames qt ''protocol.hooks'' (pr_Hooks p) of None \<Rightarrow> []
           | Some msg \<Rightarrow> report qt ''BDP2104'' ''protocol.hooks'' [FStr msg]) @
          for_index (\<lambda>k hook. if hook \<notin> set lifecycleHookVocabulary
                              then report qt ''BDP2105'' (at_index ''protocol.hooks'' k) [FStr hook] else []) (pr_Hooks p))"

section \<open>Contributions to the shell\<close>

definition binding_entry ::
  "(string \<Rightarrow> string) \<Rightarrow> string \<Rightarrow> string \<Rightarrow> string list \<Rightarrow> nat \<Rightarrow> UIBinding \<Rightarrow> string list \<times> Diagnostic list" where
  "binding_entry qt itemPath contributionID seen k b =
     (let path = at_index (itemPath @ ''.bindings'') k in
      if ub_Kind b \<notin> {BindCount, BindBadge, BindLiveness, BindToggle} then
        (seen, report qt ''BDP2167'' (path @ ''.kind'') [FStr contributionID, FStr (ub_Kind b)])
      else (ub_Kind b # seen,
        (if ub_Kind b \<in> set seen then report qt ''BDP2168'' (path @ ''.kind'') [FStr contributionID, FStr (ub_Kind b)] else []) @
        (case exactNames qt ''ui.bindings.event'' [ub_Event b] of None \<Rightarrow> []
         | Some msg \<Rightarrow> report qt ''BDP2169'' (path @ ''.event'') [FStr msg]) @
        (if ub_Field b = '''' then []
         else case idSegment ''ui.bindings.field'' (ub_Field b) of
           Some msg \<Rightarrow> report qt ''BDP2170'' (path @ ''.field'') [FStr msg]
         | None \<Rightarrow>
             if ContainsAny (ub_Field b) ''.[]''
             then report qt ''BDP2171'' (path @ ''.field'') [FStr contributionID, FStr (ub_Field b)] else [])))"

definition validateBindings :: "(string \<Rightarrow> string) \<Rightarrow> string \<Rightarrow> string \<Rightarrow> UIBinding list \<Rightarrow> Diagnostic list" where
  "validateBindings qt itemPath contributionID bs =
     snd (for_state (binding_entry qt itemPath contributionID) [] 0 bs)"

definition ui_target :: "(string \<Rightarrow> string) \<Rightarrow> Manifest \<Rightarrow> string \<Rightarrow> UIContribution \<Rightarrow> Diagnostic list" where
  \<comment> \<open>the \<^verbatim>\<open>switch\<close> on the slot\<close>
  "ui_target qt m path item =
     (if ui_Slot item = SlotCommand then
        (if ui_Command item = '''' \<or> ui_PanelID item \<noteq> '''' then report qt ''BDP2163'' (path @ ''.command'') []
         else case exactNames qt ''ui.command'' [ui_Command item] of None \<Rightarrow> []
              | Some msg \<Rightarrow> report qt ''BDP2164'' (path @ ''.command'') [FStr msg])
      else if ui_PanelID item = '''' \<or> ui_Command item \<noteq> '''' then
        report qt ''BDP2165'' (path @ ''.panelId'') [FStr (ui_Slot item)]
      else if \<not> list_ex (\<lambda>panel. pn_ID panel = ui_PanelID item) (mf_Panels m) then
        report qt ''BDP2166'' (path @ ''.panelId'') [FStr (ui_PanelID item)]
      else [])"

definition ui_entry ::
  "(string \<Rightarrow> string) \<Rightarrow> Manifest \<Rightarrow> string list \<Rightarrow> nat \<Rightarrow> UIContribution \<Rightarrow> string list \<times> Diagnostic list" where
  "ui_entry qt m seen k item =
     (let path = at_index ''ui'' k in
      case idSegment ''ui.id'' (ui_ID item) of
        Some msg \<Rightarrow> (seen, report qt ''BDP2160'' (path @ ''.id'') [FStr msg])
      | None \<Rightarrow>
          (ui_ID item # seen,
           (if ui_ID item \<in> set seen then report qt ''BDP2161'' (path @ ''.id'') [FStr (ui_ID item)] else []) @
           (if ContributionRoleFor (ui_Slot item) = None then report qt ''BDP2162'' (path @ ''.slot'') [FStr (ui_Slot item)]
            else ui_target qt m path item @ validateBindings qt path (ui_ID item) (ui_Bindings item))))"

definition validateUI :: "(string \<Rightarrow> string) \<Rightarrow> Manifest \<Rightarrow> Diagnostic list" where
  "validateUI qt m = snd (for_state (ui_entry qt m) [] 0 (mf_UI m))"

section \<open>Contributions to the Projects surface\<close>

definition owned_panel :: "Manifest \<Rightarrow> string \<Rightarrow> bool" where
  "owned_panel m i = (i \<in> set (map pn_ID (mf_Panels m)) \<and> i \<noteq> '''')"

definition view_entry ::
  "(string \<Rightarrow> string) \<Rightarrow> Manifest \<Rightarrow> string list \<Rightarrow> nat \<Rightarrow> ProjectViewContribution \<Rightarrow> string list \<times> Diagnostic list" where
  "view_entry qt m seen k view =
     (let path = at_index ''projectViews'' k in
      case idSegment ''projectViews.id'' (vw_ID view) of
        Some msg \<Rightarrow> (seen, report qt ''BDP2190'' (path @ ''.id'') [FStr msg])
      | None \<Rightarrow>
          (vw_ID view # seen,
           (if vw_ID view \<in> set seen then report qt ''BDP2191'' (path @ ''.id'') [FStr (vw_ID view)] else []) @
           (if TrimSpace (vw_Label view) = '''' then report qt ''BDP2192'' (path @ ''.label'') [] else []) @
           (if TrimSpace (vw_Icon view) = '''' then report qt ''BDP2193'' (path @ ''.icon'') [] else []) @
           (if \<not> owned_panel m (vw_PanelID view) then report qt ''BDP2194'' (path @ ''.panelId'') [FStr (vw_PanelID view)] else [])))"

definition action_entry ::
  "(string \<Rightarrow> string) \<Rightarrow> Manifest \<Rightarrow> string list \<Rightarrow> nat \<Rightarrow> DirectoryContextActionContribution \<Rightarrow> string list \<times> Diagnostic list" where
  "action_entry qt m seen k action =
     (let path = at_index ''directoryContextActions'' k in
      case idSegment ''directoryContextActions.id'' (da_ID action) of
        Some msg \<Rightarrow> (seen, report qt ''BDP2195'' (path @ ''.id'') [FStr msg])
      | None \<Rightarrow>
          (da_ID action # seen,
           (if da_ID action \<in> set seen then report qt ''BDP2196'' (path @ ''.id'') [FStr (da_ID action)] else []) @
           (if TrimSpace (da_Label action) = '''' then report qt ''BDP2197'' (path @ ''.label'') [] else []) @
           (if \<not> owned_panel m (da_WizardPanelID action)
            then report qt ''BDP2198'' (path @ ''.wizardPanelId'') [FStr (da_WizardPanelID action)] else [])))"

definition validateProjectContributions :: "(string \<Rightarrow> string) \<Rightarrow> Manifest \<Rightarrow> Diagnostic list" where
  "validateProjectContributions qt m =
     snd (for_state (view_entry qt m) [] 0 (mf_ProjectViews m)) @
     snd (for_state (action_entry qt m) [] 0 (mf_DirectoryContextActions m))"

end
