(* ===== verification/Validate.thy ===== *)
theory Validate
  imports Authority_Rules Surface_Rules
begin

text \<open>
  The manifest validator as a whole, \<^verbatim>\<open>src/v2/plugin/validate.go\<close>: \<^verbatim>\<open>Diagnostics\<close> runs the rules in order,
  \<^verbatim>\<open>Validate\<close> and \<^verbatim>\<open>ValidateDiscover\<close> are its first error; \<^verbatim>\<open>ParseManifest\<close> of \<^verbatim>\<open>manifest.go\<close> decodes and
  validates. The properties are what an accepted manifest guarantees.
\<close>

section \<open>Entry points\<close>

definition Diagnostics :: "(string \<Rightarrow> string) \<Rightarrow> Manifest \<Rightarrow> bool \<Rightarrow> Diagnostic list" where
  "Diagnostics qt m requireVersion =
     validateHead qt m requireVersion @ validatePricing qt m @ validateRole qt m @ validateRequires qt m @
     validateExecutables qt m @ validateTargets qt m @ validateSeams qt m @ validateKind qt m @
     validateIdentity qt m @ validatePublisher qt m @ validateStatic qt m @ validateAliases qt m @
     validateDocumentPaths qt m @ validatePublicRoutes qt m @ validateConfig qt (mf_Config m) @
     validateProtocol qt (mf_Protocol m) @ validateSubjectPatterns qt m @ validateServes qt m @
     validateAssets qt m @ validateNeeds qt m @ validateCapabilities qt m @ validateUI qt m @
     validateProjectContributions qt m"

definition Validate :: "(string \<Rightarrow> string) \<Rightarrow> Manifest \<Rightarrow> Diagnostic option" where
  "Validate qt m = FirstError (Diagnostics qt m True)"

definition ValidateDiscover :: "(string \<Rightarrow> string) \<Rightarrow> Manifest \<Rightarrow> Diagnostic option" where
  "ValidateDiscover qt m = FirstError (Diagnostics qt m False)"

text \<open>\<open>unmarshal\<close> is \<^verbatim>\<open>json.Unmarshal\<close> into a manifest, \<open>Inl\<close> its error.\<close>

datatype parse_failure = JSONError string | Refused Diagnostic

definition ParseManifest ::
  "(bytes \<Rightarrow> string + Manifest) \<Rightarrow> (string \<Rightarrow> string) \<Rightarrow> bytes \<Rightarrow> parse_failure + Manifest" where
  "ParseManifest unmarshal qt raw =
     (case unmarshal raw of
        Inl err \<Rightarrow> Inl (JSONError err)
      | Inr m \<Rightarrow> (case Validate qt m of Some d \<Rightarrow> Inl (Refused d) | None \<Rightarrow> Inr m))"

section \<open>What an accepted manifest satisfies\<close>

lemma Validate_accepted: "Validate qt m = None \<longleftrightarrow> accepted (Diagnostics qt m True)"
  by (simp add: Validate_def accepted_def)

lemma Validate_parts:
  assumes "Validate qt m = None"
  shows "accepted (validateHead qt m True)" "accepted (validateStatic qt m)" "accepted (validateDocumentPaths qt m)"
    "accepted (validateConfig qt (mf_Config m))" "accepted (validateSubjectPatterns qt m)"
    "accepted (validateServes qt m)" "accepted (validateAssets qt m)" "accepted (validateNeeds qt m)"
    "accepted (validateCapabilities qt m)" "accepted (validateUI qt m)" "accepted (validateProjectContributions qt m)"
  using assms by (simp_all add: Validate_accepted Diagnostics_def accepted_append)

subsection \<open>Authority\<close>

lemma accepted_subject_patterns:
  assumes "accepted (validateSubjectPatterns qt m)"
  shows "\<And>g d. g \<in> set (ownNamespacePatterns (TrimSpace (mf_ID m))) \<Longrightarrow> d \<in> set PermanentlyIneligible \<Longrightarrow> \<not> patternsOverlap d g"
    and "\<And>p. p \<in> set (pm_Publish (mf_Permissions m)) \<Longrightarrow>
      in_grammar True p \<and> (\<exists>path. accepted (check_pattern qt (TrimSpace (mf_ID m)) ''permissions.publish'' path p))"
    and "\<And>p. p \<in> set (pm_Subscribe (mf_Permissions m)) \<Longrightarrow>
      in_grammar True p \<and> (\<exists>path. accepted (check_pattern qt (TrimSpace (mf_ID m)) ''permissions.subscribe'' path p))"
    and "\<And>p. p \<in> set (pm_Request (mf_Permissions m)) \<Longrightarrow>
      in_grammar True p \<and> (\<exists>path. accepted (check_pattern qt (TrimSpace (mf_ID m)) ''permissions.request'' path p))"
  using assms
  by (auto simp: validateSubjectPatterns_def Let_def accepts accepted_find warning_codes_are dest: accepted_permission)

lemma first_seen_set: "set (first_seen seen ps) = set ps - set seen"
  by (induction seen ps rule: first_seen.induct) auto

lemma ownNamespacePatterns_set:
  "set (ownNamespacePatterns i) =
     set (g_Publish (OwnNamespace i)) \<union> set (g_Subscribe (OwnNamespace i)) \<union> set (g_Serves (OwnNamespace i))"
  by (auto simp: ownNamespacePatterns_def Let_def first_seen_set)

text \<open>A subject below a prefix that ends in a dot matches the family of the prefix.\<close>

lemma Tokens_append: "Tokens (a @ CHR ''.'' # b) = Tokens a @ Tokens b"
proof (induction a)
  case (Cons c a)
  then show ?case by (auto simp: Tokens_def split: list.splits)
qed (simp add: Tokens_def)

lemma match_toks_family: "''>'' \<notin> set ts \<Longrightarrow> us \<noteq> [] \<Longrightarrow> match_toks (ts @ [''>'']) (ts @ us)"
  by (induction ts) auto

lemma prefix_matches_family:
  assumes "in_grammar False s" and "prefix (a @ ''.'') s"
  shows "Matches (a @ ''.>'') s"
proof -
  obtain b where s: "s = a @ CHR ''.'' # b" using assms(2) by (auto simp: prefix_def)
  have "''>'' \<notin> set (Tokens s)"
    using assms(1) by (auto simp: parse_accepts_grammar [symmetric] parse_None dest!: toks_ok_no_wildcard)
  then have "match_toks (Tokens a @ [''>'']) (Tokens a @ Tokens b)"
    by (intro match_toks_family) (auto simp: s Tokens_append)
  moreover have "Tokens (a @ ''.>'') = Tokens a @ [''>'']" using Tokens_append [of a "''>''"] by (simp add: Tokens_def)
  ultimately show ?thesis by (simp add: Matches_def s Tokens_append)
qed

lemma OwnNamespace_trim [simp]: "OwnNamespace (TrimSpace i) = OwnNamespace i"
  by (simp add: OwnNamespace_def)

lemma ownNamespacePatterns_trim [simp]: "ownNamespacePatterns (TrimSpace i) = ownNamespacePatterns i"
  by (simp add: ownNamespacePatterns_def)

lemma accepted_id: "accepted (validateHead qt m True) \<Longrightarrow> TrimSpace (mf_ID m) \<noteq> ''''"
  by (auto simp: validateHead_def Let_def accepts warning_codes_are split: if_splits)

lemma own_endpoint:
  assumes "Validate qt m = None" and "svc \<in> set (mf_Serves m)" and "ep \<in> set (sd_Endpoints svc)"
  shows "in_grammar False (ed_Subject ep) \<and> Can (OwnNamespace (mf_ID m)) GrantServe (ed_Subject ep)"
proof -
  let ?i = "TrimSpace (mf_ID m)"
  have s: "in_grammar False (ed_Subject ep)"
    "prefix ((''svc.'' @ ?i) @ ''.'') (ed_Subject ep) \<or> prefix ((''cmd.'' @ ?i) @ ''.'') (ed_Subject ep)"
    using accepted_serves [OF Validate_parts(6) [OF assms(1)] assms(2,3)] by auto
  then have "Matches ((''svc.'' @ ?i) @ ''.>'') (ed_Subject ep) \<or> Matches ((''cmd.'' @ ?i) @ ''.>'') (ed_Subject ep)"
    using prefix_matches_family by blast
  moreover have "?i \<noteq> ''''" using accepted_id Validate_parts(1) [OF assms(1)] by blast
  ultimately have "Can (OwnNamespace (mf_ID m)) GrantServe (ed_Subject ep)"
    by (auto simp: Can_def MatchedByAny_def grants_list_def grant_kind_defs OwnNamespace_def Let_def simp del: match_toks.simps)
  with s show ?thesis by blast
qed

subsection \<open>Document paths\<close>

abbreviation apart :: "string \<Rightarrow> string \<Rightarrow> bool" where
  "apart a b \<equiv> DocumentPathsOverlap a b \<noteq> Some True"

lemma accepted_patterns:
  assumes "accepted (snd (for_state (document_pattern qt path) claimed k ps))" and "sorted_wrt apart claimed"
  shows "fst (for_state (document_pattern qt path) claimed k ps) = claimed @ ps \<and> sorted_wrt apart (claimed @ ps)"
  using assms
proof (induction ps arbitrary: claimed k)
  case (Cons p ps)
  let ?b = "document_pattern qt path claimed k p"
  have a: "accepted (snd ?b)" "accepted (snd (for_state (document_pattern qt path) (fst ?b) (Suc k) ps))"
    using Cons.prems(1) by (auto simp: split_beta Let_def accepted_append)
  then have "fst ?b = claimed @ [p]" "\<forall>c \<in> set claimed. apart c p"
    by (auto simp: document_pattern_def Let_def accepts warning_codes_are split: if_splits)
  with Cons.IH [of "claimed @ [p]" "Suc k"] a(2) Cons.prems(2) show ?case
    by (simp add: split_beta Let_def sorted_wrt_append)
qed simp

lemma accepted_panels:
  assumes "accepted (document_panels qt m claimed k panels)" and "sorted_wrt apart claimed"
  shows "sorted_wrt apart (claimed @ concat (map pn_DocumentPaths panels))"
  using assms
proof (induction panels arbitrary: claimed k)
  case (Cons panel panels)
  show ?case
  proof (cases "pn_DocumentPaths panel = []")
    case True
    with Cons show ?thesis by simp
  next
    case False
    let ?f = "for_state (document_pattern qt (at_index ''panels'' k)) claimed 0 (pn_DocumentPaths panel)"
    have a: "accepted (snd ?f)" "accepted (document_panels qt m (fst ?f) (Suc k) panels)"
      using Cons.prems(1) False
      by (auto simp: Let_def split_beta accepts warning_codes_are split: if_splits option.splits)
    from accepted_patterns [OF a(1) Cons.prems(2)] Cons.IH [OF a(2)] show ?thesis by simp
  qed
qed simp

subsection \<open>Configuration\<close>

lemma accepted_config_field:
  assumes "Validate qt m = None" and "mf_Config m = Some c" and "sec \<in> set (cg_Sections c)" and "f \<in> set (cs_Fields sec)"
  shows "\<exists>path sect. accepted (validateConfigField qt path sect f)"
proof -
  have "accepted (snd (for_state (config_section qt) [] 0 (cg_Sections c)))"
    using Validate_parts(4) [OF assms(1)] assms(2) by (simp add: validateConfig_def)
  from accepted_for_state [OF this assms(3)] obtain seen k where "accepted (snd (config_section qt seen k sec))" by blast
  then have "accepted (snd (for_state (config_field_entry qt (at_index ''config.sections'' k) (TrimSpace (cs_ID sec))) [] 0 (cs_Fields sec)))"
    by (auto simp: config_section_def Let_def accepts warning_codes_are split: if_splits)
  from accepted_for_state [OF this assms(4)] show ?thesis
    by (auto simp: config_field_entry_def Let_def accepts)
qed

lemma accepted_default:
  assumes "accepted (validateConfigField qt path sect f)" and "cf_Default f \<noteq> ''''"
  shows "accepted (config_default qt path sect f)"
  using assms(1) by (auto simp: validateConfigField_def Let_def accepts warning_codes_are split: if_splits)

lemmas accepts_entry = Let_def accepts warning_codes_are

section \<open>A manifest\<close>

definition demo_config :: Config where
  "demo_config =
     \<lparr>cg_Sections =
        [\<lparr>cs_ID = ''general'', cs_Title = '''', cs_Description = '''',
          cs_Fields =
            [\<lparr>cf_Key = ''limit'', cf_Kind = ''int'', cf_Label = '''', cf_Description = '''', cf_Default = ''5'',
              cf_Min = Some 1, cf_Max = Some 9, cf_Nullable = False, cf_Choices = [], cf_Point = '''',
              cf_Requires = [], cf_ReadOnly = False, cf_RequiresRestart = False\<rparr>]\<rparr>]\<rparr>"

definition demo_panel :: "string \<Rightarrow> string list \<Rightarrow> PanelSpec" where
  "demo_panel i paths = \<lparr>pn_ID = i, pn_Kind = '''', pn_URL = ''/u'', pn_Module = '''', pn_DocumentPaths = paths\<rparr>"

definition demo_manifest :: "string \<Rightarrow> string list \<Rightarrow> EndpointDecl list \<Rightarrow> Manifest" where
  "demo_manifest i publish endpoints =
     \<lparr>mf_Contract = 2, mf_Kind = ''process'', mf_ID = i, mf_Version = ''1.0.0'',
      mf_Identity = Some
        \<lparr>mi_DisplayName = ''Demo'', mi_Description = ''A demo.'', mi_Categories = [], mi_Keywords = [], mi_Images = None,
         mi_Homepage = '''', mi_License = '''', mi_Readme = '''', mi_Changelog = '''', mi_Support = None,
         mi_ThirdPartyNotices = ''''\<rparr>,
      mf_Nav = [], mf_Panels = [demo_panel ''a'' [''/docs/:page''], demo_panel ''b'' [''/notes/*rest'']],
      mf_Launchers = [], mf_Scopes = [], mf_Routes = [], mf_PublicRoutes = [],
      mf_Spawn = False, mf_Binary = '''', mf_Socket = '''', mf_Helpers = [], mf_Scripts = [], mf_Services = [],
      mf_Static = [], mf_Aliases = [], mf_Trust = [], mf_MinCoreVersion = '''', mf_Targets = [], mf_Role = '''',
      mf_Requires = [], mf_Pricing = None,
      mf_Publisher = Some \<lparr>pb_ID = ''acme'', pb_Name = ''Acme'', pb_LegalName = '''', pb_URL = '''', pb_SupportEmail = '''', pb_KID = ''''\<rparr>,
      mf_Family = None, mf_When = \<lparr>wh_OS = []\<rparr>, mf_Extends = [], mf_Implements = [], mf_Critical = False,
      mf_Protocol = Some \<lparr>pr_Major = 2, pr_Required = [FeatureDocumentPaths], pr_Hooks = []\<rparr>,
      mf_Permissions = \<lparr>pm_Publish = publish, pm_Subscribe = [], pm_Request = []\<rparr>,
      mf_UI = [], mf_ProjectViews = [], mf_DirectoryContextActions = [],
      mf_Serves = [\<lparr>sd_SvcName = ''main'', sd_Version = ''1'', sd_QueueGroup = '''', sd_Endpoints = endpoints\<rparr>],
      mf_Streams = [\<lparr>std_Name = ''log'', std_Subjects = [''event.files.>''], std_MaxBytes = 10, std_MaxAgeSeconds = 60, std_MaxMsgs = 0\<rparr>],
      mf_KV = [], mf_Objects = [], mf_Needs = [''durable''], mf_Capabilities = [], mf_Config = Some demo_config\<rparr>"

definition demo_endpoint :: "string \<Rightarrow> Subject \<Rightarrow> EndpointDecl" where
  "demo_endpoint name subject = \<lparr>ed_Name = name, ed_Subject = subject, ed_Point = ''''\<rparr>"

definition demo_plugin :: Manifest where
  "demo_plugin = demo_manifest ''demo'' [''event.files.>''] [demo_endpoint ''run'' ''svc.demo.run'']"

lemma demo_valid: "Validate (\<lambda>s. s) demo_plugin = None"
  by code_simp

section \<open>Properties\<close>

text \<open>C21. Authority is bounded: nothing an accepted manifest asks for, and nothing its id gives it implicitly,
  reaches a permanently ineligible family. No subject of such a family is matched by a publish, subscribe
  or request permission, by the implicit namespace of the plugin, or is the subject of an endpoint.\<close>

theorem validated_authority_is_bounded:
  assumes "Validate qt m = None" and "d \<in> set PermanentlyIneligible" and "Matches d s"
  shows "\<not> MatchedByAny (pm_Publish (mf_Permissions m)) s \<and> \<not> MatchedByAny (pm_Subscribe (mf_Permissions m)) s \<and>
    \<not> MatchedByAny (pm_Request (mf_Permissions m)) s \<and> \<not> MatchedByAny (ownNamespacePatterns (mf_ID m)) s \<and>
    s \<notin> {ed_Subject ep | svc ep. svc \<in> set (mf_Serves m) \<and> ep \<in> set (sd_Endpoints svc)}"
proof -
  note sp = accepted_subject_patterns [OF Validate_parts(5) [OF assms(1)], simplified]
  have hit: "patternsOverlap d p" if "Matches p s" for p using assms(3) that by (rule patternsOverlap_complete)
  have "\<not> Matches p s" if "p \<in> set (pm_Publish (mf_Permissions m)) \<union> set (pm_Subscribe (mf_Permissions m)) \<union>
      set (pm_Request (mf_Permissions m))" for p
  proof -
    have "\<exists>label path. accepted (check_pattern qt (TrimSpace (mf_ID m)) label path p)" using that sp(2-4) by blast
    then have "\<not> patternsOverlap d p" using accepted_check_pattern assms(2) by blast
    then show ?thesis using hit by blast
  qed
  moreover have own: "\<not> Matches p s" if "p \<in> set (ownNamespacePatterns (mf_ID m))" for p
    using sp(1) [OF that assms(2)] hit by blast
  moreover have "s \<noteq> ed_Subject ep" if "svc \<in> set (mf_Serves m)" "ep \<in> set (sd_Endpoints svc)" for svc ep
    using own_endpoint [OF assms(1) that] own ownNamespacePatterns_set
    by (auto simp: Can_def MatchedByAny_def grants_list_def grant_kind_defs list_ex_iff)
  ultimately show ?thesis by (auto simp: MatchedByAny_def list_ex_iff)
qed

theorem validated_authority_is_bounded_witness:
  "Matches ''cmd.host.auth.>'' ''cmd.host.auth.mint'' \<and> Validate (\<lambda>s. s) demo_plugin = None \<and>
   \<not> MatchedByAny (pm_Publish (mf_Permissions demo_plugin)) ''cmd.host.auth.mint''"
proof -
  have d: "''cmd.host.auth.>'' \<in> set PermanentlyIneligible" by (simp add: PermanentlyIneligible_def)
  have "Matches ''cmd.host.auth.>'' ''cmd.host.auth.mint''" by code_simp
  with validated_authority_is_bounded [OF demo_valid d] demo_valid show ?thesis by blast
qed

text \<open>Document routing is unambiguous: in an accepted manifest no pathname is matched by two of the document
  paths its panels claim, in one panel or in different ones.\<close>

theorem document_claims_disjoint:
  assumes "Validate qt m = None" and "ps = concat (map pn_DocumentPaths (mf_Panels m))"
    and "i < j" and "j < length ps" and "MatchDocumentPath (ps ! i) path \<noteq> None"
  shows "MatchDocumentPath (ps ! j) path = None"
proof -
  have "sorted_wrt apart ([] @ concat (map pn_DocumentPaths (mf_Panels m)))"
    by (rule accepted_panels [OF Validate_parts(3) [OF assms(1), unfolded validateDocumentPaths_def]]) simp
  then have "apart (ps ! i) (ps ! j)" using assms(2-4) by (simp add: sorted_wrt_iff_nth_less)
  then show ?thesis using documents_overlap assms(5) by blast
qed

theorem document_claims_disjoint_witness:
  "MatchDocumentPath ''/docs/:page'' ''/docs/intro'' = Some [(''page'', ''intro'')] \<and>
   MatchDocumentPath ''/notes/*rest'' ''/docs/intro'' = None"
proof -
  have m: "MatchDocumentPath ''/docs/:page'' ''/docs/intro'' = Some [(''page'', ''intro'')]" by code_simp
  have "concat (map pn_DocumentPaths (mf_Panels demo_plugin)) = [''/docs/:page'', ''/notes/*rest'']" by code_simp
  with document_claims_disjoint [OF demo_valid refl, of 0 1 "''/docs/intro''"] m show ?thesis by simp
qed

text \<open>C40. Defaults are values: in an accepted manifest a default that is written down is a value of the field's
  kind (a boolean, an integer within the declared bounds, one of the choices), and string lists and
  secrets have none.\<close>

theorem config_defaults_are_values:
  assumes "Validate qt m = None" and "mf_Config m = Some c" and "sec \<in> set (cg_Sections c)"
    and "f \<in> set (cs_Fields sec)" and "cf_Default f \<noteq> ''''"
  shows "(cf_Kind f = ConfigKindBool \<longrightarrow> ParseBool (cf_Default f) \<noteq> None) \<and>
    (cf_Kind f = ConfigKindInt \<longrightarrow>
      (\<exists>n. Atoi (cf_Default f) = Some n \<and> (\<forall>lo. cf_Min f = Some lo \<longrightarrow> lo \<le> n) \<and> (\<forall>hi. cf_Max f = Some hi \<longrightarrow> n \<le> hi))) \<and>
    (cf_Kind f = ConfigKindEnum \<longrightarrow> cf_Default f \<in> set (cf_Choices f)) \<and>
    cf_Kind f \<notin> {ConfigKindStringList, ConfigKindSecret}"
proof -
  obtain path sect where "accepted (config_default qt path sect f)"
    using accepted_config_field [OF assms(1-4)] accepted_default [OF _ assms(5)] by blast
  then show ?thesis
    using assms(5)
    by (auto simp: config_default_def Let_def accepts warning_codes_are int_default_ok_def config_kind_defs
        split: if_splits option.splits)
qed

theorem config_defaults_are_values_witness:
  "\<exists>n. Atoi ''5'' = Some n \<and> 1 \<le> n \<and> n \<le> 9"
proof -
  let ?f = "hd (cs_Fields (hd (cg_Sections demo_config)))"
  have c: "mf_Config demo_plugin = Some demo_config" by (simp add: demo_plugin_def demo_manifest_def)
  have f: "hd (cg_Sections demo_config) \<in> set (cg_Sections demo_config)"
    "?f \<in> set (cs_Fields (hd (cg_Sections demo_config)))" "cf_Default ?f \<noteq> ''''"
    "cf_Default ?f = ''5''" "cf_Kind ?f = ConfigKindInt" "cf_Min ?f = Some 1" "cf_Max ?f = Some 9"
    by (simp_all add: demo_config_def ConfigKindInt_def)
  from config_defaults_are_values [OF demo_valid c f(1-3)] f(4-7) show ?thesis by auto
qed

text \<open>Names identify: in an accepted manifest no two services, streams, key-value buckets, object buckets,
  needs, capabilities, contributions, project views or directory actions have the same name, and no
  permission is listed twice.\<close>

theorem validated_names_are_unique:
  assumes "Validate qt m = None"
  shows "distinct (pm_Publish (mf_Permissions m)) \<and> distinct (pm_Subscribe (mf_Permissions m)) \<and>
    distinct (pm_Request (mf_Permissions m)) \<and>
    distinct (map (\<lambda>v. TrimSpace (sd_SvcName v)) (mf_Serves m)) \<and>
    distinct (map (\<lambda>s. TrimSpace (std_Name s)) (mf_Streams m)) \<and>
    distinct (map (\<lambda>b. TrimSpace (kd_Name b)) (mf_KV m)) \<and> distinct (map (\<lambda>b. TrimSpace (od_Name b)) (mf_Objects m)) \<and>
    distinct (map TrimSpace (mf_Needs m)) \<and> distinct (map TrimSpace (mf_Capabilities m)) \<and>
    distinct (map ui_ID (mf_UI m)) \<and> distinct (map vw_ID (mf_ProjectViews m)) \<and>
    distinct (map da_ID (mf_DirectoryContextActions m))"
proof -
  note parts = Validate_parts [OF assms]
  have d: "distinct (map key xs)"
    if "accepted (snd (for_state body [] 0 xs))"
      "\<And>s i x. accepted (snd (body s i x)) \<Longrightarrow> fst (body s i x) = key x # s \<and> key x \<notin> set s"
    for body :: "string list \<Rightarrow> nat \<Rightarrow> 'x \<Rightarrow> string list \<times> Diagnostic list" and key xs
    using accepted_distinct [OF that(2,1)] by blast
  have "accepted (snd (for_state (permission_entry qt (TrimSpace (mf_ID m)) ''permissions.publish'') [] 0 (pm_Publish (mf_Permissions m))))"
    "accepted (snd (for_state (permission_entry qt (TrimSpace (mf_ID m)) ''permissions.subscribe'') [] 0 (pm_Subscribe (mf_Permissions m))))"
    "accepted (snd (for_state (permission_entry qt (TrimSpace (mf_ID m)) ''permissions.request'') [] 0 (pm_Request (mf_Permissions m))))"
    using parts(5) by (simp_all add: validateSubjectPatterns_def Let_def accepts)
  moreover have "distinct (map (\<lambda>p. p) ps)" if "accepted (snd (for_state (permission_entry qt i label) [] 0 ps))" for i label ps
    by (rule d [OF that]) (auto simp: permission_entry_def Let_def accepts warning_codes_are split: if_splits)
  moreover have "distinct (map (\<lambda>v. TrimSpace (sd_SvcName v)) (mf_Serves m))"
    by (rule d [OF parts(6) [unfolded validateServes_def]]) (auto simp: service_entry_def accepts_entry split: if_splits)
  moreover have "distinct (map (\<lambda>s. TrimSpace (std_Name s)) (mf_Streams m))"
    by (rule d [of "stream_entry qt"]) (use parts(7) in \<open>auto simp: validateAssets_def stream_entry_def accepts_entry split: if_splits\<close>)
  moreover have "distinct (map (\<lambda>b. TrimSpace (kd_Name b)) (mf_KV m))"
    by (rule d [of "kv_entry qt"]) (use parts(7) in \<open>auto simp: validateAssets_def kv_entry_def accepts_entry split: if_splits\<close>)
  moreover have "distinct (map (\<lambda>b. TrimSpace (od_Name b)) (mf_Objects m))"
    by (rule d [of "object_entry qt"]) (use parts(7) in \<open>auto simp: validateAssets_def object_entry_def accepts_entry split: if_splits\<close>)
  moreover have "distinct (map TrimSpace (mf_Needs m))"
    by (rule d [OF parts(8) [unfolded validateNeeds_def]]) (auto simp: need_entry_def accepts_entry split: if_splits)
  moreover have "distinct (map TrimSpace (mf_Capabilities m))"
    by (rule d [OF parts(9) [unfolded validateCapabilities_def]]) (auto simp: capability_entry_def accepts_entry split: if_splits)
  moreover have "distinct (map ui_ID (mf_UI m))"
    by (rule d [OF parts(10) [unfolded validateUI_def]]) (auto simp: ui_entry_def accepts_entry split: if_splits option.splits)
  moreover have "distinct (map vw_ID (mf_ProjectViews m))"
    by (rule d [of "view_entry qt m"]) (use parts(11) in \<open>auto simp: validateProjectContributions_def view_entry_def accepts_entry split: if_splits option.splits\<close>)
  moreover have "distinct (map da_ID (mf_DirectoryContextActions m))"
    by (rule d [of "action_entry qt m"]) (use parts(11) in \<open>auto simp: validateProjectContributions_def action_entry_def accepts_entry split: if_splits option.splits\<close>)
  ultimately show ?thesis by simp
qed

theorem validated_names_are_unique_witness:
  "distinct (map (\<lambda>v. TrimSpace (sd_SvcName v)) (mf_Serves demo_plugin)) \<and> distinct (map TrimSpace (mf_Needs demo_plugin))"
  using validated_names_are_unique [OF demo_valid] by blast

text \<open>C33. A declared stream has a ceiling, as long as its age fits a duration: in an accepted manifest every stream
  has positive limits and subjects of the grammar, and its age in nanoseconds is the declared one when it
  is at most \<open>9223372036\<close> seconds. Beyond that the product wraps: \<open>2 ^ 55\<close> seconds, which the validator
  accepts, are an age of 0.\<close>

theorem validated_stream_limits:
  assumes "Validate qt m = None" and "s \<in> set (mf_Streams m)"
  shows "0 < std_MaxBytes s \<and> 0 < std_MaxAgeSeconds s \<and> 0 \<le> std_MaxMsgs s \<and> list_all (in_grammar True) (std_Subjects s) \<and>
    (std_MaxAgeSeconds s \<le> 9223372036 \<longrightarrow>
       StreamDecl_MaxAge s = std_MaxAgeSeconds s * 1000000000 \<and> 0 < StreamDecl_MaxAge s) \<and>
    (std_MaxAgeSeconds s = 2 ^ 55 \<longrightarrow> StreamDecl_MaxAge s = 0)"
proof -
  have l: "0 < std_MaxBytes s" "0 < std_MaxAgeSeconds s" "0 \<le> std_MaxMsgs s" "list_all (in_grammar True) (std_Subjects s)"
    using accepted_stream [OF Validate_parts(7) [OF assms(1)] assms(2)] by auto
  have "wrap64 (n * 1000000000) = n * 1000000000" if "0 < n" "n \<le> 9223372036" for n
    using that by (simp add: wrap64_def mod_pos_pos_trivial)
  then show ?thesis using l by (auto simp: StreamDecl_MaxAge_def second_def) (simp add: wrap64_def)
qed

theorem validated_stream_limits_witness:
  "StreamDecl_MaxAge (hd (mf_Streams demo_plugin)) = 60000000000"
proof -
  have "hd (mf_Streams demo_plugin) \<in> set (mf_Streams demo_plugin)" "std_MaxAgeSeconds (hd (mf_Streams demo_plugin)) = 60"
    by (simp_all add: demo_plugin_def demo_manifest_def)
  with validated_stream_limits [OF demo_valid] show ?thesis by auto
qed

text \<open>The reservation of the host commands is by one id only: the rule that a plugin cannot implement the facades
  under \<^verbatim>\<open>cmd.gateway.\<close> refuses the id \<^verbatim>\<open>gateway\<close>, but a dot is allowed in an id, and a manifest
  with the id \<^verbatim>\<open>gateway.x\<close> that serves a command under \<^verbatim>\<open>cmd.gateway.\<close> is accepted.\<close>

theorem dotted_id_serves_host_commands:
  "\<exists>m. Validate (\<lambda>s. s) m = None \<and> TrimSpace (mf_ID m) = ''gateway.x'' \<and>
     (\<exists>svc ep. svc \<in> set (mf_Serves m) \<and> ep \<in> set (sd_Endpoints svc) \<and> Matches hostCommands (ed_Subject ep))"
proof -
  let ?m = "demo_manifest ''gateway.x'' [] [demo_endpoint ''run'' ''cmd.gateway.x.run'']"
  have "Validate (\<lambda>s. s) ?m = None" "TrimSpace ''gateway.x'' = ''gateway.x''" "Matches hostCommands ''cmd.gateway.x.run''"
    by code_simp+
  then show ?thesis by (intro exI [of _ ?m]) (simp add: demo_manifest_def demo_endpoint_def)
qed

end
