(* ===== verification/Go_Encoding.thy ===== *)
theory Go_Encoding
  imports Go_Text Cursor "HOL-Library.Multiset"
begin

text \<open>
  What the plugin and attestation packages use of \<^verbatim>\<open>encoding/base64\<close> (the padded standard encoding),
  \<^verbatim>\<open>encoding/hex\<close> and the layout \<^verbatim>\<open>time.RFC3339\<close>, and the facts on separated and sorted texts that make a
  hashed or signed text decodable.
\<close>

section \<open>Padded base64\<close>

definition std_char :: "nat \<Rightarrow> char" where
  "std_char n = (if n = 62 then CHR ''+'' else if n = 63 then CHR ''/'' else b64_char n)"

definition std_val :: "char \<Rightarrow> nat option" where
  "std_val c =
     (if c = CHR ''+'' then Some 62 else if c = CHR ''/'' then Some 63
      else if c = CHR ''-'' \<or> c = CHR ''_'' then None else b64_val c)"

fun std_encode :: "nat list \<Rightarrow> string" where
  "std_encode [] = []"
| "std_encode [a] = [std_char (a div 4), std_char (a mod 4 * 16), CHR ''='', CHR ''='']"
| "std_encode [a, b] = [std_char (a div 4), std_char (a mod 4 * 16 + b div 16), std_char (b mod 16 * 4), CHR ''='']"
| "std_encode (a # b # c # bs) =
     std_char (a div 4) # std_char (a mod 4 * 16 + b div 16) # std_char (b mod 16 * 4 + c div 64) #
     std_char (c mod 64) # std_encode bs"

definition StdEncode :: "bytes \<Rightarrow> string" where
  "StdEncode bs = std_encode (map code bs)"

text \<open>Padding ends the text; the unused low bits before it are ignored.\<close>

fun std_decode :: "string \<Rightarrow> nat list option" where
  "std_decode [] = Some []"
| "std_decode (a # b # c # d # s) =
     (case (std_val a, std_val b) of
        (Some p, Some q) \<Rightarrow>
          if c = CHR ''='' then (if d = CHR ''='' \<and> s = [] then Some [p * 4 + q div 16] else None)
          else (case std_val c of None \<Rightarrow> None
                | Some r \<Rightarrow>
                    if d = CHR ''='' then
                      (if s = [] then Some [p * 4 + q div 16, q mod 16 * 16 + r div 4] else None)
                    else (case (std_val d, std_decode s) of
                            (Some t, Some bs) \<Rightarrow>
                              Some ((p * 4 + q div 16) # (q mod 16 * 16 + r div 4) # (r mod 4 * 64 + t) # bs)
                          | _ \<Rightarrow> None))
      | _ \<Rightarrow> None)"
| "std_decode s = None"

definition not_line_end :: "char \<Rightarrow> bool" where
  "not_line_end c = (c \<noteq> CHR 0x0D \<and> c \<noteq> CHR 0x0A)"

definition StdDecode :: "string \<Rightarrow> bytes option" where
  \<comment> \<open>carriage returns and newlines are skipped\<close>
  "StdDecode s = map_option (map char_of) (std_decode (filter not_line_end s))"

lemma std_val_char [simp]: "n < 64 \<Longrightarrow> std_val (std_char n) = Some n"
proof (cases "n < 62")
  case True
  then have "b64_char n \<notin> {CHR ''+'', CHR ''/'', CHR ''-'', CHR ''_''}"
    using b64_val_char [of n] by (auto simp: b64_val_def is_upper_def is_lower_def is_digit_def)
  with True show ?thesis by (simp add: std_val_def std_char_def)
next
  case False
  assume "n < 64"
  with False have "n = 62 \<or> n = 63" by linarith
  then show ?thesis by (auto simp: std_val_def std_char_def)
qed

lemma std_val_plain: "std_val c = Some n \<Longrightarrow> c \<notin> {CHR ''='', CHR 0x0D, CHR 0x0A, CHR '' ''}"
  by (auto simp: std_val_def b64_val_def is_upper_def is_lower_def is_digit_def)

lemma std_char_plain [simp]:
  "n < 64 \<Longrightarrow> std_char n \<noteq> CHR ''=''" "n < 64 \<Longrightarrow> not_line_end (std_char n)"
  using std_val_plain [OF std_val_char] by (auto simp: not_line_end_def)

lemma sextet_bounds:
  fixes a b :: nat
  assumes "a < 256" and "b < 256"
  shows "a div 4 < 64" "a mod 4 * 16 + b div 16 < 64" "a mod 4 * 16 < 64" "a mod 16 * 4 + b div 64 < 64" "a mod 16 * 4 < 64"
    "a mod 64 < 64"
  using assms by auto

lemma std_decode_encode: "list_all (\<lambda>b. b < 256) bs \<Longrightarrow> std_decode (std_encode bs) = Some bs"
  by (induction bs rule: std_encode.induct) (auto simp: sextet_bounds)

lemma std_encode_lines: "list_all (\<lambda>b. b < 256) bs \<Longrightarrow> list_all not_line_end (std_encode bs)"
proof -
  have "not_line_end (CHR ''='')" by (simp add: not_line_end_def)
  then show "list_all (\<lambda>b. b < 256) bs \<Longrightarrow> list_all not_line_end (std_encode bs)"
    by (induction bs rule: std_encode.induct) (auto simp: sextet_bounds)
qed

lemma StdDecode_Encode [simp]: "StdDecode (StdEncode bs) = Some bs"
proof -
  have "filter not_line_end (StdEncode bs) = StdEncode bs"
    using std_encode_lines [OF codes_bound] by (simp add: StdEncode_def filter_id_conv list_all_iff)
  then show ?thesis
    by (simp add: StdDecode_def StdEncode_def std_decode_encode [OF codes_bound] comp_def)
qed

lemma std_decode_length: "std_decode s = Some bs \<Longrightarrow> length s = 4 * ((length bs + 2) div 3)"
proof (induction s arbitrary: bs rule: std_decode.induct)
  case (2 a b c d s)
  have "(n + 5) div 3 = Suc ((n + 2) div 3)" for n :: nat using div_add_self2 [of 3 "n + 2"] by simp
  with 2 show ?case by (auto simp: add.commute split: option.splits if_splits)
qed auto

lemma StdDecode_length: "StdDecode s = Some bs \<Longrightarrow> length (filter not_line_end s) = 4 * ((length bs + 2) div 3)"
  by (auto simp: StdDecode_def dest: std_decode_length)

section \<open>Hexadecimal\<close>

definition hex_digit :: "nat \<Rightarrow> char" where
  "hex_digit n = (if n < 10 then char_of (48 + n) else char_of (87 + n))"

fun DecodeHex :: "string \<Rightarrow> bytes option" where
  "DecodeHex [] = Some []"
| "DecodeHex [a] = None"
| "DecodeHex (a # b # s) =
     (case (hex_val a, hex_val b, DecodeHex s) of
        (Some x, Some y, Some bs) \<Rightarrow> Some (char_of (16 * x + y) # bs)
      | _ \<Rightarrow> None)"

lemma hex_val_plain: "hex_val c = Some n \<Longrightarrow> 32 < code c \<and> code c < 127"
  by (auto simp: hex_val_def is_digit_def split: if_splits)

lemma DecodeHex_plain: "DecodeHex s = Some bs \<Longrightarrow> list_all (\<lambda>c. 32 < code c \<and> code c < 127) s"
  by (induction s arbitrary: bs rule: DecodeHex.induct) (auto split: option.splits dest: hex_val_plain)

section \<open>Time stamps\<close>

definition two_digits :: "nat \<Rightarrow> string" where
  "two_digits n = [digit_char (n div 10), digit_char (n mod 10)]"

definition RFC3339 :: "instant \<Rightarrow> string" where
  \<comment> \<open>\<^verbatim>\<open>t.UTC().Format(time.RFC3339)\<close> for the years up to 9999\<close>
  "RFC3339 t =
     (let d = t div day_ns; y = nat (year_of d + 1); s = nat (t mod minute_ns div second) in
      two_digits (y div 100) @ two_digits (y mod 100) @ ''-'' @ two_digits (month_of d + 1) @ ''-'' @ two_digits (dom_of d) @
      ''T'' @ two_digits (hour_of t) @ '':'' @ two_digits (minute_of t) @ '':'' @ two_digits s @ ''Z'')"

section \<open>Texts without white space\<close>

lemma printable_no_space:
  assumes "list_all (\<lambda>c. 32 < code c \<and> code c < 127) s"
  shows "leading space_runes s = 0" and "leading (map rev space_runes) s = 0"
proof -
  have away: "q \<noteq> [] \<and> \<not> (32 < code (hd q) \<and> code (hd q) < 127)"
    if "q \<in> set space_runes \<or> q \<in> set (map rev space_runes)" for q
    using that by (auto simp: space_runes_def)
  have "\<not> prefix q s" if "q \<in> set space_runes \<or> q \<in> set (map rev space_runes)" for q
    using away [OF that] assms by (cases q; cases s) auto
  moreover have "[] \<notin> set space_runes" "[] \<notin> set (map rev space_runes)" using away by blast+
  ultimately show "leading space_runes s = 0" "leading (map rev space_runes) s = 0" using leading_0 by blast+
qed

lemma TrimSpace_printable: "list_all (\<lambda>c. 32 < code c \<and> code c < 127) s \<Longrightarrow> TrimSpace s = s"
  using printable_no_space [of s] printable_no_space [of "rev s"]
  by (simp add: TrimSpace_def drop_leading.simps list_all_rev)

section \<open>Separated and sorted texts\<close>

lemma cut_unique:
  fixes a :: string
  assumes "a @ c # b = a' @ c # b'" and "c \<notin> set a" and "c \<notin> set a'"
  shows "a = a' \<and> b = b'"
proof -
  have "Some (a, b) = cut_on c (a @ c # b)" by (rule cut_on_append [OF assms(2), symmetric])
  also have "\<dots> = Some (a', b')" unfolding assms(1) by (rule cut_on_append [OF assms(3)])
  finally show ?thesis by simp
qed

lemma join_on_inject:
  assumes "\<And>t. t \<in> set ts \<union> set us \<Longrightarrow> c \<notin> set t \<and> t \<noteq> []"
  shows "join_on c ts = join_on c us \<longleftrightarrow> ts = us"
proof
  assume eq: "join_on c ts = join_on c us"
  have split: "split_on c (join_on c xs) = (if xs = [] then [[]] else xs)" if "xs = ts \<or> xs = us" for xs
    using split_join [of xs c] assms that by auto
  have "[] \<notin> set ts" "[] \<notin> set us" using assms by blast+
  moreover have "(if ts = [] then [[]] else ts) = (if us = [] then [[]] else us)"
    using split [of ts] split [of us] eq by argo
  ultimately show "ts = us" by (auto split: if_splits)
qed simp

lemma mset_map_factor:
  assumes "\<And>x y. x \<in> A \<Longrightarrow> y \<in> A \<Longrightarrow> r x = r y \<Longrightarrow> c x = c y" and "set xs \<subseteq> A" and "set ys \<subseteq> A"
    and "mset (map r xs) = mset (map r ys)"
  shows "mset (map c xs) = mset (map c ys)"
proof -
  define g where "g k = c (SOME x. x \<in> A \<and> r x = k)" for k
  have g: "c x = g (r x)" if "x \<in> A" for x
    using someI [of "\<lambda>y. y \<in> A \<and> r y = r x" x] assms(1) that unfolding g_def by metis
  have via: "mset (map c zs) = image_mset g (mset (map r zs))" if "set zs \<subseteq> A" for zs
  proof -
    have "map c zs = map g (map r zs)" using that g by (auto simp: subset_iff)
    then have "mset (map c zs) = mset (map g (map r zs))" by (rule arg_cong)
    also have "\<dots> = image_mset g (mset (map r zs))" by (rule mset_map)
    finally show ?thesis .
  qed
  show ?thesis unfolding via [OF assms(2)] via [OF assms(3)] assms(4) by (rule refl)
qed

lemma mset_map_transfer:
  assumes "\<And>x y. x \<in> A \<Longrightarrow> y \<in> A \<Longrightarrow> r x = r y \<longleftrightarrow> c x = c y" and "set xs \<subseteq> A" and "set ys \<subseteq> A"
  shows "mset (map r xs) = mset (map r ys) \<longleftrightarrow> mset (map c xs) = mset (map c ys)"
  using mset_map_factor [of A r c xs ys] mset_map_factor [of A c r xs ys] assms by blast

lemma sort_mset: "sort xs = sort ys \<longleftrightarrow> mset xs = mset ys" for xs :: "string list"
  by (metis mset_sort properties_for_sort sorted_sort)

end
