(* ===== verification/Digest.thy ===== *)
theory Digest
  imports Validate Go_Encoding
begin

text \<open>
  The digest of what an operator consents to, \<^verbatim>\<open>src/v2/plugin/digest.go\<close>. The hash with its hexadecimal
  output is the argument \<open>hexsum\<close>; \<open>digest_input\<close> is the text that is hashed. The theorem is that this text
  determines what is consented to, up to order, and nothing else.
\<close>

section \<open>Encoding\<close>

definition GrantsDigestAlgorithm :: string where
  "GrantsDigestAlgorithm = ''bytedesk.plugin.grants.v3''"

definition digest_write :: "string \<Rightarrow> string" where
  "digest_write s = decimal (length s) @ '':'' @ s @ '':''"

definition digest_section :: "string \<Rightarrow> string list \<Rightarrow> string" where
  "digest_section label values =
     digest_write label @ digest_write (decimal (length values)) @ concat (map digest_write (sort values))"

definition unit_join :: "string list \<Rightarrow> string" where
  "unit_join fs = join_on (CHR 0x1F) fs"

definition endpoint_record :: "EndpointDecl \<Rightarrow> string" where
  "endpoint_record ep = unit_join [ed_Name ep, ed_Subject ep, ed_Point ep]"

definition service_record :: "ServiceDecl \<Rightarrow> string" where
  "service_record svc =
     unit_join [sd_SvcName svc, sd_Version svc, sd_QueueGroup svc,
       join_on (CHR 0x1E) (sort (map endpoint_record (sd_Endpoints svc)))]"

definition stream_record :: "StreamDecl \<Rightarrow> string" where
  "stream_record s =
     unit_join [std_Name s, Itoa (std_MaxBytes s), Itoa (std_MaxAgeSeconds s), Itoa (std_MaxMsgs s),
       join_on (CHR 0x1E) (sort (std_Subjects s))]"

definition kv_record :: "KVDecl \<Rightarrow> string" where
  "kv_record b = unit_join [kd_Name b, Itoa (kd_MaxBytes b), Itoa (kd_TTLSeconds b), Itoa (kd_History b)]"

definition object_record :: "ObjectDecl \<Rightarrow> string" where
  "object_record b = unit_join [od_Name b, Itoa (od_MaxBytes b), Itoa (od_TTLSeconds b)]"

definition digest_sections :: "Manifest \<Rightarrow> (string \<times> string list) list" where
  "digest_sections m =
     [(''publish'', pm_Publish (mf_Permissions m)), (''request'', pm_Request (mf_Permissions m)),
      (''subscribe'', pm_Subscribe (mf_Permissions m)), (''serves'', map service_record (mf_Serves m)),
      (''streams'', map stream_record (mf_Streams m)), (''kv'', map kv_record (mf_KV m)),
      (''objects'', map object_record (mf_Objects m)), (''needs'', mf_Needs m), (''capabilities'', mf_Capabilities m)]"

definition digest_input :: "Manifest \<Rightarrow> string" where
  "digest_input m =
     digest_write GrantsDigestAlgorithm @ concat (map (\<lambda>(label, vs). digest_section label vs) (digest_sections m))"

definition GrantsDigest :: "(string \<Rightarrow> string) \<Rightarrow> Manifest \<Rightarrow> string" where
  "GrantsDigest hexsum m = hexsum (digest_input m)"

section \<open>What is consented to\<close>

definition service_consent :: "ServiceDecl \<Rightarrow> string \<times> string \<times> string \<times> EndpointDecl multiset" where
  "service_consent v = (sd_SvcName v, sd_Version v, sd_QueueGroup v, mset (sd_Endpoints v))"

definition stream_consent :: "StreamDecl \<Rightarrow> string \<times> int \<times> int \<times> int \<times> Pattern multiset" where
  "stream_consent s = (std_Name s, std_MaxBytes s, std_MaxAgeSeconds s, std_MaxMsgs s, mset (std_Subjects s))"

definition consent where
  "consent m =
     (mset (pm_Publish (mf_Permissions m)), mset (pm_Request (mf_Permissions m)), mset (pm_Subscribe (mf_Permissions m)),
      mset (map service_consent (mf_Serves m)), mset (map stream_consent (mf_Streams m)), mset (mf_KV m),
      mset (mf_Objects m), mset (mf_Needs m), mset (mf_Capabilities m))"

text \<open>Texts without the two separators; a subject of a stream is not empty.\<close>

definition sep_free :: "string \<Rightarrow> bool" where
  "sep_free s = (CHR 0x1F \<notin> set s \<and> CHR 0x1E \<notin> set s)"

definition digest_clean :: "Manifest \<Rightarrow> bool" where
  "digest_clean m \<longleftrightarrow>
     list_all (\<lambda>v. sep_free (sd_SvcName v) \<and> sep_free (sd_Version v) \<and> sep_free (sd_QueueGroup v) \<and>
       list_all (\<lambda>e. sep_free (ed_Name e) \<and> sep_free (ed_Subject e) \<and> sep_free (ed_Point e)) (sd_Endpoints v)) (mf_Serves m) \<and>
     list_all (\<lambda>s. sep_free (std_Name s) \<and> list_all (\<lambda>p. sep_free p \<and> p \<noteq> '''') (std_Subjects s)) (mf_Streams m) \<and>
     list_all (\<lambda>b. sep_free (kd_Name b)) (mf_KV m) \<and> list_all (\<lambda>b. sep_free (od_Name b)) (mf_Objects m)"

section \<open>Decoding\<close>

lemma digest_write_cancel: "digest_write x @ r = digest_write y @ r' \<longleftrightarrow> x = y \<and> r = r'"
proof
  assume eq: "digest_write x @ r = digest_write y @ r'"
  have free: "CHR '':'' \<notin> set (decimal n)" for n by (rule decimal_free) (simp add: is_digit_def)
  from eq have "decimal (length x) = decimal (length y) \<and> x @ '':'' @ r = y @ '':'' @ r'"
    unfolding digest_write_def by (intro cut_unique [OF _ free free]) simp
  then show "x = y \<and> r = r'" by auto
qed simp

lemma digest_values_cancel:
  "length vs = length ws \<Longrightarrow>
     concat (map digest_write vs) @ r = concat (map digest_write ws) @ r' \<longleftrightarrow> vs = ws \<and> r = r'"
  by (induction vs ws rule: list_induct2) (auto simp: digest_write_cancel)

lemma digest_section_cancel:
  "digest_section l vs @ r = digest_section l ws @ r' \<longleftrightarrow> mset vs = mset ws \<and> r = r'"
proof -
  have "mset vs = mset ws \<longleftrightarrow> length vs = length ws \<and> sort vs = sort ws"
    by (metis mset_sort properties_for_sort size_mset sorted_sort)
  then show ?thesis
    by (auto simp: digest_section_def digest_write_cancel digest_values_cancel)
qed

lemma Itoa_sep_free [simp]: "sep_free (Itoa n)"
  by (auto simp: sep_free_def Itoa_def is_digit_def intro!: decimal_free dest: decimal_free [rotated])

lemma Itoa_inject [simp]: "Itoa a = Itoa b \<longleftrightarrow> a = b"
proof -
  have "decimal n \<noteq> CHR ''-'' # s" for n s using decimal_free [of "CHR ''-''" n] by (auto simp: is_digit_def)
  then have "decimal n \<noteq> CHR ''-'' # s" "CHR ''-'' # s \<noteq> decimal n" for n s by metis+
  then show ?thesis by (auto simp: Itoa_def)
qed

lemma unit_join_cancel:
  "sep_free a \<Longrightarrow> sep_free a' \<Longrightarrow> unit_join (a # b # bs) = unit_join (a' # b' # bs') \<longleftrightarrow> a = a' \<and> unit_join (b # bs) = unit_join (b' # bs')"
  unfolding unit_join_def sep_free_def using cut_unique [of a "CHR 0x1F" "join_on (CHR 0x1F) (b # bs)" a' "join_on (CHR 0x1F) (b' # bs')"]
  by auto

lemma unit_join_single [simp]: "unit_join [a] = a"
  by (simp add: unit_join_def)

subsection \<open>Records\<close>

abbreviation endpoint_clean :: "EndpointDecl \<Rightarrow> bool" where
  "endpoint_clean e \<equiv> sep_free (ed_Name e) \<and> sep_free (ed_Subject e) \<and> sep_free (ed_Point e)"

abbreviation service_clean :: "ServiceDecl \<Rightarrow> bool" where
  "service_clean v \<equiv> sep_free (sd_SvcName v) \<and> sep_free (sd_Version v) \<and> sep_free (sd_QueueGroup v) \<and>
     list_all endpoint_clean (sd_Endpoints v)"

abbreviation stream_clean :: "StreamDecl \<Rightarrow> bool" where
  "stream_clean s \<equiv> sep_free (std_Name s) \<and> list_all (\<lambda>p. sep_free p \<and> p \<noteq> '''') (std_Subjects s)"

lemma endpoint_record_inject:
  "endpoint_clean e \<Longrightarrow> endpoint_clean e' \<Longrightarrow> endpoint_record e = endpoint_record e' \<longleftrightarrow> e = e'"
  by (cases e; cases e') (simp add: endpoint_record_def unit_join_cancel)

lemma endpoint_record_free: "endpoint_clean e \<Longrightarrow> CHR 0x1E \<notin> set (endpoint_record e) \<and> endpoint_record e \<noteq> []"
  by (auto simp: endpoint_record_def unit_join_def sep_free_def)

lemma service_record_consent:
  assumes "service_clean v" and "service_clean w"
  shows "service_record v = service_record w \<longleftrightarrow> service_consent v = service_consent w"
proof -
  let ?A = "{e. endpoint_clean e}"
  have sub: "set (sd_Endpoints v) \<subseteq> ?A" "set (sd_Endpoints w) \<subseteq> ?A" using assms by (auto simp: list_all_iff)
  have "join_on (CHR 0x1E) (sort (map endpoint_record (sd_Endpoints v))) = join_on (CHR 0x1E) (sort (map endpoint_record (sd_Endpoints w))) \<longleftrightarrow>
      sort (map endpoint_record (sd_Endpoints v)) = sort (map endpoint_record (sd_Endpoints w))"
    by (rule join_on_inject) (use sub endpoint_record_free in auto)
  also have "\<dots> \<longleftrightarrow> mset (map endpoint_record (sd_Endpoints v)) = mset (map endpoint_record (sd_Endpoints w))"
    by (rule sort_mset)
  also have "\<dots> \<longleftrightarrow> mset (map (\<lambda>e. e) (sd_Endpoints v)) = mset (map (\<lambda>e. e) (sd_Endpoints w))"
    by (rule mset_map_transfer [OF _ sub]) (simp add: endpoint_record_inject)
  finally show ?thesis
    using assms by (simp add: service_record_def service_consent_def unit_join_cancel)
qed

lemma stream_record_consent:
  assumes "stream_clean s" and "stream_clean t"
  shows "stream_record s = stream_record t \<longleftrightarrow> stream_consent s = stream_consent t"
proof -
  have "join_on (CHR 0x1E) (sort (std_Subjects s)) = join_on (CHR 0x1E) (sort (std_Subjects t)) \<longleftrightarrow>
      sort (std_Subjects s) = sort (std_Subjects t)"
    by (rule join_on_inject) (use assms in \<open>auto simp: list_all_iff sep_free_def\<close>)
  then show ?thesis
    using assms sort_mset [of "std_Subjects s" "std_Subjects t"]
    by (simp add: stream_record_def stream_consent_def unit_join_cancel)
qed

lemma kv_record_inject: "sep_free (kd_Name a) \<Longrightarrow> sep_free (kd_Name b) \<Longrightarrow> kv_record a = kv_record b \<longleftrightarrow> a = b"
  by (cases a; cases b) (simp add: kv_record_def unit_join_cancel)

lemma object_record_inject: "sep_free (od_Name a) \<Longrightarrow> sep_free (od_Name b) \<Longrightarrow> object_record a = object_record b \<longleftrightarrow> a = b"
  by (cases a; cases b) (simp add: object_record_def unit_join_cancel)

section \<open>Properties\<close>

text \<open>C32. The digest covers consent and only consent: for manifests whose texts carry no separator byte, the
  hashed text of two manifests is the same exactly when they ask for the same permissions, services,
  streams, buckets, needs and capabilities, in any order. So reordering never asks the operator again, and
  a change of any covered field changes what is hashed.\<close>

theorem digest_covers_consent:
  assumes "digest_clean m" and "digest_clean n"
  shows "digest_input m = digest_input n \<longleftrightarrow> consent m = consent n"
proof -
  have "mset (map service_record (mf_Serves m)) = mset (map service_record (mf_Serves n)) \<longleftrightarrow>
      mset (map service_consent (mf_Serves m)) = mset (map service_consent (mf_Serves n))"
    by (rule mset_map_transfer [of "{v. service_clean v}"])
      (use assms in \<open>auto simp: service_record_consent digest_clean_def list_all_iff\<close>)
  moreover have "mset (map stream_record (mf_Streams m)) = mset (map stream_record (mf_Streams n)) \<longleftrightarrow>
      mset (map stream_consent (mf_Streams m)) = mset (map stream_consent (mf_Streams n))"
    by (rule mset_map_transfer [of "{s. stream_clean s}"])
      (use assms in \<open>auto simp: stream_record_consent digest_clean_def list_all_iff\<close>)
  moreover have "mset (map kv_record (mf_KV m)) = mset (map kv_record (mf_KV n)) \<longleftrightarrow>
      mset (map (\<lambda>b. b) (mf_KV m)) = mset (map (\<lambda>b. b) (mf_KV n))"
    by (rule mset_map_transfer [of "{b. sep_free (kd_Name b)}"])
      (use assms in \<open>auto simp: kv_record_inject digest_clean_def list_all_iff\<close>)
  moreover have "mset (map object_record (mf_Objects m)) = mset (map object_record (mf_Objects n)) \<longleftrightarrow>
      mset (map (\<lambda>b. b) (mf_Objects m)) = mset (map (\<lambda>b. b) (mf_Objects n))"
    by (rule mset_map_transfer [of "{b. sep_free (od_Name b)}"])
      (use assms in \<open>auto simp: object_record_inject digest_clean_def list_all_iff\<close>)
  moreover have "digest_input m = digest_input n \<longleftrightarrow>
      (\<forall>i < 9. mset (snd (digest_sections m ! i)) = mset (snd (digest_sections n ! i)))"
    using digest_section_cancel [where r = "[]" and r' = "[]"]
    by (simp add: digest_input_def digest_sections_def digest_write_cancel digest_section_cancel numeral_eq_Suc All_less_Suc2 del: mset_map)
  ultimately show ?thesis
    by (simp add: consent_def digest_sections_def numeral_eq_Suc All_less_Suc2 del: mset_map)
qed

theorem digest_covers_consent_witness:
  "digest_input demo_plugin \<noteq> digest_input (demo_manifest ''demo'' [] [demo_endpoint ''run'' ''svc.demo.run''])"
proof -
  let ?m = "demo_manifest ''demo'' [] [demo_endpoint ''run'' ''svc.demo.run'']"
  have "digest_clean demo_plugin" "digest_clean ?m" by code_simp+
  moreover have "consent demo_plugin \<noteq> consent ?m"
    by (simp add: consent_def demo_plugin_def demo_manifest_def)
  ultimately show ?thesis using digest_covers_consent [of demo_plugin ?m] by blast
qed

text \<open>The names of services and endpoints carry no such rule, so the hypothesis above is not given by
  validation: two manifests that are both accepted have the same digest although one of them serves a
  subject the other does not. The name of the one endpoint spells the record of the other, separators
  included.\<close>

theorem digest_hides_an_endpoint:
  "\<exists>m n. Validate (\<lambda>s. s) m = None \<and> Validate (\<lambda>s. s) n = None \<and> GrantsDigest h m = GrantsDigest h n \<and>
     (\<exists>svc ep. svc \<in> set (mf_Serves n) \<and> ep \<in> set (sd_Endpoints svc) \<and>
       ed_Subject ep \<notin> {ed_Subject ep' | svc' ep'. svc' \<in> set (mf_Serves m) \<and> ep' \<in> set (sd_Endpoints svc')})"
proof -
  let ?s = "[CHR 0x1F]" and ?r = "[CHR 0x1E]"
  let ?m = "demo_manifest ''demo'' [] [demo_endpoint (''a'' @ ?s @ ''svc.demo.a'' @ ?s @ ?r @ ''b'') ''svc.demo.b'']"
  let ?n = "demo_manifest ''demo'' [] [demo_endpoint ''a'' ''svc.demo.a'', demo_endpoint ''b'' ''svc.demo.b'']"
  have "Validate (\<lambda>s. s) ?m = None" "Validate (\<lambda>s. s) ?n = None" by code_simp+
  moreover have "map service_record (mf_Serves ?m) = map service_record (mf_Serves ?n)" by code_simp
  then have "GrantsDigest h ?m = GrantsDigest h ?n"
    by (simp add: GrantsDigest_def digest_input_def digest_sections_def demo_manifest_def del: list.map)
  moreover have "\<exists>svc ep. svc \<in> set (mf_Serves ?n) \<and> ep \<in> set (sd_Endpoints svc) \<and>
      ed_Subject ep \<notin> {ed_Subject ep' | svc' ep'. svc' \<in> set (mf_Serves ?m) \<and> ep' \<in> set (sd_Endpoints svc')}"
    by (rule exI [of _ "hd (mf_Serves ?n)"], rule exI [of _ "demo_endpoint ''a'' ''svc.demo.a''"]) (simp add: demo_manifest_def demo_endpoint_def)
  ultimately show ?thesis by blast
qed

end
