(* ===== verification/Attest.thy ===== *)
theory Attest
  imports Go_Encoding Manifest
begin

text \<open>
  The attestation of a package, \<^verbatim>\<open>src/v2/attest\<close>: the envelope, the statements that are signed, signing by the
  publisher, countersigning by the Store, verification against trusted roots (\<^verbatim>\<open>envelope.go\<close>, \<^verbatim>\<open>sign.go\<close>),
  and the publisher registry (\<^verbatim>\<open>registry.go\<close>). SHA-256 and Ed25519 are the record \<open>crypto\<close>, an argument of
  every definition; \<open>crypto_ok\<close> is what their documentation promises of lengths and of signatures that were
  made with the key. \<^verbatim>\<open>encoding/json\<close> is an argument too. An error that wraps a sentinel is the constructor
  of that sentinel with the text after it; the texts of decoding errors of the library are left out.
\<close>

section \<open>Cryptography\<close>

record crypto =
  cr_hexsum :: "bytes \<Rightarrow> string"                 \<comment> \<open>SHA-256, in hexadecimal\<close>
  cr_public :: "bytes \<Rightarrow> bytes"                  \<comment> \<open>the public key of a seed\<close>
  cr_sign :: "bytes \<Rightarrow> bytes \<Rightarrow> bytes"           \<comment> \<open>seed and message\<close>
  cr_verify :: "bytes \<Rightarrow> bytes \<Rightarrow> bytes \<Rightarrow> bool"  \<comment> \<open>public key, message and signature\<close>

definition SeedSize :: nat where "SeedSize = 32"
definition PublicKeySize :: nat where "PublicKeySize = 32"
definition SignatureSize :: nat where "SignatureSize = 64"
definition sha256_Size :: nat where "sha256_Size = 32"

definition crypto_ok :: "crypto \<Rightarrow> bool" where
  "crypto_ok cr \<longleftrightarrow>
     (\<forall>b. length (cr_hexsum cr b) = 2 * sha256_Size \<and> set (cr_hexsum cr b) \<subseteq> set ''0123456789abcdef'') \<and>
     (\<forall>seed. length seed = SeedSize \<longrightarrow> length (cr_public cr seed) = PublicKeySize) \<and>
     (\<forall>seed msg. length seed = SeedSize \<longrightarrow> cr_verify cr (cr_public cr seed) msg (cr_sign cr seed msg)) \<and>
     (\<forall>pub msg sig. cr_verify cr pub msg sig \<longrightarrow> length sig = SignatureSize)"

section \<open>Envelopes\<close>

definition EnvelopeVersion :: int where "EnvelopeVersion = 1"

record PublisherSignature =
  ps_ID :: string
  ps_KID :: string
  ps_PublicKey :: string
  ps_Signature :: string

record StoreSignature =
  ss_KID :: string
  ss_Signature :: string
  ss_IssuedAt :: string

record Envelope =
  en_V :: int
  en_SHA256 :: string
  en_Publisher :: "PublisherSignature option"
  en_Store :: "StoreSignature option"

type_synonym Provenance = string

definition FromStore :: Provenance where "FromStore = ''store''"
definition FromUpload :: Provenance where "FromUpload = ''upload''"
definition FromDev :: Provenance where "FromDev = ''dev''"

definition Declares :: "Envelope \<Rightarrow> Provenance" where
  "Declares e =
     (if en_Store e \<noteq> None \<and> en_Publisher e \<noteq> None then FromStore
      else if en_Publisher e \<noteq> None then FromUpload
      else FromDev)"

definition KID :: "crypto \<Rightarrow> bytes \<Rightarrow> string" where
  "KID cr pub = cr_hexsum cr pub"

section \<open>Statements\<close>

datatype attest_error =
    ErrUnsigned
  | ErrUntrustedRoot string
  | ErrBadSignature string
  | ErrDigestMismatch string
  | ErrKeyNotInRegistry string
  | ErrKeyRevoked string
  | ErrObjectDigestMismatch string
  | AttestError string

type_synonym 'a attested = "attest_error + 'a"

definition publisherDomain :: string where "publisherDomain = ''bytedesk.publisher-release.v1''"
definition storeDomain :: string where "storeDomain = ''bytedesk.store-attestation.v1''"
definition publisherManifestDomain :: string where "publisherManifestDomain = ''bytedesk.publisher-manifest.v1''"

definition normalizeDigest :: "string \<Rightarrow> string" where
  "normalizeDigest s = ToLower (TrimSpace s)"

definition checkDigest :: "string \<Rightarrow> bool" where
  "checkDigest digest = (case DecodeHex digest of None \<Rightarrow> False | Some raw \<Rightarrow> length raw = sha256_Size)"

abbreviation nl :: char where "nl \<equiv> CHR 0x0A"

definition PublisherStatement :: "string \<Rightarrow> string \<Rightarrow> bytes" where
  "PublisherStatement publisherID payloadSHA256 =
     publisherDomain @ [nl] @ TrimSpace publisherID @ [nl] @ normalizeDigest payloadSHA256"

definition StoreStatement :: "Envelope \<Rightarrow> bytes" where
  "StoreStatement env =
     (let (i, kid, sig) = (case en_Publisher env of None \<Rightarrow> ('''', '''', '''') | Some p \<Rightarrow> (ps_ID p, ps_KID p, ps_Signature p)) in
      storeDomain @ [nl] @ normalizeDigest (en_SHA256 env) @ [nl] @ i @ [nl] @ kid @ [nl] @ sig)"

definition decodePublicKey :: "string \<Rightarrow> bytes attested" where
  "decodePublicKey text =
     (let encoded = TrimSpace text;
          sized = (\<lambda>r. case r of Some raw \<Rightarrow> if length raw = PublicKeySize then Some raw else None | None \<Rightarrow> None) in
      case sized (StdDecode encoded) of
        Some raw \<Rightarrow> Inr raw
      | None \<Rightarrow>
          (case sized (DecodeHex encoded) of
             Some raw \<Rightarrow> Inr raw
           | None \<Rightarrow> Inl (AttestError ''not a 32-byte ed25519 public key in base64 or hex'')))"

section \<open>Signing\<close>

definition SignPublisher :: "crypto \<Rightarrow> (string \<Rightarrow> string) \<Rightarrow> bytes \<Rightarrow> string \<Rightarrow> string \<Rightarrow> Envelope attested" where
  "SignPublisher cr qt seed publisherID payloadSHA256 =
     (let digest = normalizeDigest payloadSHA256; pub = cr_public cr seed in
      if length seed \<noteq> SeedSize then
        Inl (AttestError (''attest: publisher seed is '' @ decimal (length seed) @ '' bytes, want '' @ decimal SeedSize))
      else if TrimSpace publisherID = '''' then Inl (AttestError ''attest: publisher id required'')
      else if \<not> checkDigest digest then Inl (AttestError (''attest: '' @ qt digest @ '' is not a hex sha256''))
      else Inr \<lparr>en_V = EnvelopeVersion, en_SHA256 = digest,
                en_Publisher = Some \<lparr>ps_ID = TrimSpace publisherID, ps_KID = KID cr pub, ps_PublicKey = StdEncode pub,
                  ps_Signature = StdEncode (cr_sign cr seed (PublisherStatement publisherID digest))\<rparr>,
                en_Store = None\<rparr>)"

text \<open>\<open>p\<close> is what \<^verbatim>\<open>env.Publisher\<close> points to; the callers have checked that it is not nil.\<close>

definition verifyPublisher ::
  "crypto \<Rightarrow> (string \<Rightarrow> string) \<Rightarrow> Envelope \<Rightarrow> PublisherSignature \<Rightarrow> attest_error option" where
  "verifyPublisher cr qt env p =
     (case decodePublicKey (ps_PublicKey p) of
        Inl _ \<Rightarrow> Some (AttestError ''attest: publisher key'')
      | Inr pub \<Rightarrow>
          if \<not> EqualFold (KID cr pub) (ps_KID p) then
            Some (AttestError (''attest: publisher kid '' @ qt (ps_KID p) @ '' is not sha256 of the key it ships ('' @ qt (KID cr pub) @ '')''))
          else case StdDecode (ps_Signature p) of
            None \<Rightarrow> Some (ErrBadSignature ''publisher signature is not base64'')
          | Some sig \<Rightarrow>
              if \<not> cr_verify cr pub (PublisherStatement (ps_ID p) (en_SHA256 env)) sig
              then Some (ErrBadSignature ''publisher signature'') else None)"

definition Countersign :: "crypto \<Rightarrow> (string \<Rightarrow> string) \<Rightarrow> bytes \<Rightarrow> Envelope \<Rightarrow> instant \<Rightarrow> Envelope attested" where
  "Countersign cr qt seed env at =
     (if length seed \<noteq> SeedSize then
        Inl (AttestError (''attest: store seed is '' @ decimal (length seed) @ '' bytes, want '' @ decimal SeedSize))
      else case en_Publisher env of
        None \<Rightarrow> Inl ErrUnsigned
      | Some p \<Rightarrow>
          (case verifyPublisher cr qt env p of
             Some err \<Rightarrow> Inl err
           | None \<Rightarrow>
               Inr (env\<lparr>en_Store := Some
                 \<lparr>ss_KID = KID cr (cr_public cr seed), ss_Signature = StdEncode (cr_sign cr seed (StoreStatement env)),
                  ss_IssuedAt = RFC3339 at\<rparr>\<rparr>)))"

section \<open>Roots and verification\<close>

type_synonym Roots = "(string, bytes) amap"

fun load_roots :: "crypto \<Rightarrow> (string \<Rightarrow> string) \<Rightarrow> Roots \<Rightarrow> (string \<times> string) list \<Rightarrow> Roots attested" where
  "load_roots cr qt out [] = Inr out"
| "load_roots cr qt out ((kid, key) # doc) =
     (case decodePublicKey key of
        Inl _ \<Rightarrow> Inl (AttestError (''attest: root '' @ qt kid))
      | Inr pub \<Rightarrow>
          if \<not> EqualFold (KID cr pub) kid then
            Inl (AttestError (''attest: root kid '' @ qt kid @ '' is not sha256 of its public key ('' @ qt (KID cr pub) @ '')''))
          else load_roots cr qt (AList.update (ToLower kid) pub out) doc)"

text \<open>\<open>decodeJSON\<close> reads the document of roots, \<open>Inl\<close> its error.\<close>

definition LoadRoots ::
  "crypto \<Rightarrow> (string \<Rightarrow> string) \<Rightarrow> (bytes \<Rightarrow> string + (string \<times> string) list) \<Rightarrow> bytes \<Rightarrow> Roots attested" where
  "LoadRoots cr qt decodeJSON r =
     (case decodeJSON r of
        Inl err \<Rightarrow> Inl (AttestError (''attest: roots: '' @ err))
      | Inr doc \<Rightarrow> load_roots cr qt [] doc)"

definition Verify ::
  "crypto \<Rightarrow> (string \<Rightarrow> string) \<Rightarrow> Envelope \<Rightarrow> string \<Rightarrow> Roots \<Rightarrow> Provenance \<times> attest_error option" where
  "Verify cr qt env payloadSHA256 roots =
     (let digest = normalizeDigest payloadSHA256 in
      if digest \<noteq> '''' \<and> digest \<noteq> normalizeDigest (en_SHA256 env) then
        (FromDev, Some (ErrDigestMismatch (''have '' @ digest @ '', envelope says '' @ en_SHA256 env)))
      else case en_Publisher env of
        None \<Rightarrow> (FromDev, Some ErrUnsigned)
      | Some p \<Rightarrow>
          (case verifyPublisher cr qt env p of
             Some err \<Rightarrow> (FromDev, Some err)
           | None \<Rightarrow>
               (case en_Store env of
                  None \<Rightarrow> (FromUpload, None)
                | Some st \<Rightarrow>
                    (case map_of roots (ToLower (ss_KID st)) of
                       None \<Rightarrow> (FromUpload, Some (ErrUntrustedRoot (''kid '' @ ss_KID st)))
                     | Some root \<Rightarrow>
                         (case StdDecode (ss_Signature st) of
                            None \<Rightarrow> (FromUpload, Some (ErrBadSignature ''store signature is not base64''))
                          | Some sig \<Rightarrow>
                              if \<not> cr_verify cr root (StoreStatement env) sig
                              then (FromUpload, Some (ErrBadSignature ''store countersignature''))
                              else (FromStore, None))))))"

section \<open>The publisher registry\<close>

definition KeyActive :: string where "KeyActive = ''active''"
definition KeyRevoked :: string where "KeyRevoked = ''revoked''"

record RegistryObject =
  ro_Path :: string
  ro_SHA256 :: string

record PublisherManifest =
  pm_V :: int
  pm_ID :: string
  pm_UpdatedAt :: string
  pm_Objects :: "RegistryObject list"
  pm_Store :: "StoreSignature option"

record PublisherKey =
  pk_KID :: string
  pk_PublicKey :: string
  pk_Status :: string
  pk_CreatedAt :: string
  pk_RevokedAt :: string

definition object_line :: "RegistryObject \<Rightarrow> string" where
  "object_line ob = TrimSpace (ro_Path ob) @ '' '' @ normalizeDigest (ro_SHA256 ob)"

definition object_text :: "PublisherManifest \<Rightarrow> string" where
  "object_text m = join_on nl (sort (map object_line (pm_Objects m)))"

definition PublisherManifestStatement :: "crypto \<Rightarrow> PublisherManifest \<Rightarrow> bytes" where
  "PublisherManifestStatement cr m =
     publisherManifestDomain @ [nl] @ TrimSpace (pm_ID m) @ [nl] @ cr_hexsum cr (object_text m)"

definition SignPublisherManifest :: "crypto \<Rightarrow> bytes \<Rightarrow> PublisherManifest \<Rightarrow> string \<Rightarrow> PublisherManifest attested" where
  "SignPublisherManifest cr seed m at =
     (if length seed \<noteq> SeedSize then
        Inl (AttestError (''attest: store seed is '' @ decimal (length seed) @ '' bytes, want '' @ decimal SeedSize))
      else if TrimSpace (pm_ID m) = '''' then Inl (AttestError ''attest: publisher manifest needs an id'')
      else Inr (m\<lparr>pm_V := EnvelopeVersion, pm_UpdatedAt := at,
                  pm_Store := Some \<lparr>ss_KID = KID cr (cr_public cr seed),
                    ss_Signature = StdEncode (cr_sign cr seed (PublisherManifestStatement cr m)), ss_IssuedAt = at\<rparr>\<rparr>))"

definition VerifyPublisherManifest :: "crypto \<Rightarrow> PublisherManifest \<Rightarrow> Roots \<Rightarrow> attest_error option" where
  "VerifyPublisherManifest cr m roots =
     (case pm_Store m of
        None \<Rightarrow> Some (ErrUntrustedRoot ''publisher manifest is unsigned'')
      | Some st \<Rightarrow>
          (case map_of roots (ToLower (ss_KID st)) of
             None \<Rightarrow> Some (ErrUntrustedRoot (''manifest kid '' @ ss_KID st))
           | Some root \<Rightarrow>
               (case StdDecode (ss_Signature st) of
                  None \<Rightarrow> Some (ErrBadSignature ''manifest signature is not base64'')
                | Some sig \<Rightarrow>
                    if \<not> cr_verify cr root (PublisherManifestStatement cr m) sig
                    then Some (ErrBadSignature ''publisher manifest'') else None)))"

definition ObjectDigest :: "PublisherManifest \<Rightarrow> string \<Rightarrow> string" where
  "ObjectDigest m path =
     (case find (\<lambda>ob. TrimSpace (ro_Path ob) = TrimSpace path) (pm_Objects m) of
        Some ob \<Rightarrow> normalizeDigest (ro_SHA256 ob)
      | None \<Rightarrow> '''')"

definition VerifyObject :: "crypto \<Rightarrow> PublisherManifest \<Rightarrow> string \<Rightarrow> bytes \<Rightarrow> attest_error option" where
  "VerifyObject cr m path body =
     (let want = ObjectDigest m path; got = cr_hexsum cr body in
      if want = '''' then Some (ErrObjectDigestMismatch (path @ '' is not listed in the manifest''))
      else if got \<noteq> want then Some (ErrObjectDigestMismatch (path @ '' is '' @ got @ '', manifest says '' @ want))
      else None)"

definition KeyPath :: "string \<Rightarrow> string" where
  "KeyPath kid = ''keys/'' @ ToLower (TrimSpace kid) @ ''.json''"

text \<open>\<open>unmarshal\<close> is \<^verbatim>\<open>json.Unmarshal\<close> into a key, \<open>Inl\<close> its error.\<close>

definition ResolvePublisherKey ::
  "crypto \<Rightarrow> (string \<Rightarrow> string) \<Rightarrow> (bytes \<Rightarrow> string + PublisherKey) \<Rightarrow>
   PublisherManifest \<Rightarrow> string \<Rightarrow> string \<Rightarrow> bytes \<Rightarrow> Roots \<Rightarrow> bytes attested" where
  "ResolvePublisherKey cr qt unmarshal m publisherID kid keyObject roots =
     (let path = KeyPath kid in
      if \<not> EqualFold (TrimSpace (pm_ID m)) (TrimSpace publisherID) then
        Inl (ErrKeyNotInRegistry (''manifest is for '' @ qt (pm_ID m) @ '', not '' @ qt publisherID))
      else case VerifyPublisherManifest cr m roots of Some err \<Rightarrow> Inl err
      | None \<Rightarrow>
        if ObjectDigest m path = '''' then Inl (ErrKeyNotInRegistry (publisherID @ '' has no '' @ path))
        else case VerifyObject cr m path keyObject of Some err \<Rightarrow> Inl err
        | None \<Rightarrow>
          (case unmarshal keyObject of
             Inl err \<Rightarrow> Inl (AttestError (''attest: '' @ path @ '': '' @ err))
           | Inr key \<Rightarrow>
             (case decodePublicKey (pk_PublicKey key) of
                Inl _ \<Rightarrow> Inl (AttestError (''attest: '' @ path))
              | Inr pub \<Rightarrow>
                (let got = KID cr pub; status = ToLower (TrimSpace (pk_Status key)) in
                 if \<not> EqualFold got (TrimSpace kid) \<or> \<not> EqualFold got (TrimSpace (pk_KID key)) then
                   Inl (AttestError (''attest: '' @ path @ '' holds key '' @ got @ '', not '' @ kid))
                 else if status = KeyRevoked then Inl (ErrKeyRevoked (kid @ '' (revoked '' @ pk_RevokedAt key @ '')''))
                 else if status \<noteq> KeyActive then Inl (ErrKeyNotInRegistry (kid @ '' has status '' @ qt (pk_Status key)))
                 else Inr pub))))"

section \<open>Texts and keys\<close>

abbreviation printable :: "string \<Rightarrow> bool" where
  "printable s \<equiv> list_all (\<lambda>c. 32 < code c \<and> code c < 127) s"

lemma printable_no_nl: "printable s \<Longrightarrow> nl \<notin> set s" "printable s \<Longrightarrow> CHR '' '' \<notin> set s"
  by (auto simp: list_all_iff)

lemma hexsum_facts:
  assumes "crypto_ok cr"
  shows "length (cr_hexsum cr b) = 64" "printable (cr_hexsum cr b)" "ToLower (cr_hexsum cr b) = cr_hexsum cr b"
proof -
  have h: "set (cr_hexsum cr b) \<subseteq> set ''0123456789abcdef''" "length (cr_hexsum cr b) = 64"
    using assms by (auto simp: crypto_ok_def sha256_Size_def)
  have "32 < code c \<and> code c < 127 \<and> lower_char c = c" if "c \<in> set ''0123456789abcdef''" for c
    using that by (auto simp: lower_char_def is_upper_def)
  with h show "length (cr_hexsum cr b) = 64" "printable (cr_hexsum cr b)" "ToLower (cr_hexsum cr b) = cr_hexsum cr b"
    by (auto simp: list_all_iff ToLower_def intro!: map_idI)
qed

lemma folded_kid:
  assumes "crypto_ok cr" and "EqualFold (KID cr pub) k"
  shows "ToLower k = KID cr pub" "length k = 64" "nl \<notin> set k" "list_all not_line_end k"
proof -
  show low: "ToLower k = KID cr pub" using assms hexsum_facts(3) by (simp add: EqualFold_def KID_def)
  then show "length k = 64" using hexsum_facts(1) [OF assms(1)] by (metis KID_def ToLower_def length_map)
  have "c \<noteq> nl \<and> c \<noteq> CHR 0x0D" if "c \<in> set k" for c
  proof -
    have "lower_char c \<in> set (KID cr pub)" using low that by (metis ToLower_def image_eqI list.set_map)
    then have "32 < code (lower_char c)" using hexsum_facts(2) [OF assms(1)] by (auto simp: KID_def list_all_iff)
    then show ?thesis by (auto simp: lower_char_def is_upper_def)
  qed
  then show "nl \<notin> set k" "list_all not_line_end k" by (auto simp: list_all_iff not_line_end_def)
qed

lemma checkDigest_printable: "checkDigest d \<Longrightarrow> printable d"
  by (auto simp: checkDigest_def split: option.splits dest: DecodeHex_plain)

lemma normalizeDigest_idem: "checkDigest (normalizeDigest d) \<Longrightarrow> normalizeDigest (normalizeDigest d) = normalizeDigest d"
  using TrimSpace_printable [OF checkDigest_printable] by (simp add: normalizeDigest_def)

lemma std_val_printable: "std_val c = Some n \<Longrightarrow> 32 < code c \<and> code c < 127"
  by (auto simp: std_val_def b64_val_def is_upper_def is_lower_def is_digit_def split: if_splits)

lemma std_encode_printable: "list_all (\<lambda>b. b < 256) bs \<Longrightarrow> printable (std_encode bs)"
proof -
  have "32 < code (std_char n) \<and> code (std_char n) < 127" if "n < 64" for n
    using std_val_printable [OF std_val_char [OF that]] .
  then show "list_all (\<lambda>b. b < 256) bs \<Longrightarrow> printable (std_encode bs)"
    by (induction bs rule: std_encode.induct) (auto simp: sextet_bounds)
qed

lemma decodePublicKey_Encode: "length pub = PublicKeySize \<Longrightarrow> decodePublicKey (StdEncode pub) = Inr pub"
  using TrimSpace_printable [OF std_encode_printable [OF codes_bound [of pub]]]
  by (simp add: decodePublicKey_def StdEncode_def [symmetric])

lemma crypto_sizes:
  assumes "crypto_ok cr" and "length seed = SeedSize"
  shows "length (cr_public cr seed) = PublicKeySize" "cr_verify cr (cr_public cr seed) msg (cr_sign cr seed msg)"
  using assms by (simp_all add: crypto_ok_def)

lemma verifyPublisher_None:
  "verifyPublisher cr qt env p = None \<longleftrightarrow>
     (\<exists>pub sig. decodePublicKey (ps_PublicKey p) = Inr pub \<and> EqualFold (KID cr pub) (ps_KID p) \<and>
       StdDecode (ps_Signature p) = Some sig \<and> cr_verify cr pub (PublisherStatement (ps_ID p) (en_SHA256 env)) sig)"
  by (auto simp: verifyPublisher_def split: sum.splits option.splits)

section \<open>A statement determines what it is about\<close>

lemma domains_free [simp]:
  "nl \<notin> set publisherDomain" "nl \<notin> set storeDomain" "nl \<notin> set publisherManifestDomain"
  "publisherDomain \<noteq> storeDomain" "storeDomain \<noteq> publisherManifestDomain" "publisherDomain \<noteq> publisherManifestDomain"
  by (simp_all add: publisherDomain_def storeDomain_def publisherManifestDomain_def)

lemma domains_separate: "StoreStatement env \<noteq> PublisherManifestStatement cr m"
proof
  assume "StoreStatement env = PublisherManifestStatement cr m"
  then have "\<exists>a b. storeDomain @ nl # a = publisherManifestDomain @ nl # b"
    by (auto simp: StoreStatement_def PublisherManifestStatement_def split: prod.splits)
  then show False using cut_unique domains_free(2,3,5) by blast
qed

lemma cut_suffix: "c \<notin> set k \<Longrightarrow> k @ c # s = u @ c # r \<Longrightarrow> suffix r s"
proof (induction k arbitrary: u)
  case Nil
  then show ?case by (cases u) (auto simp: suffix_def)
next
  case (Cons x k)
  then show ?case by (cases u) auto
qed

text \<open>A publisher id and a signature may contain newlines. What keeps the parts of a countersigned statement apart
  is that a key id has no newline and that a signature has a fixed number of characters besides newlines.\<close>

lemma signature_tail_cancel:
  assumes eq: "i @ nl # k @ nl # s = i' @ nl # k' @ nl # s'"
    and k: "nl \<notin> set k" "list_all not_line_end k'" "length k' = 64"
    and s: "length (filter not_line_end s) = 88" "length (filter not_line_end s') = 88" and "length i \<le> length i'"
  shows "i = i'"
proof -
  have "\<exists>us. i = i' @ us \<and> us @ nl # k @ nl # s = nl # k' @ nl # s' \<or> i @ us = i' \<and> nl # k @ nl # s = us @ nl # k' @ nl # s'"
    by (rule iffD1 [OF append_eq_append_conv2 eq])
  then obtain u where u: "i' = i @ u" "nl # k @ nl # s = u @ nl # k' @ nl # s'"
    using \<open>length i \<le> length i'\<close> by fastforce
  show ?thesis
  proof (cases u)
    case Nil
    with u show ?thesis by simp
  next
    case (Cons x v)
    then have "k @ nl # s = v @ nl # k' @ nl # s'" using u(2) by (metis append_Cons list.inject)
    from cut_suffix [OF k(1) this] obtain t where "s = t @ k' @ nl # s'" by (auto simp: suffix_def)
    then have "length (filter not_line_end k') + length (filter not_line_end s') \<le> length (filter not_line_end s)" by simp
    moreover have "filter not_line_end k' = k'" using k(2) by (simp add: filter_id_conv list_all_iff)
    ultimately show ?thesis using s k(3) by simp
  qed
qed

lemma verified_signature:
  assumes "crypto_ok cr" and "verifyPublisher cr qt env p = None"
  shows "nl \<notin> set (ps_KID p)" "list_all not_line_end (ps_KID p)" "length (ps_KID p) = 64"
    "length (filter not_line_end (ps_Signature p)) = 88"
proof -
  obtain pub sig where v: "EqualFold (KID cr pub) (ps_KID p)" "StdDecode (ps_Signature p) = Some sig"
    "cr_verify cr pub (PublisherStatement (ps_ID p) (en_SHA256 env)) sig"
    using assms(2) unfolding verifyPublisher_None by blast
  show "nl \<notin> set (ps_KID p)" "list_all not_line_end (ps_KID p)" "length (ps_KID p) = 64"
    using folded_kid [OF assms(1) v(1)] by auto
  have "length sig = SignatureSize" using v(3) assms(1) unfolding crypto_ok_def by blast
  then show "length (filter not_line_end (ps_Signature p)) = 88"
    using StdDecode_length [OF v(2)] by (simp add: SignatureSize_def)
qed

lemma StoreStatement_inject:
  assumes cr: "crypto_ok cr" and p: "en_Publisher e = Some p" "verifyPublisher cr qt e p = None"
    and p': "en_Publisher e' = Some p'" "verifyPublisher cr qt e' p' = None"
    and nl: "nl \<notin> set (normalizeDigest (en_SHA256 e))" "nl \<notin> set (normalizeDigest (en_SHA256 e'))"
    and eq: "StoreStatement e = StoreStatement e'"
  shows "normalizeDigest (en_SHA256 e) = normalizeDigest (en_SHA256 e') \<and> ps_ID p = ps_ID p' \<and> ps_KID p = ps_KID p' \<and>
    ps_Signature p = ps_Signature p'"
proof -
  note v = verified_signature [OF cr p(2)] and v' = verified_signature [OF cr p'(2)]
  from eq have "normalizeDigest (en_SHA256 e) @ nl # ps_ID p @ nl # ps_KID p @ nl # ps_Signature p =
      normalizeDigest (en_SHA256 e') @ nl # ps_ID p' @ nl # ps_KID p' @ nl # ps_Signature p'"
    by (simp add: StoreStatement_def p(1) p'(1))
  from cut_unique [OF this nl] have d: "normalizeDigest (en_SHA256 e) = normalizeDigest (en_SHA256 e')"
    and t: "ps_ID p @ nl # ps_KID p @ nl # ps_Signature p = ps_ID p' @ nl # ps_KID p' @ nl # ps_Signature p'" by auto
  have i: "ps_ID p = ps_ID p'"
    using signature_tail_cancel [OF t v(1) v'(2,3) v(4) v'(4)] signature_tail_cancel [OF t [symmetric] v'(1) v(2,3) v'(4) v(4)]
    by (metis nat_le_linear)
  with t have "ps_KID p @ nl # ps_Signature p = ps_KID p' @ nl # ps_Signature p'" by simp
  from cut_unique [OF this v(1) v'(1)] d i show ?thesis by simp
qed

section \<open>Registry texts\<close>

lemma split_on_join_append: "split_on c (a @ c # b) = split_on c a @ split_on c b"
  by (induction a) (auto split: list.splits)

lemma line_in_text: "x \<in> set ts \<Longrightarrow> c \<notin> set x \<Longrightarrow> x \<in> set (split_on c (join_on c ts))"
proof (induction c ts rule: join_on.induct)
  case (2 c t)
  then show ?case by (simp add: split_on_single)
next
  case (3 c t u ts)
  then show ?case by (cases "x = t") (auto simp: split_on_join_append split_on_single)
qed simp

lemma last_space_unique:
  fixes a :: string
  assumes "a @ CHR '' '' # d = a' @ CHR '' '' # d'" and "CHR '' '' \<notin> set d" and "CHR '' '' \<notin> set d'"
  shows "a = a' \<and> d = d'"
proof -
  have "rev d @ CHR '' '' # rev a = rev d' @ CHR '' '' # rev a'" using arg_cong [OF assms(1), of rev] by simp
  from cut_unique [OF this] assms(2,3) show ?thesis by simp
qed

lemma KeyPath_printable:
  assumes "crypto_ok cr" and "EqualFold (KID cr pub) (TrimSpace kid)"
  shows "KeyPath kid = KeyPath (KID cr pub)" "printable (KeyPath kid)"
proof -
  note h = hexsum_facts [OF assms(1), of pub]
  have k: "ToLower (TrimSpace kid) = KID cr pub" by (rule folded_kid(1) [OF assms])
  have "TrimSpace (KID cr pub) = KID cr pub" using TrimSpace_printable h(2) by (simp add: KID_def)
  with k h show "KeyPath kid = KeyPath (KID cr pub)" by (simp add: KeyPath_def KID_def)
  show "printable (KeyPath kid)" using h(2) by (simp add: KeyPath_def k KID_def)
qed

lemma ResolvePublisherKey_Inr:
  assumes "ResolvePublisherKey cr qt unmarshal m publisherID kid keyObject roots = Inr pub"
  shows "EqualFold (TrimSpace (pm_ID m)) (TrimSpace publisherID)" "VerifyPublisherManifest cr m roots = None"
    "ObjectDigest m (KeyPath kid) = cr_hexsum cr keyObject" "EqualFold (KID cr pub) (TrimSpace kid)"
    "\<exists>key. unmarshal keyObject = Inr key \<and> decodePublicKey (pk_PublicKey key) = Inr pub \<and>
       ToLower (TrimSpace (pk_Status key)) = KeyActive"
  using assms
  by (auto simp: ResolvePublisherKey_def VerifyObject_def Let_def split: if_splits option.splits sum.splits)

lemma found: "find P xs = Some x \<Longrightarrow> x \<in> set xs \<and> P x"
  by (induction xs) (auto split: if_splits)

lemma ObjectDigest_listed:
  assumes "ObjectDigest m path \<noteq> ''''"
  shows "\<exists>ob \<in> set (pm_Objects m). TrimSpace (ro_Path ob) = TrimSpace path \<and> normalizeDigest (ro_SHA256 ob) = ObjectDigest m path"
proof -
  let ?P = "\<lambda>ob. TrimSpace (ro_Path ob) = TrimSpace path"
  obtain ob where ob: "find ?P (pm_Objects m) = Some ob"
    using assms by (auto simp: ObjectDigest_def split: option.splits)
  from found [OF ob] show ?thesis by (intro bexI [of _ ob]) (simp_all add: ObjectDigest_def ob)
qed

text \<open>An object that a text of object lines lists is listed by every clean list of objects with that text.\<close>

lemma object_text_lists:
  assumes eq: "object_text m' = object_text m" and ob: "ob \<in> set (pm_Objects m)"
    and path: "printable (TrimSpace (ro_Path ob))" "printable (normalizeDigest (ro_SHA256 ob))"
    and clean: "\<And>o'. o' \<in> set (pm_Objects m') \<Longrightarrow> nl \<notin> set (TrimSpace (ro_Path o')) \<and> printable (normalizeDigest (ro_SHA256 o'))"
  shows "\<exists>o' \<in> set (pm_Objects m'). TrimSpace (ro_Path o') = TrimSpace (ro_Path ob) \<and>
    normalizeDigest (ro_SHA256 o') = normalizeDigest (ro_SHA256 ob)"
proof -
  have "object_line ob \<in> set (split_on nl (object_text m))"
    unfolding object_text_def
    by (rule line_in_text) (use ob path printable_no_nl in \<open>auto simp: object_line_def\<close>)
  moreover have "split_on nl (object_text m') = (if pm_Objects m' = [] then [[]] else sort (map object_line (pm_Objects m')))"
  proof (cases "pm_Objects m' = []")
    case False
    have "sort (map object_line (pm_Objects m')) \<noteq> []" using False by (metis length_0_conv length_map length_sort)
    moreover have "nl \<notin> set (object_line o')" if "o' \<in> set (pm_Objects m')" for o'
      using clean [OF that] printable_no_nl(1) by (auto simp: object_line_def)
    ultimately show ?thesis using False by (auto simp: object_text_def intro!: split_join)
  qed (simp add: object_text_def)
  moreover have "object_line ob \<noteq> []" by (simp add: object_line_def)
  ultimately obtain o' where o': "o' \<in> set (pm_Objects m')" "object_line ob = object_line o'"
    using eq by (auto split: if_splits)
  then have "TrimSpace (ro_Path ob) @ CHR '' '' # normalizeDigest (ro_SHA256 ob) =
      TrimSpace (ro_Path o') @ CHR '' '' # normalizeDigest (ro_SHA256 o')" by (simp add: object_line_def)
  from last_space_unique [OF this] o'(1) path(2) clean printable_no_nl(2) show ?thesis by metis
qed

section \<open>An example\<close>

text \<open>A signature scheme in which every key signs everything, with one signature for the message \<open>special\<close> and
  another for the rest.\<close>

definition demo_mark :: "bytes \<Rightarrow> bytes \<Rightarrow> bytes" where
  "demo_mark special msg = replicate 64 (if msg = special then CHR ''a'' else CHR ''b'')"

definition demo_crypto :: "bytes \<Rightarrow> crypto" where
  "demo_crypto special =
     \<lparr>cr_hexsum = \<lambda>_. replicate 64 (CHR ''0''), cr_public = \<lambda>seed. seed, cr_sign = \<lambda>seed. demo_mark special,
      cr_verify = \<lambda>pub msg sig. sig = demo_mark special msg\<rparr>"

definition demo_key :: bytes where "demo_key = replicate 32 (CHR ''k'')"
definition demo_hex :: string where "demo_hex = replicate 64 (CHR ''0'')"

definition demo_envelope :: Envelope where
  "demo_envelope =
     \<lparr>en_V = 1, en_SHA256 = demo_hex,
      en_Publisher = Some \<lparr>ps_ID = ''acme'', ps_KID = demo_hex, ps_PublicKey = StdEncode demo_key,
        ps_Signature = StdEncode (replicate 64 (CHR ''b''))\<rparr>,
      en_Store = Some \<lparr>ss_KID = demo_hex, ss_Signature = StdEncode (replicate 64 (CHR ''a'')), ss_IssuedAt = ''''\<rparr>\<rparr>"

definition demo_registry :: PublisherManifest where
  "demo_registry =
     \<lparr>pm_V = 1, pm_ID = ''acme'', pm_UpdatedAt = '''',
      pm_Objects = [\<lparr>ro_Path = ''keys/'' @ demo_hex @ ''.json'', ro_SHA256 = demo_hex\<rparr>],
      pm_Store = Some \<lparr>ss_KID = demo_hex, ss_Signature = StdEncode (replicate 64 (CHR ''a'')), ss_IssuedAt = ''''\<rparr>\<rparr>"

definition demo_key_object :: "bytes \<Rightarrow> string + PublisherKey" where
  "demo_key_object body =
     Inr \<lparr>pk_KID = demo_hex, pk_PublicKey = StdEncode demo_key, pk_Status = ''active'', pk_CreatedAt = '''', pk_RevokedAt = ''''\<rparr>"

lemma demo_crypto_ok: "crypto_ok (demo_crypto special)"
  by (simp add: crypto_ok_def demo_crypto_def demo_mark_def sha256_Size_def SeedSize_def PublicKeySize_def SignatureSize_def)

lemma DecodeHex_zeros: "DecodeHex (replicate (2 * n) (CHR ''0'')) = Some (replicate n (char_of (0 :: nat)))"
proof (induction n)
  case (Suc n)
  then show ?case by (simp add: hex_val_def is_digit_def)
qed simp

lemma demo_digest:
  "checkDigest demo_hex" "normalizeDigest demo_hex = demo_hex" "ToLower demo_hex = demo_hex" "TrimSpace demo_hex = demo_hex"
  "demo_hex \<noteq> ''''" "KID (demo_crypto special) pub = demo_hex"
proof -
  show c: "checkDigest demo_hex"
    using DecodeHex_zeros [of 32] by (simp add: checkDigest_def demo_hex_def sha256_Size_def)
  show l: "ToLower demo_hex = demo_hex" by (simp add: demo_hex_def ToLower_def lower_char_def is_upper_def)
  show t: "TrimSpace demo_hex = demo_hex" by (rule TrimSpace_printable [OF checkDigest_printable [OF c]])
  show "normalizeDigest demo_hex = demo_hex" by (simp add: normalizeDigest_def l t)
  show "demo_hex \<noteq> ''''" by (simp add: demo_hex_def)
  show "KID (demo_crypto special) pub = demo_hex" by (simp add: KID_def demo_crypto_def demo_hex_def)
qed

section \<open>Properties\<close>

text \<open>C28. What is signed verifies: with sound cryptography, a publisher's envelope over a SHA-256 digest is accepted as
  an upload, and after the Store has countersigned it, it is accepted as coming from the Store by every host
  that loads the Store's key as a root. Neither step can fail on well-formed input.\<close>

theorem signed_package_verifies:
  assumes "crypto_ok cr" and "length seed = SeedSize" and "length storeSeed = SeedSize"
    and "TrimSpace publisherID \<noteq> ''''" and "checkDigest (normalizeDigest d)"
  shows "\<exists>env env2 roots. SignPublisher cr qt seed publisherID d = Inr env \<and> Countersign cr qt storeSeed env at = Inr env2 \<and>
    LoadRoots cr qt (\<lambda>_. Inr [(KID cr (cr_public cr storeSeed), StdEncode (cr_public cr storeSeed))]) doc = Inr roots \<and>
    Verify cr qt env d roots = (FromUpload, None) \<and> Verify cr qt env2 d roots = (FromStore, None) \<and>
    Declares env = FromUpload \<and> Declares env2 = FromStore"
proof -
  let ?pub = "cr_public cr storeSeed" and ?d = "normalizeDigest d"
  define env where "env =
    \<lparr>en_V = EnvelopeVersion, en_SHA256 = ?d,
     en_Publisher = Some \<lparr>ps_ID = TrimSpace publisherID, ps_KID = KID cr (cr_public cr seed), ps_PublicKey = StdEncode (cr_public cr seed),
       ps_Signature = StdEncode (cr_sign cr seed (PublisherStatement publisherID ?d))\<rparr>, en_Store = None\<rparr>"
  define env2 where "env2 = env\<lparr>en_Store := Some
    \<lparr>ss_KID = KID cr ?pub, ss_Signature = StdEncode (cr_sign cr storeSeed (StoreStatement env)), ss_IssuedAt = RFC3339 at\<rparr>\<rparr>"
  note [simp] = normalizeDigest_idem [OF assms(5)] crypto_sizes [OF assms(1,2)] crypto_sizes [OF assms(1,3)]
    decodePublicKey_Encode hexsum_facts(3) [OF assms(1)]
  have "SignPublisher cr qt seed publisherID d = Inr env"
    using assms by (simp add: SignPublisher_def Let_def env_def)
  moreover have v: "verifyPublisher cr qt e (the (en_Publisher env)) = None" if "en_SHA256 e = ?d" for e
    by (simp add: verifyPublisher_None that env_def EqualFold_def PublisherStatement_def)
  have "Countersign cr qt storeSeed env at = Inr env2"
    using v [of env] assms(3) by (simp add: Countersign_def env2_def) (simp add: env_def)
  moreover have "LoadRoots cr qt (\<lambda>_. Inr [(KID cr ?pub, StdEncode ?pub)]) doc = Inr [(KID cr ?pub, ?pub)]"
    by (simp add: LoadRoots_def EqualFold_def KID_def)
  moreover have "StoreStatement env2 = StoreStatement env" by (simp add: StoreStatement_def env2_def)
  then have "Verify cr qt env d [(KID cr ?pub, ?pub)] = (FromUpload, None)" "Verify cr qt env2 d [(KID cr ?pub, ?pub)] = (FromStore, None)"
    using v [of env] v [of env2] by (simp_all add: Verify_def env2_def env_def KID_def)
  moreover have "Declares env = FromUpload" "Declares env2 = FromStore" by (simp_all add: Declares_def env2_def env_def)
  ultimately show ?thesis by blast
qed

theorem signed_package_verifies_witness:
  "\<exists>env env2 roots. SignPublisher (demo_crypto '''') (\<lambda>s. s) demo_key ''acme'' demo_hex = Inr env \<and>
    Countersign (demo_crypto '''') (\<lambda>s. s) demo_key env 0 = Inr env2 \<and> Verify (demo_crypto '''') (\<lambda>s. s) env2 demo_hex roots = (FromStore, None)"
proof -
  have "TrimSpace ''acme'' = ''acme''" by (rule TrimSpace_printable) simp
  then have "length demo_key = SeedSize" "TrimSpace ''acme'' \<noteq> ''''" "checkDigest (normalizeDigest demo_hex)"
    using demo_digest by (simp_all add: demo_key_def SeedSize_def)
  from signed_package_verifies [OF demo_crypto_ok this(1,1,2,3)] show ?thesis by blast
qed

text \<open>C27. A countersignature cannot be moved. Let the Store's signature on an accepted envelope vouch only for
  statements the Store has made: of envelopes in \<open>S\<close>, whose publisher half it had verified, and of registry
  manifests in \<open>R\<close>, which the same roots sign. Then the envelope has the digest, publisher id, key id and
  publisher signature of one of the envelopes in \<open>S\<close>.\<close>

theorem store_attestation_not_transferable:
  assumes cr: "crypto_ok cr" and ok: "Verify cr qt env payload roots = (FromStore, None)"
    and payload: "checkDigest (normalizeDigest payload)"
    and made: "\<And>st root sig msg. en_Store env = Some st \<Longrightarrow> map_of roots (ToLower (ss_KID st)) = Some root \<Longrightarrow>
      StdDecode (ss_Signature st) = Some sig \<Longrightarrow> cr_verify cr root msg sig \<Longrightarrow>
      msg \<in> StoreStatement ` S \<union> PublisherManifestStatement cr ` R"
    and S: "\<And>e. e \<in> S \<Longrightarrow> checkDigest (normalizeDigest (en_SHA256 e)) \<and> (\<exists>p. en_Publisher e = Some p \<and> verifyPublisher cr qt e p = None)"
  shows "\<exists>e p q. e \<in> S \<and> en_Publisher e = Some p \<and> en_Publisher env = Some q \<and>
    normalizeDigest (en_SHA256 e) = normalizeDigest payload \<and>
    ps_ID p = ps_ID q \<and> ps_KID p = ps_KID q \<and> ps_Signature p = ps_Signature q"
proof -
  have ne: "normalizeDigest payload \<noteq> ''''"
    using payload by (auto simp: checkDigest_def sha256_Size_def)
  obtain q st root sig where q: "en_Publisher env = Some q" "verifyPublisher cr qt env q = None"
    and st: "en_Store env = Some st" "map_of roots (ToLower (ss_KID st)) = Some root" "StdDecode (ss_Signature st) = Some sig"
    "cr_verify cr root (StoreStatement env) sig"
    and d: "normalizeDigest (en_SHA256 env) = normalizeDigest payload"
    using ok ne by (auto simp: Verify_def Let_def FromStore_def FromDev_def FromUpload_def split: if_splits option.splits)
  from made [OF st] domains_separate obtain e where e: "e \<in> S" "StoreStatement env = StoreStatement e" by (auto simp: image_iff)
  with S obtain p where p: "en_Publisher e = Some p" "verifyPublisher cr qt e p = None" "checkDigest (normalizeDigest (en_SHA256 e))"
    by blast
  have "nl \<notin> set (normalizeDigest (en_SHA256 env))" "nl \<notin> set (normalizeDigest (en_SHA256 e))"
    using printable_no_nl(1) checkDigest_printable payload p(3) d by auto
  from StoreStatement_inject [OF cr q p(1,2) this e(2)] d e(1) p(1) q(1) show ?thesis by metis
qed

theorem store_attestation_not_transferable_witness:
  "\<exists>e p. e \<in> {demo_envelope} \<and> en_Publisher e = Some p \<and> ps_ID p = ''acme''"
proof -
  let ?cr = "demo_crypto (StoreStatement demo_envelope)" and ?roots = "[(demo_hex, demo_key)]"
  have key: "decodePublicKey (StdEncode demo_key) = Inr demo_key"
    by (rule decodePublicKey_Encode) (simp add: demo_key_def PublicKeySize_def)
  have other: "PublisherStatement ''acme'' demo_hex \<noteq> StoreStatement demo_envelope"
    by (simp add: PublisherStatement_def StoreStatement_def publisherDomain_def storeDomain_def demo_envelope_def)
  have v: "verifyPublisher ?cr (\<lambda>s. s) demo_envelope (the (en_Publisher demo_envelope)) = None"
    using other key demo_digest by (simp add: verifyPublisher_None demo_envelope_def EqualFold_def) (simp add: demo_crypto_def demo_mark_def)
  have sig: "cr_verify ?cr root msg (replicate 64 (CHR ''a'')) \<longleftrightarrow> msg = StoreStatement demo_envelope" for root msg
    by (simp add: demo_crypto_def demo_mark_def)
  have ver: "Verify ?cr (\<lambda>s. s) demo_envelope demo_hex ?roots = (FromStore, None)"
    using v demo_digest sig by (simp add: Verify_def demo_envelope_def)
  have "\<exists>e p q. e \<in> {demo_envelope} \<and> en_Publisher e = Some p \<and> en_Publisher demo_envelope = Some q \<and>
    normalizeDigest (en_SHA256 e) = normalizeDigest demo_hex \<and>
    ps_ID p = ps_ID q \<and> ps_KID p = ps_KID q \<and> ps_Signature p = ps_Signature q"
  proof (rule store_attestation_not_transferable [OF demo_crypto_ok ver, where R = "{}"])
    show "checkDigest (normalizeDigest demo_hex)" using demo_digest by simp
  qed (use sig v demo_digest in \<open>auto simp: demo_envelope_def\<close>)
  then show ?thesis by (simp add: demo_envelope_def)
qed

text \<open>A key is honoured only when the Store has listed it. Let the signature on the registry manifest vouch only
  for statements the Store has made, let the Store write paths without newlines and hexadecimal digests, and
  let its object lists have no SHA-256 collision with the one supplied. If a key resolves for a publisher,
  then some manifest the Store signed for that publisher lists exactly these bytes of the key object under
  the path of exactly this key, and the object says the key is active. Nothing is assumed of the manifest
  that was supplied: newlines in its paths cannot fake a line.\<close>

theorem honoured_key_was_listed:
  assumes cr: "crypto_ok cr" and ok: "ResolvePublisherKey cr qt unmarshal m publisherID kid keyObject roots = Inr pub"
    and made: "\<And>st root sig msg. pm_Store m = Some st \<Longrightarrow> map_of roots (ToLower (ss_KID st)) = Some root \<Longrightarrow>
      StdDecode (ss_Signature st) = Some sig \<Longrightarrow> cr_verify cr root msg sig \<Longrightarrow>
      msg \<in> StoreStatement ` S \<union> PublisherManifestStatement cr ` R"
    and R: "\<And>n ob. n \<in> R \<Longrightarrow> ob \<in> set (pm_Objects n) \<Longrightarrow>
      nl \<notin> set (TrimSpace (ro_Path ob)) \<and> checkDigest (normalizeDigest (ro_SHA256 ob))"
    and collision: "\<And>n. n \<in> R \<Longrightarrow> cr_hexsum cr (object_text n) = cr_hexsum cr (object_text m) \<Longrightarrow> object_text n = object_text m"
  shows "\<exists>n ob key. n \<in> R \<and> EqualFold (TrimSpace (pm_ID n)) (TrimSpace publisherID) \<and> ob \<in> set (pm_Objects n) \<and>
    TrimSpace (ro_Path ob) = KeyPath (KID cr pub) \<and> normalizeDigest (ro_SHA256 ob) = cr_hexsum cr keyObject \<and>
    unmarshal keyObject = Inr key \<and> decodePublicKey (pk_PublicKey key) = Inr pub \<and> ToLower (TrimSpace (pk_Status key)) = KeyActive"
proof -
  note r = ResolvePublisherKey_Inr [OF ok]
  obtain st root sig where st: "pm_Store m = Some st" "map_of roots (ToLower (ss_KID st)) = Some root"
    "StdDecode (ss_Signature st) = Some sig" "cr_verify cr root (PublisherManifestStatement cr m) sig"
    using r(2) by (auto simp: VerifyPublisherManifest_def split: option.splits if_splits)
  from made [OF st] domains_separate obtain n where n: "n \<in> R" "PublisherManifestStatement cr m = PublisherManifestStatement cr n"
    by (metis UnE imageE)
  then have t: "TrimSpace (pm_ID m) @ [nl] @ cr_hexsum cr (object_text m) = TrimSpace (pm_ID n) @ [nl] @ cr_hexsum cr (object_text n)"
    by (simp add: PublisherManifestStatement_def)
  moreover have "length (cr_hexsum cr (object_text m)) = length (cr_hexsum cr (object_text n))"
    using hexsum_facts(1) [OF cr] by simp
  ultimately have i: "TrimSpace (pm_ID m) = TrimSpace (pm_ID n)" and h: "cr_hexsum cr (object_text n) = cr_hexsum cr (object_text m)"
    by simp_all
  note path = KeyPath_printable [OF cr r(4)]
  have "ObjectDigest m (KeyPath kid) \<noteq> ''''" using r(3) hexsum_facts(1) [OF cr, of keyObject] by auto
  from ObjectDigest_listed [OF this] obtain ob where ob: "ob \<in> set (pm_Objects m)"
    "TrimSpace (ro_Path ob) = KeyPath kid" "normalizeDigest (ro_SHA256 ob) = cr_hexsum cr keyObject"
    unfolding TrimSpace_printable [OF path(2)] r(3) by blast
  have "\<exists>o' \<in> set (pm_Objects n). TrimSpace (ro_Path o') = TrimSpace (ro_Path ob) \<and>
      normalizeDigest (ro_SHA256 o') = normalizeDigest (ro_SHA256 ob)"
    using R [OF n(1)] checkDigest_printable path(2) hexsum_facts(2) [OF cr] ob
    by (intro object_text_lists [OF collision [OF n(1) h] ob(1)]) auto
  with ob path(1) i r(1,5) n(1) show ?thesis by metis
qed

theorem honoured_key_was_listed_witness:
  "\<exists>n ob. n \<in> {demo_registry} \<and> ob \<in> set (pm_Objects n) \<and> TrimSpace (ro_Path ob) = KeyPath demo_hex"
proof -
  let ?cr = "demo_crypto (PublisherManifestStatement (demo_crypto '''') demo_registry)" and ?roots = "[(demo_hex, demo_key)]"
  have st: "PublisherManifestStatement ?cr demo_registry = PublisherManifestStatement (demo_crypto '''') demo_registry"
    by (simp add: PublisherManifestStatement_def demo_crypto_def)
  have sig: "cr_verify ?cr root msg (replicate 64 (CHR ''a'')) \<longleftrightarrow> msg = PublisherManifestStatement ?cr demo_registry" for root msg
    unfolding st by (simp add: demo_crypto_def demo_mark_def)
  have key: "decodePublicKey (StdEncode demo_key) = Inr demo_key"
    by (rule decodePublicKey_Encode) (simp add: demo_key_def PublicKeySize_def)
  have pr: "printable demo_hex" by (rule checkDigest_printable [OF demo_digest(1)])
  have trim: "TrimSpace (''keys/'' @ demo_hex @ ''.json'') = ''keys/'' @ demo_hex @ ''.json''" "TrimSpace ''active'' = ''active''"
    using pr by (auto intro!: TrimSpace_printable)
  have hs: "cr_hexsum ?cr b = demo_hex" for b by (simp add: demo_crypto_def demo_hex_def)
  have reg: "pm_ID demo_registry = ''acme''" "pm_Objects demo_registry = [\<lparr>ro_Path = ''keys/'' @ demo_hex @ ''.json'', ro_SHA256 = demo_hex\<rparr>]"
    "pm_Store demo_registry = Some \<lparr>ss_KID = demo_hex, ss_Signature = StdEncode (replicate 64 (CHR ''a'')), ss_IssuedAt = ''''\<rparr>"
    by (simp_all add: demo_registry_def)
  have low: "ToLower ''active'' = ''active''" by (simp add: ToLower_def lower_char_def is_upper_def)
  have res: "ResolvePublisherKey ?cr (\<lambda>s. s) demo_key_object demo_registry ''acme'' demo_hex '''' ?roots = Inr demo_key"
    using sig key demo_digest trim hs low reg
    by (simp add: ResolvePublisherKey_def VerifyPublisherManifest_def VerifyObject_def ObjectDigest_def EqualFold_def KeyPath_def
        Let_def demo_key_object_def KeyActive_def KeyRevoked_def)
  have "\<exists>n ob key. n \<in> {demo_registry} \<and> EqualFold (TrimSpace (pm_ID n)) (TrimSpace ''acme'') \<and> ob \<in> set (pm_Objects n) \<and>
    TrimSpace (ro_Path ob) = KeyPath (KID ?cr demo_key) \<and> normalizeDigest (ro_SHA256 ob) = cr_hexsum ?cr '''' \<and>
    demo_key_object '''' = Inr key \<and> decodePublicKey (pk_PublicKey key) = Inr demo_key \<and> ToLower (TrimSpace (pk_Status key)) = KeyActive"
    by (rule honoured_key_was_listed [OF demo_crypto_ok res, where S = "{}"])
       (use sig demo_digest trim pr printable_no_nl reg in auto)
  then show ?thesis using demo_digest by auto
qed

text \<open>The order of the listed objects is not signed, and the first entry of a path answers for it. For every
  object of a manifest there is a reordering that verifies exactly as the manifest does and in which this
  object's digest is the one of its path. So where a path is listed twice, say an active and a revoked object
  of one key, whoever serves the manifest chooses which of them counts.\<close>

theorem registry_order_is_unsigned:
  assumes "ob \<in> set (pm_Objects m)"
  shows "\<exists>objects. mset objects = mset (pm_Objects m) \<and>
    VerifyPublisherManifest cr (m\<lparr>pm_Objects := objects\<rparr>) roots = VerifyPublisherManifest cr m roots \<and>
    ObjectDigest (m\<lparr>pm_Objects := objects\<rparr>) (ro_Path ob) = normalizeDigest (ro_SHA256 ob)"
proof -
  let ?objects = "ob # remove1 ob (pm_Objects m)"
  have ms: "mset ?objects = mset (pm_Objects m)" using assms by simp
  then have "sort (map object_line ?objects) = sort (map object_line (pm_Objects m))"
    unfolding sort_mset by (simp only: mset_map)
  then have "object_text (m\<lparr>pm_Objects := ?objects\<rparr>) = object_text m" by (simp add: object_text_def)
  then have "PublisherManifestStatement cr (m\<lparr>pm_Objects := ?objects\<rparr>) = PublisherManifestStatement cr m"
    by (simp add: PublisherManifestStatement_def)
  then have "VerifyPublisherManifest cr (m\<lparr>pm_Objects := ?objects\<rparr>) roots = VerifyPublisherManifest cr m roots"
    by (auto simp: VerifyPublisherManifest_def split: option.split)
  moreover have "ObjectDigest (m\<lparr>pm_Objects := ?objects\<rparr>) (ro_Path ob) = normalizeDigest (ro_SHA256 ob)"
    by (simp add: ObjectDigest_def)
  ultimately show ?thesis using ms by blast
qed

theorem registry_order_is_unsigned_witness:
  "\<exists>objects. mset objects = mset (pm_Objects demo_registry) \<and>
    ObjectDigest (demo_registry\<lparr>pm_Objects := objects\<rparr>) (''keys/'' @ demo_hex @ ''.json'') = demo_hex"
proof -
  have "\<lparr>ro_Path = ''keys/'' @ demo_hex @ ''.json'', ro_SHA256 = demo_hex\<rparr> \<in> set (pm_Objects demo_registry)"
    by (simp add: demo_registry_def)
  from registry_order_is_unsigned [OF this, of "demo_crypto ''''" "[]"] show ?thesis using demo_digest by auto
qed

end
