(* ===== verification/Plugin_Base.thy ===== *)
theory Plugin_Base
  imports System
begin

text \<open>
  The base a plugin embeds and the binding the host installs into it, \<^verbatim>\<open>src/v2/plugin/base.go\<close>,
  \<^verbatim>\<open>bind.go\<close> and the doubles of \<^verbatim>\<open>plugin.go\<close>. The bus of a binding is a connection of the substrate; an
  unbound base answers with a bus that refuses every operation. A host's logger and profiler are known here
  by a number. \<^verbatim>\<open>Bind\<close> holds the mutex of the base from its check to its last write, so it is one step.
\<close>

section \<open>Bases and bindings\<close>

datatype plugin_bus = UnboundBus | CapsBus addr Capabilities
datatype Logger = NopLogger | HostLogger nat
datatype Profiler = NopProfiler | HostProfiler nat

record Base =
  ba_bound :: bool
  ba_bus :: "(addr \<times> Capabilities) option"
  ba_logger :: "nat option"
  ba_profiler :: "nat option"
  ba_stateDir :: string
  ba_identity :: Identity

record Binding =
  bd_Bus :: "addr option"
  bd_Logger :: "nat option"
  bd_Profiler :: "nat option"
  bd_StateDir :: string
  bd_Identity :: Identity
  bd_Caps :: Capabilities

definition zero_identity :: Identity where
  "zero_identity =
     \<lparr>PluginID = '''', Generation = '''', Id_Lease = \<lparr>lease_token = ''''\<rparr>, Id_Role = '''',
      Id_Grants = \<lparr>g_Publish = [], g_Subscribe = [], g_Request = [], g_Serves = [], g_Streams = [], g_KV = [], g_Objects = []\<rparr>\<rparr>"

definition zero_base :: Base where
  "zero_base =
     \<lparr>ba_bound = False, ba_bus = None, ba_logger = None, ba_profiler = None, ba_stateDir = '''', ba_identity = zero_identity\<rparr>"

text \<open>The accessors; \<open>None\<close> is the nil base.\<close>

definition Base_Bus :: "Base option \<Rightarrow> plugin_bus" where
  "Base_Bus b =
     (case b of None \<Rightarrow> UnboundBus
      | Some x \<Rightarrow> (case ba_bus x of None \<Rightarrow> UnboundBus | Some (c, caps) \<Rightarrow> CapsBus c caps))"

definition Base_Logger :: "Base option \<Rightarrow> Logger" where
  "Base_Logger b =
     (case b of None \<Rightarrow> NopLogger | Some x \<Rightarrow> (case ba_logger x of None \<Rightarrow> NopLogger | Some l \<Rightarrow> HostLogger l))"

definition Base_Profiling :: "Base option \<Rightarrow> Profiler" where
  "Base_Profiling b =
     (case b of None \<Rightarrow> NopProfiler | Some x \<Rightarrow> (case ba_profiler x of None \<Rightarrow> NopProfiler | Some p \<Rightarrow> HostProfiler p))"

definition Base_StateDir :: "Base option \<Rightarrow> string" where
  "Base_StateDir b = (case b of None \<Rightarrow> '''' | Some x \<Rightarrow> ba_stateDir x)"

definition Base_Identity :: "Base option \<Rightarrow> Identity" where
  "Base_Identity b = (case b of None \<Rightarrow> zero_identity | Some x \<Rightarrow> ba_identity x)"

definition bind_fault :: "string \<Rightarrow> string \<Rightarrow> Fault" where
  "bind_fault fcode msg = mkFault fcode ''plugin.Bind'' msg"

definition install :: "addr \<Rightarrow> Binding \<Rightarrow> Base" where
  \<comment> \<open>the writes at the end of \<^verbatim>\<open>Bind\<close>\<close>
  "install c b =
     \<lparr>ba_bound = True, ba_bus = Some (c, bd_Caps b), ba_logger = bd_Logger b, ba_profiler = bd_Profiler b,
      ba_stateDir = bd_StateDir b, ba_identity = bd_Identity b\<rparr>"

text \<open>The outer \<open>None\<close> is a nil plugin, the inner one a plugin whose base is nil.\<close>

definition Bind :: "Base option option \<Rightarrow> Binding \<Rightarrow> Base option option \<times> Fault option" where
  "Bind p b =
     (case p of None \<Rightarrow> (p, Some (bind_fault FaultUnavailable ''nil plugin''))
      | Some None \<Rightarrow> (p, Some (bind_fault FaultUnavailable ''plugin has no embedded Base''))
      | Some (Some base) \<Rightarrow>
          (case bd_Bus b of
             None \<Rightarrow> (p, Some (bind_fault FaultUnavailable (''binding for '' @ Identity_String (bd_Identity b) @ '' carries no bus'')))
           | Some c \<Rightarrow>
               if ba_bound base \<and> Generation (ba_identity base) = Generation (bd_Identity b) then
                 (p, Some (bind_fault FaultConflict (''generation '' @ Identity_String (bd_Identity b) @
                    '' is already bound; a second Bind would replace a live binding'')))
               else (Some (Some (install c b)), None)))"

section \<open>The bus of a plugin\<close>

definition unbound :: "string \<Rightarrow> Fault" where
  "unbound op = mkFault FaultWithdrawn op
     ''plugin base is not bound: the host has installed no binding for this generation''"

text \<open>An operation of the bus of a plugin: the one of the connection, or the refusal of the double.\<close>

definition via :: "plugin_bus \<Rightarrow> string \<Rightarrow> (addr \<Rightarrow> Store \<Rightarrow> Store \<times> 'a res) \<Rightarrow> Store \<Rightarrow> Store \<times> 'a res" where
  "via b op f S = (case b of UnboundBus \<Rightarrow> (S, Inl (unbound op)) | CapsBus c _ \<Rightarrow> f c S)"

definition ask :: "plugin_bus \<Rightarrow> string \<Rightarrow> (addr \<Rightarrow> Store \<Rightarrow> 'a res) \<Rightarrow> Store \<Rightarrow> 'a res" where
  "ask b op f S = (case b of UnboundBus \<Rightarrow> Inl (unbound op) | CapsBus c _ \<Rightarrow> f c S)"

definition no_capabilities :: Capabilities where
  "no_capabilities =
     \<lparr>Durable = False, Cap_KV = False, Cap_Objects = False, Cap_Services = False, Cap_Schedule = False,
      Counters = False, Batch = False, Cap_Trace = False, MaxPayload = 0\<rparr>"

definition pb_Capabilities :: "plugin_bus \<Rightarrow> Capabilities" where
  "pb_Capabilities b = (case b of UnboundBus \<Rightarrow> no_capabilities | CapsBus _ caps \<Rightarrow> caps)"

definition pb_Publish :: "plugin_bus \<Rightarrow> string \<Rightarrow> Context \<Rightarrow> Subject \<Rightarrow> bytes \<Rightarrow> PublishOpt option list \<Rightarrow> Store \<Rightarrow> Store \<times> unit res" where
  "pb_Publish b minted ctx subject data opts = via b ''bus.Publish'' (\<lambda>c. Publish minted ctx c subject data opts)"

definition pb_Subscribe :: "plugin_bus \<Rightarrow> Pattern \<Rightarrow> bool \<Rightarrow> SubOpt option list \<Rightarrow> Store \<Rightarrow> Store \<times> addr res" where
  "pb_Subscribe b pat h opts = via b ''bus.Subscribe'' (\<lambda>c. Subscribe c pat h opts)"

definition pb_Request :: "plugin_bus \<Rightarrow> string \<Rightarrow> Context \<Rightarrow> Subject \<Rightarrow> bytes \<Rightarrow> ReqOpt option list \<Rightarrow> Store \<Rightarrow> Store \<times> (Subject \<times> addr) res" where
  "pb_Request b minted ctx subject data opts = via b ''bus.Request'' (\<lambda>c. request_begin minted ctx c subject data opts)"

definition pb_Close :: "plugin_bus \<Rightarrow> Store \<Rightarrow> Store \<times> unit res" where
  "pb_Close b = via b ''bus.Close'' (\<lambda>c. (\<lambda>S. (conn_Close c S, Inr ())))"

definition pb_Stream_Declare :: "plugin_bus \<Rightarrow> instant \<Rightarrow> StreamSpec \<Rightarrow> Store \<Rightarrow> Store \<times> unit res" where
  "pb_Stream_Declare b now spec = via b ''streams.Declare'' (\<lambda>c. Stream_Declare now c spec)"

definition pb_Stream_Publish :: "plugin_bus \<Rightarrow> string \<Rightarrow> Context \<Rightarrow> instant \<Rightarrow> Subject \<Rightarrow> bytes \<Rightarrow> PublishOpt option list \<Rightarrow> Store \<Rightarrow> Store \<times> Seq res" where
  "pb_Stream_Publish b minted ctx now subject data opts = via b ''streams.Publish'' (\<lambda>c. Stream_Publish minted ctx now c subject data opts)"

definition pb_PublishBatch :: "plugin_bus \<Rightarrow> (nat \<Rightarrow> string) \<Rightarrow> (nat \<Rightarrow> instant) \<Rightarrow> Context \<Rightarrow> BatchMsg list \<Rightarrow> Store \<Rightarrow> Store \<times> Seq list res" where
  "pb_PublishBatch b mint clk ctx msgs = via b ''streams.PublishBatch'' (\<lambda>c. PublishBatch mint clk ctx c msgs)"

definition pb_Counter :: "plugin_bus \<Rightarrow> Subject \<Rightarrow> 64 word \<Rightarrow> Store \<Rightarrow> Store \<times> 64 word res" where
  "pb_Counter b subject delta = via b ''streams.Counter'' (\<lambda>c. Counter c subject delta)"

definition pb_Consume :: "plugin_bus \<Rightarrow> string \<Rightarrow> ConsumerSpec \<Rightarrow> bool \<Rightarrow> Store \<Rightarrow> Store \<times> addr res" where
  "pb_Consume b name spec h = via b ''streams.Consume'' (\<lambda>c. Consume c name spec h)"

definition pb_Fetch :: "plugin_bus \<Rightarrow> (nat \<Rightarrow> instant) \<Rightarrow> string \<Rightarrow> ConsumerSpec \<Rightarrow> int \<Rightarrow> Store \<Rightarrow> Store \<times> StreamMsg list res" where
  "pb_Fetch b clk name spec n = via b ''streams.Fetch'' (\<lambda>c. Fetch_round clk c name spec n)"

definition pb_Purge :: "plugin_bus \<Rightarrow> string \<Rightarrow> Pattern \<Rightarrow> Store \<Rightarrow> Store \<times> unit res" where
  "pb_Purge b name filt = via b ''streams.Purge'' (\<lambda>c. Stream_Purge c name filt)"

definition pb_Stream_Info :: "plugin_bus \<Rightarrow> instant \<Rightarrow> string \<Rightarrow> Store \<Rightarrow> Store \<times> StreamInfo res" where
  "pb_Stream_Info b now name = via b ''streams.Info'' (\<lambda>c. Stream_Info now c name)"

definition pb_Stream_Delete :: "plugin_bus \<Rightarrow> string \<Rightarrow> Store \<Rightarrow> Store \<times> unit res" where
  "pb_Stream_Delete b name = via b ''streams.Delete'' (\<lambda>c. Stream_Delete c name)"

definition pb_KV_Declare :: "plugin_bus \<Rightarrow> BucketSpec \<Rightarrow> Store \<Rightarrow> Store \<times> unit res" where
  "pb_KV_Declare b spec = via b ''kv.Declare'' (\<lambda>c. KV_Declare c spec)"

definition pb_KV_Open :: "plugin_bus \<Rightarrow> string \<Rightarrow> Store \<Rightarrow> bucket res" where
  "pb_KV_Open b name = ask b ''kv.Open'' (\<lambda>c. KV_Open c name)"

definition pb_KV_Delete :: "plugin_bus \<Rightarrow> string \<Rightarrow> Store \<Rightarrow> Store \<times> unit res" where
  "pb_KV_Delete b name = via b ''kv.Delete'' (\<lambda>c. KV_Delete c name)"

definition pb_KV_List :: "plugin_bus \<Rightarrow> Store \<Rightarrow> string list res" where
  "pb_KV_List b = ask b ''kv.List'' (\<lambda>c. KV_List c)"

definition pb_Objects_Declare :: "plugin_bus \<Rightarrow> BucketSpec \<Rightarrow> Store \<Rightarrow> Store \<times> unit res" where
  "pb_Objects_Declare b spec = via b ''objects.Declare'' (\<lambda>c. Objects_Declare c spec)"

definition pb_Objects_Put :: "plugin_bus \<Rightarrow> (bytes \<Rightarrow> string) \<Rightarrow> instant \<Rightarrow> ObjectMeta \<Rightarrow> (string + bytes) option \<Rightarrow> Store \<Rightarrow> Store \<times> ObjectMeta res" where
  "pb_Objects_Put b hexsum now meta r = via b ''objects.Put'' (\<lambda>c. Objects_Put hexsum now c meta r)"

definition pb_Objects_Get :: "plugin_bus \<Rightarrow> string \<Rightarrow> string \<Rightarrow> Store \<Rightarrow> (bytes \<times> ObjectMeta) res" where
  "pb_Objects_Get b bname name = ask b ''objects.Get'' (\<lambda>c. Objects_Get c bname name)"

definition pb_Objects_Info :: "plugin_bus \<Rightarrow> string \<Rightarrow> string \<Rightarrow> Store \<Rightarrow> ObjectMeta res" where
  "pb_Objects_Info b bname name = ask b ''objects.Info'' (\<lambda>c. Objects_Info c bname name)"

definition pb_Objects_Delete :: "plugin_bus \<Rightarrow> instant \<Rightarrow> string \<Rightarrow> string \<Rightarrow> Store \<Rightarrow> Store \<times> unit res" where
  "pb_Objects_Delete b now bname name = via b ''objects.Delete'' (\<lambda>c. Objects_Delete now c bname name)"

definition pb_Objects_List :: "plugin_bus \<Rightarrow> string \<Rightarrow> Store \<Rightarrow> ObjectMeta list res" where
  "pb_Objects_List b bname = ask b ''objects.List'' (\<lambda>c. Objects_List c bname)"

definition pb_Objects_Watch :: "plugin_bus \<Rightarrow> string \<Rightarrow> Store \<Rightarrow> Store \<times> nat res" where
  "pb_Objects_Watch b bname = via b ''objects.Watch'' (\<lambda>c. Objects_Watch c bname)"

definition pb_Serve :: "plugin_bus \<Rightarrow> instant \<Rightarrow> ServiceSpec \<Rightarrow> Store \<Rightarrow> Store \<times> addr res" where
  "pb_Serve b now spec = via b ''services.Serve'' (\<lambda>c. Serve now c spec)"

definition pb_Call :: "plugin_bus \<Rightarrow> string \<Rightarrow> Context \<Rightarrow> Subject \<Rightarrow> bytes \<Rightarrow> ReqOpt option list \<Rightarrow> Store \<Rightarrow> Store \<times> (Subject \<times> addr) res" where
  "pb_Call b minted ctx subject data opts = via b ''services.Call'' (\<lambda>c. Call_begin minted ctx c subject data opts)"

definition pb_Discover :: "plugin_bus \<Rightarrow> string \<Rightarrow> Store \<Rightarrow> ServiceInfo list res" where
  "pb_Discover b name = ask b ''services.Discover'' (\<lambda>c. Discover c name)"

definition pb_Stats :: "plugin_bus \<Rightarrow> string \<Rightarrow> Store \<Rightarrow> ServiceStats list res" where
  "pb_Stats b name = ask b ''services.Stats'' (\<lambda>c. Services_Stats c name)"

definition pb_At :: "plugin_bus \<Rightarrow> string \<Rightarrow> instant \<Rightarrow> Subject \<Rightarrow> bytes \<Rightarrow> PublishOpt option list \<Rightarrow> Store \<Rightarrow> Store \<times> unit res" where
  "pb_At b name t subject data opts = via b ''schedule.At'' (\<lambda>c. At c name t subject data opts)"

definition pb_Every :: "plugin_bus \<Rightarrow> instant \<Rightarrow> string \<Rightarrow> duration \<Rightarrow> Subject \<Rightarrow> bytes \<Rightarrow> PublishOpt option list \<Rightarrow> Store \<Rightarrow> Store \<times> unit res" where
  "pb_Every b now name d subject data opts = via b ''schedule.Every'' (\<lambda>c. Every now c name d subject data opts)"

definition pb_Cron :: "plugin_bus \<Rightarrow> (string \<Rightarrow> string) \<Rightarrow> instant \<Rightarrow> string \<Rightarrow> string \<Rightarrow> Subject \<Rightarrow> bytes \<Rightarrow> PublishOpt option list \<Rightarrow> Store \<Rightarrow> Store \<times> unit res" where
  "pb_Cron b qt now name expr subject data opts = via b ''schedule.Cron'' (\<lambda>c. Schedule_Cron qt now c name expr subject data opts)"

definition pb_Cancel :: "plugin_bus \<Rightarrow> string \<Rightarrow> Store \<Rightarrow> Store \<times> unit res" where
  "pb_Cancel b name = via b ''schedule.Cancel'' (\<lambda>c. Schedule_Cancel c name)"

definition pb_Schedules :: "plugin_bus \<Rightarrow> Store \<Rightarrow> Schedule list res" where
  "pb_Schedules b = ask b ''schedule.List'' (\<lambda>c. Schedule_List c)"

text \<open>The double of the trace is the identity.\<close>

definition pb_Correlation :: "plugin_bus \<Rightarrow> string \<Rightarrow> Context option \<Rightarrow> string" where
  "pb_Correlation b minted ctx = (case b of UnboundBus \<Rightarrow> '''' | CapsBus _ _ \<Rightarrow> trace_Correlation minted ctx)"

definition pb_WithCorrelation :: "plugin_bus \<Rightarrow> Context option \<Rightarrow> string \<Rightarrow> Context option" where
  "pb_WithCorrelation b ctx i = (case b of UnboundBus \<Rightarrow> ctx | CapsBus _ _ \<Rightarrow> Some (trace_WithCorrelation ctx i))"

definition pb_Inject :: "plugin_bus \<Rightarrow> string \<Rightarrow> Context option \<Rightarrow> Headers \<Rightarrow> Headers" where
  "pb_Inject b minted ctx h = (case b of UnboundBus \<Rightarrow> h | CapsBus _ _ \<Rightarrow> trace_Inject minted ctx h)"

definition pb_Extract :: "plugin_bus \<Rightarrow> Context option \<Rightarrow> Headers \<Rightarrow> Context option" where
  "pb_Extract b ctx h = (case b of UnboundBus \<Rightarrow> ctx | CapsBus _ _ \<Rightarrow> Some (trace_Extract ctx h))"

text \<open>What a plugin can do to the substrate through its base.\<close>

inductive plugin_step :: "plugin_bus \<Rightarrow> Store \<Rightarrow> Store \<Rightarrow> bool" where
  p_publish: "plugin_step b S (fst (pb_Publish b minted ctx subject data opts S))"
| p_subscribe: "plugin_step b S (fst (pb_Subscribe b pat h opts S))"
| p_request: "plugin_step b S (fst (pb_Request b minted ctx subject data opts S))"
| p_close: "plugin_step b S (fst (pb_Close b S))"
| p_stream_declare: "plugin_step b S (fst (pb_Stream_Declare b now spec S))"
| p_stream_publish: "plugin_step b S (fst (pb_Stream_Publish b minted ctx now subject data opts S))"
| p_publishbatch: "plugin_step b S (fst (pb_PublishBatch b mint clk ctx msgs S))"
| p_counter: "plugin_step b S (fst (pb_Counter b subject delta S))"
| p_consume: "plugin_step b S (fst (pb_Consume b name spec h S))"
| p_fetch: "plugin_step b S (fst (pb_Fetch b clk name spec n S))"
| p_purge: "plugin_step b S (fst (pb_Purge b name filt S))"
| p_stream_info: "plugin_step b S (fst (pb_Stream_Info b now name S))"
| p_stream_delete: "plugin_step b S (fst (pb_Stream_Delete b name S))"
| p_kv_declare: "plugin_step b S (fst (pb_KV_Declare b spec S))"
| p_kv_delete: "plugin_step b S (fst (pb_KV_Delete b name S))"
| p_objects_declare: "plugin_step b S (fst (pb_Objects_Declare b spec S))"
| p_objects_put: "plugin_step b S (fst (pb_Objects_Put b hexsum now meta r S))"
| p_objects_delete: "plugin_step b S (fst (pb_Objects_Delete b now bname name S))"
| p_objects_watch: "plugin_step b S (fst (pb_Objects_Watch b bname S))"
| p_serve: "plugin_step b S (fst (pb_Serve b now spec S))"
| p_call: "plugin_step b S (fst (pb_Call b minted ctx subject data opts S))"
| p_at: "plugin_step b S (fst (pb_At b name t subject data opts S))"
| p_every: "plugin_step b S (fst (pb_Every b now name d subject data opts S))"
| p_cron: "plugin_step b S (fst (pb_Cron b qt now name expr subject data opts S))"
| p_cancel: "plugin_step b S (fst (pb_Cancel b name S))"

section \<open>Histories of bindings\<close>

text \<open>The host binds a fresh plugin value with the given bindings, in order; refusals are ignored.\<close>

definition bind_all :: "Binding list \<Rightarrow> Base option option" where
  "bind_all bs = fold (\<lambda>b p. fst (Bind p b)) bs (Some (Some zero_base))"

definition current_run :: "Binding list \<Rightarrow> Binding list" where
  \<comment> \<open>the longest suffix of bindings of one generation\<close>
  "current_run bs =
     rev (takeWhile (\<lambda>b. Generation (bd_Identity b) = Generation (bd_Identity (last bs))) (rev bs))"

lemma bind_all_snoc: "bind_all (bs @ [b]) = fst (Bind (bind_all bs) b)"
  by (simp add: bind_all_def)

lemma current_run_single [simp]: "current_run [b] = [b]"
  by (simp add: current_run_def)

lemma current_run_snoc:
  "current_run (bs @ [b]) =
     (if bs \<noteq> [] \<and> Generation (bd_Identity (last bs)) = Generation (bd_Identity b) then current_run bs @ [b] else [b])"
  by (cases bs rule: rev_cases) (auto simp: current_run_def)

lemma current_run_hd: "bs \<noteq> [] \<Longrightarrow> current_run bs \<noteq> [] \<and> hd (current_run bs) \<in> set bs \<and>
    Generation (bd_Identity (hd (current_run bs))) = Generation (bd_Identity (last bs))"
proof (induction bs rule: rev_induct)
  case (snoc b bs)
  then show ?case by (cases "bs = []") (auto simp: current_run_snoc)
qed simp

lemma bind_all_run:
  assumes "bs \<noteq> []" and "\<And>b. b \<in> set bs \<Longrightarrow> bd_Bus b \<noteq> None"
  shows "bind_all bs = Some (Some (install (the (bd_Bus (hd (current_run bs)))) (hd (current_run bs))))"
  using assms
proof (induction bs rule: rev_induct)
  case (snoc b bs)
  obtain c where c: "bd_Bus b = Some c" using snoc.prems(2) [of b] by auto
  show ?case
  proof (cases "bs = []")
    case True
    then show ?thesis
      using c by (simp add: bind_all_def current_run_snoc Bind_def zero_base_def)
  next
    case False
    with snoc have "bind_all bs = Some (Some (install (the (bd_Bus (hd (current_run bs)))) (hd (current_run bs))))" by simp
    with False c current_run_hd [OF False] show ?thesis
      by (auto simp: bind_all_snoc current_run_snoc Bind_def install_def)
  qed
qed simp

section \<open>Properties\<close>

lemma via_unbound: "via UnboundBus op f S = (S, Inl (unbound op))" "ask UnboundBus op g S = Inl (unbound op)"
  by (simp_all add: via_def ask_def)

lemmas plugin_bus_defs = pb_Publish_def pb_Subscribe_def pb_Request_def pb_Close_def pb_Stream_Declare_def 
  pb_Stream_Publish_def pb_PublishBatch_def pb_Counter_def pb_Consume_def pb_Fetch_def pb_Purge_def 
  pb_Stream_Info_def pb_Stream_Delete_def pb_KV_Declare_def pb_KV_Open_def pb_KV_Delete_def pb_KV_List_def 
  pb_Objects_Declare_def pb_Objects_Put_def pb_Objects_Get_def pb_Objects_Info_def pb_Objects_Delete_def 
  pb_Objects_List_def pb_Objects_Watch_def pb_Serve_def pb_Call_def pb_Discover_def pb_Stats_def pb_At_def 
  pb_Every_def pb_Cron_def pb_Cancel_def pb_Schedules_def

lemma unbound_step: "plugin_step UnboundBus S S' \<Longrightarrow> S' = S"
  by (cases rule: plugin_step.cases) (auto simp: plugin_bus_defs via_unbound)

lemma via_bound: "via (CapsBus c caps) op f S = f c S"
  by (simp add: via_def)

lemmas store_steps = store_step.bus [OF bus_step.publish] store_step.bus [OF bus_step.subscribe]
  store_step.bus [OF bus_step.request] store_step.bus [OF bus_step.close_conn] store_step.bus [OF bus_step.serve]
  store_step.schedule [OF schedule_step.at] store_step.schedule [OF schedule_step.every]
  store_step.schedule [OF schedule_step.cron] store_step.schedule [OF schedule_step.cancel]
  asset_step.intros [THEN store_step.asset]

lemma bound_step:
  assumes "plugin_step (CapsBus c caps) S S'" and "c < length (H_conns S)"
  shows "S' = S \<or> store_step S S'"
  using assms(1)
proof (cases rule: plugin_step.cases)
  case (p_call minted ctx subject data opts)
  then show ?thesis
    using assms(2) by (auto simp: plugin_bus_defs via_bound Call_begin_def intro: store_steps split: option.splits)
qed (use assms(2) in \<open>simp_all add: plugin_bus_defs via_bound store_steps\<close>)

text \<open>What is bound is the first binding of the current run of one generation: after the host has bound a plugin
  any number of times, whatever was refused on the way, the base holds exactly the connection, capabilities
  and identity of the earliest binding since the generation last changed. A repeat within the run is
  refused as a conflict and changes nothing. A generation that comes back after another one starts a new run.\<close>

theorem live_binding_is_first_of_run:
  assumes "bs \<noteq> []" and "\<And>b. b \<in> set bs \<Longrightarrow> bd_Bus b \<noteq> None"
  shows "Base_Bus (the (bind_all bs)) = CapsBus (the (bd_Bus (hd (current_run bs)))) (bd_Caps (hd (current_run bs))) \<and>
    Base_Identity (the (bind_all bs)) = bd_Identity (hd (current_run bs)) \<and>
    (\<forall>b. Generation (bd_Identity b) = Generation (bd_Identity (last bs)) \<longrightarrow> bd_Bus b \<noteq> None \<longrightarrow>
      fst (Bind (bind_all bs) b) = bind_all bs \<and> map_option Code (snd (Bind (bind_all bs) b)) = Some FaultConflict) \<and>
    (\<forall>b. Generation (bd_Identity b) \<noteq> Generation (bd_Identity (last bs)) \<longrightarrow> bd_Bus b \<noteq> None \<longrightarrow>
      snd (Bind (bind_all bs) b) = None \<and> Base_Identity (the (fst (Bind (bind_all bs) b))) = bd_Identity b)"
proof -
  note run = bind_all_run [OF assms] and gen = current_run_hd [OF assms(1)]
  show ?thesis
    using gen by (auto simp: run Base_Bus_def Base_Identity_def Bind_def install_def bind_fault_def mkFault_def)
qed

definition demo_binding :: "string \<Rightarrow> nat \<Rightarrow> Binding" where
  "demo_binding gen c =
     \<lparr>bd_Bus = Some c, bd_Logger = None, bd_Profiler = None, bd_StateDir = '''',
      bd_Identity = zero_identity\<lparr>PluginID := ''demo'', Generation := gen\<rparr>, bd_Caps = no_capabilities\<rparr>"

theorem live_binding_is_first_of_run_witness:
  "Base_Bus (the (bind_all [demo_binding ''g1'' 0, demo_binding ''g2'' 1, demo_binding ''g2'' 2])) = CapsBus 1 no_capabilities"
proof -
  let ?bs = "[demo_binding ''g1'' 0, demo_binding ''g2'' 1, demo_binding ''g2'' 2]"
  have "hd (current_run ?bs) = demo_binding ''g2'' 1"
    by (simp add: current_run_def demo_binding_def zero_identity_def)
  moreover have "?bs \<noteq> []" "\<And>b. b \<in> set ?bs \<Longrightarrow> bd_Bus b \<noteq> None" by (auto simp: demo_binding_def)
  from live_binding_is_first_of_run [OF this]
  have "Base_Bus (the (bind_all ?bs)) = CapsBus (the (bd_Bus (hd (current_run ?bs)))) (bd_Caps (hd (current_run ?bs)))" by blast
  ultimately show ?thesis by (simp add: demo_binding_def)
qed

text \<open>A generation that was replaced can bind again and takes the place of the live one without a fault.\<close>

lemma stale_generation_rebinds:
  "snd (Bind (bind_all [demo_binding ''g1'' 0, demo_binding ''g2'' 1]) (demo_binding ''g1'' 0)) = None \<and>
   Generation (Base_Identity (the (fst (Bind (bind_all [demo_binding ''g1'' 0, demo_binding ''g2'' 1]) (demo_binding ''g1'' 0))))) = ''g1''"
  by (simp add: bind_all_def Bind_def demo_binding_def zero_base_def install_def Base_Identity_def zero_identity_def)



end
