(* ===== verification/Json.thy ===== *)
theory Json
  imports Go_Text
begin

text \<open>
  JSON values and the strict decoding of commands, \<^verbatim>\<open>src/v2/plugin/typed_validation.go\<close>. A value is what
  \<^verbatim>\<open>encoding/json\<close>'s decoder reads, with the members of an object in order and with duplicates; a Go type is
  what \<^verbatim>\<open>reflect\<close> shows of it to \<^verbatim>\<open>checkJSONValue\<close>. The library's decoder is a parameter: \<open>cd_Parse\<close> reads
  the first value of a text and says whether only white space follows, \<open>cd_Unmarshal\<close> is \<^verbatim>\<open>json.Unmarshal\<close>
  into the type, \<open>cd_Marshal\<close> is \<^verbatim>\<open>json.Marshal\<close>, \<open>cd_Quote\<close> is what \<^verbatim>\<open>%q\<close> prints; \<open>Inl\<close> is the text of an
  error. The code reads token by token, so on a text that is not JSON it can report a mismatch before the syntax
  error; the model reports the syntax error. Whether a text is accepted is the same.
\<close>

datatype json = JNull | JBool bool | JNumber string | JString string | JArray "json list" | JObject "(string \<times> json) list"

text \<open>A field of a struct: its name, the text of its \<^verbatim>\<open>json\<close> tag, whether it is exported, and its type.\<close>

datatype gotype = TScalar | TPointer gotype | TSlice gotype | TArray gotype
  | TStruct "(string \<times> string \<times> bool \<times> gotype) list"

record 'a codec =
  cd_Type :: gotype
  cd_Parse :: "bytes \<Rightarrow> string + json \<times> bool"
  cd_Unmarshal :: "bytes \<Rightarrow> string + 'a"
  cd_Marshal :: "'a \<Rightarrow> string + bytes"
  cd_Quote :: "string \<Rightarrow> string"

section \<open>Strict decoding\<close>

text \<open>The members a struct accepts; of two fields with one name the later type is kept.\<close>

definition field_entry :: "string \<times> string \<times> bool \<times> gotype \<Rightarrow> (string \<times> gotype) option" where
  "field_entry f =
     (let (goname, tag, exported, typ) = f; name = hd (split_on (CHR '','') tag) in
      if name \<noteq> ''-'' \<and> exported then Some (if name = '''' then goname else name, typ) else None)"

definition struct_fields :: "(string \<times> string \<times> bool \<times> gotype) list \<Rightarrow> (string, gotype) amap" where
  "struct_fields fs = foldl (\<lambda>m f. case field_entry f of None \<Rightarrow> m | Some (n, t) \<Rightarrow> AList.update n t m) [] fs"

fun strip_pointers :: "gotype \<Rightarrow> gotype" where
  "strip_pointers (TPointer t) = strip_pointers t"
| "strip_pointers t = t"

definition nullable :: "gotype \<Rightarrow> bool" where
  "nullable t = (case t of TPointer _ \<Rightarrow> True | TSlice _ \<Rightarrow> True | _ \<Rightarrow> False)"

fun checkJSONValue :: "(string \<Rightarrow> string) \<Rightarrow> json \<Rightarrow> gotype \<Rightarrow> string option"
  and check_members :: "(string \<Rightarrow> string) \<Rightarrow> (string \<times> json) list \<Rightarrow> (string, gotype) amap \<Rightarrow> string list \<Rightarrow> string option"
  and check_elems :: "(string \<Rightarrow> string) \<Rightarrow> json list \<Rightarrow> gotype \<Rightarrow> string option" where
  "checkJSONValue qt JNull typ = (if nullable typ then None else Some ''null scalar or object'')"
| "checkJSONValue qt (JObject ms) typ =
     (case strip_pointers typ of
        TStruct fs \<Rightarrow> check_members qt ms (struct_fields fs) []
      | _ \<Rightarrow> Some ''unexpected object'')"
| "checkJSONValue qt (JArray vs) typ =
     (case strip_pointers typ of
        TSlice t \<Rightarrow> check_elems qt vs t
      | TArray t \<Rightarrow> check_elems qt vs t
      | _ \<Rightarrow> Some ''unexpected array'')"
| "checkJSONValue qt v typ =
     (case strip_pointers typ of
        TStruct _ \<Rightarrow> Some ''unexpected scalar''
      | TSlice _ \<Rightarrow> Some ''unexpected scalar''
      | TArray _ \<Rightarrow> Some ''unexpected scalar''
      | _ \<Rightarrow> None)"
| "check_members qt [] known seen = None"
| "check_members qt ((name, v) # ms) known seen =
     (case map_of known name of
        None \<Rightarrow> Some (''unknown or duplicate field '' @ qt name)
      | Some field \<Rightarrow>
          if name \<in> set seen then Some (''unknown or duplicate field '' @ qt name)
          else (case checkJSONValue qt v field of
                  Some err \<Rightarrow> Some err
                | None \<Rightarrow> check_members qt ms known (name # seen)))"
| "check_elems qt [] t = None"
| "check_elems qt (v # vs) t =
     (case checkJSONValue qt v t of
        Some err \<Rightarrow> Some err
      | None \<Rightarrow> check_elems qt vs t)"

definition decodeCommand :: "'a codec \<Rightarrow> bytes \<Rightarrow> bool \<Rightarrow> string + 'a" where
  "decodeCommand cd data strict =
     (if \<not> strict then cd_Unmarshal cd data
      else if 64 * 1024 < length data then Inl ''command exceeds 64 KiB''
      else case cd_Parse cd data of
        Inl err \<Rightarrow> Inl err
      | Inr (v, only) \<Rightarrow>
          (case checkJSONValue (cd_Quote cd) v (cd_Type cd) of
             Some err \<Rightarrow> Inl err
           | None \<Rightarrow>
               if \<not> only then Inl ''command must contain one JSON value''
               else cd_Unmarshal cd data))"

definition DecodeValidated :: "'a codec \<Rightarrow> ('a \<Rightarrow> string option) \<Rightarrow> bytes \<Rightarrow> string + 'a" where
  "DecodeValidated cd validate data =
     (case decodeCommand cd data True of
        Inl err \<Rightarrow> Inl err
      | Inr v \<Rightarrow> (case validate v of Some err \<Rightarrow> Inl err | None \<Rightarrow> Inr v))"

section \<open>What strict decoding accepts\<close>

text \<open>The specification: a value conforms to a type when every object has members of the struct only, none of
  them twice, and arrays and scalars stand where the type has them.\<close>

inductive conforms :: "json \<Rightarrow> gotype \<Rightarrow> bool" where
  null: "nullable t \<Longrightarrow> conforms JNull t"
| pointer: "conforms v t \<Longrightarrow> v \<noteq> JNull \<Longrightarrow> conforms v (TPointer t)"
| bool: "conforms (JBool b) TScalar"
| number: "conforms (JNumber n) TScalar"
| string: "conforms (JString s) TScalar"
| slice: "(\<And>v. v \<in> set vs \<Longrightarrow> conforms v t) \<Longrightarrow> conforms (JArray vs) (TSlice t)"
| array: "(\<And>v. v \<in> set vs \<Longrightarrow> conforms v t) \<Longrightarrow> conforms (JArray vs) (TArray t)"
| struct: "distinct (map fst ms) \<Longrightarrow>
    (\<And>k v. (k, v) \<in> set ms \<Longrightarrow> \<exists>t. map_of (struct_fields fs) k = Some t \<and> conforms v t) \<Longrightarrow>
    conforms (JObject ms) (TStruct fs)"

inductive_cases conforms_NullE: "conforms JNull t"
inductive_cases conforms_StructE: "conforms (JObject ms) (TStruct fs)"
inductive_cases conforms_ArrayE: "conforms (JArray vs) t"
inductive_cases conforms_PointerE: "conforms v (TPointer t)"
inductive_cases conforms_ScalarE: "conforms v TScalar"

lemma check_elems_all: "check_elems qt vs t = None \<longleftrightarrow> (\<forall>v \<in> set vs. checkJSONValue qt v t = None)"
  by (induction vs) (auto split: option.splits)

lemma check_members_all:
  "check_members qt ms known seen = None \<longleftrightarrow>
     distinct (map fst ms) \<and> (\<forall>k \<in> fst ` set ms. k \<notin> set seen) \<and>
     (\<forall>k v. (k, v) \<in> set ms \<longrightarrow> (\<exists>t. map_of known k = Some t \<and> checkJSONValue qt v t = None))"
proof (induction ms arbitrary: seen)
  case (Cons m ms)
  obtain k v where m: "m = (k, v)" by fastforce
  have "(\<forall>x \<in> fst ` set ms. x \<notin> set (k # seen)) \<longleftrightarrow> k \<notin> fst ` set ms \<and> (\<forall>x \<in> fst ` set ms. x \<notin> set seen)" by auto
  with Cons.IH [of "k # seen"] show ?case unfolding m by (cases "map_of known k") (auto split: option.splits)
qed simp

lemma check_pointer: "v \<noteq> JNull \<Longrightarrow> checkJSONValue qt v (TPointer t) = checkJSONValue qt v t"
  by (cases v) auto

lemma check_conforms: "checkJSONValue qt v t = None \<Longrightarrow> conforms v t"
proof (induction v arbitrary: t)
  case JNull
  then show ?case by (auto intro: conforms.null split: if_splits)
next
  case (JArray vs)
  show ?case using JArray.prems
  proof (induction t)
    case (TPointer t)
    then show ?case using check_pointer by (auto intro: conforms.pointer)
  qed (use JArray.IH in \<open>auto simp: check_elems_all intro!: conforms.slice conforms.array\<close>)
next
  case (JObject ms)
  show ?case using JObject.prems
  proof (induction t)
    case (TPointer t)
    then show ?case using check_pointer by (auto intro: conforms.pointer)
  next
    case (TStruct fs)
    then show ?case using JObject.IH
      by (intro conforms.struct) (fastforce simp: check_members_all)+
  qed auto
qed (erule rev_mp, induct_tac t, auto intro: conforms.intros simp: check_pointer)+

lemma conforms_check: "conforms v t \<Longrightarrow> checkJSONValue qt v t = None"
  by (induction rule: conforms.induct) (fastforce simp: check_elems_all check_members_all check_pointer)+

section \<open>Properties\<close>

text \<open>C31. Strict decoding accepts exactly the conforming texts: a command decodes to a value when it has at most 64 KiB,
  is one JSON value that conforms to the type, with every member of an object known under its exact name and
  given once, and the library unmarshals it to that value.\<close>

theorem strict_decoding_exact:
  "decodeCommand cd data True = Inr v \<longleftrightarrow>
     length data \<le> 65536 \<and> (\<exists>j. cd_Parse cd data = Inr (j, True) \<and> conforms j (cd_Type cd)) \<and> cd_Unmarshal cd data = Inr v"
  by (auto simp: decodeCommand_def conforms_check dest: check_conforms split: option.splits sum.splits if_splits)

end
