(* ===== verification/Typed.thy ===== *)
theory Typed
  imports Plugin_Base Package_Rules Json
begin

text \<open>
  Typed access to the bus, \<^verbatim>\<open>src/v2/plugin/typed.go\<close> and \<^verbatim>\<open>discovered_command.go\<close>: descriptors, the schema
  header that every send stamps and every receive requires, typed commands, events, streams and buckets, the
  registrar, and the binding of a discovered command. A nil bus is \<open>None\<close>. \<^verbatim>\<open>Call\<close> is cut where the request
  waits, as \<^verbatim>\<open>Request\<close> is: \<open>typed_Call_begin\<close> sends, \<open>typed_Call_end\<close> reads what came back. The handler that
  \<^verbatim>\<open>servePoint\<close> mounts computes an \<open>answer\<close>; \<open>send_answer\<close> sends it.
\<close>

section \<open>Descriptors\<close>

type_synonym Kind = string

definition KindCommand :: Kind where "KindCommand = ''command''"
definition KindEvent :: Kind where "KindEvent = ''event''"
definition KindStream :: Kind where "KindStream = ''stream''"
definition KindBucket :: Kind where "KindBucket = ''bucket''"
definition KindService :: Kind where "KindService = ''service''"

record Descriptor =
  de_kind :: Kind
  de_name :: string
  de_rev :: "32 word"
  de_schemaHash :: string
  de_subject :: Subject

definition NewDescriptor :: "Kind \<Rightarrow> string \<Rightarrow> 32 word \<Rightarrow> string \<Rightarrow> Subject \<Rightarrow> Descriptor" where
  "NewDescriptor kind name revision schemaHash subject =
     \<lparr>de_kind = kind, de_name = name, de_rev = revision, de_schemaHash = schemaHash, de_subject = subject\<rparr>"

record ('req, 'resp) Command =
  cm_d :: Descriptor
  cm_validateRequest :: "('req \<Rightarrow> string option) option"
  cm_validateResponse :: "('resp \<Rightarrow> string option) option"

definition NewCommand :: "string \<Rightarrow> 32 word \<Rightarrow> string \<Rightarrow> Subject \<Rightarrow> ('req, 'resp) Command" where
  "NewCommand name revision schemaHash subject =
     \<lparr>cm_d = NewDescriptor KindCommand name revision schemaHash subject, cm_validateRequest = None, cm_validateResponse = None\<rparr>"

text \<open>The arguments \<open>vq\<close> and \<open>vp\<close> are the \<^verbatim>\<open>Validate\<close> methods of the two types.\<close>

definition NewValidatedCommand ::
  "('req \<Rightarrow> string option) \<Rightarrow> ('resp \<Rightarrow> string option) \<Rightarrow> string \<Rightarrow> 32 word \<Rightarrow> string \<Rightarrow> Subject \<Rightarrow> ('req, 'resp) Command" where
  "NewValidatedCommand vq vp name revision schemaHash subject =
     (NewCommand name revision schemaHash subject)\<lparr>cm_validateRequest := Some vq, cm_validateResponse := Some vp\<rparr>"

definition NewEvent :: "string \<Rightarrow> 32 word \<Rightarrow> string \<Rightarrow> Subject \<Rightarrow> Descriptor" where
  "NewEvent name revision schemaHash subject = NewDescriptor KindEvent name revision schemaHash subject"

definition NewStreamDescriptor :: "string \<Rightarrow> 32 word \<Rightarrow> string \<Rightarrow> Subject \<Rightarrow> Descriptor" where
  "NewStreamDescriptor name revision schemaHash subject = NewDescriptor KindStream name revision schemaHash subject"

definition NewBucketDescriptor :: "string \<Rightarrow> 32 word \<Rightarrow> string \<Rightarrow> Descriptor" where
  "NewBucketDescriptor name revision schemaHash = NewDescriptor KindBucket name revision schemaHash ''''"

definition NewServiceDescriptor :: "string \<Rightarrow> 32 word \<Rightarrow> string \<Rightarrow> Subject \<Rightarrow> Descriptor" where
  "NewServiceDescriptor name revision schemaHash subject = NewDescriptor KindService name revision schemaHash subject"

definition serviceVersion :: "32 word \<Rightarrow> string" where
  "serviceVersion revision = decimal (unat revision) @ ''.0.0''"

section \<open>Schema stamping and checking\<close>

definition stamp :: "Descriptor \<Rightarrow> Headers" where
  "stamp d = (if de_schemaHash d = '''' then [] else [(HeaderSchema, de_schemaHash d)])"

definition checkSchema :: "(string \<Rightarrow> string) \<Rightarrow> Descriptor \<Rightarrow> Headers \<Rightarrow> Fault option" where
  "checkSchema qt d h =
     (let suf = '' (revision '' @ decimal (unat (de_rev d)) @ '')''; got = Headers_Get h HeaderSchema in
      if got = '''' then
        Some (mkFault FaultSchema (de_name d) (''message carries no '' @ HeaderSchema @ ''; want '' @ qt (de_schemaHash d) @ suf))
      else if got \<noteq> de_schemaHash d then
        Some (mkFault FaultSchema (de_name d) (''schema '' @ qt got @ '' does not match '' @ qt (de_schemaHash d) @ suf))
      else None)"

definition faultReply :: "Descriptor \<Rightarrow> Msg option \<Rightarrow> Fault option" where
  "faultReply d m =
     (case m of None \<Rightarrow> Some (mkFault FaultUnavailable (de_name d) ''no reply'')
      | Some r \<Rightarrow>
          (let fcode = Headers_Get (m_Headers r) HeaderFault in
           if fcode = '''' then None else Some (mkFault fcode (de_name d) (m_Data r))))"

definition no_bus :: "Descriptor \<Rightarrow> Fault" where
  "no_bus d = mkFault FaultUnavailable (de_name d) ''no bus''"

definition nil_handler :: "Descriptor \<Rightarrow> Fault" where
  "nil_handler d = mkFault FaultUnavailable (de_name d) ''nil handler''"

definition schema_fault :: "Descriptor \<Rightarrow> string \<Rightarrow> string \<Rightarrow> Fault" where
  "schema_fault d msg err = \<lparr>Code = FaultSchema, Op = de_name d, Message = msg, Err = Some (WrapText err)\<rparr>"

definition run_validator :: "('a \<Rightarrow> string option) option \<Rightarrow> 'a \<Rightarrow> string option" where
  "run_validator f v = (case f of None \<Rightarrow> None | Some g \<Rightarrow> g v)"

section \<open>Calls\<close>

definition typed_Call_begin ::
  "'req codec \<Rightarrow> string \<Rightarrow> Context \<Rightarrow> plugin_bus option \<Rightarrow> ('req, 'resp) Command \<Rightarrow> 'req \<Rightarrow> Store \<Rightarrow> Store \<times> (Subject \<times> addr) res" where
  "typed_Call_begin cd minted ctx b c req S =
     (let d = cm_d c in
      case b of None \<Rightarrow> (S, Inl (no_bus d))
      | Some pb \<Rightarrow>
          (case run_validator (cm_validateRequest c) req of
             Some err \<Rightarrow> (S, Inl (schema_fault d ''invalid request'' err))
           | None \<Rightarrow>
               (case cd_Marshal cd req of
                  Inl err \<Rightarrow> (S, Inl (schema_fault d ''request does not marshal'' err))
                | Inr body \<Rightarrow> pb_Request pb minted ctx (de_subject d) body [Some (r_schemaOpt (de_schemaHash d))] S)))"

definition typed_Call_end ::
  "'resp codec \<Rightarrow> (string \<Rightarrow> string) \<Rightarrow> ('req, 'resp) Command \<Rightarrow> Msg res \<Rightarrow> 'resp res" where
  "typed_Call_end cd qt c reply =
     (let d = cm_d c in
      case reply of Inl err \<Rightarrow> Inl err
      | Inr r \<Rightarrow>
          (case faultReply d (Some r) of Some err \<Rightarrow> Inl err
           | None \<Rightarrow>
               (case checkSchema qt d (m_Headers r) of Some err \<Rightarrow> Inl err
                | None \<Rightarrow>
                    (case decodeCommand cd (m_Data r) (cm_validateResponse c \<noteq> None) of
                       Inl err \<Rightarrow> Inl (schema_fault d ''reply does not decode'' err)
                     | Inr resp \<Rightarrow>
                         (case run_validator (cm_validateResponse c) resp of
                            Some err \<Rightarrow> Inl (schema_fault d ''invalid response'' err)
                          | None \<Rightarrow> Inr resp)))))"

datatype handler_error = HFault Fault | HText string
datatype answer = AnswerFault Fault | Answer Headers bytes

definition typed_handler ::
  "'req codec \<Rightarrow> 'resp codec \<Rightarrow> (string \<Rightarrow> string) \<Rightarrow> ('req, 'resp) Command \<Rightarrow>
   ('req \<Rightarrow> Caller \<Rightarrow> handler_error + 'resp) \<Rightarrow> Msg \<Rightarrow> answer" where
  "typed_handler cq cp qt c h m =
     (let d = cm_d c; refuse = (\<lambda>msg. AnswerFault (mkFault FaultSchema (de_name d) msg)) in
      case checkSchema qt d (m_Headers m) of Some err \<Rightarrow> AnswerFault err
      | None \<Rightarrow>
          (case decodeCommand cq (m_Data m) (cm_validateRequest c \<noteq> None) of
             Inl _ \<Rightarrow> refuse ''request does not decode''
           | Inr req \<Rightarrow>
               if run_validator (cm_validateRequest c) req \<noteq> None then refuse ''invalid request''
               else (case h req (CallerOf (Some m)) of
                       Inl (HFault f) \<Rightarrow> AnswerFault f
                     | Inl (HText err) \<Rightarrow> AnswerFault (mkFault FaultUnhandled (de_name d) err)
                     | Inr resp \<Rightarrow>
                         if run_validator (cm_validateResponse c) resp \<noteq> None then refuse ''invalid response''
                         else (case cd_Marshal cp resp of
                                 Inl _ \<Rightarrow> refuse ''response does not marshal''
                               | Inr body \<Rightarrow> Answer (stamp d) body))))"

definition send_answer :: "answer \<Rightarrow> Msg \<Rightarrow> Store \<Rightarrow> Store \<times> unit res" where
  "send_answer a m S =
     (case a of AnswerFault f \<Rightarrow> RespondFault (Some m) f S | Answer hs body \<Rightarrow> Respond (Some m) hs body S)"

section \<open>Services\<close>

definition MetadataContractName :: string where "MetadataContractName = ''bd.contract.name''"
definition MetadataContractRevision :: string where "MetadataContractRevision = ''bd.contract.revision''"
definition MetadataContractSchema :: string where "MetadataContractSchema = ''bd.contract.schema''"

definition descriptorMetadata :: "Descriptor \<Rightarrow> string \<Rightarrow> (string, string) amap" where
  "descriptorMetadata d point =
     (if point = '''' then []
      else [(MetadataContractName, de_name d), (MetadataContractRevision, decimal (unat (de_rev d))),
            (MetadataContractSchema, de_schemaHash d)])"

definition point_spec :: "Descriptor \<Rightarrow> string \<Rightarrow> ServiceSpec" where
  \<comment> \<open>the \<^verbatim>\<open>ServiceSpec\<close> that \<^verbatim>\<open>servePoint\<close> hands to the substrate\<close>
  "point_spec d point =
     \<lparr>sv_Name = de_name d, sv_Version = serviceVersion (de_rev d), sv_Description = '''', sv_QueueGroup = '''',
      sv_Endpoints = [\<lparr>ep_Name = de_name d, ep_Subject = de_subject d, ep_QueueGroup = '''', ep_Handler = True, ep_Point = point\<rparr>],
      sv_Metadata = descriptorMetadata d point\<rparr>"

definition servePoint :: "instant \<Rightarrow> plugin_bus option \<Rightarrow> Descriptor \<Rightarrow> string \<Rightarrow> bool \<Rightarrow> Store \<Rightarrow> Store \<times> addr res" where
  "servePoint now b d point h S =
     (case b of None \<Rightarrow> (S, Inl (no_bus d))
      | Some pb \<Rightarrow> if \<not> h then (S, Inl (nil_handler d)) else pb_Serve pb now (point_spec d point) S)"

definition typed_Serve :: "instant \<Rightarrow> plugin_bus option \<Rightarrow> Descriptor \<Rightarrow> bool \<Rightarrow> Store \<Rightarrow> Store \<times> addr res" where
  "typed_Serve now b d h = servePoint now b d '''' h"

definition ServeAtPoint :: "instant \<Rightarrow> plugin_bus option \<Rightarrow> Descriptor \<Rightarrow> string \<Rightarrow> bool \<Rightarrow> Store \<Rightarrow> Store \<times> addr res" where
  "ServeAtPoint now b d point h S =
     (if \<not> IsKnownPoint point then (S, Inl (mkFault FaultUnavailable (de_name d) ''unknown extension point''))
      else servePoint now b d point h S)"

definition lower_hex64 :: "string \<Rightarrow> bool" where
  "lower_hex64 s = (length s = 64 \<and> list_all (\<lambda>c. c \<in> set ''0123456789abcdef'') s)"

definition meta_of :: "ServiceInfo \<Rightarrow> string \<Rightarrow> string" where
  "meta_of s k = (case map_of (si_Metadata s) k of None \<Rightarrow> '''' | Some v \<Rightarrow> v)"

definition provider_subject :: "string \<Rightarrow> string \<Rightarrow> 32 word \<Rightarrow> string \<Rightarrow> string" where
  "provider_subject provider point revision operation =
     ''svc.'' @ provider @ ''.'' @ point @ ''.v'' @ decimal (unat revision) @ ''.'' @ operation"

definition BindDiscoveredCommand ::
  "('req \<Rightarrow> string option) \<Rightarrow> ('resp \<Rightarrow> string option) \<Rightarrow> ServiceInfo \<Rightarrow> string \<Rightarrow> string \<Rightarrow> string \<Rightarrow> 32 word \<Rightarrow>
   string + ('req, 'resp) Command" where
  "BindDiscoveredCommand vq vp service providerID point operation revision =
     (let want = provider_subject providerID point revision operation in
      if idSegment ''provider id'' providerID \<noteq> None then Inl ''invalid provider id''
      else if idSegment ''operation'' operation \<noteq> None then Inl ''invalid provider operation''
      else if providerID = ''gateway'' \<or> providerID = ''host'' \<or> \<not> IsKnownPoint point \<or> revision = 0 then
        Inl ''invalid provider contract identity''
      else if si_Name service \<noteq> want \<or> si_Version service \<noteq> serviceVersion revision then
        Inl ''discovered service identity mismatch''
      else case si_Endpoints service of
        [e] \<Rightarrow>
          if ei_Name e \<noteq> want \<or> ei_Subject e \<noteq> want \<or> ei_Point e \<noteq> point then Inl ''discovered endpoint identity mismatch''
          else if meta_of service MetadataContractName \<noteq> want \<or>
               meta_of service MetadataContractRevision \<noteq> decimal (unat revision) \<or>
               \<not> lower_hex64 (meta_of service MetadataContractSchema) then
            Inl ''missing or mismatched provider descriptor metadata''
          else Inr (NewValidatedCommand vq vp want revision (meta_of service MetadataContractSchema) (ei_Subject e))
      | _ \<Rightarrow> Inl ''discovered service identity mismatch'')"

section \<open>Events and streams\<close>

definition Emit :: "'a codec \<Rightarrow> string \<Rightarrow> Context \<Rightarrow> plugin_bus option \<Rightarrow> Descriptor \<Rightarrow> 'a \<Rightarrow> Store \<Rightarrow> Store \<times> unit res" where
  "Emit cd minted ctx b d v S =
     (case b of None \<Rightarrow> (S, Inl (no_bus d))
      | Some pb \<Rightarrow>
          (case cd_Marshal cd v of
             Inl err \<Rightarrow> (S, Inl (schema_fault d ''payload does not marshal'' err))
           | Inr body \<Rightarrow> pb_Publish pb minted ctx (de_subject d) body [Some (schemaOpt (de_schemaHash d))] S))"

definition On :: "plugin_bus option \<Rightarrow> Descriptor \<Rightarrow> bool \<Rightarrow> Store \<Rightarrow> Store \<times> addr res" where
  "On b d h S =
     (case b of None \<Rightarrow> (S, Inl (no_bus d))
      | Some pb \<Rightarrow> if \<not> h then (S, Inl (nil_handler d)) else pb_Subscribe pb (de_subject d) True [] S)"

definition event_payload :: "'a codec \<Rightarrow> (string \<Rightarrow> string) \<Rightarrow> Descriptor \<Rightarrow> Msg \<Rightarrow> ('a \<times> Caller) option" where
  \<comment> \<open>what the handler of \<^verbatim>\<open>On\<close> is called with; \<open>None\<close> drops the message\<close>
  "event_payload cd qt d m =
     (if checkSchema qt d (m_Headers m) \<noteq> None then None
      else case cd_Unmarshal cd (m_Data m) of Inl _ \<Rightarrow> None | Inr v \<Rightarrow> Some (v, CallerOf (Some m)))"

record TypedStream =
  ts_b :: "plugin_bus option"
  ts_d :: Descriptor

definition Stream_Append ::
  "'a codec \<Rightarrow> string \<Rightarrow> Context \<Rightarrow> instant \<Rightarrow> TypedStream \<Rightarrow> 'a \<Rightarrow> PublishOpt option list \<Rightarrow> Store \<Rightarrow> Store \<times> Seq res" where
  "Stream_Append cd minted ctx now s v opts S =
     (case ts_b s of None \<Rightarrow> (S, Inl (no_bus (ts_d s)))
      | Some pb \<Rightarrow>
          (case cd_Marshal cd v of
             Inl err \<Rightarrow> (S, Inl (schema_fault (ts_d s) ''payload does not marshal'' err))
           | Inr body \<Rightarrow>
               pb_Stream_Publish pb minted ctx now (de_subject (ts_d s)) body (Some (schemaOpt (de_schemaHash (ts_d s))) # opts) S))"

definition Stream_Consume :: "TypedStream \<Rightarrow> string \<Rightarrow> ConsumerSpec \<Rightarrow> bool \<Rightarrow> Store \<Rightarrow> Store \<times> addr res" where
  "Stream_Consume s stream spec h S =
     (case ts_b s of None \<Rightarrow> (S, Inl (no_bus (ts_d s)))
      | Some pb \<Rightarrow> if \<not> h then (S, Inl (nil_handler (ts_d s))) else pb_Consume pb stream spec True S)"

datatype 'a stream_verdict = TermMsg string | HandMsg 'a

definition stream_payload ::
  "'a codec \<Rightarrow> (string \<Rightarrow> string) \<Rightarrow> Descriptor \<Rightarrow> Headers \<Rightarrow> bytes \<Rightarrow> 'a stream_verdict" where
  \<comment> \<open>what the handler of \<^verbatim>\<open>Consume\<close> does with a stored message\<close>
  "stream_payload cd qt d hs data =
     (case checkSchema qt d hs of Some err \<Rightarrow> TermMsg (Fault_Error err)
      | None \<Rightarrow>
          (case cd_Unmarshal cd data of Inl err \<Rightarrow> TermMsg (''payload does not decode: '' @ err) | Inr v \<Rightarrow> HandMsg v))"

section \<open>Buckets\<close>

record TypedBucket =
  tb_bucket :: "bucket option"
  tb_d :: Descriptor

definition OpenBucket :: "plugin_bus option \<Rightarrow> Descriptor \<Rightarrow> Store \<Rightarrow> TypedBucket res" where
  "OpenBucket b d S =
     (case b of None \<Rightarrow> Inl (no_bus d)
      | Some pb \<Rightarrow>
          (case pb_KV_Open pb (de_name d) S of Inl err \<Rightarrow> Inl err | Inr raw \<Rightarrow> Inr \<lparr>tb_bucket = Some raw, tb_d = d\<rparr>))"

definition not_open :: "TypedBucket \<Rightarrow> Fault" where
  "not_open t = mkFault FaultUnavailable (de_name (tb_d t)) ''bucket is not open''"

definition Bucket_Get ::
  "'a codec \<Rightarrow> (string \<Rightarrow> string) \<Rightarrow> instant \<Rightarrow> TypedBucket \<Rightarrow> string \<Rightarrow> Store \<Rightarrow> ('a \<times> Revision) res" where
  "Bucket_Get cd qt now t key S =
     (case tb_bucket t of None \<Rightarrow> Inl (not_open t)
      | Some raw \<Rightarrow>
          (case KV_Get now key raw S of Inl err \<Rightarrow> Inl err
           | Inr e \<Rightarrow>
               (case cd_Unmarshal cd (e_Value e) of
                  Inl err \<Rightarrow> Inl (schema_fault (tb_d t) (''value at '' @ qt key @ '' does not decode'') err)
                | Inr v \<Rightarrow> Inr (v, e_Revision e))))"

definition bucket_encode :: "'a codec \<Rightarrow> (string \<Rightarrow> string) \<Rightarrow> TypedBucket \<Rightarrow> string \<Rightarrow> 'a \<Rightarrow> (bucket \<times> bytes) res" where
  "bucket_encode cd qt t key v =
     (case tb_bucket t of None \<Rightarrow> Inl (not_open t)
      | Some raw \<Rightarrow>
          (case cd_Marshal cd v of
             Inl err \<Rightarrow> Inl (schema_fault (tb_d t) (''value for '' @ qt key @ '' does not marshal'') err)
           | Inr body \<Rightarrow> Inr (raw, body)))"

definition Bucket_Put ::
  "'a codec \<Rightarrow> (string \<Rightarrow> string) \<Rightarrow> instant \<Rightarrow> TypedBucket \<Rightarrow> string \<Rightarrow> 'a \<Rightarrow> Store \<Rightarrow> Store \<times> Revision res" where
  "Bucket_Put cd qt now t key v S =
     (case bucket_encode cd qt t key v of Inl err \<Rightarrow> (S, Inl err) | Inr (raw, body) \<Rightarrow> KV_Put now key body raw S)"

definition Bucket_Update ::
  "'a codec \<Rightarrow> (string \<Rightarrow> string) \<Rightarrow> instant \<Rightarrow> instant \<Rightarrow> TypedBucket \<Rightarrow> string \<Rightarrow> 'a \<Rightarrow> Revision \<Rightarrow> Store \<Rightarrow> Store \<times> Revision res" where
  "Bucket_Update cd qt now now' t key v expect S =
     (case bucket_encode cd qt t key v of Inl err \<Rightarrow> (S, Inl err) | Inr (raw, body) \<Rightarrow> KV_Update now now' key body expect raw S)"

section \<open>The registrar\<close>

record Registrar =
  rg_serves :: "Pattern list"
  rg_endpoints :: "EndpointSpec list"

definition NewRegistrar :: "Pattern list \<Rightarrow> Registrar" where
  "NewRegistrar serves = \<lparr>rg_serves = serves, rg_endpoints = []\<rparr>"

definition Mount :: "(string \<Rightarrow> string) \<Rightarrow> EndpointSpec \<Rightarrow> Registrar \<Rightarrow> Registrar \<times> Fault option" where
  "Mount qt e r =
     (let subject = ep_Subject e in
      if subject = '''' then (r, Some (mkFault FaultSchema (ep_Name e) ''endpoint has no subject''))
      else if \<not> ep_Handler e then (r, Some (mkFault FaultSchema subject ''endpoint has no handler''))
      else if \<not> CoveredByAny (rg_serves r) subject then
        (r, Some (mkFault FaultDenied subject (''subject '' @ qt subject @ '' is not in the manifest serves list'')))
      else if list_ex (\<lambda>have_ep. ep_Subject have_ep = subject) (rg_endpoints r) then
        (r, Some (mkFault FaultConflict subject (''subject '' @ qt subject @ '' is already mounted'')))
      else (r\<lparr>rg_endpoints := rg_endpoints r @ [e]\<rparr>, None))"

section \<open>Facts\<close>

lemma schema_not_identity [simp]: "\<not> IsIdentityHeader HeaderSchema"
  by code_simp

lemma request_schema:
  assumes "hash \<noteq> ''''"
  shows "Headers_Get (m_Headers (NewMsg s r (stampWith minted ctx i (ro_Headers (ResolveReq [Some (r_schemaOpt hash)]))) d re)) HeaderSchema = hash"
proof -
  have "ro_Headers (ResolveReq [Some (r_schemaOpt hash)]) = [(HeaderSchema, hash)]"
    using assms by (simp add: ResolveReq_def apply_opts_def setHeader_def Let_def)
  moreover have "map_of (stampWith minted ctx i [(HeaderSchema, hash)]) HeaderSchema = Some hash"
    by (simp add: stampWith_def Let_def Inject_lookup_other amap_simps StripReserved_lookup)
  ultimately show ?thesis by (simp add: NewMsg_def Headers_Get_canonical)
qed

lemma reply_headers:
  assumes "de_schemaHash d \<noteq> ''''"
  shows "Headers_Get (m_Headers (NewMsg s r (respond_headers i (stamp d)) b re)) HeaderSchema = de_schemaHash d"
    "Headers_Get (m_Headers (NewMsg s r (respond_headers i (stamp d)) b re)) HeaderFault = ''''"
proof -
  have "Headers_Get (stamp d) HeaderFault = ''''" "Headers_Get (stamp d) HeaderCorrelation = ''''"
    by (simp_all add: stamp_def Headers_Get_def)
  then have "map_of (respond_headers i (stamp d)) HeaderSchema = Some (de_schemaHash d)"
    "map_of (respond_headers i (stamp d)) HeaderFault = None" "canonical (respond_headers i (stamp d))"
    using assms by (simp_all add: respond_headers_def Let_def amap_simps StripReserved_lookup stamp_def)
  then show "Headers_Get (m_Headers (NewMsg s r (respond_headers i (stamp d)) b re)) HeaderSchema = de_schemaHash d"
    "Headers_Get (m_Headers (NewMsg s r (respond_headers i (stamp d)) b re)) HeaderFault = ''''"
    by (simp_all add: NewMsg_def Headers_Get_canonical)
qed

lemma subscribe_services: "H_services (fst (subscribe c pat h opts r chk S)) = H_services S"
  by (simp add: subscribe_def Let_def split: option.split sum.split)

lemma mount_info:
  "mount_endpoints c v spec eps S = (S', None) \<Longrightarrow> v < length (H_services S) \<Longrightarrow>
     v_info (H_services S' ! v) =
       (v_info (H_services S ! v))\<lparr>si_Endpoints := si_Endpoints (v_info (H_services S ! v)) @ map (endpoint_info spec) eps\<rparr>"
proof (induction eps arbitrary: S)
  case (Cons ep eps)
  let ?sub = "subscribe c (ep_Subject ep) True \<lparr>so_QueueGroup = endpoint_group spec ep, so_PendingLimit = DefaultPendingLimit\<rparr> (Some v) False S"
  obtain S1 r where s: "?sub = (S1, r)" by fastforce
  then have H: "H_services S1 = H_services S" using subscribe_services by (metis fst_conv)
  obtain a where "r = Inr a" "mount_endpoints c v spec eps (mod_svc v (add_endpoint a (endpoint_info spec ep)) S1) = (S', None)"
    using Cons.prems(1) s by (cases r) auto
  with Cons.IH [of "mod_svc v (add_endpoint a (endpoint_info spec ep)) S1"] Cons.prems(2) H
  show ?case by (simp add: add_endpoint_def)
qed simp

lemma Serve_info:
  assumes "Serve now c spec S = (S', Inr v)"
  shows "v_info (H_services S' ! v) =
    \<lparr>si_ID = snd (newID ''svc'' S), si_Name = sv_Name spec, si_Version = sv_Version spec,
     si_Endpoints = map (endpoint_info spec) (sv_Endpoints spec), si_Metadata = sv_Metadata spec\<rparr>"
proof -
  let ?S2 = "(fst (newID ''svc'' S))\<lparr>H_services := H_services (fst (newID ''svc'' S)) @ [newService c now (snd (newID ''svc'' S)) spec]\<rparr>"
  obtain S3 e where me: "mount_endpoints c (length (H_services S)) spec (sv_Endpoints spec) ?S2 = (S3, e)" by fastforce
  then have v: "v = length (H_services S)" and m: "mount_endpoints c v spec (sv_Endpoints spec) ?S2 = (S3, None)"
    and S': "S' = mod_conn c (\<lambda>k. k\<lparr>c_services := c_services k @ [v]\<rparr>)
      (S3\<lparr>S_services := AList.update (snd (newID ''svc'' S)) v (S_services S3)\<rparr>)"
    using assms by (auto simp: Serve_def Let_def split_beta split: option.splits if_splits prod.splits)
  have "H_services (fst (newID ''svc'' S)) = H_services S" by (simp add: newID_def Let_def)
  with mount_info [OF m] v have "v_info (H_services S3 ! v) = (v_info (newService c now (snd (newID ''svc'' S)) spec))
      \<lparr>si_Endpoints := map (endpoint_info spec) (sv_Endpoints spec)\<rparr>" by simp
  moreover have "H_services S' = H_services S3" unfolding S' by simp
  ultimately show ?thesis by (simp add: newService_def)
qed

section \<open>Properties\<close>


definition demo_codec :: "string codec" where
  "demo_codec = \<lparr>cd_Type = TScalar, cd_Parse = (\<lambda>_. Inr (JString '''', True)), cd_Unmarshal = Inr, cd_Marshal = Inr, cd_Quote = id\<rparr>"

definition demo_command :: "(string, string) Command" where
  "demo_command = NewCommand ''svc.demo.echo'' 1 ''h'' ''svc.demo.echo''"

definition demo_provider :: Identity where
  "demo_provider = demo_identity\<lparr>Id_Grants := (Id_Grants demo_identity)\<lparr>g_Request := [''svc.>''], g_Serves := [''svc.demo.>'']\<rparr>\<rparr>"

definition demo_connected :: Store where
  "demo_connected = fst (Connect demo_provider (NewStore demo_env []))"

definition demo_serving :: Store where
  "demo_serving = fst (Serve 1 0 (point_spec (cm_d demo_command) '''') demo_connected)"

definition demo_requested :: Store where
  "demo_requested = fst (request_begin ''corr'' Background 0 ''svc.demo.echo'' ''ping'' [Some (r_schemaOpt ''h'')] demo_serving)"

definition demo_inbox_name :: Subject where
  "demo_inbox_name = hd (map fst (S_inboxes demo_requested))"

definition demo_request :: Msg where
  "demo_request = NewMsg ''svc.demo.echo'' demo_inbox_name
     (stampWith ''corr'' (Some Background) demo_provider (ro_Headers (ResolveReq [Some (r_schemaOpt ''h'')]))) ''ping''
     (Some (demo_inbox_name, 0))"

lemma demo_requested_reachable: "reachable demo_requested"
proof -
  have c: "store_step (NewStore demo_env []) demo_connected" unfolding demo_connected_def by (intro bus connect)
  have s: "store_step demo_connected demo_serving" unfolding demo_serving_def by (intro bus serve) code_simp
  have r: "store_step demo_serving demo_requested" unfolding demo_requested_def by (intro bus request) code_simp
  show ?thesis using reachable_step [OF reachable_step [OF reachable_step [OF reachable_new c] s] r] .
qed

lemma demo_answer_sent:
  "snd (send_answer (typed_handler demo_codec demo_codec (\<lambda>s. s) demo_command (\<lambda>q _. Inr (q @ ''!'')) demo_request) demo_request demo_requested) = Inr ()"
  by code_simp


text \<open>Discovery gives back the descriptor that was served: when a provider serves a command at a known extension
  point, under its canonical subject and with a hexadecimal schema hash, then binding what the service
  advertises yields the command with exactly that name, revision, hash and subject.\<close>

theorem discovered_command_is_the_served_one:
  assumes "d = NewDescriptor KindCommand want revision hash want" and "want = provider_subject provider point revision operation"
    and "idSegment ''provider id'' provider = None" and "idSegment ''operation'' operation = None"
    and "provider \<noteq> ''gateway''" and "provider \<noteq> ''host''" and "revision \<noteq> 0" and "lower_hex64 hash"
    and served: "ServeAtPoint now (Some (CapsBus c caps)) d point True S = (S', Inr v)"
  shows "BindDiscoveredCommand vq vp (v_info (H_services S' ! v)) provider point operation revision =
    Inr (NewValidatedCommand vq vp want revision hash want)"
proof -
  have "IsKnownPoint point" "Serve now c (point_spec d point) S = (S', Inr v)"
    using served by (auto simp: ServeAtPoint_def servePoint_def pb_Serve_def via_def split: if_splits)
  moreover from this(1) have "point \<noteq> ''''" by (auto simp: IsKnownPoint_def KnownPoints_def)
  ultimately show ?thesis
    using Serve_info [of now c "point_spec d point" S S' v] assms
    by (simp add: BindDiscoveredCommand_def Let_def point_spec_def endpoint_info_def meta_of_def descriptorMetadata_def
        NewDescriptor_def MetadataContractName_def MetadataContractRevision_def MetadataContractSchema_def)
qed

definition demo_hash :: string where
  "demo_hash = replicate 64 (CHR ''a'')"

definition demo_descriptor :: Descriptor where
  "demo_descriptor = NewDescriptor KindCommand (provider_subject ''demo'' (hd KnownPoints) 1 ''run'') 1 demo_hash
     (provider_subject ''demo'' (hd KnownPoints) 1 ''run'')"

lemma demo_point_served: "\<exists>S' v. ServeAtPoint 1 (Some (CapsBus 0 no_capabilities)) demo_descriptor (hd KnownPoints) True demo_connected = (S', Inr v)"
proof -
  have "case snd (ServeAtPoint 1 (Some (CapsBus 0 no_capabilities)) demo_descriptor (hd KnownPoints) True demo_connected) of
      Inr v \<Rightarrow> True | Inl e \<Rightarrow> False" by code_simp
  then show ?thesis by (cases "ServeAtPoint 1 (Some (CapsBus 0 no_capabilities)) demo_descriptor (hd KnownPoints) True demo_connected")
      (auto split: sum.splits)
qed

theorem discovered_command_is_the_served_one_witness:
  "\<exists>info. BindDiscoveredCommand (\<lambda>_ :: string. None) (\<lambda>_ :: string. None) info ''demo'' (hd KnownPoints) ''run'' 1 =
     Inr (NewValidatedCommand (\<lambda>_. None) (\<lambda>_. None) (provider_subject ''demo'' (hd KnownPoints) 1 ''run'') 1 demo_hash
       (provider_subject ''demo'' (hd KnownPoints) 1 ''run''))"
proof -
  obtain S' v where s: "ServeAtPoint 1 (Some (CapsBus 0 no_capabilities)) demo_descriptor (hd KnownPoints) True demo_connected = (S', Inr v)"
    using demo_point_served by blast
  have "idSegment ''provider id'' ''demo'' = None" "idSegment ''operation'' ''run'' = None" by code_simp+
  moreover have "lower_hex64 demo_hash" by (simp add: lower_hex64_def demo_hash_def list_all_iff)
  ultimately show ?thesis
    using discovered_command_is_the_served_one [OF demo_descriptor_def refl _ _ _ _ _ _ s] by fastforce
qed

definition mount_list :: "(string \<Rightarrow> string) \<Rightarrow> Pattern list \<Rightarrow> EndpointSpec list \<Rightarrow> Registrar" where
  "mount_list qt serves es = fold (\<lambda>e r. fst (Mount qt e r)) es (NewRegistrar serves)"

lemma mount_list_inv:
  fixes qt serves es
  defines "r \<equiv> mount_list qt serves es"
  shows "rg_serves r = serves \<and> distinct (map ep_Subject (rg_endpoints r)) \<and>
    (\<forall>e \<in> set (rg_endpoints r). ep_Handler e \<and> CoveredByAny serves (ep_Subject e)) \<and>
    (\<forall>e \<in> set es. ep_Subject e \<noteq> '''' \<and> ep_Handler e \<and> CoveredByAny serves (ep_Subject e) \<longrightarrow>
      ep_Subject e \<in> ep_Subject ` set (rg_endpoints r))"
  unfolding r_def
proof (induction es rule: rev_induct)
  case Nil
  then show ?case by (simp add: mount_list_def NewRegistrar_def)
next
  case (snoc e es)
  let ?r = "mount_list qt serves es"
  have "mount_list qt serves (es @ [e]) = fst (Mount qt e ?r)" by (simp add: mount_list_def)
  moreover have "fst (Mount qt e ?r) = ?r \<or> fst (Mount qt e ?r) = ?r\<lparr>rg_endpoints := rg_endpoints ?r @ [e]\<rparr>"
    by (simp add: Mount_def Let_def)
  ultimately show ?case
    using snoc.IH by (auto simp: Mount_def Let_def list_ex_iff split: if_splits) (metis image_eqI)
qed

lemma covered_subject_matched:
  assumes "in_grammar False s" and "CoveredByAny ps s"
  shows "MatchedByAny ps s"
proof -
  have "Matches s s" using assms(1) by (simp add: Matches_subject)
  with assms(2) show ?thesis
    using cover_toks_sound by (auto simp: CoveredByAny_def MatchedByAny_def list_ex_iff Covers_def Matches_def)
qed

text \<open>The registrar is an honest preflight: over the serve grants of a connection, whatever is mounted in whatever
  order, the endpoints it holds have distinct subjects, every endpoint offered with a handler under a covered
  subject is represented, and the substrate's own check of a held endpoint can only refuse it for a subject
  outside the grammar or a permanently denied one, never for a missing grant or handler.\<close>

theorem registrar_is_honest_preflight:
  assumes "r = mount_list qt (g_Serves (Id_Grants (id_of S c))) es"
  shows "distinct (map ep_Subject (rg_endpoints r)) \<and>
    (\<forall>e \<in> set es. ep_Subject e \<noteq> '''' \<and> ep_Handler e \<and> CoveredByAny (g_Serves (Id_Grants (id_of S c))) (ep_Subject e) \<longrightarrow>
      ep_Subject e \<in> ep_Subject ` set (rg_endpoints r)) \<and>
    (\<forall>e \<in> set (rg_endpoints r). check_endpoint c S e = None \<longleftrightarrow> in_grammar False (ep_Subject e) \<and> \<not> denySubject S (ep_Subject e))"
proof -
  note inv = mount_list_inv [of qt "g_Serves (Id_Grants (id_of S c))" es, folded assms]
  have "check_endpoint c S e = None \<longleftrightarrow> in_grammar False (ep_Subject e) \<and> \<not> denySubject S (ep_Subject e)"
    if "e \<in> set (rg_endpoints r)" for e
  proof -
    have "ep_Handler e" "CoveredByAny (g_Serves (Id_Grants (id_of S c))) (ep_Subject e)" using inv that by blast+
    moreover have "\<not> in_grammar False s" if "ParseSubject s = Inl err" for s err
      using that ParseSubject_ok [of s s] by force
    ultimately show ?thesis
      using covered_subject_matched [of "ep_Subject e"]
      by (auto simp: check_endpoint_def Let_def Can_def grants_list_def grant_kind_defs split: sum.splits)
  qed
  with inv show ?thesis by blast
qed

theorem registrar_is_honest_preflight_witness:
  "\<exists>r. r = mount_list (\<lambda>s. s) (g_Serves (Id_Grants (id_of demo_connected 0))) (sv_Endpoints (point_spec (cm_d demo_command) '''')) \<and>
     distinct (map ep_Subject (rg_endpoints r))"
  using registrar_is_honest_preflight [OF refl] by blast

end
