(* ===== verification/Semver.thy ===== *)
theory Semver
  imports Go_Text
begin

text \<open>
  The dotted version comparison of \<^verbatim>\<open>src/semver/compare.go\<close>, behind the \<^verbatim>\<open>minCoreVersion\<close> gates of version 1 hosts.
\<close>

text \<open>The value \<^verbatim>\<open>strconv.Atoi\<close> returns beside its error, which the code ignores: 0 for what is not a number, the
  nearest 64-bit integer for what is out of range.\<close>

definition atoi_value :: "string \<Rightarrow> int" where
  "atoi_value s =
     (case Atoi s of
        Some n \<Rightarrow> n
      | None \<Rightarrow>
          (let ds = (case s of c # cs \<Rightarrow> if c = CHR ''-'' \<or> c = CHR ''+'' then cs else s | [] \<Rightarrow> s) in
           if ds = [] \<or> \<not> list_all is_digit ds then 0
           else if hd s = CHR ''-'' then - (2 ^ 63) else 2 ^ 63 - 1))"

definition cmp_value :: "int \<Rightarrow> int \<Rightarrow> int \<Rightarrow> int" where
  "cmp_value av bv rest = (if av < bv then - 1 else if bv < av then 1 else rest)"

fun cmp_parts :: "string list \<Rightarrow> string list \<Rightarrow> int" where
  "cmp_parts [] [] = 0"
| "cmp_parts (a # as) [] = cmp_value (atoi_value a) 0 (cmp_parts as [])"
| "cmp_parts [] (b # bs) = cmp_value 0 (atoi_value b) (cmp_parts [] bs)"
| "cmp_parts (a # as) (b # bs) = cmp_value (atoi_value a) (atoi_value b) (cmp_parts as bs)"

definition cmpDotted :: "string \<Rightarrow> string \<Rightarrow> int" where
  "cmpDotted a b = cmp_parts (split_on (CHR ''.'') a) (split_on (CHR ''.'') b)"

definition bare_version :: "string \<Rightarrow> string" where
  "bare_version s = TrimPrefix (TrimSpace s) ''v''"

definition AtLeast :: "string \<Rightarrow> string \<Rightarrow> bool" where
  "AtLeast core least =
     (let c = bare_version core; m = bare_version least in
      if m = '''' then True else if c = '''' then False else 0 \<le> cmpDotted c m)"

section \<open>The order\<close>

text \<open>The numbers of a version, padded with zeros to a given length.\<close>

definition padded :: "nat \<Rightarrow> string list \<Rightarrow> int list" where
  "padded n as = map atoi_value as @ replicate (n - length as) 0"

lemma padded_Suc [simp]:
  "padded (Suc n) [] = 0 # padded n []" "padded (Suc n) (a # as) = atoi_value a # padded n as"
  by (simp_all add: padded_def)

lemma padded_0 [simp]: "padded 0 [] = []"
  by (simp add: padded_def)

lemma cmp_parts_padded:
  "length as \<le> n \<Longrightarrow> length bs \<le> n \<Longrightarrow>
   cmp_parts as bs = (if padded n as < padded n bs then - 1 else if padded n bs < padded n as then 1 else 0)"
proof (induction as bs arbitrary: n rule: cmp_parts.induct)
  case (2 a as)
  then show ?case by (cases n) (auto simp: cmp_value_def)
next
  case (3 b bs)
  then show ?case by (cases n) (auto simp: cmp_value_def)
next
  case (4 a as b bs)
  then show ?case by (cases n) (auto simp: cmp_value_def)
qed simp

section \<open>Properties\<close>

text \<open>Versions are compared by their numbers: with a minimum given, a core version is at least it exactly when it is not
  empty and its list of numbers, both padded with zeros to a common length, is not below in the lexicographic
  order. So the comparison is a total preorder on all texts: reflexive, transitive, and any two are comparable.\<close>

theorem at_least_is_padded_order:
  "(AtLeast core least \<longleftrightarrow>
      bare_version least = '''' \<or>
      bare_version core \<noteq> '''' \<and>
      (let a = split_on (CHR ''.'') (bare_version core); b = split_on (CHR ''.'') (bare_version least); n = max (length a) (length b) in
       padded n b \<le> padded n a)) \<and>
   AtLeast core core \<and> (AtLeast core least \<or> AtLeast least core) \<and>
   (AtLeast core least \<and> AtLeast least other \<longrightarrow> AtLeast core other)"
proof -
  have le: "0 \<le> cmpDotted x y \<longleftrightarrow> padded n (split_on (CHR ''.'') y) \<le> padded n (split_on (CHR ''.'') x)"
    if "length (split_on (CHR ''.'') x) \<le> n" "length (split_on (CHR ''.'') y) \<le> n" for x y n
    using cmp_parts_padded [OF that] by (auto simp: cmpDotted_def not_less)
  let ?n = "length (split_on (CHR ''.'') (bare_version core)) + length (split_on (CHR ''.'') (bare_version least)) +
    length (split_on (CHR ''.'') (bare_version other))"
  have all: "AtLeast x y \<longleftrightarrow> bare_version y = '''' \<or> bare_version x \<noteq> '''' \<and>
      padded ?n (split_on (CHR ''.'') (bare_version y)) \<le> padded ?n (split_on (CHR ''.'') (bare_version x))"
    if "x \<in> {core, least, other}" "y \<in> {core, least, other}" for x y
    using that le [of "bare_version x" ?n "bare_version y"] by (auto simp: AtLeast_def Let_def)
  have "AtLeast core core \<and> (AtLeast core least \<or> AtLeast least core) \<and>
      (AtLeast core least \<and> AtLeast least other \<longrightarrow> AtLeast core other)"
    using all by auto
  moreover have "AtLeast core least \<longleftrightarrow> bare_version least = '''' \<or> bare_version core \<noteq> '''' \<and>
      (let a = split_on (CHR ''.'') (bare_version core); b = split_on (CHR ''.'') (bare_version least); n = max (length a) (length b) in
       padded n b \<le> padded n a)"
    using le by (auto simp: AtLeast_def Let_def)
  ultimately show ?thesis by blast
qed

theorem at_least_is_padded_order_witness:
  "AtLeast ''v1.2'' ''1.2.0'' \<and> AtLeast ''1.2.0'' ''1.1.9'' \<and> AtLeast ''v1.2'' ''1.1.9''"
proof -
  have "AtLeast ''v1.2'' ''1.2.0''" "AtLeast ''1.2.0'' ''1.1.9''" by code_simp+
  with at_least_is_padded_order show ?thesis by blast
qed

end
