(* ===== verification/Go_Files.thy ===== *)
theory Go_Files
  imports Go_Text "HOL-Library.Word"
begin

text \<open>
  What the packaging code uses of Go's \<^verbatim>\<open>path\<close>, \<^verbatim>\<open>path/filepath\<close> and \<^verbatim>\<open>os\<close>, on a Unix file system. A tree is a
  value: files with size, mode and content, directories with their entries in the order of \<^verbatim>\<open>os.ReadDir\<close>, which
  sorts them by name, symbolic links with what \<^verbatim>\<open>filepath.EvalSymlinks\<close> answers for them and the node they lead
  to, and nodes that cannot be read. In \<^verbatim>\<open>path.Match\<close> a character is a byte.
\<close>

unbundle bit_operations_syntax

section \<open>Slash-separated paths\<close>

definition path_Base :: "string \<Rightarrow> string" where
  "path_Base s =
     (if s = '''' then ''.''
      else let t = rev (dropWhile (\<lambda>c. c = CHR ''/'') (rev s)) in
           if t = '''' then ''/'' else last (split_on (CHR ''/'') t))"

definition path_Ext :: "string \<Rightarrow> string" where
  \<comment> \<open>from the last dot of the last element\<close>
  "path_Ext s =
     (let seg = last (split_on (CHR ''/'') s); tail = takeWhile (\<lambda>c. c \<noteq> CHR ''.'') (rev seg) in
      if length tail = length seg then '''' else CHR ''.'' # rev tail)"

text \<open>A bracket expression of \<^verbatim>\<open>path.Match\<close>: \<open>class_ranges\<close> reads the ranges up to the closing bracket and answers
  whether \<open>x\<close> is in one of them; \<open>None\<close> is a malformed pattern.\<close>

definition get_esc :: "string \<Rightarrow> (char \<times> string) option" where
  "get_esc p =
     (case p of [] \<Rightarrow> None
      | c # q \<Rightarrow>
          if c = CHR ''-'' \<or> c = CHR '']'' then None
          else if c = CHR 0x5C then (case q of [] \<Rightarrow> None | e # r \<Rightarrow> if r = [] then None else Some (e, r))
          else if q = [] then None else Some (c, q))"

lemma get_esc_length: "get_esc p = Some (c, q) \<Longrightarrow> length q < length p"
  by (auto simp: get_esc_def split: list.splits if_splits)

function class_ranges :: "char \<Rightarrow> bool \<Rightarrow> bool \<Rightarrow> string \<Rightarrow> (bool \<times> string) option" where
  "class_ranges x some found p =
     (if some \<and> p \<noteq> [] \<and> hd p = CHR '']'' then Some (found, tl p)
      else case get_esc p of
        None \<Rightarrow> None
      | Some (lo, q) \<Rightarrow>
          if hd q = CHR ''-'' then
            (case get_esc (tl q) of
               None \<Rightarrow> None
             | Some (hi, r) \<Rightarrow> class_ranges x True (found \<or> code lo \<le> code x \<and> code x \<le> code hi) r)
          else class_ranges x True (found \<or> x = lo) q)"
  by pat_completeness auto

termination
proof (relation "measure (\<lambda>(x, some, found, p). length p)")
  fix x :: char and some found :: bool and p q r :: string and y lo z hi
  assume "get_esc p = Some y" "(lo, q) = y" "get_esc (tl q) = Some z" "(hi, r) = z"
  then have "get_esc p = Some (lo, q)" "get_esc (tl q) = Some (hi, r)" by simp_all
  then have "length q < length p" "length r < length (tl q)" by (blast dest: get_esc_length)+
  then show "((x, True, found \<or> code lo \<le> code x \<and> code x \<le> code hi, r), x, some, found, p) \<in> measure (\<lambda>(x, some, found, p). length p)"
    by simp
next
  fix x :: char and some found :: bool and p q :: string and y lo
  assume "get_esc p = Some y" "(lo, q) = y"
  then show "((x, True, found \<or> x = lo, q), x, some, found, p) \<in> measure (\<lambda>(x, some, found, p). length p)"
    using get_esc_length by auto
qed simp

declare class_ranges.simps [simp del]

lemma class_ranges_length: "class_ranges x some found p = Some (b, q) \<Longrightarrow> length q \<le> length p"
proof (induction p arbitrary: some found rule: length_induct)
  case (1 p)
  have IH: "class_ranges x True found' q' = Some (b, q) \<Longrightarrow> length q' < length p \<Longrightarrow> length q \<le> length p" for found' q'
    using "1.IH" by fastforce
  from "1.prems" show ?case
    unfolding class_ranges.simps [of x some found p]
    by (auto split: if_splits option.splits dest!: get_esc_length)
      (metis IH less_trans length_tl less_imp_diff_less)+
qed

definition class_match :: "char \<Rightarrow> string \<Rightarrow> (bool \<times> string) option" where
  "class_match x p =
     (if p \<noteq> [] \<and> hd p = CHR ''^'' then
        (case class_ranges x False False (tl p) of None \<Rightarrow> None | Some (b, q) \<Rightarrow> Some (\<not> b, q))
      else class_ranges x False False p)"

lemma class_match_length: "class_match x p = Some (b, q) \<Longrightarrow> length q \<le> length p"
  by (auto simp: class_match_def split: if_splits option.splits dest!: class_ranges_length)

text \<open>\<^verbatim>\<open>path.Match\<close>, true when it answers a match without an error.\<close>

function path_Match :: "string \<Rightarrow> string \<Rightarrow> bool" where
  "path_Match [] s = (s = [])"
| "path_Match (c # p) s =
     (if c = CHR ''*'' then path_Match p s \<or> (case s of [] \<Rightarrow> False | x # t \<Rightarrow> x \<noteq> CHR ''/'' \<and> path_Match (c # p) t)
      else case s of
        [] \<Rightarrow> False
      | x # t \<Rightarrow>
          if c = CHR ''?'' then x \<noteq> CHR ''/'' \<and> path_Match p t
          else if c = CHR ''['' then
            (case class_match x p of None \<Rightarrow> False | Some (b, q) \<Rightarrow> b \<and> path_Match q t)
          else if c = CHR 0x5C then
            (case p of [] \<Rightarrow> False | e # q \<Rightarrow> x = e \<and> path_Match q t)
          else x = c \<and> path_Match p t)"
  by pat_completeness auto

termination
  by (relation "measure (\<lambda>(p, s). length p + length s)") (auto dest: class_match_length)

section \<open>Cleaned paths\<close>

text \<open>A path as \<^verbatim>\<open>filepath.Clean\<close> leaves it: whether it is absolute, and its elements.\<close>

type_synonym fpath = "bool \<times> string list"

fun strip_common :: "string list \<Rightarrow> string list \<Rightarrow> string list \<times> string list" where
  "strip_common (b # bs) (t # ts) = (if b = t then strip_common bs ts else (b # bs, t # ts))"
| "strip_common bs ts = (bs, ts)"

definition filepath_Rel :: "fpath \<Rightarrow> fpath \<Rightarrow> string option" where
  "filepath_Rel base targ =
     (if base = targ then Some ''.''
      else if fst base \<noteq> fst targ then None
      else let (bs, ts) = strip_common (snd base) (snd targ) in
           if bs \<noteq> [] \<and> hd bs = ''..'' then None
           else Some (join_on (CHR ''/'') (replicate (length bs) ''..'' @ ts)))"

section \<open>Trees\<close>

datatype fsnode =
    FileN int "16 word" bytes
  | DirN "16 word" "(string \<times> fsnode) list"
  | LinkN "fpath option" "fsnode option"
  | BadN string

definition path_join :: "string \<Rightarrow> string \<Rightarrow> string" where
  "path_join p n = (if p = '''' then n else p @ ''/'' @ n)"

text \<open>The nodes that \<^verbatim>\<open>filepath.WalkDir\<close> visits below a node, with their paths relative to it, without the
  directories that \<open>skip\<close> names. It does not follow links, the root included.\<close>

fun walk :: "(string \<Rightarrow> bool) \<Rightarrow> string \<Rightarrow> fsnode \<Rightarrow> (string \<times> fsnode) list"
  and walk_entries :: "(string \<Rightarrow> bool) \<Rightarrow> string \<Rightarrow> (string \<times> fsnode) list \<Rightarrow> (string \<times> fsnode) list" where
  "walk skip p (DirN mode es) = walk_entries skip p es"
| "walk skip p (FileN sz mode body) = []"
| "walk skip p (LinkN target st) = []"
| "walk skip p (BadN err) = []"
| "walk_entries skip p [] = []"
| "walk_entries skip p ((n, x) # es) =
     (if (case x of DirN _ _ \<Rightarrow> skip n | _ \<Rightarrow> False) then []
      else (path_join p n, x) # walk skip (path_join p n) x) @ walk_entries skip p es"

definition walk_error :: "(string \<times> fsnode) list \<Rightarrow> string option" where
  "walk_error es = (case List.find (\<lambda>(p, x). case x of BadN _ \<Rightarrow> True | _ \<Rightarrow> False) es of
      Some (p, BadN err) \<Rightarrow> Some err | _ \<Rightarrow> None)"

text \<open>Following links, \<^verbatim>\<open>os.Stat\<close> of an entry of a directory with the mode it answers, and \<^verbatim>\<open>os.ReadFile\<close>.\<close>

fun follow :: "fsnode \<Rightarrow> fsnode option" where
  "follow (LinkN target (Some x)) = follow x"
| "follow (LinkN target None) = None"
| "follow x = Some x"

definition node_mode :: "fsnode \<Rightarrow> (16 word) option" where
  "node_mode x = (case x of FileN _ mode _ \<Rightarrow> Some mode | DirN mode _ \<Rightarrow> Some mode | _ \<Rightarrow> None)"

definition dir_entry :: "fsnode \<Rightarrow> string \<Rightarrow> fsnode option" where
  "dir_entry x n = (case x of DirN _ es \<Rightarrow> Option.bind (map_of es n) follow | _ \<Rightarrow> None)"

definition dir_stat :: "fsnode \<Rightarrow> string \<Rightarrow> (16 word) option" where
  \<comment> \<open>the parent of a directory is a directory that can be searched\<close>
  "dir_stat x n = (if n = ''..'' then Some 0x1ED else Option.bind (dir_entry x n) node_mode)"

datatype read_result = NotExist | ReadError string | Content bytes

definition dir_read :: "fsnode \<Rightarrow> string \<Rightarrow> read_result" where
  "dir_read x n =
     (case dir_entry x n of
        None \<Rightarrow> NotExist
      | Some (FileN _ _ body) \<Rightarrow> Content body
      | Some (BadN err) \<Rightarrow> ReadError err
      | Some _ \<Rightarrow> ReadError ''is a directory'')"

definition executable :: "16 word \<Rightarrow> bool" where
  "executable mode = (mode AND 0x49 \<noteq> 0)" \<comment> \<open>\<^verbatim>\<open>0o111\<close>\<close>

end
