(* ===== verification/Schema.thy ===== *)
theory Schema
  imports Json Diag
begin

text \<open>
  The schema band of the manifest contract, \<^verbatim>\<open>src/v2/plugin/contract/schema.go\<close>. A decoded document is a JSON value
  whose objects have distinct keys, as a Go map has; the embedded schema is such a document and the argument
  \<open>root\<close>. The JSON Schema validator is a library: \<open>schema_error\<close> is the error it returns.
\<close>

definition joinPath :: "string \<Rightarrow> string \<Rightarrow> string" where
  "joinPath base name = (if base = '''' then name else base @ ''.'' @ name)"

definition instancePath :: "string list \<Rightarrow> string" where
  "instancePath tokens =
     foldl (\<lambda>b tok. if Atoi tok \<noteq> None then b @ ''['' @ tok @ '']''
                    else if b = '''' then tok else b @ ''.'' @ tok) '''' tokens"

section \<open>Members of a document\<close>

type_synonym jobject = "(string \<times> json) list"

definition obj_string :: "jobject \<Rightarrow> string \<Rightarrow> string option" where
  "obj_string ms k = (case map_of ms k of Some (JString s) \<Rightarrow> Some s | _ \<Rightarrow> None)"

definition obj_object :: "jobject \<Rightarrow> string \<Rightarrow> jobject option" where
  "obj_object ms k = (case map_of ms k of Some (JObject o') \<Rightarrow> Some o' | _ \<Rightarrow> None)"

definition obj_array :: "jobject \<Rightarrow> string \<Rightarrow> json list" where
  "obj_array ms k = (case map_of ms k of Some (JArray vs) \<Rightarrow> vs | _ \<Rightarrow> [])"

fun only_objects :: "json list \<Rightarrow> jobject list" where
  "only_objects [] = []"
| "only_objects (JObject ms # vs) = ms # only_objects vs"
| "only_objects (v # vs) = only_objects vs"

fun object_members :: "jobject \<Rightarrow> (string \<times> jobject) list" where
  "object_members [] = []"
| "object_members ((k, JObject ms) # r) = (k, ms) # object_members r"
| "object_members ((k, v) # r) = object_members r"

text \<open>Sizes, for the termination of the walks.\<close>

definition osize :: "jobject \<Rightarrow> nat" where
  "osize ms = size (JObject ms)"

lemma osize_sum: "osize ms = Suc (sum_list (map (\<lambda>(k, v). Suc (Suc (size v))) ms))"
  unfolding osize_def by (induction ms) auto

lemma array_sum: "size (JArray vs) = Suc (sum_list (map (\<lambda>v. Suc (size v)) vs))"
  by (induction vs) auto

lemma member_size: "(k, v) \<in> set ms \<Longrightarrow> size v < osize ms"
  using member_le_sum_list [of "Suc (Suc (size v))" "map (\<lambda>(k, v). Suc (Suc (size v))) ms"] by (force simp: osize_sum)

lemma element_size: "v \<in> set vs \<Longrightarrow> size v < size (JArray vs)"
  using member_le_sum_list [of "Suc (size v)" "map (\<lambda>v. Suc (size v)) vs"] by (force simp only: array_sum set_map image_eqI)

lemma only_objects_size: "sum_list (map osize (only_objects vs)) < size (JArray vs)"
  by (induction vs rule: only_objects.induct) (auto simp: osize_def)

lemma object_members_size: "sum_list (map (\<lambda>x. osize (snd x)) (object_members r)) < osize r"
  by (induction r rule: object_members.induct) (auto simp: osize_def)

text \<open>The values under distinct keys are together no larger than the object.\<close>

lemma keys_size:
  "distinct ks \<Longrightarrow> sum_list (map (\<lambda>k. case map_of ms k of None \<Rightarrow> 0 | Some v \<Rightarrow> Suc (size v)) ks) < osize ms"
proof (induction ms arbitrary: ks)
  case Nil
  then show ?case by (simp add: osize_sum)
next
  case (Cons m ms)
  obtain k v where m: "m = (k, v)" by fastforce
  let ?f = "\<lambda>ms k. case map_of ms k of None \<Rightarrow> 0 | Some v \<Rightarrow> Suc (size v)"
  have "sum_list (map (?f (m # ms)) ks) \<le> Suc (size v) + sum_list (map (?f ms) (remove1 k ks))"
    using Cons.prems
  proof (induction ks)
    case (Cons a ks)
    have same: "map (?f (m # ms)) ks = map (?f ms) ks" if "k \<notin> set ks" using that by (intro map_cong) (auto simp: m)
    show ?case
    proof (cases "a = k")
      case True
      with Cons.prems same have "map (?f (m # ms)) ks = map (?f ms) ks" by simp
      with True show ?thesis by (simp add: m del: map_eq_conv)
    next
      case False
      with Cons show ?thesis by (simp add: m)
    qed
  qed simp
  also have "sum_list (map (?f ms) (remove1 k ks)) < osize ms" using Cons by simp
  finally show ?case by (simp add: osize_sum m)
qed

section \<open>Unknown properties\<close>

definition jsonType :: "json \<Rightarrow> string" where
  "jsonType v =
     (case v of JObject _ \<Rightarrow> ''object'' | JArray _ \<Rightarrow> ''array'' | JString _ \<Rightarrow> ''string''
      | JBool _ \<Rightarrow> ''boolean'' | JNull \<Rightarrow> ''null'' | JNumber _ \<Rightarrow> ''number'')"

definition schema_defs :: "jobject \<Rightarrow> jobject" where
  "schema_defs root = (case obj_object root ''$defs'' of None \<Rightarrow> [] | Some defs \<Rightarrow> defs)"

definition resolveRef :: "jobject \<Rightarrow> string \<Rightarrow> jobject option" where
  "resolveRef root ref =
     (if \<not> HasPrefix ref ''#/$defs/'' then None
      else obj_object (schema_defs root) (TrimPrefix ref ''#/$defs/''))"

definition ref_target :: "jobject \<Rightarrow> jobject \<Rightarrow> jobject option" where
  "ref_target root schema = Option.bind (obj_string schema ''$ref'') (resolveRef root)"

lemma obj_array_size: "size (JArray (obj_array ms k)) \<le> osize ms"
proof (cases "map_of ms k")
  case (Some v)
  then have "size v < osize ms" by (intro member_size map_of_SomeD)
  with Some show ?thesis by (cases v) (auto simp: obj_array_def osize_sum)
qed (simp add: obj_array_def osize_sum)

function resolveSchema :: "jobject \<Rightarrow> jobject \<Rightarrow> json \<Rightarrow> jobject"
  and resolve_alts :: "jobject \<Rightarrow> json list \<Rightarrow> json \<Rightarrow> jobject option" where
  "resolveSchema root schema doc =
     (case ref_target root schema of
        Some target \<Rightarrow> target
      | None \<Rightarrow> (case resolve_alts root (obj_array schema ''oneOf'') doc of Some sub \<Rightarrow> sub | None \<Rightarrow> schema))"
| "resolve_alts root [] doc = None"
| "resolve_alts root (alt # alts) doc =
     (case alt of
        JObject ms \<Rightarrow>
          (let sub = resolveSchema root ms doc in
           if obj_string sub ''type'' = Some (jsonType doc) then Some sub else resolve_alts root alts doc)
      | _ \<Rightarrow> resolve_alts root alts doc)"
  by pat_completeness auto

termination
proof (relation "measure (\<lambda>x. case x of Inl (root, schema, doc) \<Rightarrow> Suc (osize schema) | Inr (root, alts, doc) \<Rightarrow> size (JArray alts))")
  fix root schema :: jobject and doc :: json
  assume "ref_target root schema = None"
  show "(Inr (root, obj_array schema ''oneOf'', doc), Inl (root, schema, doc)) \<in>
    measure (\<lambda>x. case x of Inl (root, schema, doc) \<Rightarrow> Suc (osize schema) | Inr (root, alts, doc) \<Rightarrow> size (JArray alts))"
    using obj_array_size [of schema "''oneOf''"] by simp
qed (auto simp: osize_def)

function unknownProperties :: "(string \<Rightarrow> string) \<Rightarrow> jobject \<Rightarrow> jobject \<Rightarrow> json \<Rightarrow> string \<Rightarrow> Diagnostic list" where
  "unknownProperties qt root schema doc path =
     (let schema = resolveSchema root schema doc in
      case doc of
        JObject v \<Rightarrow>
          (case obj_object schema ''properties'' of
             None \<Rightarrow> []
           | Some props \<Rightarrow>
               concat (map (\<lambda>(key, x).
                 case obj_object props key of
                   None \<Rightarrow> report qt ''BDP1006'' (joinPath path key) [FStr key]
                 | Some sub \<Rightarrow> unknownProperties qt root sub x (joinPath path key)) (sort_key fst v)))
      | JArray v \<Rightarrow>
          (case obj_object schema ''items'' of
             None \<Rightarrow> []
           | Some items \<Rightarrow>
               concat (map (\<lambda>(i, el). unknownProperties qt root items el (at_index path i)) (enumerate 0 v)))
      | _ \<Rightarrow> [])"
  by pat_completeness auto

termination
proof (relation "measure (\<lambda>(qt, root, schema, doc, path). size doc)")
  fix qt :: "string \<Rightarrow> string" and root schema s props sub :: jobject and doc x :: json and path key :: string and v p
  assume "doc = JObject v" "p \<in> set (sort_key fst v)" "(key, x) = p"
  then have "size x < size doc" using member_size [of key x v] by (simp add: osize_def)
  then show "((qt, root, sub, x, joinPath path key), qt, root, schema, doc, path) \<in> measure (\<lambda>(qt, root, schema, doc, path). size doc)"
    by simp
next
  fix qt :: "string \<Rightarrow> string" and root schema s items :: jobject and doc el :: json and path :: string and v p i
  assume "doc = JArray v" "p \<in> set (enumerate 0 v)" "(i, el) = p"
  then have "el \<in> set v" by (auto simp: in_set_enumerate_eq)
  with \<open>doc = JArray v\<close> have "size el < size doc" using element_size by blast
  then show "((qt, root, items, el, at_index path i), qt, root, schema, doc, path) \<in> measure (\<lambda>(qt, root, schema, doc, path). size doc)"
    by simp
qed simp

declare resolveSchema.simps [simp del] unknownProperties.simps [simp del]

section \<open>Findings of the validator\<close>

datatype schema_kind = KAlternatives | KRequired "string list" | KType string "string list" | KOther string

datatype schema_error = SchemaError "string list" schema_kind "schema_error list"

fun flattenSchemaError :: "(string \<Rightarrow> string) \<Rightarrow> schema_error \<Rightarrow> Diagnostic list" where
  "flattenSchemaError qt (SchemaError loc kind causes) =
     (let path = instancePath loc in
      case kind of
        KAlternatives \<Rightarrow> report qt ''BDP1005'' path [FStr ''value matches none of the alternatives'']
      | KRequired missing \<Rightarrow> concat (map (\<lambda>name. report qt ''BDP1003'' (joinPath path name) [FStr name]) missing)
      | KType got want \<Rightarrow> report qt ''BDP1004'' path [FStr got, FStr (join_str '' or '' want)]
      | KOther text \<Rightarrow>
          if causes \<noteq> [] then concat (map (flattenSchemaError qt) causes)
          else report qt ''BDP1005'' path
            [FStr (TrimPrefix text (''jsonschema validation failed'' @ [CHR 0x0A] @ ''  - at '' @ [CHR 0x27, CHR 0x27] @ '': ''))])"

text \<open>\<open>Some (Inr e)\<close> is a validation error, \<open>Some (Inl err)\<close> any other.\<close>

definition schemaDiagnostics ::
  "(string \<Rightarrow> string) \<Rightarrow> (json \<Rightarrow> (string + schema_error) option) \<Rightarrow> jobject \<Rightarrow> json \<Rightarrow> Diagnostic list" where
  "schemaDiagnostics qt validate root doc =
     (case validate doc of
        None \<Rightarrow> []
      | Some (Inr ve) \<Rightarrow> flattenSchemaError qt ve
      | Some (Inl err) \<Rightarrow> report qt ''BDP1005'' '''' [FStr err]) @
     unknownProperties qt root root doc ''''"

section \<open>References\<close>

text \<open>\<^verbatim>\<open>schemaRefs\<close> walks the schema depth first with one set of references seen; here the walk keeps the nodes that
  are still to be visited on a stack.\<close>

definition schema_children :: "jobject \<Rightarrow> string \<Rightarrow> (jobject \<times> string) list" where
  "schema_children schema path =
     (case obj_object schema ''properties'' of
        None \<Rightarrow> [] | Some props \<Rightarrow> map (\<lambda>(name, s). (s, joinPath path name)) (object_members props)) @
     (case obj_object schema ''items'' of None \<Rightarrow> [] | Some items \<Rightarrow> [(items, path @ ''[]'')]) @
     map (\<lambda>s. (s, path)) (only_objects (obj_array schema ''oneOf''))"

definition todo_size :: "(jobject \<times> string) list \<Rightarrow> nat" where
  "todo_size todo = sum_list (map (\<lambda>(s, p). osize s) todo)"

lemma todo_size_append: "todo_size (a @ b) = todo_size a + todo_size b"
  by (simp add: todo_size_def)

lemma children_size: "todo_size (schema_children schema path) < osize schema"
proof -
  let ?f = "\<lambda>k. case map_of schema k of None \<Rightarrow> 0 | Some v \<Rightarrow> Suc (size v)"
  have "todo_size (schema_children schema path) \<le> ?f ''properties'' + (?f ''items'' + ?f ''oneOf'')"
    unfolding schema_children_def todo_size_append
  proof (intro add_mono)
    have "todo_size (map (\<lambda>(name, s). (s, joinPath path name)) (object_members ps)) \<le> Suc (osize ps)" for ps
      using object_members_size [of ps] by (simp add: todo_size_def comp_def split_beta)
    then show "todo_size (case obj_object schema ''properties'' of None \<Rightarrow> []
        | Some props \<Rightarrow> map (\<lambda>(name, s). (s, joinPath path name)) (object_members props)) \<le> ?f ''properties''"
      by (auto simp: todo_size_def obj_object_def osize_def split: option.splits json.splits)
    show "todo_size (case obj_object schema ''items'' of None \<Rightarrow> [] | Some items \<Rightarrow> [(items, path @ ''[]'')]) \<le> ?f ''items''"
      by (auto simp: todo_size_def obj_object_def osize_def split: option.splits json.splits)
    have "todo_size (map (\<lambda>s. (s, path)) (only_objects vs)) \<le> Suc (size (JArray vs))" for vs
      using only_objects_size [of vs] by (simp add: todo_size_def comp_def)
    then show "todo_size (map (\<lambda>s. (s, path)) (only_objects (obj_array schema ''oneOf''))) \<le> ?f ''oneOf''"
      by (auto simp: todo_size_def obj_array_def split: option.splits json.splits)
  qed
  also have "\<dots> < osize schema"
    using keys_size [of "[''properties'', ''items'', ''oneOf'']" schema] by simp
  finally show ?thesis .
qed

definition unseen :: "jobject \<Rightarrow> string list \<Rightarrow> nat" where
  "unseen root seen = length (filter (\<lambda>n. ''#/$defs/'' @ n \<notin> set seen) (map fst (schema_defs root)))"

lemma unseen_le: "unseen root (r # seen) \<le> unseen root seen"
proof -
  have "length (filter (\<lambda>m. ''#/$defs/'' @ m \<notin> set (r # seen)) ns) \<le> length (filter (\<lambda>m. ''#/$defs/'' @ m \<notin> set seen) ns)" for ns
    by (induction ns) auto
  then show ?thesis unfolding unseen_def .
qed

lemma unseen_less:
  assumes "resolveRef root r = Some t" and "r \<notin> set seen"
  shows "unseen root (r # seen) < unseen root seen"
proof -
  obtain n where r: "r = ''#/$defs/'' @ n" and n: "n \<in> set (map fst (schema_defs root))"
    using assms(1) by (force simp: resolveRef_def HasPrefix_def TrimPrefix_def prefix_def obj_object_def
        split: if_splits option.splits dest: map_of_SomeD)
  have "length (filter (\<lambda>m. ''#/$defs/'' @ m \<notin> set (r # seen)) ns) < length (filter (\<lambda>m. ''#/$defs/'' @ m \<notin> set seen) ns)"
    if "n \<in> set ns" for ns using that
  proof (induction ns)
    case (Cons a ns)
    have "length (filter (\<lambda>m. ''#/$defs/'' @ m \<notin> set (r # seen)) ns) \<le> length (filter (\<lambda>m. ''#/$defs/'' @ m \<notin> set seen) ns)"
      by (induction ns) auto
    with Cons assms(2) show ?case by (auto simp: r)
  qed simp
  with n show ?thesis unfolding unseen_def by blast
qed

lemma todo_size_children: "todo_size (schema_children s p @ todo) < todo_size ((s, q) # todo)"
  using children_size [of s p] by (simp add: todo_size_def)

function refs_walk :: "jobject \<Rightarrow> (jobject \<times> string) list \<Rightarrow> string list \<Rightarrow> (string, string) amap \<Rightarrow> (string, string) amap" where
  "refs_walk root [] seen out = out"
| "refs_walk root ((schema, path) # todo) seen out =
     (case obj_string schema ''$ref'' of
        Some r \<Rightarrow>
          if r \<in> set seen then refs_walk root todo seen out
          else (case resolveRef root r of
                  Some target \<Rightarrow>
                    refs_walk root (schema_children target path @ todo) (r # seen)
                      (case obj_string target ''x-bd-ref'' of Some kind \<Rightarrow> AList.update path kind out | None \<Rightarrow> out)
                | None \<Rightarrow>
                    refs_walk root (schema_children schema path @ todo) (r # seen)
                      (case obj_string schema ''x-bd-ref'' of Some kind \<Rightarrow> AList.update path kind out | None \<Rightarrow> out))
      | None \<Rightarrow>
          refs_walk root (schema_children schema path @ todo) seen
            (case obj_string schema ''x-bd-ref'' of Some kind \<Rightarrow> AList.update path kind out | None \<Rightarrow> out))"
  by pat_completeness auto

termination
proof (relation "measures [\<lambda>(root, todo, seen, out). unseen root seen, \<lambda>(root, todo, seen, out). todo_size todo]")
  show "wf (measures [\<lambda>(root, todo, seen, out). unseen root seen, \<lambda>(root, todo, seen, out). todo_size todo])" by simp
next
  fix root todo seen out schema and path r :: string
  assume "obj_string schema ''$ref'' = Some r" "r \<in> set seen"
  then show "((root, todo, seen, out), root, (schema, path) # todo, seen, out) \<in>
    measures [\<lambda>(root, todo, seen, out). unseen root seen, \<lambda>(root, todo, seen, out). todo_size todo]"
    by (simp add: todo_size_def osize_sum)
next
  fix root todo seen out schema and path r :: string and target out'
  assume "r \<notin> set seen" "resolveRef root r = Some target"
  then show "((root, schema_children target path @ todo, r # seen, out'), root, (schema, path) # todo, seen, out) \<in>
    measures [\<lambda>(root, todo, seen, out). unseen root seen, \<lambda>(root, todo, seen, out). todo_size todo]"
    by (simp add: unseen_less)
next
  fix root todo seen out schema and path r :: string and out'
  show "((root, schema_children schema path @ todo, r # seen, out'), root, (schema, path) # todo, seen, out) \<in>
    measures [\<lambda>(root, todo, seen, out). unseen root seen, \<lambda>(root, todo, seen, out). todo_size todo]"
    using unseen_le [of root r seen] todo_size_children by (auto simp: le_less)
next
  fix root todo seen out schema and path :: string and out'
  show "((root, schema_children schema path @ todo, seen, out'), root, (schema, path) # todo, seen, out) \<in>
    measures [\<lambda>(root, todo, seen, out). unseen root seen, \<lambda>(root, todo, seen, out). todo_size todo]"
    using todo_size_children by simp
qed

definition schemaRefs :: "jobject \<Rightarrow> (string, string) amap" where
  "schemaRefs root = refs_walk root [(root, '''')] [] []"

fun lookup_walk :: "json option \<Rightarrow> string list \<Rightarrow> string \<Rightarrow> (string \<times> string) list" where
  "lookup_walk v [] concrete = (case v of Some (JString s) \<Rightarrow> [(concrete, s)] | _ \<Rightarrow> [])"
| "lookup_walk v (head # rest) concrete =
     (let ms = (case v of Some (JObject ms) \<Rightarrow> ms | _ \<Rightarrow> []) in
      if HasSuffix head ''[]'' then
        (let name = take (length head - 2) head in
         concat (map (\<lambda>(i, el). lookup_walk (Some el) rest (at_index (joinPath concrete name) i)) (enumerate 0 (obj_array ms name))))
      else lookup_walk (map_of ms head) rest (joinPath concrete head))"

definition lookupPath :: "json \<Rightarrow> string \<Rightarrow> (string \<times> string) list" where
  "lookupPath doc path = lookup_walk (Some doc) (split_on (CHR ''.'') path) ''''"

end
