(* ===== verification/Layout.thy ===== *)
theory Layout
  imports Go_Files Schema Validate
begin

text \<open>
  The layout band of the manifest contract, \<^verbatim>\<open>src/v2/plugin/contract/layout.go\<close>, with the table it embeds,
  \<^verbatim>\<open>src/v2/plugin/contract/v2/layout.json\<close>. The tree is a value of theory \<open>Go_Files\<close>: what \<^verbatim>\<open>Lstat\<close> answers for the
  root, which the walk starts from, and what \<^verbatim>\<open>Stat\<close> answers. File sizes are integers: their sum stays below
  \<open>2 ^ 63\<close>. The operating system is not Windows.
\<close>

type_synonym Mode = string

definition ModePackage :: Mode where "ModePackage = ''package''"
definition ModeSource :: Mode where "ModeSource = ''source''"

record layoutFile =
  lf_Manifest :: string
  lf_Kinds :: "(string, string list \<times> string list) amap"      \<comment> \<open>classes and required files\<close>
  lf_Classes :: "(string, string list \<times> string list) amap"    \<comment> \<open>globs and extensions\<close>
  lf_Forbidden :: "string list"
  lf_Ignored :: "string list"
  lf_MaxFiles :: int
  lf_MaxBytes :: int
  lf_MaxImageBytes :: int

definition layoutSpec :: layoutFile where
  "layoutSpec =
     \<lparr>lf_Manifest = ''plugin.json'',
      lf_Kinds =
        [(''builtin'', [''manifest'', ''docs'', ''images''], []),
         (''process'', [''manifest'', ''docs'', ''images'', ''binary'', ''ui'', ''resources'', ''data'', ''scripts'', ''services'', ''notices''], []),
         (''ui'', [''manifest'', ''docs'', ''images'', ''ui'', ''resources'', ''data'', ''scripts'', ''services'', ''notices''], [''ui/index.html'']),
         (''family'', [''manifest'', ''docs'', ''images''], [])],
      lf_Classes =
        [(''manifest'', [''plugin.json''], []),
         (''docs'', [''README.md'', ''CHANGELOG.md'', ''LICENSE'', ''docs/**''], []),
         (''images'', [''images/**''], [''.svg'', ''.png'', ''.webp'']),
         (''binary'', [''${binary}'', ''bin/**''], []),
         (''ui'', [''ui/**''], []),
         (''resources'', [''resources/**'', ''downloads/**''], []),
         (''data'', [''data/**''], []),
         (''scripts'', [''scripts/**''], []),
         (''services'', [''services/**''], []),
         (''notices'', [''notices/**''], [])],
      lf_Forbidden =
        [''testdata/**'', ''*_test.go'', ''node_modules/**'', ''.git/**'', ''.env*'', ''*.pem'', ''*.key'', ''*.p12'',
         ''*.pfx'', ''id_rsa*'', ''*.sock'', ''state/**'', ''*.db'', ''*.sqlite*'', ''**/*.log'', ''.DS_Store''],
      lf_Ignored = [''SHA256SUMS'', ''.unsigned'', ''bundle.json''],
      lf_MaxFiles = 5000, lf_MaxBytes = 268435456, lf_MaxImageBytes = 2097152\<rparr>"

section \<open>Globs\<close>

fun matchSegments :: "string list \<Rightarrow> string list \<Rightarrow> bool" where
  "matchSegments [] segs = (segs = [])"
| "matchSegments (p # pat) segs =
     (if p = ''**'' then list_ex (\<lambda>i. matchSegments pat (drop i segs)) [0..<Suc (length segs)]
      else case segs of [] \<Rightarrow> False | s # rest \<Rightarrow> path_Match p s \<and> matchSegments pat rest)"

definition globMatch :: "string \<Rightarrow> string \<Rightarrow> bool" where
  "globMatch pattern rel = matchSegments (split_on (CHR ''/'') pattern) (split_on (CHR ''/'') rel)"

definition matchAny :: "string list \<Rightarrow> string \<Rightarrow> bool \<Rightarrow> string" where
  "matchAny globs rel anyDepth =
     (let segs = split_on (CHR ''/'') rel in
      case List.find (\<lambda>g. globMatch g rel \<or>
          anyDepth \<and> list_ex (\<lambda>i. globMatch g (join_on (CHR ''/'') (drop i segs))) [1..<length segs]) globs of
        Some g \<Rightarrow> g
      | None \<Rightarrow> '''')"

definition class_globs :: "layoutFile \<Rightarrow> string \<Rightarrow> string list" where
  "class_globs lay name = (case map_of (lf_Classes lay) name of None \<Rightarrow> [] | Some (globs, exts) \<Rightarrow> globs)"

definition class_extensions :: "layoutFile \<Rightarrow> string \<Rightarrow> string list" where
  "class_extensions lay name = (case map_of (lf_Classes lay) name of None \<Rightarrow> [] | Some (globs, exts) \<Rightarrow> exts)"

definition class_has :: "layoutFile \<Rightarrow> string \<Rightarrow> string \<Rightarrow> string \<Rightarrow> bool" where
  "class_has lay binary rel name =
     list_ex (\<lambda>g. if g = ''${binary}'' then binary \<noteq> '''' \<and> globMatch binary rel else globMatch g rel) (class_globs lay name)"

definition classify :: "layoutFile \<Rightarrow> string list \<Rightarrow> string \<Rightarrow> string \<Rightarrow> string" where
  "classify lay classes rel binary =
     (case List.find (class_has lay binary rel) classes of Some name \<Rightarrow> name | None \<Rightarrow> '''')"

section \<open>The tree\<close>

record treeFile =
  tf_rel :: string
  tf_size :: int
  tf_mode :: "16 word"

definition hasFile :: "treeFile list \<Rightarrow> string \<Rightarrow> bool" where
  "hasFile files rel = list_ex (\<lambda>f. tf_rel f = rel) files"

definition within :: "fpath \<Rightarrow> fpath \<Rightarrow> bool" where
  "within root target =
     (case filepath_Rel root target of
        None \<Rightarrow> False
      | Some rel \<Rightarrow> rel \<noteq> ''..'' \<and> \<not> HasPrefix rel ''../'')"

definition inferKind :: "Manifest \<Rightarrow> treeFile list \<Rightarrow> string" where
  "inferKind m files =
     (let k = ToLower (TrimSpace (mf_Kind m)) in
      if k \<noteq> '''' then k
      else if mf_Family m \<noteq> None then KindFamily
      else if mf_Spawn m then KindProcess
      else if hasFile files ''ui/index.html'' then KindUI
      else KindBuiltin)"

definition link_finding :: "(string \<Rightarrow> string) \<Rightarrow> string \<Rightarrow> fpath \<Rightarrow> string \<times> fsnode \<Rightarrow> Diagnostic list" where
  "link_finding qt root resolvedRoot e =
     (case snd e of
        LinkN target _ \<Rightarrow>
          (case target of
             None \<Rightarrow> report qt ''BDP4003'' (fst e) [FStr (fst e), FStr root]
           | Some t \<Rightarrow> if within resolvedRoot t then [] else report qt ''BDP4003'' (fst e) [FStr (fst e), FStr root])
      | _ \<Rightarrow> [])"

definition regular_files :: "(string \<times> fsnode) list \<Rightarrow> treeFile list" where
  "regular_files es =
     concat (map (\<lambda>(rel, x). case x of FileN sz mode _ \<Rightarrow> [\<lparr>tf_rel = rel, tf_size = sz, tf_mode = mode\<rparr>] | _ \<Rightarrow> []) es)"

definition file_finding ::
  "(string \<Rightarrow> string) \<Rightarrow> layoutFile \<Rightarrow> string \<Rightarrow> string list \<Rightarrow> string \<Rightarrow> treeFile \<Rightarrow> Diagnostic list" where
  "file_finding qt lay kind classes binary f =
     (let rel = tf_rel f in
      if rel = lf_Manifest lay then []
      else let g = matchAny (lf_Forbidden lay) rel True in
      if g \<noteq> '''' then report qt ''BDP3002'' rel [FStr rel, FStr g]
      else if matchAny (lf_Ignored lay) rel False \<noteq> '''' then report qt ''BDP5002'' rel [FStr rel]
      else let class = classify lay classes rel binary in
      if class = '''' then report qt ''BDP3001'' rel [FStr rel, FStr kind]
      else if class = ''images'' \<and>
        (ToLower (path_Ext rel) \<notin> set (class_extensions lay ''images'') \<or> lf_MaxImageBytes lay < tf_size f)
      then report qt ''BDP3005'' rel [FStr rel, FInt (lf_MaxImageBytes lay)]
      else [])"

definition verifyRefs :: "(string \<Rightarrow> string) \<Rightarrow> jobject \<Rightarrow> fsnode \<Rightarrow> json \<Rightarrow> string \<Rightarrow> Diagnostic list" where
  "verifyRefs qt schema sroot doc kind =
     (let refs = schemaRefs schema in
      concat (map (\<lambda>p.
        if map_of refs p \<noteq> Some ''binary'' \<or> kind \<noteq> KindProcess then []
        else concat (map (\<lambda>(at, value).
          let base = path_Base (TrimSpace value) in
          if base = '''' \<or> base = ''.'' \<or> base = ''/'' then []
          else (case dir_stat sroot base of
                  None \<Rightarrow> report qt ''BDP4001'' at [FStr value]
                | Some mode \<Rightarrow> if executable mode then [] else report qt ''BDP4002'' at [FStr value])) (lookupPath doc p)))
        (sort (map fst refs))))"

definition package_findings ::
  "(string \<Rightarrow> string) \<Rightarrow> layoutFile \<Rightarrow> jobject \<Rightarrow> fsnode \<Rightarrow> treeFile list \<Rightarrow> Manifest \<Rightarrow> json \<Rightarrow> Diagnostic list" where
  \<comment> \<open>\<^verbatim>\<open>verifyTree\<close> after the walk, in package mode\<close>
  "package_findings qt lay schema sroot files m doc =
     (let kind = inferKind m files;
          (classes, required) = (case map_of (lf_Kinds lay) kind of None \<Rightarrow> ([], []) | Some s \<Rightarrow> s);
          binary = (if kind = KindProcess then path_Base (TrimSpace (mf_Binary m)) else '''');
          total = sum_list (map tf_size files) in
      concat (map (file_finding qt lay kind classes binary) files) @
      concat (map (\<lambda>req. if hasFile files req then [] else report qt ''BDP3003'' req [FStr req]) required) @
      (if lf_MaxFiles lay < int (length files)
       then report qt ''BDP3004'' '''' [FStr ''maxFiles'', FInt (int (length files)), FInt (lf_MaxFiles lay)] else []) @
      (if lf_MaxBytes lay < total
       then report qt ''BDP3004'' '''' [FStr ''maxBytes'', FInt total, FInt (lf_MaxBytes lay)] else []) @
      verifyRefs qt schema sroot doc kind)"

text \<open>\<open>root\<close> is the path as given and \<open>resolved\<close> what \<^verbatim>\<open>EvalSymlinks\<close> answers for it; \<open>lroot\<close> and \<open>sroot\<close> are what
  \<^verbatim>\<open>Lstat\<close> and \<^verbatim>\<open>Stat\<close> find there. \<open>decoded\<close> is the manifest with its document, when it decoded.\<close>

definition verifyTree ::
  "(string \<Rightarrow> string) \<Rightarrow> layoutFile \<Rightarrow> jobject \<Rightarrow> string \<Rightarrow> string + fpath \<Rightarrow> fsnode \<Rightarrow> fsnode \<Rightarrow>
   (Manifest \<times> json) option \<Rightarrow> Mode \<Rightarrow> string + Diagnostic list" where
  "verifyTree qt lay schema root resolved lroot sroot decoded mode =
     (case resolved of
        Inl err \<Rightarrow> Inl err
      | Inr resolvedRoot \<Rightarrow>
          (let es = walk (\<lambda>_. False) '''' lroot in
           case walk_error es of
             Some err \<Rightarrow> Inl err
           | None \<Rightarrow>
               let links = concat (map (link_finding qt root resolvedRoot) es) in
               (case decoded of
                  None \<Rightarrow> Inr links
                | Some (m, doc) \<Rightarrow>
                    if mode = ModeSource then Inr links
                    else Inr (links @ package_findings qt lay schema sroot (regular_files es) m doc))))"

lemma find_member: "List.find P xs = Some x \<Longrightarrow> x \<in> set xs \<and> P x"
  by (auto simp: find_Some_iff)

section \<open>What a glob matches\<close>

text \<open>The specification: the path is cut into one group of segments per element of the glob, any number for a
  double star, and one segment matched by \<^verbatim>\<open>path.Match\<close> for every other element.\<close>

definition glob_groups :: "string list \<Rightarrow> string list list \<Rightarrow> bool" where
  "glob_groups pat groups \<longleftrightarrow> list_all2 (\<lambda>p g. p = ''**'' \<or> (\<exists>s. g = [s] \<and> path_Match p s)) pat groups"

lemma glob_groups_Cons:
  "glob_groups (p # pat) groups \<longleftrightarrow>
     (\<exists>g rest. groups = g # rest \<and> (p = ''**'' \<or> (\<exists>s. g = [s] \<and> path_Match p s)) \<and> glob_groups pat rest)"
  by (auto simp: glob_groups_def list_all2_Cons1)

lemma matchSegments_groups: "matchSegments pat segs \<longleftrightarrow> (\<exists>groups. concat groups = segs \<and> glob_groups pat groups)"
proof (induction pat arbitrary: segs)
  case Nil
  then show ?case by (auto simp: glob_groups_def)
next
  case (Cons p pat)
  show ?case
  proof (cases "p = ''**''")
    case True
    have "matchSegments (p # pat) segs \<longleftrightarrow> (\<exists>i \<le> length segs. \<exists>rest. concat rest = drop i segs \<and> glob_groups pat rest)"
      by (auto simp: True Cons.IH list_ex_iff less_Suc_eq_le simp del: upt_Suc)
    also have "\<dots> \<longleftrightarrow> (\<exists>g rest. g @ concat rest = segs \<and> glob_groups pat rest)"
    proof
      assume "\<exists>i \<le> length segs. \<exists>rest. concat rest = drop i segs \<and> glob_groups pat rest"
      then obtain i rest where "concat rest = drop i segs" "glob_groups pat rest" by blast
      then have "take i segs @ concat rest = segs \<and> glob_groups pat rest" by simp
      then show "\<exists>g rest. g @ concat rest = segs \<and> glob_groups pat rest" by blast
    next
      assume "\<exists>g rest. g @ concat rest = segs \<and> glob_groups pat rest"
      then obtain g rest where "g @ concat rest = segs" "glob_groups pat rest" by blast
      then have "length g \<le> length segs \<and> concat rest = drop (length g) segs \<and> glob_groups pat rest" by auto
      then show "\<exists>i \<le> length segs. \<exists>rest. concat rest = drop i segs \<and> glob_groups pat rest" by blast
    qed
    also have "\<dots> \<longleftrightarrow> (\<exists>groups. concat groups = segs \<and> glob_groups (p # pat) groups)"
      using True by (metis concat.simps(2) glob_groups_Cons)
    finally show ?thesis .
  next
    case False
    have one: "(\<exists>groups. concat groups = s # rest \<and> glob_groups (p # pat) groups) \<longleftrightarrow>
        path_Match p s \<and> (\<exists>groups. concat groups = rest \<and> glob_groups pat groups)" for s rest
    proof
      assume "path_Match p s \<and> (\<exists>groups. concat groups = rest \<and> glob_groups pat groups)"
      then obtain groups where "concat ([s] # groups) = s # rest \<and> glob_groups (p # pat) ([s] # groups)"
        by (auto simp: glob_groups_Cons)
      then show "\<exists>groups. concat groups = s # rest \<and> glob_groups (p # pat) groups" by blast
    qed (use False in \<open>auto simp: glob_groups_Cons\<close>)
    show ?thesis
    proof (cases segs)
      case Nil
      with False show ?thesis by (auto simp: glob_groups_Cons)
    next
      case (Cons s rest)
      with False show ?thesis by (simp add: Cons.IH one)
    qed
  qed
qed

section \<open>Links and files of an accepted tree\<close>

lemma strip_common_prefix: "strip_common bs ts = (rb, rt) \<Longrightarrow> \<exists>c. bs = c @ rb \<and> ts = c @ rt"
proof (induction bs ts rule: strip_common.induct)
  case (1 b bs t ts)
  then show ?case by (cases "b = t") (auto simp: Cons_eq_append_conv)
qed auto

text \<open>A cleaned absolute path has no empty elements, no parents and no slashes inside.\<close>

definition clean_path :: "fpath \<Rightarrow> bool" where
  "clean_path p \<longleftrightarrow> fst p \<and> list_all (\<lambda>e. e \<noteq> '''' \<and> e \<noteq> ''..'' \<and> CHR ''/'' \<notin> set e) (snd p)"

lemma within_prefix:
  assumes "within root target" "clean_path root" "clean_path target"
  shows "prefix (snd root) (snd target)"
proof (cases "root = target")
  case False
  obtain rb rt where st: "strip_common (snd root) (snd target) = (rb, rt)" by fastforce
  then obtain c where c: "snd root = c @ rb" "snd target = c @ rt" using strip_common_prefix by blast
  have "rb = []"
  proof (rule ccontr)
    assume "rb \<noteq> []"
    then obtain n where "replicate (length rb) ''..'' = ''..'' # replicate n ''..''" by (cases rb) auto
    moreover have "hd rb \<noteq> ''..''" using assms(2) c \<open>rb \<noteq> []\<close> by (cases rb) (auto simp: clean_path_def)
    ultimately have "within root target \<longleftrightarrow> False"
      using False assms(2,3) st by (cases "replicate n ''..'' @ rt")
        (auto simp: within_def filepath_Rel_def clean_path_def HasPrefix_def prefix_def)
    with assms(1) show False by simp
  qed
  with c show ?thesis by simp
qed simp

lemma accepted_links:
  "accepted (concat (map (link_finding qt root rr) es)) \<longleftrightarrow>
     (\<forall>rel target st. (rel, LinkN target st) \<in> set es \<longrightarrow> (\<exists>t. target = Some t \<and> within rr t))"
proof -
  have "accepted (link_finding qt root rr e) \<longleftrightarrow>
      (\<forall>rel target st. e = (rel, LinkN target st) \<longrightarrow> (\<exists>t. target = Some t \<and> within rr t))" for e
    by (cases e; cases "snd e") (auto simp: link_finding_def accepts warning_codes_are split: option.splits)
  then show ?thesis unfolding accepted_concat_map by blast
qed

text \<open>What the layout allows of one file of a package of a given kind.\<close>

definition allowed_file :: "layoutFile \<Rightarrow> string list \<Rightarrow> string \<Rightarrow> treeFile \<Rightarrow> bool" where
  "allowed_file lay classes binary f \<longleftrightarrow>
     tf_rel f = lf_Manifest lay \<or>
     ((\<forall>g \<in> set (lf_Forbidden lay). \<forall>segs. suffix segs (split_on (CHR ''/'') (tf_rel f)) \<and> segs \<noteq> [] \<longrightarrow>
        \<not> matchSegments (split_on (CHR ''/'') g) segs) \<and>
      ((\<exists>g \<in> set (lf_Ignored lay). globMatch g (tf_rel f)) \<or>
       (\<exists>class \<in> set classes. class_has lay binary (tf_rel f) class \<and>
          (class = ''images'' \<longrightarrow>
             ToLower (path_Ext (tf_rel f)) \<in> set (class_extensions lay ''images'') \<and> tf_size f \<le> lf_MaxImageBytes lay))))"

lemma allowed_not_forbidden:
  "allowed_file lay classes binary f \<Longrightarrow> tf_rel f \<noteq> lf_Manifest lay \<Longrightarrow> g \<in> set (lf_Forbidden lay) \<Longrightarrow>
   suffix segs (split_on (CHR ''/'') (tf_rel f)) \<Longrightarrow> segs \<noteq> [] \<Longrightarrow> \<not> matchSegments (split_on (CHR ''/'') g) segs"
  by (auto simp: allowed_file_def)

lemma matchAny_None:
  assumes "'''' \<notin> set globs"
  shows "matchAny globs rel deep = '''' \<longleftrightarrow>
    (\<forall>g \<in> set globs. \<not> globMatch g rel \<and>
       (deep \<longrightarrow> (\<forall>i \<in> {1..<length (split_on (CHR ''/'') rel)}. \<not> globMatch g (join_on (CHR ''/'') (drop i (split_on (CHR ''/'') rel))))))"
  using assms
  by (auto simp: matchAny_def Let_def list_ex_iff find_None_iff split: option.split dest!: find_member)

lemma suffix_segments:
  assumes "suffix segs (split_on d rel)" "segs \<noteq> []"
  shows "\<exists>i < length (split_on d rel). segs = drop i (split_on d rel) \<and> split_on d (join_on d segs) = segs"
proof -
  obtain pre where p: "split_on d rel = pre @ segs" using assms(1) by (auto simp: suffix_def)
  then have "length pre < length (split_on d rel)" "segs = drop (length pre) (split_on d rel)" using assms(2) by auto
  moreover have "split_on d (join_on d segs) = segs"
    using split_on_free [of _ d rel] p assms(2) by (intro split_join) auto
  ultimately show ?thesis by blast
qed

lemma never_forbidden:
  assumes "matchAny globs rel True = ''''" "'''' \<notin> set globs" "g \<in> set globs"
    and "suffix segs (split_on (CHR ''/'') rel)" "segs \<noteq> []"
  shows "\<not> matchSegments (split_on (CHR ''/'') g) segs"
proof -
  obtain i where i: "i < length (split_on (CHR ''/'') rel)" "segs = drop i (split_on (CHR ''/'') rel)"
    "split_on (CHR ''/'') (join_on (CHR ''/'') segs) = segs" using suffix_segments [OF assms(4,5)] by blast
  have "\<not> globMatch g (join_on (CHR ''/'') segs)"
    using assms(1-3) i(1,2) by (cases "i = 0") (auto simp: matchAny_None join_split)
  with i(3) show ?thesis by (simp add: globMatch_def)
qed

lemma accepted_file:
  assumes "accepted (file_finding qt lay kind classes binary f)" "'''' \<notin> set (lf_Forbidden lay)" "'''' \<notin> set (lf_Ignored lay)"
  shows "allowed_file lay classes binary f"
proof (cases "tf_rel f = lf_Manifest lay")
  case False
  with assms(1) have nf: "matchAny (lf_Forbidden lay) (tf_rel f) True = ''''"
    by (auto simp: file_finding_def Let_def accepts warning_codes_are split: if_splits)
  show ?thesis
  proof (cases "matchAny (lf_Ignored lay) (tf_rel f) False = ''''")
    case True
    let ?c = "classify lay classes (tf_rel f) binary"
    have c: "?c \<noteq> ''''" "?c = ''images'' \<longrightarrow> ToLower (path_Ext (tf_rel f)) \<in> set (class_extensions lay ''images'') \<and> tf_size f \<le> lf_MaxImageBytes lay"
      using assms(1) False nf True by (auto simp: file_finding_def Let_def accepts warning_codes_are split: if_splits)
    then have "?c \<in> set classes \<and> class_has lay binary (tf_rel f) ?c"
      using find_member [of "class_has lay binary (tf_rel f)" classes] by (simp add: classify_def split: option.splits)
    with c never_forbidden [OF nf assms(2)] show ?thesis unfolding allowed_file_def by blast
  next
    case ignored: False
    then have "\<exists>g \<in> set (lf_Ignored lay). globMatch g (tf_rel f)" using matchAny_None [OF assms(3)] by auto
    with never_forbidden [OF nf assms(2)] show ?thesis unfolding allowed_file_def by blast
  qed
qed (simp add: allowed_file_def)

lemma accepted_package:
  assumes "accepted (package_findings qt layoutSpec schema sroot files m doc)"
    and "(classes, required) = (case map_of (lf_Kinds layoutSpec) (inferKind m files) of None \<Rightarrow> ([], []) | Some s \<Rightarrow> s)"
    and "binary = (if inferKind m files = KindProcess then path_Base (TrimSpace (mf_Binary m)) else '''')"
  shows "list_all (allowed_file layoutSpec classes binary) files \<and> set required \<subseteq> tf_rel ` set files \<and>
    int (length files) \<le> 5000 \<and> sum_list (map tf_size files) \<le> 268435456"
proof -
  have ne: "'''' \<notin> set (lf_Forbidden layoutSpec)" "'''' \<notin> set (lf_Ignored layoutSpec)" by (simp_all add: layoutSpec_def)
  have lim: "lf_MaxFiles layoutSpec = 5000" "lf_MaxBytes layoutSpec = 268435456" by (simp_all add: layoutSpec_def)
  have "\<forall>f \<in> set files. accepted (file_finding qt layoutSpec (inferKind m files) classes binary f)"
    "\<forall>req \<in> set required. hasFile files req"
    "int (length files) \<le> 5000" "sum_list (map tf_size files) \<le> 268435456"
    using assms by (auto simp: package_findings_def Let_def accepts warning_codes_are lim split: prod.splits if_splits)
  then show ?thesis using accepted_file ne by (auto simp: list_all_iff hasFile_def list_ex_iff)
qed

section \<open>Properties\<close>

text \<open>A glob matches a path exactly when the segments of the path can be cut into groups, one for each element of the
  glob in order: any number of segments for a double star, and exactly one, matched by \<^verbatim>\<open>path.Match\<close>, for every
  other element. So a star never crosses a slash.\<close>

theorem glob_is_segmentwise:
  "globMatch pattern rel \<longleftrightarrow>
     (\<exists>groups. concat groups = split_on (CHR ''/'') rel \<and> glob_groups (split_on (CHR ''/'') pattern) groups)"
  by (simp add: globMatch_def matchSegments_groups)


definition demo_tree :: fsnode where
  "demo_tree = DirN 0x1ED
     [(''latest'', LinkN (Some (True, [''p'', ''ui''])) None),
      (''plugin.json'', FileN 2 0x1A4 ''{}''),
      (''ui'', DirN 0x1ED [(''index.html'', FileN 5 0x1A4 ''hello'')])]"

lemma demo_tree_verified:
  "verifyTree (\<lambda>s. s) layoutSpec [] ''/p'' (Inr (True, [''p''])) demo_tree demo_tree (Some (demo_plugin, JNull)) ModePackage = Inr []"
  by code_simp

lemma demo_tree_files:
  "map tf_rel (regular_files (walk (\<lambda>_. False) '''' demo_tree)) = [''plugin.json'', ''ui/index.html'']"
  by code_simp


end
