(* ===== verification/Contract.thy ===== *)
theory Contract
  imports Layout "HOL-Library.Multiset"
begin

text \<open>
  The gate that the author's tool, the store and every host call, \<^verbatim>\<open>src/v2/plugin/contract/contract.go\<close>: \<open>Verify\<close> for
  the bytes of a manifest and \<open>VerifyDir\<close> for a directory. The libraries are the fields of \<open>tools\<close>: what \<^verbatim>\<open>%q\<close>
  prints, decoding to a document, the schema with its validator, \<^verbatim>\<open>json.Unmarshal\<close> into a manifest, and the
  semantic versions of Masterminds with their comparison.
\<close>

record 'v tools =
  tl_quote :: "string \<Rightarrow> string"
  tl_decode :: "bytes \<Rightarrow> string + json"
  tl_schema :: jobject
  tl_validate :: "json \<Rightarrow> (string + schema_error) option"
  tl_unmarshal :: "bytes \<Rightarrow> string + Manifest"
  tl_version :: "string \<Rightarrow> 'v option"
  tl_compare :: "'v \<Rightarrow> 'v \<Rightarrow> int"

record Options =
  op_Host :: string
  op_Mode :: Mode
  op_CoreVersion :: string
  op_MinPluginVersion :: string
  op_HostReservations :: "string list"
  op_MinAccepted :: int

definition ContractV1 :: int where "ContractV1 = 1"
definition ContractV2 :: int where "ContractV2 = int ProtocolMajor"

text \<open>The decoder keeps numbers as their text, so the \<^verbatim>\<open>float64\<close> case of \<^verbatim>\<open>documentContract\<close> is never taken.\<close>

definition documentContract :: "json \<Rightarrow> int" where
  "documentContract doc =
     (case doc of
        JObject obj \<Rightarrow>
          (case map_of obj ''contract'' of
             Some (JNumber n) \<Rightarrow> (case Atoi n of Some i \<Rightarrow> if 0 < i then i else ContractV1 | None \<Rightarrow> ContractV1)
           | _ \<Rightarrow> ContractV1)
      | _ \<Rightarrow> ContractV1)"

record Report =
  rp_Contract :: int
  rp_Root :: string
  rp_OK :: bool
  rp_Manifest :: "Manifest option"
  rp_Diagnostics :: "Diagnostic list"

definition hasErrors :: "Diagnostic list \<Rightarrow> bool" where
  "hasErrors ds = (FirstError ds \<noteq> None)"

definition finish :: "string \<Rightarrow> Manifest option \<Rightarrow> Diagnostic list \<Rightarrow> Report" where
  "finish root m ds =
     \<lparr>rp_Contract = ContractV2, rp_Root = root, rp_OK = (\<not> hasErrors (SortDiagnostics ds)), rp_Manifest = m,
      rp_Diagnostics = SortDiagnostics ds\<rparr>"

section \<open>The host gate\<close>

definition hostName :: "string \<Rightarrow> string" where
  "hostName host = (let h = TrimSpace host in if h \<noteq> '''' then h else ''this host'')"

definition slashed :: "string \<Rightarrow> string" where
  \<comment> \<open>\<^verbatim>\<open>"/" + strings.Trim(strings.TrimSpace(s), "/")\<close>\<close>
  "slashed s = CHR ''/'' # Trim (TrimSpace s) ''/''"

definition reserves :: "string \<Rightarrow> string \<Rightarrow> bool" where
  "reserves alias reservation =
     (let r = slashed reservation in r \<noteq> ''/'' \<and> (alias = r \<or> HasPrefix alias (r @ ''/'')))"

definition alias_gate :: "(string \<Rightarrow> string) \<Rightarrow> Options \<Rightarrow> nat \<Rightarrow> string \<Rightarrow> Diagnostic list" where
  "alias_gate qt opts i raw =
     (case List.find (reserves (slashed raw)) (op_HostReservations opts) of
        None \<Rightarrow> []
      | Some reservation \<Rightarrow>
          report qt ''BDP6011'' (at_index ''aliases'' i) [FStr raw, FStr (hostName (op_Host opts)), FStr (slashed reservation)])"

definition hostGate :: "'v tools \<Rightarrow> Manifest \<Rightarrow> Options \<Rightarrow> Diagnostic list" where
  "hostGate tk m opts =
     (let qt = tl_quote tk; host = ToLower (TrimSpace (op_Host opts)); core = TrimSpace (op_CoreVersion opts);
          floor = TrimSpace (op_MinPluginVersion opts) in
      (if host \<noteq> '''' \<and> \<not> Supports m host then report qt ''BDP6001'' ''targets'' [FStr (mf_ID m), FStr host] else []) @
      (if core \<noteq> '''' \<and> TrimSpace (mf_MinCoreVersion m) \<noteq> '''' then
         (case tl_version tk core of
            None \<Rightarrow> report qt ''BDP6003'' '''' [FStr ''coreVersion'', FStr core]
          | Some have' \<Rightarrow>
              (case tl_version tk (TrimSpace (mf_MinCoreVersion m)) of
                 None \<Rightarrow> report qt ''BDP6003'' ''minCoreVersion'' [FStr ''minCoreVersion'', FStr (mf_MinCoreVersion m)]
               | Some need \<Rightarrow>
                   if 0 < tl_compare tk need have' then report qt ''BDP6002'' ''minCoreVersion'' [FStr (mf_MinCoreVersion m), FStr core]
                   else []))
       else []) @
      for_index (alias_gate qt opts) (mf_Aliases m) @
      (if floor \<noteq> '''' \<and> TrimSpace (mf_Version m) \<noteq> '''' then
         (case tl_version tk floor of
            None \<Rightarrow> report qt ''BDP6003'' '''' [FStr ''minPluginVersion'', FStr floor]
          | Some least \<Rightarrow>
              (case tl_version tk (TrimSpace (mf_Version m)) of
                 None \<Rightarrow> report qt ''BDP6003'' ''version'' [FStr ''version'', FStr (mf_Version m)]
               | Some have' \<Rightarrow>
                   if tl_compare tk have' least < 0 then report qt ''BDP6004'' ''version'' [FStr (mf_Version m), FStr floor]
                   else []))
       else []))"

section \<open>Verification\<close>

definition deprecations :: "(string \<Rightarrow> string) \<Rightarrow> json \<Rightarrow> Diagnostic list" where
  "deprecations qt doc =
     (case doc of
        JObject obj \<Rightarrow>
          (if obj_string obj ''publisher'' \<noteq> None then report qt ''BDP5001'' ''publisher'' [] else []) @
          (if map_of obj ''homepage'' \<noteq> None then report qt ''BDP5004'' ''homepage'' [] else [])
      | _ \<Rightarrow> [])"

text \<open>The findings, and the manifest with its document when it decoded.\<close>

definition verifyManifest :: "'v tools \<Rightarrow> bytes \<Rightarrow> Options \<Rightarrow> Diagnostic list \<times> (Manifest \<times> json) option" where
  "verifyManifest tk raw opts =
     (let qt = tl_quote tk in
      case tl_decode tk raw of
        Inl err \<Rightarrow> (report qt ''BDP1001'' '''' [FStr err], None)
      | Inr doc \<Rightarrow>
          if 0 < op_MinAccepted opts \<and> documentContract doc < op_MinAccepted opts then
            (report qt ''BDP1007'' ''contract'' [FInt (documentContract doc), FInt (op_MinAccepted opts)], None)
          else
            (let ds = schemaDiagnostics qt (tl_validate tk) (tl_schema tk) doc in
             case tl_unmarshal tk raw of
               Inl err \<Rightarrow> (if hasErrors ds then ds else ds @ report qt ''BDP1002'' '''' [FStr err], None)
             | Inr m \<Rightarrow> (ds @ Diagnostics qt m True @ deprecations qt doc @ hostGate tk m opts, Some (m, doc))))"

definition Verify :: "'v tools \<Rightarrow> bytes \<Rightarrow> Options \<Rightarrow> Report" where
  "Verify tk raw opts =
     (let (ds, decoded) = verifyManifest tk raw opts in finish '''' (map_option fst decoded) ds)"

text \<open>\<open>node\<close> is what \<^verbatim>\<open>Lstat\<close> finds at the root.\<close>

definition VerifyDir :: "'v tools \<Rightarrow> string \<Rightarrow> string + fpath \<Rightarrow> fsnode \<Rightarrow> Options \<Rightarrow> string + Report" where
  "VerifyDir tk root resolved node opts =
     (let mode = (if op_Mode opts = '''' then ModePackage else op_Mode opts); qt = tl_quote tk; file = lf_Manifest layoutSpec in
      case follow node of
        None \<Rightarrow> Inl ''no such file or directory''
      | Some (BadN err) \<Rightarrow> Inl err
      | Some (DirN bits es) \<Rightarrow>
          (let dir = DirN bits es;
               tree = (\<lambda>ds decoded.
                 case verifyTree qt layoutSpec (tl_schema tk) root resolved node dir decoded mode of
                   Inl err \<Rightarrow> Inl err
                 | Inr found \<Rightarrow> Inr (finish root (map_option fst decoded) (ds @ found))) in
           case dir_read dir file of
             ReadError err \<Rightarrow> Inl err
           | NotExist \<Rightarrow> tree (report qt ''BDP3003'' file [FStr file]) None
           | Content raw \<Rightarrow> (let (ds, decoded) = verifyManifest tk raw (opts\<lparr>op_Mode := mode\<rparr>) in tree ds decoded))
      | Some _ \<Rightarrow> Inl (''contract: '' @ root @ '' is not a directory''))"

section \<open>Acceptance\<close>

lemma accepted_sort: "accepted (SortDiagnostics ds) \<longleftrightarrow> accepted ds"
  by (simp add: accepted_def FirstError_None SortDiagnostics_def)

lemma finish_fields [simp]:
  "rp_OK (finish root m ds) \<longleftrightarrow> accepted ds" "rp_Manifest (finish root m ds) = m"
  "rp_Diagnostics (finish root m ds) = SortDiagnostics ds"
  by (simp_all add: finish_def hasErrors_def accepted_sort [unfolded accepted_def] accepted_def)

lemma table_distinct: "distinct (map fst diagnosticTable)"
  by code_simp

lemma accepted_warning:
  assumes "c \<in> set warning_codes"
  shows "accepted (report qt c path args)"
proof -
  obtain sev msg where "(c, sev, msg) \<in> set diagnosticTable" "sev \<noteq> SeverityError"
    using assms by (auto simp: warning_codes_def)
  then have "map_of diagnosticTable c = Some (sev, msg)" using table_distinct by (intro map_of_is_SomeI)
  with \<open>sev \<noteq> SeverityError\<close> show ?thesis by (simp add: accepted_def FirstError_None report_def NewDiagnostic_def)
qed

lemma unknown_accepted: "accepted (unknownProperties qt root schema doc path)"
proof (induction qt root schema doc path rule: unknownProperties.induct)
  case (1 qt root schema doc path)
  show ?case
    unfolding unknownProperties.simps [of qt root schema doc path] Let_def
    using "1.IH" by (auto simp: accepts warning_codes_are accepted_warning split: json.splits option.splits)
qed

lemma deprecations_accepted: "accepted (deprecations qt doc)"
  by (auto simp: deprecations_def accepts warning_codes_are accepted_warning split: json.splits)

text \<open>A validation error says something: wherever the library reports missing properties it names one.\<close>

fun says :: "schema_error \<Rightarrow> bool" where
  "says (SchemaError loc kind causes) =
     (case kind of KRequired missing \<Rightarrow> missing \<noteq> [] | KOther _ \<Rightarrow> list_all says causes | _ \<Rightarrow> True)"

lemma says_refused: "says e \<Longrightarrow> \<not> accepted (flattenSchemaError qt e)"
proof (induction e)
  case (SchemaError loc kind causes)
  show ?case
  proof (cases kind)
    case (KRequired missing)
    with SchemaError.prems show ?thesis by (cases missing) (auto simp: Let_def accepts warning_codes_are)
  next
    case (KOther msg)
    with SchemaError show ?thesis by (cases causes) (auto simp: Let_def accepts warning_codes_are)
  qed (auto simp: Let_def accepts warning_codes_are)
qed

lemma schema_accepted:
  assumes "\<And>ve. validate doc = Some (Inr ve) \<Longrightarrow> says ve"
  shows "accepted (schemaDiagnostics qt validate root doc) \<longleftrightarrow> validate doc = None"
  using assms says_refused
  by (auto simp: schemaDiagnostics_def accepts unknown_accepted warning_codes_are split: option.splits sum.splits)

text \<open>What the gate of a host demands of a manifest.\<close>

definition gate_open :: "'v tools \<Rightarrow> Manifest \<Rightarrow> Options \<Rightarrow> bool" where
  "gate_open tk m opts \<longleftrightarrow>
     (TrimSpace (op_Host opts) \<noteq> '''' \<longrightarrow> Supports m (ToLower (TrimSpace (op_Host opts)))) \<and>
     (TrimSpace (op_CoreVersion opts) \<noteq> '''' \<and> TrimSpace (mf_MinCoreVersion m) \<noteq> '''' \<longrightarrow>
        (\<exists>need core. tl_version tk (TrimSpace (mf_MinCoreVersion m)) = Some need \<and>
           tl_version tk (TrimSpace (op_CoreVersion opts)) = Some core \<and> tl_compare tk need core \<le> 0)) \<and>
     (\<forall>alias \<in> set (mf_Aliases m). \<forall>r \<in> set (op_HostReservations opts). \<not> reserves (slashed alias) r) \<and>
     (TrimSpace (op_MinPluginVersion opts) \<noteq> '''' \<and> TrimSpace (mf_Version m) \<noteq> '''' \<longrightarrow>
        (\<exists>least v. tl_version tk (TrimSpace (op_MinPluginVersion opts)) = Some least \<and>
           tl_version tk (TrimSpace (mf_Version m)) = Some v \<and> 0 \<le> tl_compare tk v least))"

lemma TrimSpace_lower: "ToLower s = '''' \<longleftrightarrow> s = ''''"
  by (simp add: ToLower_def)

lemma accepted_aliases:
  "accepted (for_index (alias_gate qt opts) as) \<longleftrightarrow>
     (\<forall>alias \<in> set as. \<forall>r \<in> set (op_HostReservations opts). \<not> reserves (slashed alias) r)"
proof -
  have "accepted (alias_gate qt opts i a) \<longleftrightarrow> (\<forall>r \<in> set (op_HostReservations opts). \<not> reserves (slashed a) r)" for i a
    by (auto simp: alias_gate_def accepts warning_codes_are find_None_iff split: option.splits dest!: find_member)
  then show ?thesis by (simp add: accepted_for_index all_set_conv_all_nth)
qed

lemma accepted_versions:
  "accepted (case v1 of None \<Rightarrow> report qt ''BDP6003'' p1 a1
     | Some x \<Rightarrow> (case v2 of None \<Rightarrow> report qt ''BDP6003'' p2 a2 | Some y \<Rightarrow> if refuse x y then report qt c p3 a3 else [])) \<longleftrightarrow>
     (\<exists>x y. v1 = Some x \<and> v2 = Some y \<and> \<not> refuse x y)" if "c \<notin> set warning_codes"
  using that by (cases v1; cases v2) (auto simp: accepts warning_codes_are)

lemma hostGate_accepted: "accepted (hostGate tk m opts) \<longleftrightarrow> gate_open tk m opts"
proof -
  have refused: "''BDP6001'' \<notin> set warning_codes" "''BDP6002'' \<notin> set warning_codes" "''BDP6004'' \<notin> set warning_codes"
    by (simp_all add: warning_codes_are)
  have host: "accepted (if ToLower (TrimSpace (op_Host opts)) \<noteq> '''' \<and> \<not> Supports m (ToLower (TrimSpace (op_Host opts)))
      then report qt ''BDP6001'' p a else []) \<longleftrightarrow> (TrimSpace (op_Host opts) \<noteq> '''' \<longrightarrow> Supports m (ToLower (TrimSpace (op_Host opts))))" for qt p a
    using refused by (simp add: accepts TrimSpace_lower) blast
  show ?thesis
    unfolding hostGate_def Let_def accepted_append accepted_aliases host
    unfolding accepted_if [where y = "[]"] accepted_versions [OF refused(2)] accepted_versions [OF refused(3)] gate_open_def
    by (simp add: accepted_Nil not_less) blast
qed

lemma verifyManifest_mode: "verifyManifest tk raw (opts\<lparr>op_Mode := x\<rparr>) = verifyManifest tk raw opts"
proof (cases opts)
  case (fields host mode core least reservations floor)
  show ?thesis unfolding fields verifyManifest_def hostGate_def alias_gate_def [abs_def] Options.simps by (rule refl)
qed

lemma verifyManifest_accepted:
  assumes "\<And>doc ve. tl_validate tk doc = Some (Inr ve) \<Longrightarrow> says ve"
  shows "accepted (fst (verifyManifest tk raw opts)) \<longleftrightarrow>
    (\<exists>doc m. tl_decode tk raw = Inr doc \<and> (0 < op_MinAccepted opts \<longrightarrow> op_MinAccepted opts \<le> documentContract doc) \<and>
       tl_validate tk doc = None \<and> tl_unmarshal tk raw = Inr m \<and> Validate (tl_quote tk) m = None \<and> gate_open tk m opts \<and>
       snd (verifyManifest tk raw opts) = Some (m, doc))"
proof (cases "tl_decode tk raw")
  case (Inl err)
  then show ?thesis by (simp add: verifyManifest_def accepts warning_codes_are)
next
  case doc: (Inr doc)
  let ?ds = "schemaDiagnostics (tl_quote tk) (tl_validate tk) (tl_schema tk) doc"
  have sch: "accepted ?ds \<longleftrightarrow> tl_validate tk doc = None" using assms by (rule schema_accepted)
  show ?thesis
  proof (cases "0 < op_MinAccepted opts \<and> documentContract doc < op_MinAccepted opts")
    case True
    with doc show ?thesis by (auto simp: verifyManifest_def accepts warning_codes_are)
  next
    case floor: False
    show ?thesis
    proof (cases "tl_unmarshal tk raw")
      case (Inl err)
      then show ?thesis using doc floor
        by (auto simp: verifyManifest_def Let_def accepts warning_codes_are hasErrors_def accepted_def [symmetric])
    next
      case (Inr m)
      then have "verifyManifest tk raw opts = (?ds @ Diagnostics (tl_quote tk) m True @ deprecations (tl_quote tk) doc @ hostGate tk m opts, Some (m, doc))"
        using doc floor by (auto simp: verifyManifest_def Let_def)
      with Inr doc floor show ?thesis
        by (auto simp: accepted_append sch deprecations_accepted hostGate_accepted Validate_accepted)
    qed
  qed
qed

lemma Verify_fields:
  "rp_OK (Verify tk raw opts) \<longleftrightarrow> accepted (fst (verifyManifest tk raw opts))"
  "rp_Manifest (Verify tk raw opts) = map_option fst (snd (verifyManifest tk raw opts))"
  by (simp_all add: Verify_def split_beta)

section \<open>Directories\<close>

lemma walk_top: "(n, x) \<in> set es \<Longrightarrow> (n, x) \<in> set (walk_entries (\<lambda>_. False) '''' es)"
  by (induction es) (auto simp: path_join_def split: fsnode.splits)

lemma VerifyDir_manifest:
  assumes "VerifyDir tk root resolved node opts = Inr r" and "rp_OK r"
  shows "\<exists>bits es raw found. follow node = Some (DirN bits es) \<and> dir_read (DirN bits es) (lf_Manifest layoutSpec) = Content raw \<and>
    rp_OK (Verify tk raw opts) \<and> rp_Manifest r = rp_Manifest (Verify tk raw opts) \<and>
    verifyTree (tl_quote tk) layoutSpec (tl_schema tk) root resolved node (DirN bits es) (snd (verifyManifest tk raw opts))
      (if op_Mode opts = '''' then ModePackage else op_Mode opts) = Inr found \<and> accepted found"
proof (cases "follow node")
  case (Some dir)
  then show ?thesis
  proof (cases dir)
    case (DirN bits es)
    with assms Some show ?thesis
      by (auto simp: VerifyDir_def Let_def split_beta verifyManifest_mode Verify_fields accepted_append accepts warning_codes_are
          split: read_result.splits sum.splits)
  qed (use assms Some in \<open>auto simp: VerifyDir_def Let_def\<close>)
qed (use assms in \<open>auto simp: VerifyDir_def Let_def\<close>)

section \<open>Properties\<close>

text \<open>C22. The gate accepts exactly what the contract says: the bytes are JSON, the document's contract is not below the
  floor, the schema validator has no complaint, the document decodes into a manifest that \<^verbatim>\<open>Validate\<close> accepts, and
  the host's gate is open for it: the host is one of its targets, its \<^verbatim>\<open>minCoreVersion\<close> is a version not above the
  host's, no alias of it claims a route the host has reserved, and its version is not below the host's minimum.
  Unknown properties and deprecated spellings never refuse a manifest. The validator is taken to name a property
  when it reports missing ones.\<close>

theorem verify_ok_exact:
  assumes "\<And>doc ve. tl_validate tk doc = Some (Inr ve) \<Longrightarrow> says ve"
  shows "rp_OK (Verify tk raw opts) \<longleftrightarrow>
    (\<exists>doc m. tl_decode tk raw = Inr doc \<and> (0 < op_MinAccepted opts \<longrightarrow> op_MinAccepted opts \<le> documentContract doc) \<and>
       tl_validate tk doc = None \<and> tl_unmarshal tk raw = Inr m \<and> Validate (tl_quote tk) m = None \<and> gate_open tk m opts \<and>
       rp_Manifest (Verify tk raw opts) = Some m)"
proof -
  have "accepted (fst (verifyManifest tk raw opts)) \<longleftrightarrow>
    (\<exists>doc m. tl_decode tk raw = Inr doc \<and> (0 < op_MinAccepted opts \<longrightarrow> op_MinAccepted opts \<le> documentContract doc) \<and>
       tl_validate tk doc = None \<and> tl_unmarshal tk raw = Inr m \<and> Validate (tl_quote tk) m = None \<and> gate_open tk m opts \<and>
       snd (verifyManifest tk raw opts) = Some (m, doc))" using assms by (rule verifyManifest_accepted)
  then show ?thesis unfolding Verify_fields by (auto simp: verifyManifest_def Let_def split: sum.splits)
qed

text \<open>The reports of two bindings agree when their findings do: the order in which findings are added does not show.\<close>

theorem report_is_canonical:
  assumes "mset ds = mset ds'"
  shows "rp_Diagnostics (finish root m ds) = rp_Diagnostics (finish root m ds') \<and> rp_OK (finish root m ds) = rp_OK (finish root m ds')"
proof -
  have "inj (\<lambda>d :: Diagnostic. (d_Path d, d_Code d, d_Severity d, d_Message d))" by (auto intro!: injI Diagnostic.equality)
  then have "SortDiagnostics ds = SortDiagnostics ds'"
    unfolding SortDiagnostics_def using assms
    by (intro sort_key_inj_key_eq) (auto intro: inj_on_subset)
  moreover have "accepted ds = accepted ds'" using mset_eq_setD [OF assms] by (simp add: accepted_def FirstError_None)
  ultimately show ?thesis by simp
qed

text \<open>A linked root is not judged. \<^verbatim>\<open>VerifyDir\<close> follows a root that is a symbolic link when it reads the manifest, but
  the walk does not: for a package whose kind is builtin, the directory behind the link is accepted whenever its
  manifest is, whatever else is in it, a private key for instance, with which the directory itself is refused.\<close>

theorem linked_root_is_not_judged:
  assumes "dir_read (DirN bits es) ''plugin.json'' = Content raw" and "rp_OK (Verify tk raw opts)"
    and "rp_Manifest (Verify tk raw opts) = Some m" and "ToLower (TrimSpace (mf_Kind m)) = KindBuiltin"
    and "op_Mode opts = ModePackage" and "(''id_rsa'', FileN sz mode body) \<in> set es"
  shows "(\<exists>r. VerifyDir tk root (Inr rr) (LinkN t (Some (DirN bits es))) opts = Inr r \<and> rp_OK r) \<and>
    (\<forall>r. VerifyDir tk root (Inr rr) (DirN bits es) opts = Inr r \<longrightarrow> \<not> rp_OK r)"
proof -
  obtain doc where doc: "snd (verifyManifest tk raw opts) = Some (m, doc)" using assms(3) by (auto simp: Verify_fields)
  have pj: "lf_Manifest layoutSpec = ''plugin.json''" by (simp add: layoutSpec_def)
  have kind: "inferKind m files = ''builtin''" for files using assms(4) by (simp add: inferKind_def KindBuiltin_def)
  have mode: "op_Mode opts \<noteq> ''''" "ModePackage \<noteq> ModeSource" using assms(5) by (simp_all add: ModePackage_def ModeSource_def)
  have refs: "verifyRefs qt schema sroot doc ''builtin'' = []" for qt schema sroot
    by (auto simp: verifyRefs_def Let_def KindProcess_def)
  have "package_findings qt layoutSpec schema sroot [] m doc = []" for qt schema sroot
    unfolding package_findings_def kind Let_def by (simp add: refs layoutSpec_def)
  then have "VerifyDir tk root (Inr rr) (LinkN t (Some (DirN bits es))) opts = Inr (finish root (Some m) (fst (verifyManifest tk raw opts)))"
    using assms(1) doc mode
    by (simp add: VerifyDir_def Let_def pj assms(5) verifyManifest_mode split_beta verifyTree_def walk_error_def regular_files_def)
  moreover have "accepted (fst (verifyManifest tk raw opts))" using assms(2) by (simp add: Verify_fields)
  moreover have "\<not> rp_OK r" if r: "VerifyDir tk root (Inr rr) (DirN bits es) opts = Inr r" for r
  proof
    assume "rp_OK r"
    let ?files = "regular_files (walk (\<lambda>_. False) '''' (DirN bits es))" and ?f = "\<lparr>tf_rel = ''id_rsa'', tf_size = sz, tf_mode = mode\<rparr>"
    from VerifyDir_manifest [OF r \<open>rp_OK r\<close>] assms(1,5) mode doc obtain found where
      "verifyTree (tl_quote tk) layoutSpec (tl_schema tk) root (Inr rr) (DirN bits es) (DirN bits es) (Some (m, doc)) ModePackage = Inr found"
      "accepted found" by (auto simp: pj)
    then have "accepted (package_findings (tl_quote tk) layoutSpec (tl_schema tk) (DirN bits es) ?files m doc)"
      using mode by (auto simp: verifyTree_def Let_def accepted_append split: option.splits)
    then have "list_all (allowed_file layoutSpec (fst (the (map_of (lf_Kinds layoutSpec) ''builtin''))) '''') ?files"
      using accepted_package [of "tl_quote tk" "tl_schema tk" "DirN bits es" ?files m doc "fst (the (map_of (lf_Kinds layoutSpec) ''builtin''))" "[]" "''''"]
      unfolding kind by (simp add: layoutSpec_def KindProcess_def)
    moreover have "?f \<in> set ?files" using walk_top [OF assms(6)] by (force simp: regular_files_def)
    ultimately have "allowed_file layoutSpec (fst (the (map_of (lf_Kinds layoutSpec) ''builtin''))) '''' ?f" by (simp add: list_all_iff)
    moreover have "matchSegments (split_on (CHR ''/'') ''id_rsa*'') [''id_rsa'']" "''id_rsa*'' \<in> set (lf_Forbidden layoutSpec)"
      "split_on (CHR ''/'') ''id_rsa'' = [''id_rsa'']" by code_simp+
    ultimately show False
      using allowed_not_forbidden [of layoutSpec _ "''''" ?f "''id_rsa*''" "[''id_rsa'']"] by (simp add: pj)
  qed
  ultimately show ?thesis by auto
qed


section \<open>A verifier\<close>

definition demo_tools :: "nat tools" where
  "demo_tools =
     \<lparr>tl_quote = (\<lambda>s. s), tl_decode = (\<lambda>raw. if raw = ''{}'' then Inr (JObject []) else Inl ''invalid''), tl_schema = [],
      tl_validate = (\<lambda>_. None), tl_unmarshal = (\<lambda>_. Inr (demo_plugin\<lparr>mf_Kind := ''builtin''\<rparr>)),
      tl_version = (\<lambda>s. Some (length s)), tl_compare = (\<lambda>a b. int a - int b)\<rparr>"

definition demo_options :: Options where
  "demo_options =
     \<lparr>op_Host = ''gateway'', op_Mode = ModePackage, op_CoreVersion = ''1.0.0'', op_MinPluginVersion = '''',
      op_HostReservations = [''/admin''], op_MinAccepted = 0\<rparr>"

lemma demo_verified:
  "rp_OK (Verify demo_tools ''{}'' demo_options)"
  "map_option mf_Kind (rp_Manifest (Verify demo_tools ''{}'' demo_options)) = Some ''builtin''"
  by code_simp+

theorem verify_ok_exact_witness:
  "\<exists>m. tl_unmarshal demo_tools ''{}'' = Inr m \<and> Validate (tl_quote demo_tools) m = None \<and> gate_open demo_tools m demo_options"
proof -
  have none: "tl_validate demo_tools doc = None" for doc by (simp add: demo_tools_def)
  show ?thesis using demo_verified(1) verify_ok_exact [of demo_tools "''{}''" demo_options] by (auto simp: none)
qed

theorem report_is_canonical_witness:
  "rp_Diagnostics (finish '''' None (report id ''BDP3003'' ''b'' [] @ report id ''BDP3003'' ''a'' [])) =
   rp_Diagnostics (finish '''' None (report id ''BDP3003'' ''a'' [] @ report id ''BDP3003'' ''b'' []))"
proof -
  have "mset (report id ''BDP3003'' ''b'' [] @ report id ''BDP3003'' ''a'' []) = mset (report id ''BDP3003'' ''a'' [] @ report id ''BDP3003'' ''b'' [])"
    by simp
  from report_is_canonical [OF this] show ?thesis by blast
qed

definition demo_dir :: "(string \<times> fsnode) list" where
  "demo_dir = [(''id_rsa'', FileN 3 0x180 ''key''), (''plugin.json'', FileN 2 0x1A4 ''{}'')]"

theorem linked_root_is_not_judged_witness:
  "\<exists>r. VerifyDir demo_tools ''/l'' (Inr (True, [''p''])) (LinkN None (Some (DirN 0x1ED demo_dir))) demo_options = Inr r \<and> rp_OK r"
proof -
  have rd: "dir_read (DirN 0x1ED demo_dir) ''plugin.json'' = Content ''{}''" "(''id_rsa'', FileN 3 0x180 ''key'') \<in> set demo_dir"
    by (simp_all add: demo_dir_def dir_read_def dir_entry_def)
  obtain m where m: "rp_Manifest (Verify demo_tools ''{}'' demo_options) = Some m" "mf_Kind m = ''builtin''"
    using demo_verified(2) by auto
  have "ToLower (TrimSpace ''builtin'') = KindBuiltin" by code_simp
  then have k: "ToLower (TrimSpace (mf_Kind m)) = KindBuiltin" using m(2) by simp
  have "op_Mode demo_options = ModePackage" by (simp add: demo_options_def)
  from linked_root_is_not_judged [OF rd(1) demo_verified(1) m(1) k this rd(2)] show ?thesis by blast
qed

end
