(* ===== verification/Load_Dir.thy ===== *)
theory Load_Dir
  imports Contract
begin

text \<open>
  Loading a plugin directory without the contract gate, \<^verbatim>\<open>src/v2/plugin/loaddir.go\<close>. The directory is a tree of theory
  \<open>Go_Files\<close>; \<open>unmarshal\<close> is \<^verbatim>\<open>json.Unmarshal\<close> into a manifest.
\<close>

text \<open>\<^verbatim>\<open>os.Stat(filepath.Join(dir, base))\<close>: for a base of one dot or a slash, the directory itself.\<close>

definition joined_exists :: "fsnode \<Rightarrow> string \<Rightarrow> bool" where
  "joined_exists dir base = (base = ''.'' \<or> base = ''/'' \<or> dir_stat dir base \<noteq> None)"

definition parse_text :: "parse_failure \<Rightarrow> string" where
  "parse_text e = (case e of JSONError err \<Rightarrow> err | Refused d \<Rightarrow> Diagnostic_Error d)"

definition loadDir :: "(bytes \<Rightarrow> string + Manifest) \<Rightarrow> (string \<Rightarrow> string) \<Rightarrow> fsnode \<Rightarrow> string + Manifest" where
  "loadDir unmarshal qt dir =
     (case dir_read dir ''plugin.json'' of
        NotExist \<Rightarrow> Inl ''plugin.json: no such file or directory''
      | ReadError err \<Rightarrow> Inl (''plugin.json: '' @ err)
      | Content raw \<Rightarrow>
          (case ParseManifest unmarshal qt raw of
             Inl e \<Rightarrow> Inl (''plugin.json: '' @ parse_text e)
           | Inr m \<Rightarrow>
               if mf_Spawn m \<and> \<not> joined_exists dir (path_Base (mf_Binary m)) then Inl (''spawn binary missing: '' @ mf_Binary m)
               else Inr m))"

definition LoadDir :: "(bytes \<Rightarrow> string + Manifest) \<Rightarrow> (string \<Rightarrow> string) \<Rightarrow> fsnode \<Rightarrow> string + Manifest" where
  "LoadDir unmarshal qt dir =
     (case loadDir unmarshal qt dir of
        Inl err \<Rightarrow> Inl err
      | Inr m \<Rightarrow> (case Validate qt m of Some d \<Rightarrow> Inl (Diagnostic_Error d) | None \<Rightarrow> Inr m))"

definition LoadDirForHost :: "(bytes \<Rightarrow> string + Manifest) \<Rightarrow> (string \<Rightarrow> string) \<Rightarrow> fsnode \<Rightarrow> string \<Rightarrow> string + Manifest" where
  "LoadDirForHost unmarshal qt dir host =
     (case LoadDir unmarshal qt dir of
        Inl err \<Rightarrow> Inl err
      | Inr m \<Rightarrow>
          (let host = ToLower (TrimSpace host) in
           if host = '''' then Inl ''host target required''
           else if \<not> Supports m host then Inl (''plugin '' @ mf_ID m @ '' does not target '' @ host)
           else Inr m))"

section \<open>Properties\<close>

lemma LoadDir_Inr:
  "LoadDir unmarshal qt dir = Inr m \<longleftrightarrow>
     (\<exists>raw. dir_read dir ''plugin.json'' = Content raw \<and> unmarshal raw = Inr m) \<and> Validate qt m = None \<and>
     (mf_Spawn m \<longrightarrow> joined_exists dir (path_Base (mf_Binary m)))"
  by (auto simp: LoadDir_def loadDir_def ParseManifest_def split: sum.splits option.splits read_result.splits if_splits)

text \<open>C34. What the gate accepts for a host, loading for that host accepts too, with the same manifest: a directory that
  \<^verbatim>\<open>VerifyDir\<close> passes for a host is one that \<^verbatim>\<open>LoadDirForHost\<close> loads, unless the manifest still has the deprecated
  \<^verbatim>\<open>spawn\<close> with a binary that is not there. The two use the same decoder.\<close>

theorem verified_directory_loads:
  assumes "VerifyDir tk root resolved node opts = Inr r" and "rp_OK r" and "follow node = Some dir"
    and "\<And>doc ve. tl_validate tk doc = Some (Inr ve) \<Longrightarrow> says ve"
    and "TrimSpace (op_Host opts) \<noteq> ''''"
  shows "\<exists>m. rp_Manifest r = Some m \<and>
    (LoadDirForHost (tl_unmarshal tk) (tl_quote tk) dir (op_Host opts) = Inr m \<or>
     mf_Spawn m \<and> \<not> joined_exists dir (path_Base (mf_Binary m)))"
proof -
  obtain raw where raw: "dir_read dir (lf_Manifest layoutSpec) = Content raw" "rp_OK (Verify tk raw opts)"
    "rp_Manifest r = rp_Manifest (Verify tk raw opts)"
    using VerifyDir_manifest [OF assms(1,2)] assms(3) by auto
  have "accepted (fst (verifyManifest tk raw opts))" using raw(2) by (simp add: Verify_fields)
  then obtain doc m where m: "tl_unmarshal tk raw = Inr m" "Validate (tl_quote tk) m = None" "gate_open tk m opts"
    "snd (verifyManifest tk raw opts) = Some (m, doc)"
    using verifyManifest_accepted [of tk raw opts] assms(4) by auto
  have "Supports m (ToLower (TrimSpace (op_Host opts)))" using m(3) assms(5) by (simp add: gate_open_def)
  then have "LoadDirForHost (tl_unmarshal tk) (tl_quote tk) dir (op_Host opts) = Inr m"
    if "mf_Spawn m \<longrightarrow> joined_exists dir (path_Base (mf_Binary m))"
  proof -
    have "LoadDir (tl_unmarshal tk) (tl_quote tk) dir = Inr m" using raw(1) m(1,2) that by (auto simp: LoadDir_Inr layoutSpec_def)
    with \<open>Supports m _\<close> assms(5) show ?thesis by (simp add: LoadDirForHost_def Let_def TrimSpace_lower)
  qed
  then show ?thesis using raw(3) m(4) by (auto simp: Verify_fields)
qed

theorem verified_directory_loads_witness:
  "\<exists>r m. VerifyDir demo_tools ''/p'' (Inr (True, [''p''])) (DirN 0x1ED [(''plugin.json'', FileN 2 0x1A4 ''{}'')]) demo_options = Inr r \<and>
     rp_Manifest r = Some m \<and>
     LoadDirForHost (tl_unmarshal demo_tools) (tl_quote demo_tools) (DirN 0x1ED [(''plugin.json'', FileN 2 0x1A4 ''{}'')]) ''gateway'' = Inr m"
proof -
  let ?node = "DirN 0x1ED [(''plugin.json'', FileN 2 0x1A4 ''{}'')]"
  have "case_sum (\<lambda>_. False) rp_OK (VerifyDir demo_tools ''/p'' (Inr (True, [''p''])) ?node demo_options)" by code_simp
  then obtain r where r: "VerifyDir demo_tools ''/p'' (Inr (True, [''p''])) ?node demo_options = Inr r" "rp_OK r"
    by (auto split: sum.splits)
  have none: "tl_validate demo_tools doc = None" for doc by (simp add: demo_tools_def)
  have "op_Host demo_options = ''gateway''" "TrimSpace ''gateway'' \<noteq> ''''" by code_simp+
  moreover have spawn: "\<not> mf_Spawn m" if "tl_unmarshal demo_tools raw = Inr m" for raw m
    using that by (auto simp: demo_tools_def demo_plugin_def demo_manifest_def)
  ultimately have "\<exists>m. rp_Manifest r = Some m \<and>
      (LoadDirForHost (tl_unmarshal demo_tools) (tl_quote demo_tools) ?node ''gateway'' = Inr m \<or> mf_Spawn m \<and> \<not> joined_exists ?node (path_Base (mf_Binary m)))"
    using verified_directory_loads [OF r, of ?node] by (simp add: none)
  moreover obtain raw where "rp_Manifest r = rp_Manifest (Verify demo_tools raw demo_options)"
    using VerifyDir_manifest [OF r] by auto
  ultimately show ?thesis using r(1) spawn by (fastforce simp: Verify_fields verifyManifest_def Let_def split: sum.splits if_splits)
qed

text \<open>Loading looks at \<^verbatim>\<open>spawn\<close> only: a package of kind process, as the contract spells it, loads although its binary is
  not there, whatever the tree holds beside the manifest.\<close>

lemma missing_binary_loads:
  assumes "dir_read dir ''plugin.json'' = Content raw" and "unmarshal raw = Inr m" and "Validate qt m = None"
    and "mf_Kind m = KindProcess" and "\<not> mf_Spawn m"
  shows "LoadDir unmarshal qt dir = Inr m"
  using assms by (simp add: LoadDir_Inr)

end
