(* ===== verification/Pack.thy ===== *)
theory Pack
  imports Load_Dir Digest Attest
begin

text \<open>
  Packages, \<^verbatim>\<open>src/v2/pack/bdx.go\<close> and \<^verbatim>\<open>src/v2/pack/pack.go\<close>. The directory that is packed is a tree of theory
  \<open>Go_Files\<close>, the directory that is written to a map from paths to contents. An archive is the list of its members;
  how \<^verbatim>\<open>archive/tar\<close> and \<^verbatim>\<open>compress/gzip\<close> write it is a parameter, as are \<^verbatim>\<open>encoding/json\<close> and SHA-256. Which of the
  calls of the operating system fail, and with what error, is the argument \<open>sys\<close>.
\<close>

record tar_header =
  th_Name :: string
  th_Dir :: bool
  th_Mode :: "16 word"
  th_Size :: int

type_synonym files = "fpath \<rightharpoonup> bytes"
type_synonym tar_member = "tar_header \<times> bytes"

text \<open>\<open>li_refuses\<close> is the error of \<^verbatim>\<open>WriteHeader\<close> for a header, \<open>li_untar\<close> what a reader sees: headers with the bytes that can
  be read and the error that cuts them short, up to the end of the archive or to an error of \<^verbatim>\<open>Next\<close>.\<close>

record library =
  li_refuses :: "tar_header \<Rightarrow> string option"
  li_tar :: "tar_member list \<Rightarrow> bytes"
  li_untar :: "bytes \<Rightarrow> (tar_header \<times> bytes \<times> string option) list \<times> string option"
  li_gzip :: "bytes \<Rightarrow> bytes"
  li_hexsum :: "bytes \<Rightarrow> string"
  li_envelope :: "Envelope \<Rightarrow> string + bytes"
  li_unenvelope :: "Envelope \<Rightarrow> bytes \<Rightarrow> string + Envelope" \<comment> \<open>\<^verbatim>\<open>json.Unmarshal\<close> into an envelope that may hold something\<close>

datatype call =
    MkdirOut | MkdirStage | CreatePayload | SyncPayload | ReadStaged | CreateContainer | OpenStaged | SyncContainer | RenameContainer | RemovePartial
  | MkdirRoot | StageWrite | CreateArchive | FlushArchive

section \<open>Paths\<close>

text \<open>\<^verbatim>\<open>filepath.Join\<close> of a cleaned path and a name, cleaned.\<close>

definition clean_step :: "fpath \<Rightarrow> string \<Rightarrow> fpath" where
  "clean_step p seg =
     (if seg = '''' \<or> seg = ''.'' then p
      else if seg \<noteq> ''..'' then (fst p, snd p @ [seg])
      else if snd p \<noteq> [] \<and> last (snd p) \<noteq> ''..'' then (fst p, butlast (snd p))
      else if fst p then p
      else (fst p, snd p @ [''..'']))"

definition filepath_Join :: "fpath \<Rightarrow> string \<Rightarrow> fpath" where
  "filepath_Join p name = foldl clean_step p (split_on (CHR ''/'') name)"

definition with_ext :: "fpath \<Rightarrow> string \<Rightarrow> fpath" where
  \<comment> \<open>text added to a path\<close>
  "with_ext p ext = (fst p, butlast (snd p) @ [last (snd p) @ ext])"

section \<open>Writing an archive\<close>

text \<open>The state of a \<^verbatim>\<open>tar.Writer\<close>: the members so far and the bytes that the last one still lacks.\<close>

definition tar_flush :: "tar_member list \<times> int \<Rightarrow> string + tar_member list" where
  "tar_flush w = (if 0 < snd w then Inl (''archive/tar: missed writing '' @ fmt_value (FInt (snd w)) @ '' bytes'') else Inr (fst w))"

definition tar_add :: "library \<Rightarrow> tar_header \<Rightarrow> bytes \<Rightarrow> tar_member list \<times> int \<Rightarrow> string + tar_member list \<times> int" where
  "tar_add li hdr body w =
     (case tar_flush w of
        Inl err \<Rightarrow> Inl err
      | Inr ms \<Rightarrow>
          (case li_refuses li hdr of
             Some err \<Rightarrow> Inl err
           | None \<Rightarrow>
               if th_Size hdr < int (length body) then Inl ''archive/tar: write too long''
               else Inr (ms @ [(hdr, body)], th_Size hdr - int (length body))))"

section \<open>The payload\<close>

definition Ext :: string where "Ext = ''.bdx''"
definition memberManifest :: string where "memberManifest = ''plugin.json''"
definition memberAttestation :: string where "memberAttestation = ''attestation.json''"
definition memberPayload :: string where "memberPayload = ''package.tar.gz''"
definition maxMetadataBytes :: int where "maxMetadataBytes = 4194304"
definition ErrContract :: string where "ErrContract = ''pack: the plugin does not pass the contract''"

definition skipped :: "string \<Rightarrow> bool" where
  "skipped n = (n \<in> {''.git'', ''SHA256SUMS'', ''.unsigned''})"

definition under_id :: "string \<Rightarrow> string \<Rightarrow> string" where
  \<comment> \<open>\<^verbatim>\<open>filepath.Join(id, rel)\<close> for an id of one segment\<close>
  "under_id i rel = (if i = ''.'' then rel else path_join i rel)"

definition dir_header :: "string \<Rightarrow> tar_header" where
  "dir_header name = \<lparr>th_Name = name @ ''/'', th_Dir = True, th_Mode = 0x1ED, th_Size = 0\<rparr>"

definition file_header :: "string \<Rightarrow> int \<Rightarrow> 16 word \<Rightarrow> tar_header" where
  "file_header name sz mode = \<lparr>th_Name = name, th_Dir = False, th_Mode = (if executable mode then 0x1ED else 0x1A4), th_Size = sz\<rparr>"

fun pack_entries :: "library \<Rightarrow> string \<Rightarrow> tar_member list \<times> int \<Rightarrow> (string \<times> fsnode) list \<Rightarrow> string + tar_member list \<times> int" where
  "pack_entries li i w [] = Inr w"
| "pack_entries li i w ((rel, x) # es) =
     (if Contains rel ''..'' then Inl (''pack: refusing path '' @ rel)
      else if skipped (path_Base rel) then pack_entries li i w es
      else case x of
        BadN err \<Rightarrow> Inl err
      | LinkN _ _ \<Rightarrow> pack_entries li i w es
      | DirN _ _ \<Rightarrow>
          (case tar_add li (dir_header (under_id i rel)) [] w of Inl err \<Rightarrow> Inl err | Inr w' \<Rightarrow> pack_entries li i w' es)
      | FileN sz mode body \<Rightarrow>
          (case tar_add li (file_header (under_id i rel) sz mode) body w of Inl err \<Rightarrow> Inl err | Inr w' \<Rightarrow> pack_entries li i w' es))"

definition payload_members :: "library \<Rightarrow> fsnode \<Rightarrow> string \<Rightarrow> string + tar_member list" where
  "payload_members li dir i =
     (case pack_entries li i ([], 0) (walk skipped '''' dir) of Inl err \<Rightarrow> Inl err | Inr w \<Rightarrow> tar_flush w)"

definition writePayload :: "library \<Rightarrow> (call \<Rightarrow> string option) \<Rightarrow> fsnode \<Rightarrow> string \<Rightarrow> string + bytes" where
  "writePayload li sys dir i =
     (case sys CreatePayload of
        Some err \<Rightarrow> Inl err
      | None \<Rightarrow>
          (case payload_members li dir i of
             Inl err \<Rightarrow> Inl err
           | Inr ms \<Rightarrow> (case sys SyncPayload of Some err \<Rightarrow> Inl err | None \<Rightarrow> Inr (li_gzip li (li_tar li ms)))))"

section \<open>The container\<close>

definition plain_header :: "string \<Rightarrow> bytes \<Rightarrow> tar_header" where
  "plain_header name body = \<lparr>th_Name = name, th_Dir = False, th_Mode = 0x1A4, th_Size = int (length body)\<rparr>"

fun tar_plain :: "library \<Rightarrow> tar_member list \<times> int \<Rightarrow> (string \<times> bytes) list \<Rightarrow> string + tar_member list \<times> int" where
  "tar_plain li w [] = Inr w"
| "tar_plain li w ((name, body) # bs) =
     (case tar_add li (plain_header name body) body w of Inl err \<Rightarrow> Inl err | Inr w' \<Rightarrow> tar_plain li w' bs)"

text \<open>The error, if any, and what is at the path afterwards; \<open>torn\<close> is what an interrupted write leaves.\<close>

definition writeContainer ::
  "library \<Rightarrow> (call \<Rightarrow> string option) \<Rightarrow> bytes \<Rightarrow> fpath \<Rightarrow> bytes \<Rightarrow> bytes \<Rightarrow> bytes \<Rightarrow> files \<Rightarrow> string option \<times> files" where
  "writeContainer li sys torn path manifest envelope payload fs =
     (case sys CreateContainer of
        Some err \<Rightarrow> (Some err, fs)
      | None \<Rightarrow>
          (case tar_plain li ([], 0) [(memberManifest, manifest), (memberAttestation, envelope)] of
             Inl err \<Rightarrow> (Some err, fs(path \<mapsto> torn))
           | Inr w \<Rightarrow>
               (case sys OpenStaged of
                  Some err \<Rightarrow> (Some err, fs(path \<mapsto> torn))
                | None \<Rightarrow>
                    (case tar_plain li w [(memberPayload, payload)] of
                       Inl err \<Rightarrow> (Some err, fs(path \<mapsto> torn))
                     | Inr w' \<Rightarrow>
                         (case tar_flush w' of
                            Inl err \<Rightarrow> (Some err, fs(path \<mapsto> torn))
                          | Inr ms \<Rightarrow> (sys SyncContainer, fs(path \<mapsto> li_tar li ms)))))))"

record BDXResult =
  br_Path :: fpath
  br_ID :: string
  br_Version :: string
  br_PayloadSHA :: string
  br_GrantsDigest :: string
  br_Report :: "Report option"

definition zero_result :: BDXResult where
  "zero_result = \<lparr>br_Path = (False, []), br_ID = '''', br_Version = '''', br_PayloadSHA = '''', br_GrantsDigest = '''', br_Report = None\<rparr>"

definition remove_partial :: "(call \<Rightarrow> string option) \<Rightarrow> fpath \<Rightarrow> files \<Rightarrow> files" where
  "remove_partial sys tmp fs = (if sys RemovePartial = None then fs(tmp := None) else fs)"

definition zero_envelope :: Envelope where
  "zero_envelope = \<lparr>en_V = 0, en_SHA256 = '''', en_Publisher = None, en_Store = None\<rparr>"

text \<open>What follows verification: \<open>node\<close> is what \<^verbatim>\<open>Lstat\<close> finds at the directory.\<close>

definition write_package ::
  "library \<Rightarrow> (call \<Rightarrow> string option) \<Rightarrow> bytes \<Rightarrow> fsnode \<Rightarrow> fpath \<Rightarrow> BDXResult \<Rightarrow> Manifest \<Rightarrow> files \<Rightarrow>
   BDXResult \<times> string option \<times> files" where
  "write_package li sys torn node outDir res m fs =
     (case sys MkdirOut of Some err \<Rightarrow> (res, Some err, fs) | None \<Rightarrow>
      case sys MkdirStage of Some err \<Rightarrow> (res, Some err, fs) | None \<Rightarrow>
      case writePayload li sys node (mf_ID m) of Inl err \<Rightarrow> (res, Some err, fs) | Inr payload \<Rightarrow>
      case sys ReadStaged of Some err \<Rightarrow> (res, Some err, fs) | None \<Rightarrow>
      let res1 = res\<lparr>br_PayloadSHA := li_hexsum li payload\<rparr> in
      case li_envelope li (zero_envelope\<lparr>en_V := EnvelopeVersion, en_SHA256 := br_PayloadSHA res1\<rparr>) of
        Inl err \<Rightarrow> (res1, Some err, fs)
      | Inr envelope \<Rightarrow>
          (case Option.bind (follow node) (\<lambda>dir. Some (dir_read dir memberManifest)) of
             Some (Content manifest) \<Rightarrow>
               (let path = filepath_Join outDir (mf_ID m @ ''-'' @ mf_Version m @ Ext); res2 = res1\<lparr>br_Path := path\<rparr>;
                    tmp = with_ext path ''.partial'' in
                case writeContainer li sys torn tmp manifest envelope payload fs of
                  (Some err, fs') \<Rightarrow> (res2, Some err, remove_partial sys tmp fs')
                | (None, fs') \<Rightarrow>
                    (case sys RenameContainer of
                       Some err \<Rightarrow> (res2, Some err, remove_partial sys tmp fs')
                     | None \<Rightarrow> (res2, None, fs'(path := fs' tmp, tmp := None))))
           | Some (ReadError err) \<Rightarrow> (res1, Some err, fs)
           | _ \<Rightarrow> (res1, Some ''no such file or directory'', fs)))"

definition WriteBDX ::
  "'v tools \<Rightarrow> library \<Rightarrow> (call \<Rightarrow> string option) \<Rightarrow> bytes \<Rightarrow> string \<Rightarrow> string + fpath \<Rightarrow> fsnode \<Rightarrow> fpath \<Rightarrow> Options \<Rightarrow>
   files \<Rightarrow> BDXResult \<times> string option \<times> files" where
  "WriteBDX tk li sys torn root resolved node outDir opts fs =
     (case VerifyDir tk root resolved node opts of
        Inl err \<Rightarrow> (zero_result, Some err, fs)
      | Inr rep \<Rightarrow>
          (let res = zero_result\<lparr>br_Report := Some rep\<rparr> in
           if \<not> rp_OK rep then (res, Some ErrContract, fs)
           else case rp_Manifest rep of
             None \<Rightarrow> (res, Some ErrContract, fs)
           | Some m \<Rightarrow>
               write_package li sys torn node outDir
                 (res\<lparr>br_ID := mf_ID m, br_Version := mf_Version m, br_GrantsDigest := GrantsDigest (li_hexsum li) m\<rparr>) m fs))"

section \<open>Reading a package\<close>

record BDX =
  bx_Manifest :: "Manifest option"
  bx_Attestation :: Envelope
  bx_PayloadSize :: int

definition missingMembers :: "string \<Rightarrow> string set \<Rightarrow> string option" where
  "missingMembers base seen =
     (let missing = filter (\<lambda>n. n \<notin> seen) [memberManifest, memberAttestation, memberPayload] in
      if missing = [] then None
      else Some (''pack: '' @ base @ '' is not a '' @ Ext @ '' package: missing '' @ join_str '', '' missing))"

text \<open>The loop of \<^verbatim>\<open>Inspect\<close>, which returns what it has read beside an error.\<close>

fun inspect_members ::
  "(bytes \<Rightarrow> string + Manifest) \<Rightarrow> library \<Rightarrow> string \<Rightarrow> string option \<Rightarrow> string set \<Rightarrow> BDX \<Rightarrow>
   (tar_header \<times> bytes \<times> string option) list \<Rightarrow> BDX \<times> string option" where
  "inspect_members unmarshal li base stop seen out [] =
     (case stop of
        Some err \<Rightarrow> (out, Some (''pack: '' @ base @ '' is not a readable '' @ Ext @ '' container: '' @ err))
      | None \<Rightarrow> (out, missingMembers base seen))"
| "inspect_members unmarshal li base stop seen out ((hdr, raw, short) # ms) =
     (if th_Name hdr = memberManifest \<or> th_Name hdr = memberAttestation then
        (if maxMetadataBytes < th_Size hdr then
           (out, Some (''pack: '' @ th_Name hdr @ '' is '' @ fmt_value (FInt (th_Size hdr)) @ '' bytes, over the '' @
              fmt_value (FInt maxMetadataBytes) @ ''-byte limit''))
         else case short of
           Some err \<Rightarrow> (out, Some err)
         | None \<Rightarrow>
             if th_Name hdr = memberManifest then
               (case unmarshal raw of
                  Inl err \<Rightarrow> (out, Some (''pack: '' @ memberManifest @ '' in '' @ base @ '': '' @ err))
                | Inr m \<Rightarrow> inspect_members unmarshal li base stop (insert (th_Name hdr) seen) (out\<lparr>bx_Manifest := Some m\<rparr>) ms)
             else
               (case li_unenvelope li (bx_Attestation out) raw of
                  Inl err \<Rightarrow> (out, Some (''pack: '' @ memberAttestation @ '' in '' @ base @ '': '' @ err))
                | Inr e \<Rightarrow> inspect_members unmarshal li base stop (insert (th_Name hdr) seen) (out\<lparr>bx_Attestation := e\<rparr>) ms))
      else if th_Name hdr = memberPayload then
        (out\<lparr>bx_PayloadSize := th_Size hdr\<rparr>, missingMembers base (insert memberPayload seen))
      else inspect_members unmarshal li base stop seen out ms)"

text \<open>\<open>opened\<close> is the result of \<^verbatim>\<open>os.Open\<close>, with what the file holds.\<close>

definition Inspect :: "(bytes \<Rightarrow> string + Manifest) \<Rightarrow> library \<Rightarrow> string \<Rightarrow> string + bytes \<Rightarrow> BDX \<times> string option" where
  "Inspect unmarshal li base opened =
     (let out = \<lparr>bx_Manifest = None, bx_Attestation = zero_envelope, bx_PayloadSize = 0\<rparr> in
      case opened of
        Inl err \<Rightarrow> (out, Some err)
      | Inr raw \<Rightarrow> (let (ms, stop) = li_untar li raw in inspect_members unmarshal li base stop {} out ms))"

definition OpenPayload :: "library \<Rightarrow> string \<Rightarrow> string + bytes \<Rightarrow> string + bytes \<times> string option" where
  "OpenPayload li base opened =
     (case opened of
        Inl err \<Rightarrow> Inl err
      | Inr raw \<Rightarrow>
          (let (ms, stop) = li_untar li raw in
           case List.find (\<lambda>(hdr, _, _). th_Name hdr = memberPayload) ms of
             Some (hdr, body, short) \<Rightarrow> Inr (body, short)
           | None \<Rightarrow> (case stop of Some err \<Rightarrow> Inl err | None \<Rightarrow> Inl (''pack: '' @ base @ '' has no '' @ memberPayload))))"

definition PayloadSHA :: "library \<Rightarrow> string \<Rightarrow> string + bytes \<Rightarrow> string + string" where
  "PayloadSHA li base opened =
     (case OpenPayload li base opened of
        Inl err \<Rightarrow> Inl err
      | Inr (body, Some err) \<Rightarrow> Inl err
      | Inr (body, None) \<Rightarrow> Inr (li_hexsum li body))"

section \<open>The archive of the older format\<close>

record Result =
  rs_Archive :: fpath
  rs_ID :: string
  rs_Version :: string
  rs_Unsigned :: bool
  rs_GrantsDigest :: string

definition copyFile :: "fsnode \<Rightarrow> string + fsnode" where
  \<comment> \<open>opening follows links\<close>
  "copyFile x =
     (case follow x of
        None \<Rightarrow> Inl ''no such file or directory''
      | Some (FileN _ _ body) \<Rightarrow> Inr (FileN (int (length body)) 0x1ED body)
      | Some (BadN err) \<Rightarrow> Inl err
      | Some _ \<Rightarrow> Inl ''is a directory'')"

fun copy_node :: "string \<Rightarrow> fsnode \<Rightarrow> string + fsnode"
  and copy_entries :: "string \<Rightarrow> (string \<times> fsnode) list \<Rightarrow> string + (string \<times> fsnode) list" where
  "copy_node rel (DirN mode es) = (case copy_entries rel es of Inl err \<Rightarrow> Inl err | Inr ys \<Rightarrow> Inr (DirN 0x1ED ys))"
| "copy_node rel (FileN sz mode body) = copyFile (FileN sz mode body)"
| "copy_node rel (LinkN target x) = copyFile (LinkN target x)"
| "copy_node rel (BadN err) = copyFile (BadN err)"
| "copy_entries p [] = Inr []"
| "copy_entries p ((n, x) # es) =
     (if skipped n then copy_entries p es
      else if Contains (path_join p n) ''..'' then Inl (''refusing path '' @ path_join p n)
      else case copy_node (path_join p n) x of
        Inl err \<Rightarrow> Inl err
      | Inr y \<Rightarrow> (case copy_entries p es of Inl err \<Rightarrow> Inl err | Inr ys \<Rightarrow> Inr ((n, y) # ys)))"

definition copyTree :: "fsnode \<Rightarrow> string + (string \<times> fsnode) list" where
  \<comment> \<open>the walk does not follow a root that is a link\<close>
  "copyTree node = (case node of DirN _ es \<Rightarrow> copy_entries '''' es | BadN err \<Rightarrow> Inl err | _ \<Rightarrow> Inr [])"

definition sum_line :: "library \<Rightarrow> string \<Rightarrow> (string \<times> bytes) \<Rightarrow> string" where
  "sum_line li upper f = li_hexsum li (snd f) @ ''  '' @ upper @ ''/'' @ fst f @ [CHR 0x0A]"

definition staged_files :: "(string \<times> fsnode) list \<Rightarrow> (string \<times> bytes) list" where
  "staged_files es =
     concat (map (\<lambda>(rel, x). case x of
        FileN _ _ body \<Rightarrow> if path_Base rel = ''SHA256SUMS'' \<or> path_Base rel = ''.unsigned'' then [] else [(rel, body)]
      | _ \<Rightarrow> []) (walk (\<lambda>_. False) '''' (DirN 0x1ED es)))"

text \<open>\<open>upper\<close> is the name of the directory that is summed, the staging directory's own for an id of one dot.\<close>

definition writeSHA256SUMS :: "library \<Rightarrow> string \<Rightarrow> (string \<times> fsnode) list \<Rightarrow> string" where
  "writeSHA256SUMS li upper es = concat (map (sum_line li upper) (sort_key fst (staged_files es)))"

definition info_header :: "string \<Rightarrow> fsnode \<Rightarrow> tar_member" where
  "info_header name x =
     (case x of
        FileN sz mode body \<Rightarrow> (\<lparr>th_Name = name, th_Dir = False, th_Mode = mode, th_Size = sz\<rparr>, body)
      | _ \<Rightarrow> (\<lparr>th_Name = name @ ''/'', th_Dir = True, th_Mode = 0x1ED, th_Size = 0\<rparr>, []))"

fun tar_all :: "library \<Rightarrow> tar_member list \<times> int \<Rightarrow> tar_member list \<Rightarrow> string + tar_member list \<times> int" where
  "tar_all li w [] = Inr w"
| "tar_all li w ((hdr, body) # ms) = (case tar_add li hdr body w of Inl err \<Rightarrow> Inl err | Inr w' \<Rightarrow> tar_all li w' ms)"

definition tarGz :: "library \<Rightarrow> string \<Rightarrow> (string \<times> fsnode) list \<Rightarrow> string + tar_member list \<times> int" where
  "tarGz li upper es =
     tar_all li ([], 0) (info_header upper (DirN 0x1ED es) # map (\<lambda>(rel, x). info_header (under_id upper rel) x) (walk (\<lambda>_. False) '''' (DirN 0x1ED es)))"

definition stage_tree :: "library \<Rightarrow> string \<Rightarrow> string \<Rightarrow> (string \<times> fsnode) list \<Rightarrow> (string \<times> fsnode) list" where
  \<comment> \<open>the two files that are added, where a directory is read in the order of the names\<close>
  "stage_tree li stage i es =
     (let sums = writeSHA256SUMS li (if i = ''.'' then stage else i) es in
      insort_key fst (''.unsigned'', FileN 0 0x1A4 []) (insort_key fst (''SHA256SUMS'', FileN (int (length sums)) 0x1A4 sums) es))"

text \<open>The times and owners that \<^verbatim>\<open>tar.FileInfoHeader\<close> adds are part of \<open>archive\<close>, which writes the members and
  compresses them. The errors of the deferred \<^verbatim>\<open>Close\<close> calls are lost; \<open>torn\<close> is what such an error leaves.\<close>

definition Dir ::
  "(bytes \<Rightarrow> string + Manifest) \<Rightarrow> (string \<Rightarrow> string) \<Rightarrow> library \<Rightarrow> (tar_member list \<Rightarrow> bytes) \<Rightarrow> (call \<Rightarrow> string option) \<Rightarrow> bytes \<Rightarrow>
   string \<Rightarrow> fsnode \<Rightarrow> fpath \<Rightarrow> string + Result \<times> bytes" where
  "Dir unmarshal qt li archive sys torn stage node outDir =
     (case follow node of None \<Rightarrow> Inl ''plugin.json: no such file or directory'' | Some dir \<Rightarrow>
      case LoadDir unmarshal qt dir of Inl err \<Rightarrow> Inl err | Inr m \<Rightarrow>
      case sys MkdirOut of Some err \<Rightarrow> Inl err | None \<Rightarrow>
      case sys MkdirStage of Some err \<Rightarrow> Inl err | None \<Rightarrow>
      case sys MkdirRoot of Some err \<Rightarrow> Inl err | None \<Rightarrow>
      case copyTree node of Inl err \<Rightarrow> Inl err | Inr es \<Rightarrow>
      case sys StageWrite of Some err \<Rightarrow> Inl err | None \<Rightarrow>
      case sys CreateArchive of Some err \<Rightarrow> Inl err | None \<Rightarrow>
      case tarGz li (mf_ID m) (stage_tree li stage (mf_ID m) es) of Inl err \<Rightarrow> Inl err | Inr w \<Rightarrow>
      Inr (\<lparr>rs_Archive = filepath_Join outDir (mf_ID m @ ''-'' @ mf_Version m @ ''.tar.gz''), rs_ID = mf_ID m, rs_Version = mf_Version m,
            rs_Unsigned = True, rs_GrantsDigest = GrantsDigest (li_hexsum li) m\<rparr>,
           if sys FlushArchive = None then archive (fst w) else torn))"

section \<open>What an archive holds\<close>

text \<open>A writer whose members are complete, the last one up to the bytes it still lacks.\<close>

definition writer_ok :: "tar_member list \<times> int \<Rightarrow> bool" where
  "writer_ok w \<longleftrightarrow> 0 \<le> snd w \<and>
     (\<forall>m \<in> set (butlast (fst w)). th_Size (fst m) = int (length (snd m))) \<and>
     (if fst w = [] then snd w = 0 else th_Size (fst (last (fst w))) = int (length (snd (last (fst w)))) + snd w)"

abbreviation complete :: "tar_member list \<Rightarrow> bool" where
  "complete ms \<equiv> \<forall>m \<in> set ms. th_Size (fst m) = int (length (snd m))"

lemma tar_flush_complete:
  assumes "writer_ok w" "tar_flush w = Inr ms"
  shows "ms = fst w \<and> complete ms"
proof -
  obtain l n where w: "w = (l, n)" by (cases w)
  from assms show ?thesis
    by (cases l rule: rev_cases) (auto simp: w writer_ok_def tar_flush_def split: if_splits)
qed

lemma tar_add_Inr:
  assumes "tar_add li hdr body w = Inr w'" "writer_ok w"
  shows "fst w' = fst w @ [(hdr, body)] \<and> writer_ok w' \<and> li_refuses li hdr = None"
proof -
  obtain ms where ms: "tar_flush w = Inr ms" and hdr: "li_refuses li hdr = None" "int (length body) \<le> th_Size hdr"
      "w' = (ms @ [(hdr, body)], th_Size hdr - int (length body))"
    using assms(1) by (auto simp: tar_add_def split: sum.splits option.splits if_splits)
  with tar_flush_complete [OF assms(2) ms] show ?thesis by (auto simp: writer_ok_def butlast_append)
qed

lemma writer_start [simp]: "writer_ok ([], 0)"
  by (simp add: writer_ok_def)

definition packed_entry :: "string \<Rightarrow> string \<times> fsnode \<Rightarrow> tar_member list" where
  "packed_entry i e =
     (if skipped (path_Base (fst e)) then []
      else case snd e of
        DirN _ _ \<Rightarrow> [(dir_header (under_id i (fst e)), [])]
      | FileN sz mode body \<Rightarrow> [(file_header (under_id i (fst e)) sz mode, body)]
      | _ \<Rightarrow> [])"

lemma packed_entry_simps [simp]:
  "packed_entry i (rel, FileN sz mode body) = (if skipped (path_Base rel) then [] else [(file_header (under_id i rel) sz mode, body)])"
  "packed_entry i (rel, DirN bits es) = (if skipped (path_Base rel) then [] else [(dir_header (under_id i rel), [])])"
  "packed_entry i (rel, LinkN target y) = []" "packed_entry i (rel, BadN err) = []"
  by (simp_all add: packed_entry_def)

lemma pack_entries_Inr:
  assumes "pack_entries li i w es = Inr w'" "writer_ok w"
  shows "fst w' = fst w @ concat (map (packed_entry i) es) \<and> writer_ok w'"
  using assms
proof (induction es arbitrary: w)
  case (Cons e es)
  obtain rel x where e: "e = (rel, x)" by (cases e)
  have add: "fst w' = fst w @ (hdr, body) # concat (map (packed_entry i) es) \<and> writer_ok w'"
    if "tar_add li hdr body w = Inr w1" "pack_entries li i w1 es = Inr w'" for hdr body w1
    using Cons.IH [OF that(2)] tar_add_Inr [OF that(1) Cons.prems(2)] by simp
  show ?case
  proof (cases "skipped (path_Base rel)")
    case True
    with Cons e show ?thesis by (cases x) (auto split: if_splits)
  next
    case keep: False
    note r = Cons.prems(1) [unfolded e pack_entries.simps]
    show ?thesis
    proof (cases x)
      case (FileN sz mode body)
      with r keep obtain w1 where "tar_add li (file_header (under_id i rel) sz mode) body w = Inr w1" "pack_entries li i w1 es = Inr w'"
        by (auto split: if_splits sum.splits)
      from add [OF this] keep FileN e show ?thesis by simp
    next
      case (DirN mode ds)
      with r keep obtain w1 where "tar_add li (dir_header (under_id i rel)) [] w = Inr w1" "pack_entries li i w1 es = Inr w'"
        by (auto split: if_splits sum.splits)
      from add [OF this] keep DirN e show ?thesis by simp
    qed (use r keep Cons.IH Cons.prems(2) e in \<open>auto split: if_splits\<close>)
  qed
qed simp

lemma payload_members_Inr:
  assumes "payload_members li dir i = Inr ms"
  shows "ms = concat (map (packed_entry i) (walk skipped '''' dir)) \<and> complete ms"
proof -
  obtain w where w: "pack_entries li i ([], 0) (walk skipped '''' dir) = Inr w" "tar_flush w = Inr ms"
    using assms by (auto simp: payload_members_def split: sum.splits)
  from pack_entries_Inr [OF w(1)] tar_flush_complete [OF _ w(2)] show ?thesis by simp
qed

lemma tar_plain_Inr:
  assumes "tar_plain li w bs = Inr w'" "writer_ok w"
  shows "fst w' = fst w @ map (\<lambda>(n, b). (plain_header n b, b)) bs \<and> writer_ok w'"
  using assms
proof (induction bs arbitrary: w)
  case (Cons nb bs)
  obtain w1 where w1: "tar_add li (plain_header (fst nb) (snd nb)) (snd nb) w = Inr w1" "tar_plain li w1 bs = Inr w'"
    using Cons.prems(1) by (cases nb) (auto split: sum.splits)
  from Cons.IH [OF w1(2)] tar_add_Inr [OF w1(1) Cons.prems(2)] show ?case by (simp add: split_beta)
qed simp

section \<open>The walk that skips\<close>

lemma walk_skipped:
  "set (walk skip p x) \<subseteq> set (walk (\<lambda>_. False) p x)"
  "set (walk_entries skip p es) \<subseteq> set (walk_entries (\<lambda>_. False) p es)"
  by (induction skip p x and skip p es rule: walk_walk_entries.induct) (auto split: fsnode.splits if_splits)

lemma walk_below:
  "(rel, y) \<in> set (walk skip p x) \<Longrightarrow> p \<noteq> '''' \<Longrightarrow> \<exists>t. rel = p @ ''/'' @ t"
  "(rel, y) \<in> set (walk_entries skip p es) \<Longrightarrow> p \<noteq> '''' \<Longrightarrow> \<exists>t. rel = p @ ''/'' @ t"
proof (induction skip p x and skip p es rule: walk_walk_entries.induct)
  case (6 skip p n x es)
  then show ?case by (fastforce simp: path_join_def split: if_splits)
qed auto


lemma split_on_cat: "split_on c (a @ c # b) = split_on c a @ split_on c b"
proof (induction a)
  case (Cons x a)
  then show ?case by (cases "split_on c a") (auto simp: split_on_not_Nil)
qed simp

lemma base_segment: "path_Base s \<in> set (split_on (CHR ''/'') s) \<or> path_Base s = ''.'' \<or> path_Base s = ''/''"
proof -
  let ?t = "rev (dropWhile (\<lambda>c. c = CHR ''/'') (rev s))" and ?l = "rev (takeWhile (\<lambda>c. c = CHR ''/'') (rev s))"
  have more: "set (split_on c t) \<subseteq> set (split_on c (t @ l))" if "\<forall>x \<in> set l. x = c" for c t l
    using that by (cases l) (auto simp: split_on_cat)
  have "rev (rev s) = ?t @ ?l" unfolding rev_append [symmetric] takeWhile_dropWhile_id by (rule refl)
  moreover have "\<forall>x \<in> set ?l. x = CHR ''/''" by (auto dest: set_takeWhileD)
  ultimately have "set (split_on (CHR ''/'') ?t) \<subseteq> set (split_on (CHR ''/'') s)" using more [of ?l "CHR ''/''" ?t] by simp
  moreover have "last (split_on (CHR ''/'') ?t) \<in> set (split_on (CHR ''/'') ?t)" using split_on_not_Nil last_in_set by blast
  ultimately have "last (split_on (CHR ''/'') ?t) \<in> set (split_on (CHR ''/'') s)" by blast
  then show ?thesis by (simp add: path_Base_def Let_def)
qed

lemma base_kept:
  assumes "\<not> list_ex skipped (split_on (CHR ''/'') rel)"
  shows "\<not> skipped (path_Base rel)"
proof
  assume sk: "skipped (path_Base rel)"
  then have "path_Base rel \<noteq> ''.''" "path_Base rel \<noteq> ''/''" by (auto simp: skipped_def)
  with base_segment have "path_Base rel \<in> set (split_on (CHR ''/'') rel)" by blast
  with sk assms show False by (auto simp: list_ex_iff)
qed

lemma skipped_segment:
  assumes "skipped n" "rel = path_join p n \<or> (\<exists>t. rel = path_join p n @ ''/'' @ t)"
  shows "list_ex skipped (split_on (CHR ''/'') rel)"
proof -
  have n: "split_on (CHR ''/'') n = [n]" using assms(1) by (intro split_on_single) (auto simp: skipped_def)
  have "n \<in> set (split_on (CHR ''/'') (path_join p n))" by (simp add: path_join_def split_on_cat n)
  with assms show ?thesis by (auto simp: list_ex_iff split_on_cat)
qed

lemma walk_kept:
  "(rel, y) \<in> set (walk (\<lambda>_. False) p x) \<Longrightarrow> \<not> list_ex skipped (split_on (CHR ''/'') rel) \<Longrightarrow> (rel, y) \<in> set (walk skipped p x)"
  "(rel, y) \<in> set (walk_entries (\<lambda>_. False) p es) \<Longrightarrow> \<not> list_ex skipped (split_on (CHR ''/'') rel) \<Longrightarrow> (rel, y) \<in> set (walk_entries skipped p es)"
proof (induction "\<lambda>_ :: string. False" p x and "\<lambda>_ :: string. False" p es rule: walk_walk_entries.induct)
  case (6 p n x es)
  show ?case
  proof (cases "(rel, y) \<in> set (walk_entries (\<lambda>_. False) p es)")
    case False
    with "6.prems"(1) have here: "(rel, y) = (path_join p n, x) \<or> (rel, y) \<in> set (walk (\<lambda>_. False) (path_join p n) x)"
      by (auto split: fsnode.splits)
    show ?thesis
    proof (cases "skipped n")
      case True
      have "n \<noteq> ''''" using True by (auto simp: skipped_def)
      then have "rel = path_join p n \<or> (\<exists>t. rel = path_join p n @ ''/'' @ t)"
        using here walk_below(1) [of rel y "\<lambda>_. False" "path_join p n" x] by (auto simp: path_join_def split: if_splits)
      with skipped_segment [OF True] "6.prems"(2) show ?thesis by blast
    next
      case keep: False
      with here "6.hyps"(1) "6.prems"(2) show ?thesis by (auto split: fsnode.splits)
    qed
  qed (use 6 in auto)
qed auto

definition container_members :: "bytes \<Rightarrow> bytes \<Rightarrow> bytes \<Rightarrow> (string \<times> bytes) list" where
  "container_members manifest envelope payload =
     [(memberManifest, manifest), (memberAttestation, envelope), (memberPayload, payload)]"

section \<open>What is written\<close>

lemma write_package_ok:
  assumes "write_package li sys torn node outDir res m fs = (res', None, fs')"
  obtains ms dir manifest envelope path where "payload_members li node (mf_ID m) = Inr ms"
    "follow node = Some dir" "dir_read dir memberManifest = Content manifest"
    "li_envelope li (zero_envelope\<lparr>en_V := EnvelopeVersion, en_SHA256 := li_hexsum li (li_gzip li (li_tar li ms))\<rparr>) = Inr envelope"
    "path = filepath_Join outDir (mf_ID m @ ''-'' @ mf_Version m @ Ext)"
    "res' = res\<lparr>br_PayloadSHA := li_hexsum li (li_gzip li (li_tar li ms)), br_Path := path\<rparr>"
    "fs' = fs(path \<mapsto> li_tar li (map (\<lambda>(n, b). (plain_header n b, b)) (container_members manifest envelope (li_gzip li (li_tar li ms)))),
              with_ext path ''.partial'' := None)"
proof -
  define path where "path = filepath_Join outDir (mf_ID m @ ''-'' @ mf_Version m @ Ext)"
  obtain ms where ms: "payload_members li node (mf_ID m) = Inr ms" "writePayload li sys node (mf_ID m) = Inr (li_gzip li (li_tar li ms))"
    "sys MkdirOut = None" "sys MkdirStage = None" "sys ReadStaged = None"
    using assms by (auto simp: write_package_def writePayload_def split: option.splits sum.splits)
  let ?payload = "li_gzip li (li_tar li ms)"
  obtain envelope where env: "li_envelope li (zero_envelope\<lparr>en_V := EnvelopeVersion, en_SHA256 := li_hexsum li ?payload\<rparr>) = Inr envelope"
    using assms ms by (auto simp: write_package_def Let_def split: sum.splits)
  obtain dir manifest where dir: "follow node = Some dir" "dir_read dir memberManifest = Content manifest"
    using assms ms env by (auto simp: write_package_def Let_def bind_eq_Some_conv split: option.splits read_result.splits)
  obtain fs1 where wc: "writeContainer li sys torn (with_ext path ''.partial'') manifest envelope ?payload fs = (None, fs1)"
    and fin: "res' = res\<lparr>br_PayloadSHA := li_hexsum li ?payload, br_Path := path\<rparr>"
      "fs' = fs1(path := fs1 (with_ext path ''.partial''), with_ext path ''.partial'' := None)"
    using assms ms env dir by (auto simp: write_package_def Let_def path_def split: option.splits prod.splits)
  obtain w0 w cs where t: "tar_plain li ([], 0) [(memberManifest, manifest), (memberAttestation, envelope)] = Inr w0"
      "tar_plain li w0 [(memberPayload, ?payload)] = Inr w" "tar_flush w = Inr cs"
    and fs1: "fs1 = fs(with_ext path ''.partial'' \<mapsto> li_tar li cs)"
    using wc by (auto simp: writeContainer_def split: option.splits sum.splits)
  note w0 = tar_plain_Inr [OF t(1) writer_start]
  with tar_plain_Inr [OF t(2)] have w: "fst w = map (\<lambda>(n, b). (plain_header n b, b)) (container_members manifest envelope ?payload)" "writer_ok w"
    by (simp_all add: container_members_def)
  with tar_flush_complete [OF w(2) t(3)] have "cs = map (\<lambda>(n, b). (plain_header n b, b)) (container_members manifest envelope ?payload)"
    by simp
  then have "fs' = fs(path \<mapsto> li_tar li (map (\<lambda>(n, b). (plain_header n b, b)) (container_members manifest envelope ?payload)),
              with_ext path ''.partial'' := None)"
    unfolding fin fs1 by auto
  from that [OF ms(1) dir env path_def fin(1) this] show thesis .
qed


lemma verified_files:
  assumes "VerifyDir tk root resolved node opts = Inr r" "rp_OK r" "rp_Manifest r = Some m"
    and "op_Mode opts = '''' \<or> op_Mode opts = ModePackage"
  shows "let files = regular_files (walk (\<lambda>_. False) '''' node) in
    list_all (allowed_file layoutSpec (case map_of (lf_Kinds layoutSpec) (inferKind m files) of None \<Rightarrow> [] | Some s \<Rightarrow> fst s)
      (if inferKind m files = KindProcess then path_Base (TrimSpace (mf_Binary m)) else '''')) files"
proof -
  let ?files = "regular_files (walk (\<lambda>_. False) '''' node)"
  obtain bits es raw found where v: "rp_Manifest r = map_option fst (snd (verifyManifest tk raw opts))" "accepted found"
    "verifyTree (tl_quote tk) layoutSpec (tl_schema tk) root resolved node (DirN bits es) (snd (verifyManifest tk raw opts))
      (if op_Mode opts = '''' then ModePackage else op_Mode opts) = Inr found"
    using VerifyDir_manifest [OF assms(1,2)] unfolding Verify_fields by (elim exE conjE)
  obtain doc where "snd (verifyManifest tk raw opts) = Some (m, doc)"
    using v(1) assms(3) by (cases "snd (verifyManifest tk raw opts)") auto
  moreover have "(if op_Mode opts = '''' then ModePackage else op_Mode opts) = ModePackage" using assms(4) by auto
  ultimately have "accepted (package_findings (tl_quote tk) layoutSpec (tl_schema tk) (DirN bits es) ?files m doc)"
    using v(2,3) by (auto simp: verifyTree_def Let_def ModePackage_def ModeSource_def accepted_append split: option.splits sum.splits)
  from accepted_package [OF this prod.collapse refl] show ?thesis
    by (auto simp: Let_def fst_def split: option.splits)
qed


lemma WriteBDX_ok:
  assumes "WriteBDX tk li sys torn root resolved node outDir opts fs = (res, None, fs')"
  obtains r m where "VerifyDir tk root resolved node opts = Inr r" "rp_OK r" "rp_Manifest r = Some m"
    "write_package li sys torn node outDir
       (zero_result\<lparr>br_Report := Some r, br_ID := mf_ID m, br_Version := mf_Version m, br_GrantsDigest := GrantsDigest (li_hexsum li) m\<rparr>) m fs =
     (res, None, fs')"
  using assms by (auto simp: WriteBDX_def Let_def split: sum.splits if_splits option.splits)

section \<open>Reproducible payloads\<close>

text \<open>A tree with what does not enter the payload removed: the modes but for the executable bits of files, and where
  links lead.\<close>

fun canonical :: "fsnode \<Rightarrow> fsnode" where
  "canonical (FileN sz mode body) = FileN sz (if executable mode then 0x1ED else 0x1A4) body"
| "canonical (DirN mode es) = DirN 0x1ED (map (\<lambda>(n, x). (n, canonical x)) es)"
| "canonical (LinkN target x) = LinkN None None"
| "canonical (BadN err) = BadN err"

lemma walk_canonical:
  "walk skip p (canonical x) = map (\<lambda>(rel, y). (rel, canonical y)) (walk skip p x)"
  "walk_entries skip p (map (\<lambda>(n, x). (n, canonical x)) es) = map (\<lambda>(rel, y). (rel, canonical y)) (walk_entries skip p es)"
proof (induction skip p x and skip p es rule: walk_walk_entries.induct)
  case (6 skip p n x es)
  then show ?case by (cases x) (auto simp: walk.simps)
qed auto

lemma pack_canonical: "pack_entries li i w (map (\<lambda>(rel, y). (rel, canonical y)) es) = pack_entries li i w es"
proof (induction es arbitrary: w)
  case (Cons e es)
  have "executable 0x1ED" "\<not> executable 0x1A4" by (simp_all add: executable_def)
  with Cons show ?case by (cases e; cases "snd e") (auto simp: file_header_def split: sum.split)
qed simp

lemma with_ext_differs: "with_ext p ''.partial'' \<noteq> p"
proof (cases "snd p" rule: rev_cases)
  case (snoc ss s)
  then show ?thesis by (cases p) (auto simp: with_ext_def)
qed (auto simp: with_ext_def prod_eq_iff)

lemma write_package_failed:
  assumes "write_package li sys torn node outDir res m fs = (res', Some e, fs')"
  shows "fs' = fs \<or> fs' = remove_partial sys (with_ext (br_Path res') ''.partial'') fs \<or>
    (\<exists>b. fs' = remove_partial sys (with_ext (br_Path res') ''.partial'') (fs(with_ext (br_Path res') ''.partial'' \<mapsto> b)))"
proof -
  have container: "(\<exists>b. fs1 = fs(p \<mapsto> b)) \<or> fs1 = fs \<and> er \<noteq> None"
    if "writeContainer li sys torn p manifest envelope payload fs = (er, fs1)" for p manifest envelope payload er fs1
    using that by (auto simp: writeContainer_def split: option.splits sum.splits)
  show ?thesis
    using assms
    by (auto simp: write_package_def Let_def split: option.splits sum.splits read_result.splits prod.splits dest!: container)
qed

lemma verified_unmarshals:
  assumes "VerifyDir tk root resolved node opts = Inr r" "rp_OK r" "rp_Manifest r = Some m"
    and "follow node = Some dir" "dir_read dir memberManifest = Content raw"
  shows "tl_unmarshal tk raw = Inr m"
proof -
  obtain bits es raw' where v: "follow node = Some (DirN bits es)" "dir_read (DirN bits es) (lf_Manifest layoutSpec) = Content raw'"
    "rp_Manifest r = map_option fst (snd (verifyManifest tk raw' opts))"
    using VerifyDir_manifest [OF assms(1,2)] unfolding Verify_fields by (elim exE conjE)
  then have "raw' = raw" using assms(4,5) by (simp add: layoutSpec_def memberManifest_def)
  with v(3) assms(3) show ?thesis by (auto simp: verifyManifest_def Let_def split: sum.splits if_splits)
qed

section \<open>Properties\<close>



text \<open>C26. A package appears whole or not at all. Whatever call of the operating system fails, only the path of the package and
  its partial copy are touched: after an error the package's path holds what it held before, and after success it
  holds the complete container, with the payload whose digest is reported, and the partial copy is gone.\<close>

theorem package_write_is_atomic:
  assumes "WriteBDX tk li sys torn root resolved node outDir opts fs = (res, err, fs')"
    and "tmp = with_ext (br_Path res) ''.partial''"
  shows "(\<forall>p. p = tmp \<or> fs' p = fs p \<or> err = None \<and> p = br_Path res) \<and>
    (err \<noteq> None \<and> sys RemovePartial = None \<longrightarrow> fs' = fs \<or> fs' = fs(tmp := None)) \<and>
    (err = None \<longrightarrow> fs' tmp = None \<and>
       (\<exists>manifest envelope payload. br_PayloadSHA res = li_hexsum li payload \<and>
          fs' (br_Path res) = Some (li_tar li (map (\<lambda>(n, b). (plain_header n b, b)) (container_members manifest envelope payload)))))"
proof (cases err)
  case None
  obtain m r0 where "write_package li sys torn node outDir r0 m fs = (res, None, fs')"
    using WriteBDX_ok [OF assms(1) [unfolded None]] by blast
  then obtain ms manifest envelope where "br_PayloadSHA res = li_hexsum li (li_gzip li (li_tar li ms))"
    "fs' = fs(br_Path res \<mapsto> li_tar li (map (\<lambda>(n, b). (plain_header n b, b)) (container_members manifest envelope (li_gzip li (li_tar li ms)))),
        tmp := None)"
    unfolding assms(2) by (rule write_package_ok) simp
  then show ?thesis using None with_ext_differs [of "br_Path res"] by (auto simp: assms(2))
next
  case (Some e)
  have "fs' = fs \<or> fs' = remove_partial sys tmp fs \<or> (\<exists>b. fs' = remove_partial sys tmp (fs(tmp \<mapsto> b)))"
  proof (cases "VerifyDir tk root resolved node opts")
    case (Inr r)
    then show ?thesis
    proof (cases "rp_OK r \<and> rp_Manifest r \<noteq> None")
      case True
      then obtain m r0 where "write_package li sys torn node outDir r0 m fs = (res, Some e, fs')"
        using assms(1) Inr Some by (auto simp: WriteBDX_def Let_def)
      from write_package_failed [OF this] show ?thesis by (simp add: assms(2))
    qed (use assms(1) Inr in \<open>auto simp: WriteBDX_def Let_def split: option.splits if_splits\<close>)
  qed (use assms(1) in \<open>simp add: WriteBDX_def\<close>)
  then show ?thesis using Some by (auto simp: remove_partial_def split: if_splits)
qed


text \<open>C35. What was written is what is read. When reading undoes what writing an archive and encoding an envelope do, and
  the two small members are within the limit of the reader, \<^verbatim>\<open>Inspect\<close> of a written package answers the manifest that
  was verified and an unsigned envelope with the digest of the payload, and the payload's own digest is that one.\<close>

theorem inspect_reads_what_was_written:
  assumes "WriteBDX tk li sys torn root resolved node outDir opts fs = (res, None, fs')" and "fs' (br_Path res) = Some c"
    and "\<And>ms. li_tar li ms = c \<Longrightarrow> li_untar li c = (map (\<lambda>(h, b). (h, b, None)) ms, None)"
    and "\<And>e b. li_envelope li e = Inr b \<Longrightarrow> li_unenvelope li zero_envelope b = Inr e \<and> int (length b) \<le> maxMetadataBytes"
    and "\<And>dir raw. follow node = Some dir \<Longrightarrow> dir_read dir memberManifest = Content raw \<Longrightarrow> int (length raw) \<le> maxMetadataBytes"
  shows "\<exists>r m payload. br_Report res = Some r \<and> rp_Manifest r = Some m \<and>
    Inspect (tl_unmarshal tk) li base (Inr c) =
      (\<lparr>bx_Manifest = Some m, bx_Attestation = \<lparr>en_V = 1, en_SHA256 = br_PayloadSHA res, en_Publisher = None, en_Store = None\<rparr>,
        bx_PayloadSize = int (length payload)\<rparr>, None) \<and>
    OpenPayload li base (Inr c) = Inr (payload, None) \<and> PayloadSHA li base (Inr c) = Inr (br_PayloadSHA res)"
proof -
  obtain r m where r: "VerifyDir tk root resolved node opts = Inr r" "rp_OK r" "rp_Manifest r = Some m"
    "write_package li sys torn node outDir
       (zero_result\<lparr>br_Report := Some r, br_ID := mf_ID m, br_Version := mf_Version m, br_GrantsDigest := GrantsDigest (li_hexsum li) m\<rparr>) m fs =
     (res, None, fs')" using WriteBDX_ok [OF assms(1)] .
  obtain ms dir manifest envelope where w: "follow node = Some dir" "dir_read dir memberManifest = Content manifest"
    "li_envelope li (zero_envelope\<lparr>en_V := EnvelopeVersion, en_SHA256 := li_hexsum li (li_gzip li (li_tar li ms))\<rparr>) = Inr envelope"
    "br_Report res = Some r" "br_PayloadSHA res = li_hexsum li (li_gzip li (li_tar li ms))"
    "fs' (br_Path res) = Some (li_tar li (map (\<lambda>(n, b). (plain_header n b, b)) (container_members manifest envelope (li_gzip li (li_tar li ms)))))"
    by (rule write_package_ok [OF r(4)]) (simp add: with_ext_differs [symmetric])
  define payload where "payload = li_gzip li (li_tar li ms)"
  have read: "li_untar li c =
      ([(plain_header memberManifest manifest, manifest, None), (plain_header memberAttestation envelope, envelope, None),
        (plain_header memberPayload payload, payload, None)], None)"
    using assms(3) assms(2) w(6) by (simp add: container_members_def payload_def)
  have names: "memberManifest \<noteq> memberAttestation" "memberManifest \<noteq> memberPayload" "memberAttestation \<noteq> memberPayload"
    by (simp_all add: memberManifest_def memberAttestation_def memberPayload_def)
  have "tl_unmarshal tk manifest = Inr m" by (rule verified_unmarshals [OF r(1-3) w(1,2)])
  moreover have "li_unenvelope li zero_envelope envelope = Inr \<lparr>en_V = 1, en_SHA256 = br_PayloadSHA res, en_Publisher = None, en_Store = None\<rparr>"
    using assms(4) [OF w(3)] by (simp add: w(5) zero_envelope_def EnvelopeVersion_def)
  moreover have "int (length manifest) \<le> maxMetadataBytes" "int (length envelope) \<le> maxMetadataBytes"
    using assms(5) [OF w(1,2)] assms(4) [OF w(3)] by simp_all
  ultimately have "Inspect (tl_unmarshal tk) li base (Inr c) =
      (\<lparr>bx_Manifest = Some m, bx_Attestation = \<lparr>en_V = 1, en_SHA256 = br_PayloadSHA res, en_Publisher = None, en_Store = None\<rparr>,
        bx_PayloadSize = int (length payload)\<rparr>, None)"
    using names by (simp add: Inspect_def read plain_header_def missingMembers_def)
  moreover have opened: "OpenPayload li base (Inr c) = Inr (payload, None)"
    using names by (simp add: OpenPayload_def read plain_header_def)
  moreover have "PayloadSHA li base (Inr c) = Inr (br_PayloadSHA res)"
    unfolding PayloadSHA_def opened by (simp add: w(5) payload_def)
  ultimately show ?thesis using w(4) r(3) by blast
qed

text \<open>Packing is reproducible: two trees that differ in modes that keep the executable bits of files, and in where their
  links lead, have the same payload.\<close>

theorem payload_is_reproducible:
  assumes "canonical x = canonical y"
  shows "writePayload li sys x i = writePayload li sys y i"
proof -
  have "payload_members li z i = payload_members li (canonical z) i" for z
    by (simp add: payload_members_def walk_canonical pack_canonical)
  then show ?thesis using assms by (metis writePayload_def)
qed

lemma linked_root_packs_nothing:
  assumes "WriteBDX tk li sys torn root resolved (LinkN t x) outDir opts fs = (res, None, fs')"
  shows "br_PayloadSHA res = li_hexsum li (li_gzip li (li_tar li []))"
proof -
  obtain m r0 where "write_package li sys torn (LinkN t x) outDir r0 m fs = (res, None, fs')" using WriteBDX_ok [OF assms] .
  then show ?thesis by (rule write_package_ok) (simp add: payload_members_def tar_flush_def)
qed

lemma package_path_inside:
  assumes "WriteBDX tk li sys torn root resolved node outDir opts fs = (res, None, fs')"
    and "CHR ''/'' \<notin> set (br_ID res)" "CHR ''/'' \<notin> set (br_Version res)"
  shows "br_Path res = (fst outDir, snd outDir @ [br_ID res @ ''-'' @ br_Version res @ Ext])"
proof -
  obtain r m where w: "write_package li sys torn node outDir
       (zero_result\<lparr>br_Report := Some r, br_ID := mf_ID m, br_Version := mf_Version m, br_GrantsDigest := GrantsDigest (li_hexsum li) m\<rparr>) m fs =
     (res, None, fs')" using WriteBDX_ok [OF assms(1)] .
  have p: "br_Path res = filepath_Join outDir (mf_ID m @ ''-'' @ mf_Version m @ Ext)" "br_ID res = mf_ID m" "br_Version res = mf_Version m"
    by (rule write_package_ok [OF w], simp)+
  let ?n = "br_ID res @ ''-'' @ br_Version res @ Ext"
  have "CHR ''/'' \<notin> set ?n" using assms(2,3) by (simp add: Ext_def)
  moreover have "?n \<noteq> ''''" "?n \<noteq> ''.''" "?n \<noteq> ''..''" by (auto simp: Ext_def dest: arg_cong [where f = length])
  ultimately show ?thesis by (simp add: p filepath_Join_def split_on_single clean_step_def)
qed


section \<open>Examples\<close>

definition demo_package :: fsnode where
  "demo_package = DirN 0x1ED [(''README.md'', FileN 2 0x1A4 ''hi''), (''plugin.json'', FileN 2 0x1A4 ''{}'')]"

definition demo_envelope :: Envelope where
  "demo_envelope = \<lparr>en_V = 1, en_SHA256 = ''d'', en_Publisher = None, en_Store = None\<rparr>"

definition demo_container :: "tar_member list" where
  "demo_container = map (\<lambda>(n, b). (plain_header n b, b)) (container_members ''{}'' ''e'' ''t'')"

definition demo_library :: library where
  "demo_library =
     \<lparr>li_refuses = (\<lambda>_. None), li_tar = (\<lambda>ms. if ms = demo_container then ''c'' else ''t''),
      li_untar = (\<lambda>_. (map (\<lambda>(h, b). (h, b, None)) demo_container, None)), li_gzip = (\<lambda>b. b), li_hexsum = (\<lambda>_. ''d''),
      li_envelope = (\<lambda>e. if e = demo_envelope then Inr ''e'' else Inl ''other''), li_unenvelope = (\<lambda>_ _. Inr demo_envelope)\<rparr>"

definition demo_write :: "BDXResult \<times> string option \<times> files" where
  "demo_write = WriteBDX demo_tools demo_library (\<lambda>_. None) [] ''/p'' (Inr (True, [''p''])) demo_package (True, [''out'']) demo_options Map.empty"

lemma demo_written:
  "fst (snd demo_write) = None" "snd (snd demo_write) (br_Path (fst demo_write)) = Some ''c''"
  by code_simp+

lemma demo_write_ok:
  "WriteBDX demo_tools demo_library (\<lambda>_. None) [] ''/p'' (Inr (True, [''p''])) demo_package (True, [''out'']) demo_options Map.empty =
   (fst demo_write, None, snd (snd demo_write))"
  using demo_written(1) by (simp add: demo_write_def prod_eq_iff)


theorem package_write_is_atomic_witness:
  "snd (snd demo_write) (with_ext (br_Path (fst demo_write)) ''.partial'') = None"
  using package_write_is_atomic [OF demo_write_ok refl] by simp

theorem inspect_reads_what_was_written_witness:
  "\<exists>m (payload :: bytes). Inspect (tl_unmarshal demo_tools) demo_library ''p.bdx'' (Inr ''c'') =
      (\<lparr>bx_Manifest = Some m, bx_Attestation = \<lparr>en_V = 1, en_SHA256 = br_PayloadSHA (fst demo_write), en_Publisher = None, en_Store = None\<rparr>,
        bx_PayloadSize = int (length payload)\<rparr>, None)"
proof -
  have "li_tar demo_library ms = ''c'' \<Longrightarrow> li_untar demo_library ''c'' = (map (\<lambda>(h, b). (h, b, None)) ms, None)" for ms
    by (auto simp: demo_library_def split: if_splits)
  moreover have "li_envelope demo_library e = Inr b \<Longrightarrow>
      li_unenvelope demo_library zero_envelope b = Inr e \<and> int (length b) \<le> maxMetadataBytes" for e b
    by (auto simp: demo_library_def maxMetadataBytes_def split: if_splits)
  moreover have "follow demo_package = Some dir \<Longrightarrow> dir_read dir memberManifest = Content raw \<Longrightarrow> int (length raw) \<le> maxMetadataBytes" for dir raw
    by (auto simp: demo_package_def dir_read_def dir_entry_def memberManifest_def maxMetadataBytes_def)
  ultimately have "\<exists>r m payload. br_Report (fst demo_write) = Some r \<and> rp_Manifest r = Some m \<and>
    Inspect (tl_unmarshal demo_tools) demo_library ''p.bdx'' (Inr ''c'') =
      (\<lparr>bx_Manifest = Some m, bx_Attestation = \<lparr>en_V = 1, en_SHA256 = br_PayloadSHA (fst demo_write), en_Publisher = None, en_Store = None\<rparr>,
        bx_PayloadSize = int (length payload)\<rparr>, None) \<and>
    OpenPayload demo_library ''p.bdx'' (Inr ''c'') = Inr (payload, None) \<and> PayloadSHA demo_library ''p.bdx'' (Inr ''c'') = Inr (br_PayloadSHA (fst demo_write))"
    using demo_write_ok demo_written(2) by (intro inspect_reads_what_was_written)
  then show ?thesis by blast
qed

theorem payload_is_reproducible_witness:
  "writePayload demo_library (\<lambda>_. None) (DirN 0x1C0 [(''run'', FileN 2 0x1C0 ''#!'')]) ''x'' =
   writePayload demo_library (\<lambda>_. None) (DirN 0x1ED [(''run'', FileN 2 0x1ED ''#!'')]) ''x''"
  by (rule payload_is_reproducible) (simp add: executable_def)

text \<open>A version can lead out of the directory a package is written to: the contract asks of a version only that there is
  one, and the path of the package is joined from it and cleaned. A plugin of the version \<^verbatim>\<open>1/../../x\<close> passes and is
  written beside the output directory, not into it.\<close>

theorem version_escapes_output:
  "let tk = demo_tools\<lparr>tl_unmarshal := (\<lambda>_. Inr (demo_plugin\<lparr>mf_Kind := ''builtin'', mf_Version := ''1/../../x''\<rparr>))\<rparr>;
       result = WriteBDX tk demo_library (\<lambda>_. None) [] ''/p'' (Inr (True, [''p''])) demo_package (True, [''out'', ''new'']) demo_options Map.empty
   in fst (snd result) = None \<and> br_Path (fst result) = (True, [''out'', ''x.bdx'']) \<and> snd (snd result) (True, [''out'', ''x.bdx'']) \<noteq> None"
  by code_simp


end
