(* ===== verification/Ordered.thy ===== *)
theory Ordered
  imports Json
begin

text \<open>
  The ordered JSON object of the migration, \<^verbatim>\<open>src/v2/plugin/contract/ordered.go\<close>: the keys in order beside a map of the
  values. A raw message is the JSON value it holds; its white space and its escapes are lost in the model, and in the
  code when the document is indented.
\<close>

record jsonObject =
  jo_keys :: "string list"
  jo_vals :: "string \<rightharpoonup> json"

definition empty_object :: jsonObject where
  "empty_object = \<lparr>jo_keys = [], jo_vals = Map.empty\<rparr>"

definition jo_has :: "jsonObject \<Rightarrow> string \<Rightarrow> bool" where
  "jo_has obj key = (jo_vals obj key \<noteq> None)"

definition jo_get :: "jsonObject \<Rightarrow> string \<Rightarrow> json option" where
  "jo_get obj key = jo_vals obj key"

text \<open>Unmarshalling into a string succeeds for a string, and for null, which leaves the empty string.\<close>

definition as_str :: "json \<Rightarrow> string option" where
  "as_str v = (case v of JString s \<Rightarrow> Some s | JNull \<Rightarrow> Some '''' | _ \<Rightarrow> None)"

definition jo_str :: "jsonObject \<Rightarrow> string \<Rightarrow> string option" where
  "jo_str obj key = Option.bind (jo_vals obj key) as_str"

definition jo_set :: "jsonObject \<Rightarrow> string \<Rightarrow> json \<Rightarrow> jsonObject" where
  "jo_set obj key val =
     \<lparr>jo_keys = (if jo_has obj key then jo_keys obj else jo_keys obj @ [key]), jo_vals = (jo_vals obj)(key \<mapsto> val)\<rparr>"

definition add_member :: "jsonObject \<Rightarrow> string \<times> json \<Rightarrow> jsonObject" where
  \<comment> \<open>one round of the loop of \<^verbatim>\<open>decodeObject\<close>\<close>
  "add_member obj m = jo_set obj (fst m) (snd m)"

definition fmt_token :: "json \<Rightarrow> string" where
  \<comment> \<open>\<^verbatim>\<open>%v\<close> of the first token of a value\<close>
  "fmt_token v =
     (case v of JNull \<Rightarrow> ''<nil>'' | JBool b \<Rightarrow> if b then ''true'' else ''false'' | JNumber n \<Rightarrow> n | JString s \<Rightarrow> s
      | JArray _ \<Rightarrow> ''['' | JObject _ \<Rightarrow> ''{'')"

definition decodeObject :: "json \<Rightarrow> string + jsonObject" where
  "decodeObject v =
     (case v of
        JObject ms \<Rightarrow> Inr (foldl add_member empty_object ms)
      | _ \<Rightarrow> Inl (''want a JSON object, got '' @ fmt_token v))"

text \<open>\<^verbatim>\<open>slices.Index\<close> and \<^verbatim>\<open>slices.Insert\<close> after the first occurrence.\<close>

fun insert_key_after :: "string \<Rightarrow> string \<Rightarrow> string list \<Rightarrow> string list option" where
  "insert_key_after anchor key [] = None"
| "insert_key_after anchor key (k # ks) =
     (if k = anchor then Some (k # key # ks) else map_option (\<lambda>r. k # r) (insert_key_after anchor key ks))"

definition insertAfter :: "jsonObject \<Rightarrow> string \<Rightarrow> string \<Rightarrow> json \<Rightarrow> jsonObject" where
  "insertAfter obj anchor key val =
     (if jo_has obj key then obj\<lparr>jo_vals := (jo_vals obj)(key \<mapsto> val)\<rparr>
      else case insert_key_after anchor key (jo_keys obj) of
        None \<Rightarrow> jo_set obj key val
      | Some ks \<Rightarrow> \<lparr>jo_keys = ks, jo_vals = (jo_vals obj)(key \<mapsto> val)\<rparr>)"

definition jo_prepend :: "jsonObject \<Rightarrow> string \<Rightarrow> json \<Rightarrow> jsonObject" where
  "jo_prepend obj key val =
     (if jo_has obj key then obj\<lparr>jo_vals := (jo_vals obj)(key \<mapsto> val)\<rparr>
      else \<lparr>jo_keys = key # jo_keys obj, jo_vals = (jo_vals obj)(key \<mapsto> val)\<rparr>)"

definition jo_delete :: "jsonObject \<Rightarrow> string \<Rightarrow> jsonObject" where
  "jo_delete obj key =
     (if \<not> jo_has obj key then obj
      else \<lparr>jo_keys = filter (\<lambda>k. k \<noteq> key) (jo_keys obj), jo_vals = (jo_vals obj)(key := None)\<rparr>)"

definition jo_empty :: "jsonObject \<Rightarrow> bool" where
  "jo_empty obj = (jo_keys obj = [])"

text \<open>The value \<^verbatim>\<open>MarshalJSON\<close> writes.\<close>

definition jo_value :: "jsonObject \<Rightarrow> json" where
  "jo_value obj =
     JObject (map (\<lambda>key. (key, case jo_vals obj key of Some v \<Rightarrow> v | None \<Rightarrow> JNull)) (jo_keys obj))"

section \<open>The invariant\<close>

definition jo_ok :: "jsonObject \<Rightarrow> bool" where
  "jo_ok obj \<longleftrightarrow> distinct (jo_keys obj) \<and> set (jo_keys obj) = dom (jo_vals obj)"

named_theorems jo \<open>what the operations of an object do\<close>

lemma insert_key_after_Some:
  "insert_key_after anchor key ks = Some rs \<Longrightarrow>
   set rs = insert key (set ks) \<and> (key \<notin> set ks \<and> distinct ks \<longrightarrow> distinct rs) \<and>
   (\<not> P key \<longrightarrow> filter P rs = filter P ks)"
  by (induction ks arbitrary: rs) (auto split: if_splits)

lemma jo_ok_empty [jo]: "jo_ok empty_object"
  by (simp add: jo_ok_def empty_object_def)

lemma jo_ok_set [jo]: "jo_ok obj \<Longrightarrow> jo_ok (jo_set obj key val)"
  by (auto simp: jo_ok_def jo_set_def jo_has_def)

lemma jo_ok_prepend [jo]: "jo_ok obj \<Longrightarrow> jo_ok (jo_prepend obj key val)"
  by (auto simp: jo_ok_def jo_prepend_def jo_has_def)

lemma jo_ok_delete [jo]: "jo_ok obj \<Longrightarrow> jo_ok (jo_delete obj key)"
  by (auto simp: jo_ok_def jo_delete_def jo_has_def)

lemma jo_ok_insertAfter [jo]: "jo_ok obj \<Longrightarrow> jo_ok (insertAfter obj anchor key val)"
proof (cases "jo_has obj key")
  case False
  assume ok: "jo_ok obj"
  show ?thesis
  proof (cases "insert_key_after anchor key (jo_keys obj)")
    case None
    with ok False show ?thesis by (simp add: insertAfter_def jo_ok_set)
  next
    case (Some rs)
    with ok False insert_key_after_Some [OF Some] show ?thesis
      by (auto simp: insertAfter_def jo_ok_def jo_has_def)
  qed
qed (auto simp: insertAfter_def jo_ok_def jo_has_def)

lemma jo_vals_simps [jo]:
  "jo_vals (jo_set obj key val) = (jo_vals obj)(key \<mapsto> val)"
  "jo_vals (jo_prepend obj key val) = (jo_vals obj)(key \<mapsto> val)"
  "jo_vals (insertAfter obj anchor key val) = (jo_vals obj)(key \<mapsto> val)"
  "jo_vals (jo_delete obj key) = (jo_vals obj)(key := None)"
  by (auto simp: jo_set_def jo_prepend_def insertAfter_def jo_delete_def jo_has_def split: option.split)

text \<open>The order of the other keys.\<close>

lemma jo_keys_filter [jo]:
  assumes "\<not> P key"
  shows "filter P (jo_keys (jo_set obj key val)) = filter P (jo_keys obj)"
    and "filter P (jo_keys (jo_prepend obj key val)) = filter P (jo_keys obj)"
    and "filter P (jo_keys (insertAfter obj anchor key val)) = filter P (jo_keys obj)"
    and "filter P (jo_keys (jo_delete obj key)) = filter P (jo_keys obj)"
  using assms insert_key_after_Some [where P = P]
  by (auto simp: jo_set_def jo_prepend_def insertAfter_def jo_delete_def filter_filter conj_commute split: option.split
      intro!: filter_cong)

text \<open>Writing what is there changes nothing.\<close>

lemma jo_same:
  "jo_vals obj key = Some val \<Longrightarrow> jo_set obj key val = obj"
  "jo_vals obj key = Some val \<Longrightarrow> jo_prepend obj key val = obj"
  "jo_vals obj key = Some val \<Longrightarrow> insertAfter obj anchor key val = obj"
  "jo_vals obj key = None \<Longrightarrow> jo_delete obj key = obj"
  by (simp_all add: jo_set_def jo_prepend_def insertAfter_def jo_delete_def jo_has_def fun_upd_idem)

section \<open>Reading back\<close>

lemma add_members:
  "distinct (map fst ms) \<Longrightarrow> (\<And>k. k \<in> fst ` set ms \<Longrightarrow> \<not> jo_has obj k) \<Longrightarrow>
   foldl add_member obj ms = \<lparr>jo_keys = jo_keys obj @ map fst ms, jo_vals = jo_vals obj ++ map_of ms\<rparr>"
proof (induction ms arbitrary: obj)
  case (Cons m ms)
  have "\<not> jo_has (add_member obj m) k" if "k \<in> fst ` set ms" for k
  proof -
    have "fst m \<notin> fst ` set ms" using Cons.prems(1) by simp
    with that have "k \<noteq> fst m" by blast
    moreover have "\<not> jo_has obj k" using Cons.prems(2) that by simp
    ultimately show ?thesis by (simp add: add_member_def jo_has_def jo)
  qed
  with Cons have "foldl add_member obj (m # ms) =
      \<lparr>jo_keys = jo_keys (add_member obj m) @ map fst ms, jo_vals = jo_vals (add_member obj m) ++ map_of ms\<rparr>" by simp
  moreover have "jo_keys (add_member obj m) = jo_keys obj @ [fst m]" using Cons.prems(2) by (simp add: add_member_def jo_set_def)
  moreover have "jo_vals (add_member obj m) ++ map_of ms = jo_vals obj ++ map_of (m # ms)"
    using Cons.prems(1)
    by (auto simp: add_member_def jo fun_eq_iff map_add_def split: option.split) (metis fst_conv image_eqI map_of_SomeD)
  ultimately show ?case by (simp only: append.simps append_assoc list.map)
qed simp

lemma decode_value:
  assumes "jo_ok obj"
  shows "decodeObject (jo_value obj) = Inr obj"
proof -
  let ?ms = "map (\<lambda>key. (key, case jo_vals obj key of Some v \<Rightarrow> v | None \<Rightarrow> JNull)) (jo_keys obj)"
  have keys: "map fst ?ms = jo_keys obj" by (simp add: comp_def)
  have "map_of ?ms = jo_vals obj"
  proof
    fix k
    show "map_of ?ms k = jo_vals obj k"
      using assms by (cases "k \<in> set (jo_keys obj)") (auto simp: jo_ok_def map_of_map_restrict restrict_map_def dom_def)
  qed
  moreover have "foldl add_member empty_object ?ms = \<lparr>jo_keys = map fst ?ms, jo_vals = map_of ?ms\<rparr>"
    using assms add_members [of ?ms empty_object] unfolding keys by (simp add: jo_ok_def empty_object_def jo_has_def)
  ultimately show ?thesis by (simp add: decodeObject_def jo_value_def comp_def)
qed

lemma decodeObject_ok [jo]: "decodeObject v = Inr obj \<Longrightarrow> jo_ok obj"
proof -
  have "jo_ok (foldl add_member obj ms)" if "jo_ok obj" for ms obj
    using that by (induction ms arbitrary: obj) (auto simp: add_member_def jo)
  then show "decodeObject v = Inr obj \<Longrightarrow> jo_ok obj"
    by (auto simp: decodeObject_def jo_ok_empty split: json.splits)
qed

end
