(* ===== verification/Migrate.thy ===== *)
theory Migrate
  imports Contract Ordered Go_Encoding
begin

text \<open>
  The migration of a version 1 manifest, \<^verbatim>\<open>src/v2/plugin/contract/migrate.go\<close>. The directory of the input is a tree of
  theory \<open>Go_Files\<close>, \<open>None\<close> for the empty path. Decoding the bytes and indenting the result are \<^verbatim>\<open>encoding/json\<close>,
  the parameters of \<open>MigrateV1\<close>.
\<close>

record MigrateInput =
  mi_Dir :: "fsnode option"
  mi_PublisherID :: string
  mi_FirstParty :: bool
  mi_Display :: string
  mi_Text :: string
  mi_Kind :: string

section \<open>Files and values\<close>

fun node_at :: "fsnode \<Rightarrow> string list \<Rightarrow> fsnode option" where
  "node_at x [] = Some x"
| "node_at x (n # ns) = (case dir_entry x n of None \<Rightarrow> None | Some y \<Rightarrow> node_at y ns)"

definition fileExists :: "fsnode option \<Rightarrow> string list \<Rightarrow> bool" where
  "fileExists d path =
     (case Option.bind d follow of None \<Rightarrow> False
      | Some x \<Rightarrow> (case node_at x path of Some (FileN _ _ _) \<Rightarrow> True | _ \<Rightarrow> False))"

text \<open>\<^verbatim>\<open>json.Unmarshal\<close> into a list of strings, and into the labels of the navigation, whose field name is matched
  without regard to case.\<close>

fun all_some :: "'a option list \<Rightarrow> 'a list option" where
  "all_some [] = Some []"
| "all_some (x # xs) = (case x of None \<Rightarrow> None | Some y \<Rightarrow> map_option (\<lambda>ys. y # ys) (all_some xs))"

definition as_strings :: "json \<Rightarrow> string list option" where
  "as_strings v = (case v of JNull \<Rightarrow> Some [] | JArray vs \<Rightarrow> all_some (map as_str vs) | _ \<Rightarrow> None)"

fun label_of :: "string \<Rightarrow> (string \<times> json) list \<Rightarrow> string option" where
  "label_of found [] = Some found"
| "label_of found ((k, v) # ms) =
     (if \<not> EqualFold k ''label'' then label_of found ms
      else case v of JString s \<Rightarrow> label_of s ms | JNull \<Rightarrow> label_of found ms | _ \<Rightarrow> None)"

definition nav_label :: "json \<Rightarrow> string option" where
  "nav_label v = (case v of JNull \<Rightarrow> Some '''' | JObject ms \<Rightarrow> label_of '''' ms | _ \<Rightarrow> None)"

definition nav_labels :: "json \<Rightarrow> string list option" where
  "nav_labels v = (case v of JNull \<Rightarrow> Some [] | JArray vs \<Rightarrow> all_some (map nav_label vs) | _ \<Rightarrow> None)"

section \<open>The steps\<close>

definition migrateKind :: "jsonObject \<Rightarrow> MigrateInput \<Rightarrow> string + string" where
  "migrateKind doc inp =
     (let given = TrimSpace (mi_Kind inp); written = (case jo_str doc ''kind'' of Some k \<Rightarrow> TrimSpace k | None \<Rightarrow> '''');
          spawn = (jo_get doc ''spawn'' = Some (JBool True)) in
      if given \<noteq> '''' then Inr given
      else if written \<noteq> '''' then Inr written
      else if spawn \<or> jo_has doc ''binary'' \<or> jo_has doc ''socket'' then Inr KindProcess
      else if jo_has doc ''family'' then Inr KindFamily
      else if fileExists (mi_Dir inp) [''ui'', ''index.html''] \<and> \<not> jo_has doc ''binary'' then Inr KindUI
      else if fileExists (mi_Dir inp) [''plugin.go''] then Inr KindBuiltin
      else Inl (''contract: cannot tell what kind of package this is; pass one of '' @ join_str '', '' Kinds))"

definition all_digits :: "string \<Rightarrow> bool" where
  \<comment> \<open>\<^verbatim>\<open>^\d+$\<close>\<close>
  "all_digits s = (s \<noteq> '''' \<and> list_all is_digit s)"

definition migrateVersion :: "jsonObject \<Rightarrow> jsonObject" where
  "migrateVersion doc =
     (case jo_str doc ''version'' of
        None \<Rightarrow> doc
      | Some raw \<Rightarrow>
          (let v = TrimSpace raw in
           if all_digits v then jo_set doc ''version'' (JString (v @ ''.0.0''))
           else case split_on (CHR ''.'') v of
             [a, b] \<Rightarrow> if all_digits a \<and> all_digits b then jo_set doc ''version'' (JString (v @ ''.0'')) else doc
           | _ \<Rightarrow> doc))"

definition publisher_value :: "string \<Rightarrow> string \<Rightarrow> json" where
  "publisher_value i name = JObject [(''id'', JString i), (''name'', JString name)]"

definition migratePublisher :: "jsonObject \<Rightarrow> MigrateInput \<Rightarrow> string + jsonObject" where
  "migratePublisher doc inp =
     (case jo_str doc ''publisher'' of
        Some name \<Rightarrow> Inr (jo_set doc ''publisher'' (publisher_value (TrimSpace name) (TrimSpace name)))
      | None \<Rightarrow>
          if jo_has doc ''publisher'' then Inr doc
          else let i = TrimSpace (mi_PublisherID inp) in
            if i \<noteq> '''' then Inr (jo_set doc ''publisher'' (publisher_value i i))
            else if mi_FirstParty inp then Inr (jo_set doc ''publisher'' (publisher_value ''bytedesk'' ''ByteDesk''))
            else Inl ''contract: this manifest has no publisher; supply one, or declare the package first-party'')"

definition displayName :: "jsonObject \<Rightarrow> string \<Rightarrow> MigrateInput \<Rightarrow> string" where
  "displayName doc i inp =
     (if TrimSpace (mi_Display inp) \<noteq> '''' then TrimSpace (mi_Display inp)
      else case Option.bind (jo_get doc ''nav'') nav_labels of
        Some (label # _) \<Rightarrow> if TrimSpace label \<noteq> '''' then TrimSpace label else i
      | _ \<Rightarrow> i)"

definition readmeBadge :: "string \<Rightarrow> bool" where
  \<comment> \<open>\<^verbatim>\<open>^\[!\[.*\)$\<close>\<close>
  "readmeBadge line = (4 \<le> length line \<and> HasPrefix line ''[!['' \<and> HasSuffix line '')'')"

text \<open>The loop of \<^verbatim>\<open>firstParagraph\<close>: \<open>lines\<close> is what was collected.\<close>

fun paragraph_lines :: "string list \<Rightarrow> string list \<Rightarrow> string list" where
  "paragraph_lines lines [] = lines"
| "paragraph_lines lines (raw # rest) =
     (let line = TrimSpace (if HasSuffix raw [CHR 0x0D] then butlast raw else raw) in
      if lines = [] then
        (if line = '''' \<or> HasPrefix line ''#'' \<or> readmeBadge line then paragraph_lines [] rest
         else paragraph_lines [line] rest)
      else if line = '''' \<or> HasPrefix line ''#'' then lines
      else paragraph_lines (lines @ [line]) rest)"

definition firstParagraph :: "string \<Rightarrow> string" where
  "firstParagraph s = join_str '' '' (paragraph_lines [] (split_on (CHR 0x0A) s))"

definition description :: "MigrateInput \<Rightarrow> string" where
  "description inp =
     (if TrimSpace (mi_Text inp) \<noteq> '''' then TrimSpace (mi_Text inp)
      else case Option.bind (mi_Dir inp) follow of
        None \<Rightarrow> ''''
      | Some d \<Rightarrow> (case dir_read d ''README.md'' of Content raw \<Rightarrow> firstParagraph raw | _ \<Rightarrow> ''''))"

definition set_missing :: "jsonObject \<Rightarrow> string \<Rightarrow> bool \<Rightarrow> string \<Rightarrow> jsonObject" where
  \<comment> \<open>\<^verbatim>\<open>if _, ok := o.str(key); !ok && wanted\<close>\<close>
  "set_missing obj key wanted val = (if jo_str obj key = None \<and> wanted then jo_set obj key (JString val) else obj)"

definition icon_file :: "fsnode option \<Rightarrow> string option" where
  "icon_file d = List.find (\<lambda>n. fileExists d [''images'', n]) [''icon.svg'', ''icon.png'', ''icon.webp'']"

definition identity_images :: "MigrateInput \<Rightarrow> jsonObject \<Rightarrow> jsonObject" where
  "identity_images inp i =
     (if jo_has i ''images'' then i
      else case icon_file (mi_Dir inp) of
        None \<Rightarrow> i
      | Some n \<Rightarrow> jo_set i ''images'' (JObject [(''icon'', JString (''images/'' @ n))]))"

definition identity_of :: "jsonObject \<Rightarrow> string \<Rightarrow> MigrateInput \<Rightarrow> jsonObject \<Rightarrow> jsonObject" where
  "identity_of doc i inp identity =
     (let a = set_missing identity ''displayName'' True (displayName doc i inp);
          b = set_missing a ''description'' True (description inp);
          c = (case jo_str doc ''homepage'' of None \<Rightarrow> b | Some home \<Rightarrow> set_missing b ''homepage'' True (TrimSpace home));
          d = set_missing c ''readme'' (fileExists (mi_Dir inp) [''README.md'']) ''README.md'';
          e = set_missing d ''changelog'' (fileExists (mi_Dir inp) [''CHANGELOG.md'']) ''CHANGELOG.md'' in
      identity_images inp e)"

definition migrateIdentity :: "jsonObject \<Rightarrow> string \<Rightarrow> MigrateInput \<Rightarrow> jsonObject" where
  "migrateIdentity doc i inp =
     (let identity = (case jo_get doc ''identity'' of
            None \<Rightarrow> empty_object
          | Some raw \<Rightarrow> (case decodeObject raw of Inr existing \<Rightarrow> existing | Inl _ \<Rightarrow> empty_object)) in
      insertAfter (jo_delete doc ''homepage'') ''version'' ''identity'' (jo_value (identity_of doc i inp identity)))"

definition migrateProtocol :: "jsonObject \<Rightarrow> jsonObject" where
  "migrateProtocol doc =
     (case jo_get doc ''protocol'' of
        None \<Rightarrow> doc
      | Some raw \<Rightarrow>
          (case decodeObject raw of
             Inl _ \<Rightarrow> doc
           | Inr protocol \<Rightarrow>
               if jo_get protocol ''major'' \<noteq> Some (JNumber ''1'') then doc
               else jo_set doc ''protocol'' (jo_value (jo_set protocol ''major'' (JNumber (decimal ProtocolMajor))))))"

text \<open>The provider an entry of \<^verbatim>\<open>implements\<close> is rewritten to, if it is.\<close>

definition bare_point :: "json \<Rightarrow> json option" where
  "bare_point elem =
     (case decodeObject elem of
        Inl _ \<Rightarrow> None
      | Inr provider \<Rightarrow>
          (case jo_str provider ''point'' of
             None \<Rightarrow> None
           | Some point \<Rightarrow>
               let bare = TrimPrefix point HostPointNamespace in
               if IsKnownPoint point \<or> bare = point \<or> \<not> IsKnownPoint bare then None
               else Some (jo_value (jo_set provider ''point'' (JString bare)))))"

definition as_raws :: "json \<Rightarrow> json list option" where
  "as_raws v = (case v of JNull \<Rightarrow> Some [] | JArray vs \<Rightarrow> Some vs | _ \<Rightarrow> None)"

definition migrateImplements :: "jsonObject \<Rightarrow> jsonObject" where
  "migrateImplements doc =
     (case Option.bind (jo_get doc ''implements'') as_raws of
        None \<Rightarrow> doc
      | Some elems \<Rightarrow>
          if list_ex (\<lambda>e. bare_point e \<noteq> None) elems
          then jo_set doc ''implements'' (JArray (map (\<lambda>e. case bare_point e of Some e' \<Rightarrow> e' | None \<Rightarrow> e) elems))
          else doc)"

definition coveredByOwnNamespace :: "Pattern list \<Rightarrow> string \<Rightarrow> bool" where
  "coveredByOwnNamespace granted entry =
     (case ParsePattern entry of Inl _ \<Rightarrow> False | Inr _ \<Rightarrow> list_ex (\<lambda>g. Covers g entry) granted)"

definition own_grants :: "string \<Rightarrow> Pattern list" where
  "own_grants i = g_Publish (OwnNamespace i) @ g_Subscribe (OwnNamespace i) @ g_Serves (OwnNamespace i)"

definition drop_own :: "string \<Rightarrow> string \<Rightarrow> jsonObject \<Rightarrow> jsonObject" where
  "drop_own i verb permissions =
     (case Option.bind (jo_get permissions verb) as_strings of
        None \<Rightarrow> permissions
      | Some entries \<Rightarrow>
          (let kept = filter (\<lambda>entry. \<not> coveredByOwnNamespace (own_grants i) entry) entries in
           if length kept = length entries then permissions
           else if kept = [] then jo_delete permissions verb
           else jo_set permissions verb (JArray (map JString kept))))"

definition migratePermissions :: "jsonObject \<Rightarrow> string \<Rightarrow> jsonObject" where
  "migratePermissions doc i =
     (case jo_get doc ''permissions'' of
        None \<Rightarrow> doc
      | Some raw \<Rightarrow>
          (case decodeObject raw of
             Inl _ \<Rightarrow> doc
           | Inr permissions \<Rightarrow>
               (let p = drop_own i ''request'' (drop_own i ''subscribe'' (drop_own i ''publish'' permissions)) in
                if jo_empty p then jo_delete doc ''permissions'' else jo_set doc ''permissions'' (jo_value p))))"

definition migrate_doc :: "jsonObject \<Rightarrow> MigrateInput \<Rightarrow> string + jsonObject" where
  \<comment> \<open>\<^verbatim>\<open>MigrateV1\<close> between decoding and encoding\<close>
  "migrate_doc doc inp =
     (let i = (case jo_str doc ''id'' of Some s \<Rightarrow> TrimSpace s | None \<Rightarrow> '''') in
      if i = '''' then Inl ''contract: plugin.json has no id; migration cannot name the plugin''
      else let doc1 = jo_prepend doc ''contract'' (JNumber (decimal ProtocolMajor)) in
      case migrateKind doc1 inp of
        Inl err \<Rightarrow> Inl err
      | Inr kind \<Rightarrow>
          (let doc2 = jo_delete (insertAfter doc1 ''contract'' ''kind'' (JString kind)) ''spawn'';
               doc3 = migrateVersion doc2 in
           case migratePublisher doc3 inp of
             Inl err \<Rightarrow> Inl err
           | Inr doc4 \<Rightarrow>
               Inr (migratePermissions (migrateImplements (migrateProtocol (migrateIdentity doc4 i inp))) i)))"

definition zero_options :: Options where
  "zero_options =
     \<lparr>op_Host = '''', op_Mode = '''', op_CoreVersion = '''', op_MinPluginVersion = '''', op_HostReservations = [], op_MinAccepted = 0\<rparr>"

definition MigrateV1 ::
  "'v tools \<Rightarrow> (bytes \<Rightarrow> string + json) \<Rightarrow> (json \<Rightarrow> bytes) \<Rightarrow> bytes \<Rightarrow> MigrateInput \<Rightarrow> string + bytes \<times> Diagnostic list" where
  "MigrateV1 tk parser indent raw inp =
     (case parser raw of
        Inl err \<Rightarrow> Inl (''contract: plugin.json: '' @ err)
      | Inr v \<Rightarrow>
          (case decodeObject v of
             Inl err \<Rightarrow> Inl (''contract: plugin.json: '' @ err)
           | Inr doc \<Rightarrow>
               (case migrate_doc doc inp of
                  Inl err \<Rightarrow> Inl err
                | Inr doc' \<Rightarrow> (let out = indent (jo_value doc') in Inr (out, rp_Diagnostics (Verify tk out zero_options))))))"

section \<open>What the steps change\<close>

text \<open>Between two states of a document only the members of \<open>ks\<close> differ, and the other keys keep their order.\<close>

definition changes :: "string set \<Rightarrow> jsonObject \<Rightarrow> jsonObject \<Rightarrow> bool" where
  "changes ks doc doc' \<longleftrightarrow>
     (jo_ok doc \<longrightarrow> jo_ok doc') \<and> (\<forall>k. k \<notin> ks \<longrightarrow> jo_vals doc' k = jo_vals doc k) \<and>
     filter (\<lambda>k. k \<notin> ks) (jo_keys doc') = filter (\<lambda>k. k \<notin> ks) (jo_keys doc)"

lemma changes_refl: "changes ks doc doc"
  by (simp add: changes_def)

lemma changes_mono:
  assumes "changes ks doc doc'" "ks \<subseteq> ls"
  shows "changes ls doc doc'"
proof -
  have sub: "filter (\<lambda>k. k \<notin> ls) xs = filter (\<lambda>k. k \<notin> ls) (filter (\<lambda>k. k \<notin> ks) xs)" for xs :: "string list"
    using assms(2) by (induction xs) auto
  have "filter (\<lambda>k. k \<notin> ls) (jo_keys doc') = filter (\<lambda>k. k \<notin> ls) (jo_keys doc)"
    using assms(1) sub [of "jo_keys doc'"] sub [of "jo_keys doc"] by (simp only: changes_def)
  with assms show ?thesis by (auto simp: changes_def)
qed

lemma changes_trans: "changes ks a b \<Longrightarrow> changes ls b c \<Longrightarrow> changes (ks \<union> ls) a c"
  using changes_mono [of ks a b "ks \<union> ls"] changes_mono [of ls b c "ks \<union> ls"] by (auto simp: changes_def)

lemma changes_ops:
  "changes {key} doc (jo_set doc key val)" "changes {key} doc (jo_prepend doc key val)"
  "changes {key} doc (insertAfter doc anchor key val)" "changes {key} doc (jo_delete doc key)"
  by (simp_all add: changes_def jo)

lemma changes_get: "changes ks doc doc' \<Longrightarrow> k \<notin> ks \<Longrightarrow> jo_vals doc' k = jo_vals doc k"
  by (simp add: changes_def)

text \<open>A step that rewrites one member, to a value that it leaves as it is: once it was done, it does nothing as long
  as nobody else writes the member.\<close>

locale settling =
  fixes key :: string and step :: "jsonObject \<Rightarrow> jsonObject" and rewrite :: "json option \<Rightarrow> json option"
  assumes writes: "jo_vals (step doc) key = rewrite (jo_vals doc key)"
    and idem: "rewrite (rewrite x) = rewrite x"
    and settled: "rewrite (jo_vals doc key) = jo_vals doc key \<Longrightarrow> step doc = doc"
    and only: "changes {key} doc (step doc)"
begin

lemma stays:
  assumes "changes ks (step doc) doc'" "key \<notin> ks"
  shows "step doc' = doc'"
  using changes_get [OF assms] by (intro settled) (simp add: writes idem)

end

definition written :: "json option \<Rightarrow> json option \<Rightarrow> json option" where
  \<comment> \<open>the new value, or else the old one\<close>
  "written new old = (case new of None \<Rightarrow> old | Some v \<Rightarrow> Some v)"

subsection \<open>Version\<close>

definition pad_version :: "json option \<Rightarrow> json option" where
  "pad_version x =
     (case Option.bind x as_str of
        None \<Rightarrow> None
      | Some raw \<Rightarrow>
          (let v = TrimSpace raw in
           if all_digits v then Some (JString (v @ ''.0.0''))
           else case split_on (CHR ''.'') v of
             [a, b] \<Rightarrow> if all_digits a \<and> all_digits b then Some (JString (v @ ''.0'')) else None
           | _ \<Rightarrow> None))"

lemma migrateVersion_pad:
  "migrateVersion doc = (case pad_version (jo_vals doc ''version'') of None \<Rightarrow> doc | Some v \<Rightarrow> jo_set doc ''version'' v)"
  by (auto simp: migrateVersion_def pad_version_def jo_str_def Let_def split: option.split list.split)

lemma digits_printable: "list_all is_digit v \<Longrightarrow> list_all (\<lambda>c. 32 < code c \<and> code c < 127) v"
  by (auto simp: list_all_iff is_digit_def)

lemma digits_no_dot: "all_digits v \<Longrightarrow> CHR ''.'' \<notin> set v"
  by (auto simp: all_digits_def list_all_iff is_digit_def dest!: bspec [where x = "CHR ''.''"])

lemma pad_version_done:
  assumes "pad_version x = Some y"
  shows "pad_version (Some y) = None"
proof -
  have fin: "pad_version (Some (JString v)) = None" if "list_all (\<lambda>c. 32 < code c \<and> code c < 127) v" "split_on (CHR ''.'') v = [a, b, c]" for v a b c
  proof -
    have "CHR ''.'' \<in> set v" using that(2) split_on_single [of "CHR ''.''" v] by force
    then have "\<not> all_digits v" using digits_no_dot by blast
    then show ?thesis using TrimSpace_printable [OF that(1)] that(2) by (simp add: pad_version_def as_str_def)
  qed
  show ?thesis
  proof (cases "Option.bind x as_str")
    case (Some raw)
    let ?v = "TrimSpace raw"
    show ?thesis
    proof (cases "all_digits ?v")
      case True
      then have "CHR ''.'' \<notin> set ?v" by (rule digits_no_dot)
      then have "split_on (CHR ''.'') (?v @ ''.0.0'') = [?v, ''0'', ''0'']" by (simp add: split_on_append)
      moreover have "list_all (\<lambda>c. 32 < code c \<and> code c < 127) (?v @ ''.0.0'')" using True digits_printable by (auto simp: all_digits_def)
      ultimately show ?thesis using assms Some True fin by (auto simp: pad_version_def)
    next
      case False
      then obtain a b where ab: "split_on (CHR ''.'') ?v = [a, b]" "all_digits a" "all_digits b" "y = JString (?v @ ''.0'')"
        using assms Some by (auto simp: pad_version_def Let_def split: list.splits if_splits)
      then have v: "?v = a @ ''.'' @ b" using join_split [of "CHR ''.''" ?v] by simp
      have "CHR ''.'' \<notin> set a" "CHR ''.'' \<notin> set b" using ab split_on_free [of _ "CHR ''.''" ?v] by auto
      then have "split_on (CHR ''.'') (?v @ ''.0'') = [a, b, ''0'']" by (simp add: v split_on_append)
      moreover have "list_all (\<lambda>c. 32 < code c \<and> code c < 127) (?v @ ''.0'')"
        using ab digits_printable by (auto simp: v all_digits_def)
      ultimately show ?thesis using ab(4) fin by auto
    qed
  qed (use assms in \<open>simp add: pad_version_def\<close>)
qed

interpretation version: settling "''version''" migrateVersion "\<lambda>x. written (pad_version x) x"
proof
  show "jo_vals (migrateVersion doc) ''version'' = written (pad_version (jo_vals doc ''version'')) (jo_vals doc ''version'')" for doc
    by (simp add: migrateVersion_pad written_def jo split: option.split)
  show "written (pad_version (written (pad_version x) x)) (written (pad_version x) x) = written (pad_version x) x" for x
    by (simp add: written_def pad_version_done split: option.split)
  show "migrateVersion doc = doc" if "written (pad_version (jo_vals doc ''version'')) (jo_vals doc ''version'') = jo_vals doc ''version''" for doc
    using that by (auto simp: migrateVersion_pad written_def jo_same split: option.splits)
  show "changes {''version''} doc (migrateVersion doc)" for doc
    by (simp add: migrateVersion_pad changes_refl changes_ops split: option.split)
qed


subsection \<open>Protocol\<close>

definition raise_major :: "json option \<Rightarrow> json option" where
  "raise_major x =
     (case x of
        None \<Rightarrow> None
      | Some raw \<Rightarrow>
          (case decodeObject raw of
             Inl _ \<Rightarrow> Some raw
           | Inr protocol \<Rightarrow>
               Some (if jo_get protocol ''major'' \<noteq> Some (JNumber ''1'') then raw
                     else jo_value (jo_set protocol ''major'' (JNumber (decimal ProtocolMajor))))))"

lemma decimal_major [simp]: "decimal ProtocolMajor = ''2''"
  by code_simp

interpretation protocol: settling "''protocol''" migrateProtocol raise_major
proof
  show "jo_vals (migrateProtocol doc) ''protocol'' = raise_major (jo_vals doc ''protocol'')" for doc
    by (simp add: migrateProtocol_def raise_major_def jo_get_def jo split: option.split sum.split)
  show "raise_major (raise_major x) = raise_major x" for x
    by (auto simp: raise_major_def jo_get_def decode_value jo split: option.split sum.split dest: decodeObject_ok)
  show "migrateProtocol doc = doc" if "raise_major (jo_vals doc ''protocol'') = jo_vals doc ''protocol''" for doc
    using that by (auto simp: migrateProtocol_def raise_major_def jo_get_def jo_same split: option.splits sum.splits if_splits)
  show "changes {''protocol''} doc (migrateProtocol doc)" for doc
    by (simp add: migrateProtocol_def changes_refl changes_ops split: option.split sum.split)
qed

subsection \<open>Implements\<close>

definition bare_points :: "json option \<Rightarrow> json option" where
  "bare_points x =
     (case Option.bind x as_raws of
        None \<Rightarrow> x
      | Some elems \<Rightarrow>
          if list_ex (\<lambda>e. bare_point e \<noteq> None) elems
          then Some (JArray (map (\<lambda>e. case bare_point e of Some e' \<Rightarrow> e' | None \<Rightarrow> e) elems))
          else x)"

lemma bare_point_done:
  assumes "bare_point e = Some e'"
  shows "bare_point e' = None"
proof -
  obtain p bare where p: "decodeObject e = Inr p" "IsKnownPoint bare" "e' = jo_value (jo_set p ''point'' (JString bare))"
    using assms by (auto simp: bare_point_def Let_def split: sum.splits option.splits if_splits)
  then have "decodeObject e' = Inr (jo_set p ''point'' (JString bare))" using decode_value jo_ok_set decodeObject_ok by simp
  with p(2) show ?thesis by (simp add: bare_point_def jo_str_def as_str_def jo)
qed

interpretation implements: settling "''implements''" migrateImplements bare_points
proof
  show "jo_vals (migrateImplements doc) ''implements'' = bare_points (jo_vals doc ''implements'')" for doc
    by (simp add: migrateImplements_def bare_points_def jo_get_def jo split: option.split)
  have "\<not> list_ex (\<lambda>e. bare_point e \<noteq> None) (map (\<lambda>e. case bare_point e of Some e' \<Rightarrow> e' | None \<Rightarrow> e) elems)" for elems
    by (auto simp: list_ex_iff bare_point_done split: option.splits)
  then show "bare_points (bare_points x) = bare_points x" for x
    by (auto simp: bare_points_def as_raws_def split: option.split)
  show "migrateImplements doc = doc" if "bare_points (jo_vals doc ''implements'') = jo_vals doc ''implements''" for doc
    using that by (auto simp: migrateImplements_def bare_points_def jo_get_def jo_same split: option.splits if_splits)
  show "changes {''implements''} doc (migrateImplements doc)" for doc
    by (simp add: migrateImplements_def changes_refl changes_ops split: option.split)
qed

subsection \<open>Permissions\<close>

definition foreign_entries :: "string \<Rightarrow> json option \<Rightarrow> json option" where
  "foreign_entries i x =
     (case Option.bind x as_strings of
        None \<Rightarrow> x
      | Some entries \<Rightarrow>
          (let kept = filter (\<lambda>entry. \<not> coveredByOwnNamespace (own_grants i) entry) entries in
           if length kept = length entries then x
           else if kept = [] then None
           else Some (JArray (map JString kept))))"

lemma all_some_strings [simp]: "all_some (map (as_str \<circ> JString) vs) = Some vs"
  by (induction vs) (auto simp: as_str_def)

interpretation own: settling verb "drop_own i verb" "foreign_entries i" for i verb
proof
  show "jo_vals (drop_own i verb doc) verb = foreign_entries i (jo_vals doc verb)" for doc
    by (simp add: drop_own_def foreign_entries_def jo_get_def Let_def jo split: option.split)
  show "foreign_entries i (foreign_entries i x) = foreign_entries i x" for x
    by (auto simp: foreign_entries_def Let_def as_strings_def split: option.split)
  show "drop_own i verb doc = doc" if "foreign_entries i (jo_vals doc verb) = jo_vals doc verb" for doc
    using that by (auto simp: drop_own_def foreign_entries_def jo_get_def Let_def jo_same split: option.splits if_splits)
  show "changes {verb} doc (drop_own i verb doc)" for doc
    by (simp add: drop_own_def Let_def changes_refl changes_ops split: option.split)
qed

definition foreign_grants :: "string \<Rightarrow> jsonObject \<Rightarrow> jsonObject" where
  "foreign_grants i p = drop_own i ''request'' (drop_own i ''subscribe'' (drop_own i ''publish'' p))"

lemma foreign_grants_ok: "jo_ok p \<Longrightarrow> jo_ok (foreign_grants i p)"
  using own.only by (simp add: foreign_grants_def changes_def)

lemma foreign_grants_idem: "foreign_grants i (foreign_grants i p) = foreign_grants i p"
proof -
  define a where "a = drop_own i ''publish'' p"
  define b where "b = drop_own i ''subscribe'' a"
  define c where "c = drop_own i ''request'' b"
  have bc: "changes {''request''} b c" and ab: "changes {''subscribe''} a b" by (simp_all add: b_def c_def own.only)
  have "drop_own i ''publish'' c = c"
    using own.stays [of "{''subscribe''} \<union> {''request''}" i "''publish''" p c] changes_trans [OF ab bc] by (simp add: a_def)
  moreover have "drop_own i ''subscribe'' c = c"
    using own.stays [of "{''request''}" i "''subscribe''" a c] bc by (simp add: b_def)
  moreover have "drop_own i ''request'' c = c"
    using own.stays [of "{}" i "''request''" b c] changes_refl by (simp add: c_def)
  ultimately show ?thesis by (simp add: foreign_grants_def a_def [symmetric] b_def [symmetric] c_def [symmetric])
qed

definition foreign_permissions :: "string \<Rightarrow> json option \<Rightarrow> json option" where
  "foreign_permissions i x =
     (case x of
        None \<Rightarrow> None
      | Some raw \<Rightarrow>
          (case decodeObject raw of
             Inl _ \<Rightarrow> Some raw
           | Inr p \<Rightarrow> if jo_empty (foreign_grants i p) then None else Some (jo_value (foreign_grants i p))))"

lemma migratePermissions_eq:
  "migratePermissions doc i =
     (case jo_vals doc ''permissions'' of
        None \<Rightarrow> doc
      | Some raw \<Rightarrow>
          (case decodeObject raw of
             Inl _ \<Rightarrow> doc
           | Inr p \<Rightarrow>
               if jo_empty (foreign_grants i p) then jo_delete doc ''permissions''
               else jo_set doc ''permissions'' (jo_value (foreign_grants i p))))"
  unfolding migratePermissions_def foreign_grants_def jo_get_def Let_def by (rule refl)

lemma foreign_grants_decode:
  "decodeObject raw = Inr p \<Longrightarrow> decodeObject (jo_value (foreign_grants i p)) = Inr (foreign_grants i p)"
  by (intro decode_value foreign_grants_ok) (rule decodeObject_ok)

interpretation permissions: settling "''permissions''" "\<lambda>doc. migratePermissions doc i" "foreign_permissions i" for i
proof
  show "jo_vals (migratePermissions doc i) ''permissions'' = foreign_permissions i (jo_vals doc ''permissions'')" for doc
    by (simp add: migratePermissions_eq foreign_permissions_def jo split: option.split sum.split)
  show "foreign_permissions i (foreign_permissions i x) = foreign_permissions i x" for x
  proof (cases "\<exists>raw p. x = Some raw \<and> decodeObject raw = Inr p")
    case True
    then show ?thesis by (auto simp: foreign_permissions_def foreign_grants_decode foreign_grants_idem)
  qed (auto simp: foreign_permissions_def split: option.split sum.split)
  show "migratePermissions doc i = doc" if "foreign_permissions i (jo_vals doc ''permissions'') = jo_vals doc ''permissions''" for doc
    using that by (auto simp: migratePermissions_eq foreign_permissions_def jo_same split: option.splits sum.splits if_splits)
  show "changes {''permissions''} doc (migratePermissions doc i)" for doc
    by (simp add: migratePermissions_eq changes_refl changes_ops split: option.split sum.split)
qed


subsection \<open>Publisher\<close>

lemma migratePublisher_stays:
  assumes "migratePublisher doc inp = Inr doc'"
  shows "changes {''publisher''} doc doc'"
    and "jo_vals b ''publisher'' = jo_vals doc' ''publisher'' \<Longrightarrow> migratePublisher b inp' = Inr b"
  using assms
  by (auto simp: migratePublisher_def jo_str_def jo_has_def as_str_def publisher_value_def Let_def changes_refl changes_ops jo
      split: option.splits if_splits)

subsection \<open>Identity\<close>

definition filled :: "jsonObject \<Rightarrow> string \<Rightarrow> bool \<Rightarrow> bool" where
  "filled obj key wanted \<longleftrightarrow> (wanted \<longrightarrow> jo_str obj key \<noteq> None)"

lemma set_missing_filled: "filled (set_missing obj key wanted val) key wanted"
  by (auto simp: filled_def set_missing_def jo_str_def as_str_def jo)

lemma filled_kept: "k \<noteq> key \<Longrightarrow> filled (set_missing obj k w val) key wanted = filled obj key wanted"
  by (auto simp: filled_def set_missing_def jo_str_def jo)

lemma filled_images: "key \<noteq> ''images'' \<Longrightarrow> filled (identity_images inp obj) key wanted = filled obj key wanted"
  by (auto simp: filled_def identity_images_def jo_str_def jo split: option.split)

lemma filled_same: "filled obj key wanted \<Longrightarrow> set_missing obj key wanted val = obj"
  by (auto simp: filled_def set_missing_def)

lemma identity_images_idem: "identity_images inp (identity_images inp obj) = identity_images inp obj"
  by (auto simp: identity_images_def jo_has_def jo split: option.split)

lemma set_missing_ok: "jo_ok x \<Longrightarrow> jo_ok (set_missing x key wanted val)"
  by (simp add: set_missing_def jo_ok_set)

lemma identity_images_ok: "jo_ok x \<Longrightarrow> jo_ok (identity_images inp x)"
  by (simp add: identity_images_def jo_ok_set split: option.split)

lemma identity_of_ok: "jo_ok x \<Longrightarrow> jo_ok (identity_of doc i inp x)"
  by (simp add: identity_of_def Let_def set_missing_ok identity_images_ok split: option.split)

lemma identity_of_idem:
  assumes "jo_str doc' ''homepage'' = None"
  shows "identity_of doc' i inp (identity_of doc i inp x) = identity_of doc i inp x"
proof -
  define r where "r = identity_of doc i inp x"
  have "filled r ''displayName'' True" "filled r ''description'' True"
    "filled r ''readme'' (fileExists (mi_Dir inp) [''README.md''])" "filled r ''changelog'' (fileExists (mi_Dir inp) [''CHANGELOG.md''])"
    by (simp_all add: r_def identity_of_def Let_def filled_images set_missing_filled filled_kept split: option.split)
  moreover have "identity_images inp r = r" by (simp add: r_def identity_of_def Let_def identity_images_idem)
  ultimately show ?thesis
    unfolding r_def [symmetric] using assms by (simp add: identity_of_def filled_same)
qed

lemma migrateIdentity_changes: "changes {''identity'', ''homepage''} doc (migrateIdentity doc i inp)"
  using changes_trans [OF changes_ops(4) changes_ops(3)] by (simp add: migrateIdentity_def Let_def insert_commute)

lemma migrateIdentity_stays:
  assumes "jo_vals doc' ''identity'' = jo_vals (migrateIdentity doc i inp) ''identity''" "jo_vals doc' ''homepage'' = None"
  shows "migrateIdentity doc' i inp = doc'"
proof -
  define x where "x = (case jo_get doc ''identity'' of None \<Rightarrow> empty_object
    | Some raw \<Rightarrow> (case decodeObject raw of Inr existing \<Rightarrow> existing | Inl _ \<Rightarrow> empty_object))"
  have x: "jo_ok x" "jo_vals doc' ''identity'' = Some (jo_value (identity_of doc i inp x))"
    using assms(1)
    by (auto simp: x_def migrateIdentity_def Let_def jo_vals_simps jo_ok_empty decodeObject_ok split: option.split sum.split)
  from x(1) have "decodeObject (jo_value (identity_of doc i inp x)) = Inr (identity_of doc i inp x)"
    by (intro decode_value identity_of_ok)
  with x(2) assms(2) show ?thesis
    by (simp add: migrateIdentity_def jo_get_def jo_str_def identity_of_idem jo_same)
qed

subsection \<open>Kind\<close>

lemma migrateKind_stays:
  assumes "migrateKind doc inp = Inr kind" "jo_vals doc' ''kind'' = Some (JString kind)"
  shows "migrateKind doc' inp = Inr kind"
proof -
  have "TrimSpace KindProcess = KindProcess" "TrimSpace KindFamily = KindFamily" "TrimSpace KindUI = KindUI" "TrimSpace KindBuiltin = KindBuiltin"
    by code_simp+
  then have "TrimSpace kind = kind" "kind \<noteq> ''''" "TrimSpace (mi_Kind inp) \<noteq> '''' \<longrightarrow> kind = TrimSpace (mi_Kind inp)"
    using assms(1) by (auto simp: migrateKind_def Let_def KindProcess_def KindFamily_def KindUI_def KindBuiltin_def split: if_splits option.splits)
  with assms(2) show ?thesis by (simp add: migrateKind_def Let_def jo_str_def as_str_def)
qed


section \<open>The whole migration\<close>

lemma migrate_doc_steps:
  assumes "migrate_doc doc inp = Inr doc'"
  obtains i kind doc4 where
    "jo_str doc ''id'' \<noteq> None" "i = TrimSpace (the (jo_str doc ''id''))" "i \<noteq> ''''"
    "migrateKind (jo_prepend doc ''contract'' (JNumber ''2'')) inp = Inr kind"
    "migratePublisher (migrateVersion (jo_delete
       (insertAfter (jo_prepend doc ''contract'' (JNumber ''2'')) ''contract'' ''kind'' (JString kind)) ''spawn'')) inp = Inr doc4"
    "doc' = migratePermissions (migrateImplements (migrateProtocol (migrateIdentity doc4 i inp))) i"
  using assms by (cases "jo_str doc ''id''") (auto simp: migrate_doc_def Let_def split: if_splits sum.splits)

definition migrated_members :: "string set" where
  "migrated_members =
     {''contract'', ''kind'', ''spawn'', ''version'', ''publisher'', ''identity'', ''homepage'', ''protocol'', ''implements'', ''permissions''}"


lemma migrate_doc_changes:
  assumes "migrate_doc doc inp = Inr doc'"
  shows "changes migrated_members doc doc'"
proof -
  from assms obtain i kind doc4 where s: "doc' = migratePermissions (migrateImplements (migrateProtocol (migrateIdentity doc4 i inp))) i"
    "migratePublisher (migrateVersion (jo_delete
       (insertAfter (jo_prepend doc ''contract'' (JNumber ''2'')) ''contract'' ''kind'' (JString kind)) ''spawn'')) inp = Inr doc4"
    by (elim migrate_doc_steps)
  note wide = changes_mono [where ls = migrated_members]
  have step: "changes migrated_members a b \<Longrightarrow> changes migrated_members b c \<Longrightarrow> changes migrated_members a c" for a b c
    using changes_trans [of migrated_members a b migrated_members c] by simp
  show ?thesis unfolding s(1)
    by (rule step [OF _ wide [OF permissions.only]] step [OF _ wide [OF implements.only]] step [OF _ wide [OF protocol.only]]
          step [OF _ wide [OF migrateIdentity_changes]] step [OF _ wide [OF migratePublisher_stays(1) [OF s(2)]]]
          step [OF _ wide [OF version.only]] step [OF _ wide [OF changes_ops(4)]] step [OF _ wide [OF changes_ops(3)]]
          wide [OF changes_ops(2)] | simp add: migrated_members_def)+
qed

lemma migrate_doc_settled:
  assumes "migrate_doc doc inp = Inr doc'"
  shows "migrate_doc doc' inp = Inr doc'"
proof -
  from assms obtain i kind doc4 where i: "jo_str doc ''id'' \<noteq> None" "i = TrimSpace (the (jo_str doc ''id''))" "i \<noteq> ''''"
    and k: "migrateKind (jo_prepend doc ''contract'' (JNumber ''2'')) inp = Inr kind"
    and p: "migratePublisher (migrateVersion (jo_delete
       (insertAfter (jo_prepend doc ''contract'' (JNumber ''2'')) ''contract'' ''kind'' (JString kind)) ''spawn'')) inp = Inr doc4"
    and d: "doc' = migratePermissions (migrateImplements (migrateProtocol (migrateIdentity doc4 i inp))) i"
    by (elim migrate_doc_steps)
  define a where "a = jo_delete
    (insertAfter (jo_prepend doc ''contract'' (JNumber ''2'')) ''contract'' ''kind'' (JString kind)) ''spawn''"
  define b where "b = migrateIdentity doc4 i inp"
  define c where "c = migrateProtocol b"
  define e where "e = migrateImplements c"
  have ce: "changes {''implements''} c e" and bc: "changes {''protocol''} b c" and ed: "changes {''permissions''} e doc'"
    using implements.only protocol.only permissions.only by (simp_all add: b_def c_def e_def d)
  have cd: "changes ({''implements''} \<union> {''permissions''}) c doc'" by (rule changes_trans [OF ce ed])
  have bd: "changes ({''protocol''} \<union> ({''implements''} \<union> {''permissions''})) b doc'" by (rule changes_trans [OF bc cd])
  have i4: "changes ({''identity'', ''homepage''} \<union> ({''protocol''} \<union> ({''implements''} \<union> {''permissions''}))) doc4 doc'"
    using changes_trans [OF migrateIdentity_changes] bd by (simp only: b_def)
  have va: "changes ({''publisher''} \<union> ({''identity'', ''homepage''} \<union> ({''protocol''} \<union> ({''implements''} \<union> {''permissions''})))) (migrateVersion a) doc'"
    using changes_trans [OF migratePublisher_stays(1) [OF p] i4] by (simp only: a_def)
  have ad: "changes ({''version''} \<union> ({''publisher''} \<union> ({''identity'', ''homepage''} \<union> ({''protocol''} \<union> ({''implements''} \<union> {''permissions''}))))) a doc'"
    by (rule changes_trans [OF version.only va])
  have at: "jo_vals doc' ''contract'' = Some (JNumber ''2'')" "jo_vals doc' ''kind'' = Some (JString kind)" "jo_vals doc' ''spawn'' = None"
    using changes_get [OF ad] by (simp_all add: a_def jo)
  have id: "jo_str doc' ''id'' = jo_str doc ''id''"
    using changes_get [OF migrate_doc_changes [OF assms]] by (simp add: jo_str_def migrated_members_def)
  have home: "jo_vals doc' ''homepage'' = None"
    using changes_get [OF bd, of "''homepage''"] by (simp add: b_def migrateIdentity_def Let_def jo)
  have steps: "migrateVersion doc' = doc'" "migratePublisher doc' inp = Inr doc'" "migrateIdentity doc' i inp = doc'"
    "migrateProtocol doc' = doc'" "migrateImplements doc' = doc'" "migratePermissions doc' i = doc'"
    using version.stays [OF va] migratePublisher_stays(2) [OF p] changes_get [OF i4] migrateIdentity_stays [OF _ home] changes_get [OF bd]
      protocol.stays [of _ b doc'] cd implements.stays [of _ c doc'] ed permissions.stays [of "{}" e i doc'] changes_refl
    by (simp_all add: b_def c_def e_def d)
  show ?thesis
    using i at steps by (auto simp: migrate_doc_def Let_def id jo_same migrateKind_stays [OF k])
qed


lemma decoded_members:
  assumes "distinct (map fst ms)" "decodeObject (JObject ms) = Inr doc"
  shows "jo_ok doc" "jo_value doc = JObject ms"
proof -
  show ok: "jo_ok doc" using decodeObject_ok [OF assms(2)] .
  have doc: "doc = \<lparr>jo_keys = map fst ms, jo_vals = map_of ms\<rparr>"
    using assms add_members [of ms empty_object] by (simp add: decodeObject_def empty_object_def jo_has_def)
  have "map (\<lambda>key. (key, case map_of ms key of Some v \<Rightarrow> v | None \<Rightarrow> JNull)) (map fst ms) = ms"
    using assms(1) by (auto intro!: map_idI simp: comp_def)
  then show "jo_value doc = JObject ms" by (simp add: doc jo_value_def)
qed

lemma value_members:
  assumes "changes ks doc doc'"
  obtains ms ms' where "jo_value doc = JObject ms" "jo_value doc' = JObject ms'"
    "filter (\<lambda>m. fst m \<notin> ks) ms' = filter (\<lambda>m. fst m \<notin> ks) ms" "map fst ms' = jo_keys doc'"
proof -
  let ?m = "\<lambda>d key. (key, case jo_vals d key of Some v \<Rightarrow> v | None \<Rightarrow> JNull)"
  have "filter (\<lambda>m. fst m \<notin> ks) (map (?m doc') (jo_keys doc')) = map (?m doc') (filter (\<lambda>k. k \<notin> ks) (jo_keys doc'))"
    by (simp add: filter_map comp_def)
  also have "\<dots> = map (?m doc) (filter (\<lambda>k. k \<notin> ks) (jo_keys doc))"
    using assms by (auto simp: changes_def)
  also have "\<dots> = filter (\<lambda>m. fst m \<notin> ks) (map (?m doc) (jo_keys doc))"
    by (simp add: filter_map comp_def)
  finally show thesis using that [of "map (?m doc) (jo_keys doc)" "map (?m doc') (jo_keys doc')"] by (simp add: jo_value_def comp_def)
qed

section \<open>Examples\<close>

definition demo_members :: "(string \<times> json) list" where
  "demo_members =
     [(''id'', JString ''weather''), (''version'', JString ''1.2''), (''spawn'', JBool True), (''binary'', JString ''bin/weather''),
      (''protocol'', JObject [(''major'', JNumber ''1'')])]"

definition demo_input :: MigrateInput where
  "demo_input =
     \<lparr>mi_Dir = None, mi_PublisherID = ''acme'', mi_FirstParty = False, mi_Display = ''Weather'', mi_Text = ''The weather.'', mi_Kind = ''''\<rparr>"

definition demo_migrated :: "(string \<times> json) list" where
  "demo_migrated =
     [(''contract'', JNumber ''2''), (''kind'', JString ''process''), (''id'', JString ''weather''), (''version'', JString ''1.2.0''),
      (''identity'', JObject [(''displayName'', JString ''Weather''), (''description'', JString ''The weather.'')]),
      (''binary'', JString ''bin/weather''), (''protocol'', JObject [(''major'', JNumber ''2'')]),
      (''publisher'', publisher_value ''acme'' ''acme'')]"

lemma demo_migration:
  "map_sum id jo_value (migrate_doc (foldl add_member empty_object demo_members) demo_input) = Inr (JObject demo_migrated)"
  by code_simp

text \<open>C24. A migrated manifest is a fixed point: when the file that was written reads back as the value it was written from,
  migrating it again writes the same bytes and reports the same diagnostics.\<close>

theorem migration_is_idempotent:
  assumes "MigrateV1 tk parser indent raw inp = Inr (out, ds)"
    and "\<And>v. indent v = out \<Longrightarrow> parser out = Inr v"
  shows "MigrateV1 tk parser indent out inp = Inr (out, ds)"
proof -
  obtain v doc doc' where d: "decodeObject v = Inr doc" "migrate_doc doc inp = Inr doc'" "out = indent (jo_value doc')"
    "ds = rp_Diagnostics (Verify tk out zero_options)"
    using assms(1) by (auto simp: MigrateV1_def Let_def split: sum.splits)
  then have "jo_ok doc'" using migrate_doc_changes decodeObject_ok by (auto simp: changes_def)
  with d assms(2) show ?thesis by (simp add: MigrateV1_def Let_def decode_value migrate_doc_settled)
qed

theorem migration_is_idempotent_witness:
  "MigrateV1 demo_tools (\<lambda>raw. Inr (JObject (if raw = ''new'' then demo_migrated else demo_members)))
     (\<lambda>v. if v = JObject demo_migrated then ''new'' else ''other'') ''new'' demo_input =
   Inr (''new'', rp_Diagnostics (Verify demo_tools ''new'' zero_options))"
proof (rule migration_is_idempotent [where raw = "''old''"])
  obtain doc' where d: "migrate_doc (foldl add_member empty_object demo_members) demo_input = Inr doc'" "jo_value doc' = JObject demo_migrated"
    using demo_migration by (cases "migrate_doc (foldl add_member empty_object demo_members) demo_input") auto
  then show "MigrateV1 demo_tools (\<lambda>raw. Inr (JObject (if raw = ''new'' then demo_migrated else demo_members)))
      (\<lambda>v. if v = JObject demo_migrated then ''new'' else ''other'') ''old'' demo_input =
    Inr (''new'', rp_Diagnostics (Verify demo_tools ''new'' zero_options))"
    by (simp add: MigrateV1_def decodeObject_def Let_def)
qed (auto split: if_splits)

text \<open>The members a migration does not speak of keep their values and their order; the result has no key twice.\<close>

theorem migration_keeps_the_rest:
  assumes "distinct (map fst ms)" "decodeObject (JObject ms) = Inr doc" "migrate_doc doc inp = Inr doc'"
  shows "\<exists>ms'. jo_value doc' = JObject ms' \<and> distinct (map fst ms') \<and>
    filter (\<lambda>m. fst m \<notin> migrated_members) ms' = filter (\<lambda>m. fst m \<notin> migrated_members) ms"
proof -
  have ch: "changes migrated_members doc doc'" by (rule migrate_doc_changes [OF assms(3)])
  then have "distinct (jo_keys doc')" using decoded_members(1) [OF assms(1,2)] by (simp add: changes_def jo_ok_def)
  moreover obtain os ms' where "jo_value doc = JObject os" "jo_value doc' = JObject ms'" "map fst ms' = jo_keys doc'"
    "filter (\<lambda>m. fst m \<notin> migrated_members) ms' = filter (\<lambda>m. fst m \<notin> migrated_members) os"
    using value_members [OF ch] .
  moreover have "jo_value doc = JObject ms" by (rule decoded_members(2) [OF assms(1,2)])
  ultimately show ?thesis by simp
qed

theorem migration_keeps_the_rest_witness:
  "\<exists>doc'. migrate_doc (foldl add_member empty_object demo_members) demo_input = Inr doc' \<and>
     (\<exists>ms'. jo_value doc' = JObject ms' \<and> distinct (map fst ms') \<and>
       filter (\<lambda>m. fst m \<notin> migrated_members) ms' = [(''id'', JString ''weather''), (''binary'', JString ''bin/weather'')])"
proof -
  obtain doc' where d: "migrate_doc (foldl add_member empty_object demo_members) demo_input = Inr doc'"
    using demo_migration by (cases "migrate_doc (foldl add_member empty_object demo_members) demo_input") auto
  have "filter (\<lambda>m. fst m \<notin> migrated_members) demo_members = [(''id'', JString ''weather''), (''binary'', JString ''bin/weather'')]"
    by (simp add: demo_members_def migrated_members_def)
  moreover have "distinct (map fst demo_members)" by (simp add: demo_members_def)
  ultimately show ?thesis
    using migration_keeps_the_rest [of demo_members "foldl add_member empty_object demo_members" demo_input doc'] d
    by (simp add: decodeObject_def)
qed


end
