(* ===== verification/Contract_Check.thy ===== *)
theory Contract_Check
  imports Go_Encoding
begin

text \<open>
  The checks that the contract packages share, \<^verbatim>\<open>src/v2/internal/contractcheck/check.go\<close>. A validator passes, fails with the
  text of its error, or panics: following a nil pointer is a panic, and because the arguments of \<^verbatim>\<open>All\<close> are evaluated before
  it looks at them, a panic in any of them is one of \<^verbatim>\<open>All\<close>. The length of the JSON text of a value and \<^verbatim>\<open>time.Parse\<close>
  are parameters of the validators that ask for them, as is \<open>qt\<close>, the quoting of \<^verbatim>\<open>%q\<close>.
\<close>

datatype verdict = Passed | Failed string | Panicked

definition MaxWireBytes :: int where "MaxWireBytes = 65536"

fun first_failure :: "verdict list \<Rightarrow> verdict" where
  "first_failure [] = Passed"
| "first_failure (v # vs) = (if v = Passed then first_failure vs else v)"

definition check_All :: "verdict list \<Rightarrow> verdict" where
  "check_All vs = (if Panicked \<in> set vs then Panicked else first_failure vs)"

text \<open>Statements in a row: the next one runs when the one before it passes.\<close>

definition and_then :: "verdict \<Rightarrow> (unit \<Rightarrow> verdict) \<Rightarrow> verdict" where
  "and_then v next_one = (if v = Passed then next_one () else v)"

definition id_start :: "char \<Rightarrow> bool" where
  "id_start c = (is_lower c \<or> is_upper c \<or> is_digit c)"

definition idPattern :: "string \<Rightarrow> bool" where
  "idPattern s =
     (case s of
        [] \<Rightarrow> False
      | c # cs \<Rightarrow> id_start c \<and> length cs \<le> 255 \<and> list_all (\<lambda>x. id_start x \<or> x \<in> {CHR ''.'', CHR ''_'', CHR '':'', CHR ''-''}) cs)"

definition check_ID :: "string \<Rightarrow> string \<Rightarrow> verdict" where
  "check_ID name val = (if idPattern val then Passed else Failed (name @ '' must be an opaque identifier''))"

definition check_OptionalID :: "string \<Rightarrow> string \<Rightarrow> verdict" where
  "check_OptionalID name val = (if val = '''' then Passed else check_ID name val)"

definition check_Text :: "string \<Rightarrow> string \<Rightarrow> int \<Rightarrow> bool \<Rightarrow> verdict" where
  "check_Text name val most required =
     (if \<not> ValidString val \<or> CHR 0x00 \<in> set val \<or> most < int (length val) \<or> required \<and> TrimSpace val = ''''
      then Failed (name @ '' must be valid text of at most '' @ Itoa most @ '' bytes'')
      else Passed)"

definition check_Enum :: "(string \<Rightarrow> string) \<Rightarrow> string \<Rightarrow> string \<Rightarrow> string list \<Rightarrow> verdict" where
  "check_Enum qt name val allowed = (if val \<in> set allowed then Passed else Failed (''unknown '' @ name @ '' '' @ qt val))"

definition check_SizeLimit :: "int \<Rightarrow> int \<Rightarrow> verdict" where
  \<comment> \<open>of the length of the encoded value\<close>
  "check_SizeLimit len most = (if most < len then Failed (''encoded payload exceeds '' @ Itoa most @ '' bytes'') else Passed)"

definition check_Size :: "int \<Rightarrow> verdict" where
  "check_Size len = check_SizeLimit len MaxWireBytes"

definition check_Count :: "string \<Rightarrow> int \<Rightarrow> int \<Rightarrow> int \<Rightarrow> verdict" where
  "check_Count name sz least most =
     (if sz < least \<or> most < sz then Failed (name @ '' must contain '' @ Itoa least @ '' to '' @ Itoa most @ '' items'') else Passed)"

fun unique_from :: "(string \<Rightarrow> string) \<Rightarrow> string \<Rightarrow> string set \<Rightarrow> string list \<Rightarrow> verdict" where
  "unique_from qt name seen [] = Passed"
| "unique_from qt name seen (v # vs) =
     (if v \<in> seen then Failed (''duplicate '' @ name @ '' '' @ qt v) else unique_from qt name (insert v seen) vs)"

definition check_Unique :: "(string \<Rightarrow> string) \<Rightarrow> string \<Rightarrow> string list \<Rightarrow> verdict" where
  "check_Unique qt name vals = unique_from qt name {} vals"

definition check_Timestamp :: "(string \<Rightarrow> bool) \<Rightarrow> string \<Rightarrow> string \<Rightarrow> verdict" where
  \<comment> \<open>\<open>is_time\<close>: the text parses as \<^verbatim>\<open>time.RFC3339Nano\<close>, and not to the zero time\<close>
  "check_Timestamp is_time name val = (if is_time val then Passed else Failed (name @ '' must be RFC3339''))"

section \<open>When a check passes\<close>

named_theorems checks \<open>when a check passes\<close>

lemma first_failure_passed: "first_failure vs = Passed \<longleftrightarrow> (\<forall>v \<in> set vs. v = Passed)"
  by (induction vs) auto

lemma check_All_passed [checks]: "check_All vs = Passed \<longleftrightarrow> (\<forall>v \<in> set vs. v = Passed)"
  by (auto simp: check_All_def first_failure_passed)

lemma check_All_panic [checks]: "check_All vs = Panicked \<longleftrightarrow> list_ex (\<lambda>v. v = Panicked) vs"
proof -
  have "first_failure vs = Panicked \<Longrightarrow> Panicked \<in> set vs" by (induction vs) (auto split: if_splits)
  then show ?thesis by (auto simp: check_All_def list_ex_iff)
qed

lemma and_then_passed [checks]: "and_then v k = Passed \<longleftrightarrow> v = Passed \<and> k () = Passed"
  by (simp add: and_then_def)

lemma and_then_panic [checks]: "and_then v k = Panicked \<longleftrightarrow> v = Panicked \<or> v = Passed \<and> k () = Panicked"
  by (auto simp: and_then_def)

lemma check_passed [checks]:
  "check_ID name val = Passed \<longleftrightarrow> idPattern val"
  "check_OptionalID name val = Passed \<longleftrightarrow> val = '''' \<or> idPattern val"
  "check_Text name val most required = Passed \<longleftrightarrow>
     ValidString val \<and> CHR 0x00 \<notin> set val \<and> int (length val) \<le> most \<and> (required \<longrightarrow> TrimSpace val \<noteq> '''')"
  "check_Enum qt name val allowed = Passed \<longleftrightarrow> val \<in> set allowed"
  "check_SizeLimit len most = Passed \<longleftrightarrow> len \<le> most"
  "check_Size len = Passed \<longleftrightarrow> len \<le> MaxWireBytes"
  "check_Count name sz least most = Passed \<longleftrightarrow> least \<le> sz \<and> sz \<le> most"
  "check_Timestamp is_time name val = Passed \<longleftrightarrow> is_time val"
  by (auto simp: check_ID_def check_OptionalID_def check_Text_def check_Enum_def check_SizeLimit_def check_Size_def check_Count_def
      check_Timestamp_def)

lemma unique_from_passed: "unique_from qt name seen vs = Passed \<longleftrightarrow> distinct vs \<and> set vs \<inter> seen = {}"
  by (induction vs arbitrary: seen) auto

lemma check_Unique_passed [checks]: "check_Unique qt name vs = Passed \<longleftrightarrow> distinct vs"
  by (simp add: check_Unique_def unique_from_passed)

lemma unique_from_no_panic: "unique_from qt name seen vs \<noteq> Panicked"
  by (induction vs arbitrary: seen) auto

lemma check_no_panic [checks]:
  "check_ID name val \<noteq> Panicked" "check_OptionalID name val \<noteq> Panicked" "check_Text name val most required \<noteq> Panicked"
  "check_Enum qt name val allowed \<noteq> Panicked" "check_SizeLimit len most \<noteq> Panicked" "check_Size len \<noteq> Panicked"
  "check_Count name sz least most \<noteq> Panicked" "check_Unique qt name vs \<noteq> Panicked" "check_Timestamp is_time name val \<noteq> Panicked"
  by (simp_all add: check_ID_def check_OptionalID_def check_Text_def check_Enum_def check_SizeLimit_def check_Size_def check_Count_def
      check_Timestamp_def check_Unique_def unique_from_no_panic)

end
