(* ===== verification/Payloads.thy ===== *)
theory Payloads
  imports Contract_Check "HOL-Library.Word"
begin

text \<open>
  The wire contract of host-owned payloads, \<^verbatim>\<open>src/v2/payloads/contract.go\<close>. Sizes and offsets keep their 64 and 32 bits. The
  lengths of the encoded requests and results are the fields of \<open>payload_sizes\<close>.
\<close>

definition MaxAssembledBytes :: "64 word" where "MaxAssembledBytes = 8388608"
definition MaxChunkBytes :: int where "MaxChunkBytes = 24576"
definition MaxInlineTextBytes :: int where "MaxInlineTextBytes = 32768"
definition MaxTTLSeconds :: "32 word" where "MaxTTLSeconds = 600"
definition PurposeDecision :: string where "PurposeDecision = ''ai-decision''"
definition PurposeProviderRequest :: string where "PurposeProviderRequest = ''provider-request''"
definition PurposeProviderResponse :: string where "PurposeProviderResponse = ''provider-response''"
definition PurposeCodingPrompt :: string where "PurposeCodingPrompt = ''coding-prompt''"
definition StateUploading :: string where "StateUploading = ''uploading''"
definition StateCommitted :: string where "StateCommitted = ''committed''"

record TextInput =
  ti_Inline :: string
  ti_HandleID :: string

record CreateRequest =
  cq_InvocationID :: string
  cq_ProviderID :: string
  cq_Purpose :: string
  cq_Size :: "64 word"
  cq_SHA256 :: string
  cq_TTLSeconds :: "32 word"

record Handle =
  ha_ID :: string
  ha_ProviderID :: string
  ha_ProviderGeneration :: string
  ha_Purpose :: string
  ha_Size :: "64 word"
  ha_SHA256 :: string
  ha_ExpiresAt :: string
  ha_State :: string

record AppendRequest =
  aq_InvocationID :: string
  aq_HandleID :: string
  aq_Offset :: "64 word"
  aq_Data :: string

record HandleRequest = \<comment> \<open>of a commit, and of a revocation\<close>
  hq_InvocationID :: string
  hq_HandleID :: string

record ReadRequest =
  rq_InvocationID :: string
  rq_HandleID :: string
  rq_Offset :: "64 word"
  rq_Limit :: "32 word"

record ReadResult =
  rr_Data :: string
  rr_NextOffset :: "64 word"
  rr_EOF :: bool

record payload_sizes =
  pz_create :: "CreateRequest \<Rightarrow> int"
  pz_handle :: "Handle \<Rightarrow> int"
  pz_append :: "AppendRequest \<Rightarrow> int"
  pz_read :: "ReadResult \<Rightarrow> int"

section \<open>Validation\<close>

definition digestPattern :: "string \<Rightarrow> bool" where
  "digestPattern s = (length s = 64 \<and> list_all (\<lambda>c. is_digit c \<or> 97 \<le> code c \<and> code c \<le> 102) s)"

definition TextInput_Validate :: "TextInput \<Rightarrow> verdict" where
  "TextInput_Validate v =
     (if (ti_Inline v = '''') = (ti_HandleID v = '''') then Failed ''text requires exactly one inline or handle source''
      else if ti_HandleID v \<noteq> '''' then check_ID ''text.handleId'' (ti_HandleID v)
      else check_Text ''text.inline'' (ti_Inline v) MaxInlineTextBytes True)"

definition purpose :: "(string \<Rightarrow> string) \<Rightarrow> string \<Rightarrow> verdict" where
  "purpose qt v =
     check_Enum qt ''payload purpose'' v [PurposeDecision, PurposeProviderRequest, PurposeProviderResponse, PurposeCodingPrompt]"

definition sizeDigest :: "64 word \<Rightarrow> string \<Rightarrow> verdict" where
  "sizeDigest sz digest =
     (if sz = 0 \<or> MaxAssembledBytes < sz then Failed (''payload size must be 1 to '' @ Itoa (uint MaxAssembledBytes) @ '' bytes'')
      else if \<not> digestPattern digest then Failed ''sha256 must be lowercase hex SHA-256''
      else Passed)"

definition CreateRequest_Validate :: "(string \<Rightarrow> string) \<Rightarrow> payload_sizes \<Rightarrow> CreateRequest \<Rightarrow> verdict" where
  "CreateRequest_Validate qt pz v =
     and_then (check_OptionalID ''invocationId'' (cq_InvocationID v)) (\<lambda>_.
       if (cq_Purpose v = PurposeProviderRequest \<or> cq_Purpose v = PurposeProviderResponse) \<and> cq_InvocationID v = ''''
       then Failed ''provider payload requires an invocation''
       else if MaxTTLSeconds < cq_TTLSeconds v then Failed (''ttlSeconds exceeds '' @ Itoa (uint MaxTTLSeconds))
       else check_All [check_ID ''providerId'' (cq_ProviderID v), purpose qt (cq_Purpose v), sizeDigest (cq_Size v) (cq_SHA256 v),
              check_Size (pz_create pz v)])"

definition Handle_Validate :: "(string \<Rightarrow> string) \<Rightarrow> (string \<Rightarrow> bool) \<Rightarrow> payload_sizes \<Rightarrow> Handle \<Rightarrow> verdict" where
  "Handle_Validate qt is_time pz v =
     check_All [check_ID ''handle.id'' (ha_ID v), check_ID ''handle.providerId'' (ha_ProviderID v),
       check_ID ''handle.providerGeneration'' (ha_ProviderGeneration v), purpose qt (ha_Purpose v), sizeDigest (ha_Size v) (ha_SHA256 v),
       check_Timestamp is_time ''handle.expiresAt'' (ha_ExpiresAt v), check_Enum qt ''handle state'' (ha_State v) [StateUploading, StateCommitted],
       check_Size (pz_handle pz v)]"

definition CreateResult_Validate :: "(string \<Rightarrow> string) \<Rightarrow> (string \<Rightarrow> bool) \<Rightarrow> payload_sizes \<Rightarrow> Handle \<Rightarrow> verdict" where
  "CreateResult_Validate qt is_time pz h =
     (if ha_State h \<noteq> StateUploading then Failed ''new handle must be uploading'' else Handle_Validate qt is_time pz h)"

definition CommitResult_Validate :: "(string \<Rightarrow> string) \<Rightarrow> (string \<Rightarrow> bool) \<Rightarrow> payload_sizes \<Rightarrow> Handle \<Rightarrow> verdict" where
  "CommitResult_Validate qt is_time pz h =
     (if ha_State h \<noteq> StateCommitted then Failed ''commit requires committed handle'' else Handle_Validate qt is_time pz h)"

definition EncodedLen :: "int \<Rightarrow> int" where
  "EncodedLen n = (n + 2) div 3 * 4"

text \<open>The strict decoder refuses some texts that the ordinary one decodes, those whose last bits are not zero; encoding
  what the ordinary one made of them does not give them back, so the comparison refuses them here.\<close>

definition decode :: "string \<Rightarrow> string + bytes" where
  "decode data =
     (if EncodedLen MaxChunkBytes < int (length data) then Inl (''chunk exceeds '' @ Itoa MaxChunkBytes @ '' bytes'')
      else case StdDecode data of
        None \<Rightarrow> Inl ''data must be canonical padded base64''
      | Some b \<Rightarrow> if StdEncode b \<noteq> data then Inl ''data must be canonical padded base64'' else Inr b)"

definition AppendRequest_Validate :: "payload_sizes \<Rightarrow> AppendRequest \<Rightarrow> verdict" where
  "AppendRequest_Validate pz v =
     and_then (check_OptionalID ''invocationId'' (aq_InvocationID v)) (\<lambda>_.
       case decode (aq_Data v) of
         Inl err \<Rightarrow> Failed err
       | Inr b \<Rightarrow>
           if b = [] \<or> MaxAssembledBytes < aq_Offset v \<or> MaxAssembledBytes - aq_Offset v < of_nat (length b)
           then Failed ''chunk exceeds assembled payload bound''
           else check_All [check_ID ''handleId'' (aq_HandleID v), check_Size (pz_append pz v)])"

definition AppendResult_Validate :: "64 word \<Rightarrow> verdict" where
  \<comment> \<open>of the next offset\<close>
  "AppendResult_Validate n = (if n = 0 \<or> MaxAssembledBytes < n then Failed ''invalid nextOffset'' else Passed)"

definition HandleRequest_Validate :: "HandleRequest \<Rightarrow> verdict" where
  "HandleRequest_Validate v =
     check_All [check_OptionalID ''invocationId'' (hq_InvocationID v), check_ID ''handleId'' (hq_HandleID v)]"

definition ReadRequest_Validate :: "ReadRequest \<Rightarrow> verdict" where
  "ReadRequest_Validate v =
     and_then (check_OptionalID ''invocationId'' (rq_InvocationID v)) (\<lambda>_.
       if MaxAssembledBytes < rq_Offset v \<or> rq_Limit v = 0 \<or> of_int MaxChunkBytes < rq_Limit v then Failed ''invalid read bounds''
       else check_ID ''handleId'' (rq_HandleID v))"

definition ReadResult_Validate :: "payload_sizes \<Rightarrow> ReadResult \<Rightarrow> verdict" where
  "ReadResult_Validate pz v =
     (case decode (rr_Data v) of
        Inl err \<Rightarrow> Failed err
      | Inr b \<Rightarrow>
          if MaxAssembledBytes < rr_NextOffset v \<or> rr_NextOffset v < of_nat (length b) \<or> b = [] \<and> \<not> rr_EOF v
          then Failed ''invalid read progress''
          else check_Size (pz_read pz v))"

section \<open>Lengths\<close>

lemma length_StdEncode: "int (length (StdEncode b)) = EncodedLen (int (length b))"
proof -
  have "length (filter not_line_end (StdEncode b)) = 4 * ((length b + 2) div 3)" by (rule StdDecode_length) simp
  moreover have "filter not_line_end (StdEncode b) = StdEncode b"
    using std_encode_lines [OF codes_bound] by (simp add: StdEncode_def filter_id_conv list_all_iff)
  ultimately show ?thesis by (simp add: EncodedLen_def mult.commute zdiv_int)
qed

lemma decode_exact: "decode data = Inr b \<longleftrightarrow> data = StdEncode b \<and> int (length b) \<le> MaxChunkBytes"
proof -
  have "EncodedLen (int (length b)) \<le> EncodedLen MaxChunkBytes \<longleftrightarrow> int (length b) \<le> MaxChunkBytes"
  proof
    assume "EncodedLen (int (length b)) \<le> EncodedLen MaxChunkBytes"
    then have "(int (length b) + 2) div 3 \<le> 8192" by (simp add: EncodedLen_def MaxChunkBytes_def)
    moreover have "int (length b) + 2 = 3 * ((int (length b) + 2) div 3) + (int (length b) + 2) mod 3" "(int (length b) + 2) mod 3 < 3"
      by simp_all
    ultimately show "int (length b) \<le> MaxChunkBytes" unfolding MaxChunkBytes_def by linarith
  next
    assume "int (length b) \<le> MaxChunkBytes"
    then have "(int (length b) + 2) div 3 \<le> (MaxChunkBytes + 2) div 3" by (intro zdiv_mono1) simp_all
    then show "EncodedLen (int (length b)) \<le> EncodedLen MaxChunkBytes" by (simp add: EncodedLen_def)
  qed
  note fits = this [folded length_StdEncode]
  show ?thesis
  proof
    assume "decode data = Inr b"
    then have "StdEncode b = data" "int (length data) \<le> EncodedLen MaxChunkBytes"
      by (simp_all add: decode_def split: if_splits option.splits)
    with fits show "data = StdEncode b \<and> int (length b) \<le> MaxChunkBytes" by simp
  next
    assume "data = StdEncode b \<and> int (length b) \<le> MaxChunkBytes"
    with fits have "data = StdEncode b" "\<not> EncodedLen MaxChunkBytes < int (length (StdEncode b))" by simp_all
    then show "decode data = Inr b" by (simp only: decode_def StdDecode_Encode option.case if_False not_True_eq_False simp_thms)
  qed
qed

section \<open>Properties\<close>

text \<open>A chunk on the wire is the standard encoding of its bytes and nothing else: decoding accepts exactly the texts that
  encode at most 24576 bytes, and gives these bytes.\<close>

theorem chunk_is_canonical: "decode data = Inr b \<longleftrightarrow> data = StdEncode b \<and> int (length b) \<le> MaxChunkBytes"
  by (rule decode_exact)

text \<open>C39. An accepted append stays within the payload: the offset and the length of the chunk add up, as numbers and not only
  modulo \<^verbatim>\<open>2^64\<close>, to at most 8 MiB, and the chunk is not empty. So a sequence of contiguous accepted appends ends at most
  there.\<close>

theorem append_stays_in_payload:
  assumes "AppendRequest_Validate pz v = Passed"
  shows "\<exists>b. decode (aq_Data v) = Inr b \<and> b \<noteq> [] \<and> unat (aq_Offset v) + length b \<le> 8388608 \<and>
    unat (aq_Offset v + of_nat (length b)) = unat (aq_Offset v) + length b"
proof -
  obtain b where b: "decode (aq_Data v) = Inr b" "b \<noteq> []" "aq_Offset v \<le> MaxAssembledBytes" "of_nat (length b) \<le> MaxAssembledBytes - aq_Offset v"
    using assms by (auto simp: AppendRequest_Validate_def checks split: sum.splits if_splits)
  have "length b \<le> 24576" using b(1) decode_exact by (simp add: MaxChunkBytes_def)
  then have n: "unat (of_nat (length b) :: 64 word) = length b" by (simp add: unat_of_nat take_bit_nat_eq_self)
  have "unat (MaxAssembledBytes - aq_Offset v) = 8388608 - unat (aq_Offset v)" using b(3) by (simp add: unat_sub MaxAssembledBytes_def)
  moreover have "unat (aq_Offset v) \<le> 8388608" using b(3) by (simp add: word_le_nat_alt MaxAssembledBytes_def)
  ultimately have "unat (aq_Offset v) + length b \<le> 8388608" using b(4) n by (simp add: word_le_nat_alt)
  moreover from this have "unat (aq_Offset v + of_nat (length b)) = unat (aq_Offset v) + length b" using n by (simp add: unat_word_ariths)
  ultimately show ?thesis using b(1,2) by blast
qed

theorem append_stays_in_payload_witness:
  "\<exists>b. decode ''YWJj'' = Inr b \<and> b \<noteq> [] \<and> unat (8388605 :: 64 word) + length b \<le> 8388608"
proof -
  let ?v = "\<lparr>aq_InvocationID = '''', aq_HandleID = ''h'', aq_Offset = 8388605, aq_Data = ''YWJj''\<rparr>"
  have "AppendRequest_Validate \<lparr>pz_create = (\<lambda>_. 0), pz_handle = (\<lambda>_. 0), pz_append = (\<lambda>_. 90), pz_read = (\<lambda>_. 0)\<rparr> ?v = Passed" by code_simp
  from append_stays_in_payload [OF this] show ?thesis by auto
qed

end
