(* ===== verification/Decision.thy ===== *)
theory Decision
  imports Payloads Complex_Main
begin

text \<open>
  The wire contract of typed decisions, \<^verbatim>\<open>src/v2/aidecision/contract.go\<close> and \<^verbatim>\<open>src/v2/aidecision/admission.go\<close>. A \<^verbatim>\<open>big.Rat\<close> is a rational
  number. \<open>json_valid\<close> is \<^verbatim>\<open>json.Valid\<close>, \<open>format_float\<close> the shortest text of a float; the lengths of the encoded values are the
  fields of \<open>decision_sizes\<close>.
\<close>

definition CommandStart :: string where "CommandStart = ''cmd.gateway.ai-decision.v1.start''"
definition CommandRead :: string where "CommandRead = ''cmd.gateway.ai-decision.v1.read''"
definition CommandCancel :: string where "CommandCancel = ''cmd.gateway.ai-decision.v1.cancel''"
definition CommandModels :: string where "CommandModels = ''cmd.gateway.ai-decision.v1.models''"
definition KindChoice :: string where "KindChoice = ''choice''"
definition KindScore :: string where "KindScore = ''score''"
definition KindNoul :: string where "KindNoul = ''noul''"
definition FormatText :: string where "FormatText = ''text''"
definition FormatJSON :: string where "FormatJSON = ''json''"
definition MaxQuestions :: int where "MaxQuestions = 100"
definition MaxOptions :: int where "MaxOptions = 255"
definition MaxScoreLevels :: int where "MaxScoreLevels = 10"
definition StateCompleted :: string where "StateCompleted = ''completed''"
definition StateFailed :: string where "StateFailed = ''failed''"
definition JobStates :: "string list" where
  "JobStates = [''queued'', ''running'', StateCompleted, StateFailed, ''cancelled'', ''expired'']"
definition PurposeEvaluation :: string where "PurposeEvaluation = ''evaluation''"
definition PurposeRouting :: string where "PurposeRouting = ''routing''"

section \<open>Data\<close>

record StructuredValue =
  sv_Format :: string
  sv_Content :: TextInput

record DecisionOption =
  do_ID :: string
  do_Description :: "StructuredValue option"

record NoulCriteria =
  nc_True :: StructuredValue
  nc_False :: StructuredValue

record Question =
  qn_ID :: string
  qn_Instructions :: StructuredValue
  qn_Kind :: string
  qn_Choice :: "DecisionOption list option"
  qn_Score :: "StructuredValue list option"
  qn_Noul :: "NoulCriteria option option"

record BatchRequest =
  bq_Purpose :: string
  bq_ProviderID :: string
  bq_Model :: string
  bq_State :: StructuredValue
  bq_Questions :: "Question list"
  bq_IdempotencyKey :: string

record Probability =
  pb_ID :: string
  pb_Value :: string

record LegendEntry =
  le_ID :: string
  le_Label :: string

record ChoiceAnswer =
  ca_Choice :: string
  ca_Probabilities :: "Probability list"
  ca_Confidence :: string

record ScoreAnswer =
  sa_Score :: string
  sa_Legend :: "LegendEntry list"
  sa_Probabilities :: "Probability list"
  sa_Confidence :: string

record Answer =
  an_ID :: string
  an_Kind :: string
  an_Choice :: "ChoiceAnswer option"
  an_Score :: "ScoreAnswer option"
  an_Noul :: "string option"

record Usage =
  us_InputTokens :: "64 word option"
  us_OutputTokens :: "64 word option"

record BatchResult =
  bs_ProviderID :: string
  bs_RequestedModel :: string
  bs_Model :: string
  bs_Answers :: "Answer list"
  bs_Usage :: Usage

record Failure =
  fl_Code :: string
  fl_Message :: string
  fl_Retryable :: bool

record Job =
  jb_ID :: string
  jb_ProviderID :: string
  jb_State :: string
  jb_CreatedAt :: string
  jb_DeadlineAt :: string
  jb_Result :: "BatchResult option"
  jb_ResultHandleID :: string
  jb_Failure :: "Failure option"

record DecisionModel =
  dm_ID :: string
  dm_Label :: string
  dm_Kinds :: "string list"

record ModelsResult =
  mr_ProviderID :: string
  mr_Models :: "DecisionModel list"
  mr_Refreshing :: bool
  mr_ObservedAt :: string
  mr_Failure :: "Failure option"

record decision_sizes =
  dz_request :: "BatchRequest \<Rightarrow> int"
  dz_start :: "string \<Rightarrow> BatchRequest \<Rightarrow> int"
  dz_result :: "BatchResult \<Rightarrow> int"
  dz_models :: "ModelsResult \<Rightarrow> int"
  dz_job :: "Job \<Rightarrow> int"

text \<open>A loop over validators that returns the first that does not pass.\<close>

fun each :: "('a \<Rightarrow> verdict) \<Rightarrow> 'a list \<Rightarrow> verdict" where
  "each f [] = Passed"
| "each f (x # xs) = and_then (f x) (\<lambda>_. each f xs)"

section \<open>Questions\<close>

definition ValidateContent :: "(string \<Rightarrow> bool) \<Rightarrow> string \<Rightarrow> bytes \<Rightarrow> verdict" where
  "ValidateContent json_valid format content =
     (if content = [] \<or> uint MaxAssembledBytes < int (length content) then Failed ''structured content exceeds payload bounds''
      else and_then (check_Text ''structured content'' content (uint MaxAssembledBytes) True) (\<lambda>_.
        if format = FormatText then Passed
        else if format \<noteq> FormatJSON then Failed ''unknown structured format''
        else let trimmed = TrimSpace content in
          if \<not> json_valid content \<or> trimmed = [] \<or> hd trimmed \<noteq> CHR ''{'' \<and> hd trimmed \<noteq> CHR ''[''
          then Failed ''structured JSON must be an object or array''
          else Passed))"

definition StructuredValue_Validate :: "(string \<Rightarrow> string) \<Rightarrow> (string \<Rightarrow> bool) \<Rightarrow> StructuredValue \<Rightarrow> verdict" where
  "StructuredValue_Validate qt json_valid v =
     and_then (check_All [check_Enum qt ''structured format'' (sv_Format v) [FormatText, FormatJSON], TextInput_Validate (sv_Content v)]) (\<lambda>_.
       if ti_Inline (sv_Content v) \<noteq> '''' then ValidateContent json_valid (sv_Format v) (ti_Inline (sv_Content v)) else Passed)"

definition Option_Validate :: "(string \<Rightarrow> string) \<Rightarrow> (string \<Rightarrow> bool) \<Rightarrow> DecisionOption \<Rightarrow> verdict" where
  "Option_Validate qt json_valid v =
     and_then (check_Text ''option.id'' (do_ID v) 255 True) (\<lambda>_.
       case do_Description v of None \<Rightarrow> Passed | Some d \<Rightarrow> StructuredValue_Validate qt json_valid d)"

definition ChoiceQuestion_Validate :: "(string \<Rightarrow> string) \<Rightarrow> (string \<Rightarrow> bool) \<Rightarrow> DecisionOption list \<Rightarrow> verdict" where
  "ChoiceQuestion_Validate qt json_valid options =
     and_then (check_Count ''choice options'' (int (length options)) 1 MaxOptions) (\<lambda>_.
       and_then (each (Option_Validate qt json_valid) options) (\<lambda>_. check_Unique qt ''choice option'' (map do_ID options)))"

definition ScoreQuestion_Validate :: "(string \<Rightarrow> string) \<Rightarrow> (string \<Rightarrow> bool) \<Rightarrow> StructuredValue list \<Rightarrow> verdict" where
  "ScoreQuestion_Validate qt json_valid levels =
     and_then (check_Count ''score levels'' (int (length levels)) 2 MaxScoreLevels) (\<lambda>_. each (StructuredValue_Validate qt json_valid) levels)"

definition NoulQuestion_Validate :: "(string \<Rightarrow> string) \<Rightarrow> (string \<Rightarrow> bool) \<Rightarrow> NoulCriteria option \<Rightarrow> verdict" where
  "NoulQuestion_Validate qt json_valid criteria =
     (case criteria of
        None \<Rightarrow> Passed
      | Some c \<Rightarrow> check_All [StructuredValue_Validate qt json_valid (nc_True c), StructuredValue_Validate qt json_valid (nc_False c)])"

definition one :: "(string \<Rightarrow> string) \<Rightarrow> string \<Rightarrow> bool \<Rightarrow> bool \<Rightarrow> bool \<Rightarrow> verdict" where
  "one qt kind choice score noul =
     (if kind = KindChoice \<and> choice \<and> \<not> score \<and> \<not> noul \<or> kind = KindScore \<and> score \<and> \<not> choice \<and> \<not> noul \<or>
         kind = KindNoul \<and> noul \<and> \<not> choice \<and> \<not> score
      then Passed else Failed (''decision requires exactly its '' @ qt kind @ '' payload''))"

text \<open>At the end of \<^verbatim>\<open>Question.Validate\<close> and \<^verbatim>\<open>Answer.Validate\<close> the pointer is followed without a look at it.\<close>

definition Question_Validate :: "(string \<Rightarrow> string) \<Rightarrow> (string \<Rightarrow> bool) \<Rightarrow> Question \<Rightarrow> verdict" where
  "Question_Validate qt json_valid v =
     and_then (check_All [check_ID ''question.id'' (qn_ID v), StructuredValue_Validate qt json_valid (qn_Instructions v),
         one qt (qn_Kind v) (qn_Choice v \<noteq> None) (qn_Score v \<noteq> None) (qn_Noul v \<noteq> None)]) (\<lambda>_.
       case qn_Choice v of
         Some options \<Rightarrow> ChoiceQuestion_Validate qt json_valid options
       | None \<Rightarrow>
           (case qn_Score v of
              Some levels \<Rightarrow> ScoreQuestion_Validate qt json_valid levels
            | None \<Rightarrow> (case qn_Noul v of Some criteria \<Rightarrow> NoulQuestion_Validate qt json_valid criteria | None \<Rightarrow> Panicked)))"

definition BatchRequest_Validate :: "(string \<Rightarrow> string) \<Rightarrow> (string \<Rightarrow> bool) \<Rightarrow> decision_sizes \<Rightarrow> BatchRequest \<Rightarrow> verdict" where
  "BatchRequest_Validate qt json_valid dz v =
     and_then (check_Enum qt ''purpose'' (bq_Purpose v) [PurposeEvaluation, PurposeRouting]) (\<lambda>_.
       and_then (check_All [check_ID ''providerId'' (bq_ProviderID v), check_Text ''model'' (bq_Model v) 255 True,
           StructuredValue_Validate qt json_valid (bq_State v), check_ID ''idempotencyKey'' (bq_IdempotencyKey v),
           check_Count ''questions'' (int (length (bq_Questions v))) 1 MaxQuestions]) (\<lambda>_.
         and_then (each (Question_Validate qt json_valid) (bq_Questions v)) (\<lambda>_.
           check_All [check_Unique qt ''question'' (map qn_ID (bq_Questions v)), check_Size (dz_request dz v)])))"

section \<open>Decimals\<close>

definition decimalPattern :: "string \<Rightarrow> bool" where
  "decimalPattern s =
     (let (whole, frac) = (case cut_on (CHR ''.'') s of None \<Rightarrow> (s, None) | Some (a, b) \<Rightarrow> (a, Some b)) in
      (whole = ''0'' \<or> whole \<noteq> '''' \<and> list_all is_digit whole \<and> hd whole \<noteq> CHR ''0'') \<and>
      (case frac of None \<Rightarrow> True | Some f \<Rightarrow> f \<noteq> '''' \<and> list_all is_digit f))"

definition Rat_SetString :: "string \<Rightarrow> rat" where
  \<comment> \<open>of a text of the pattern\<close>
  "Rat_SetString s =
     (case cut_on (CHR ''.'') s of
        None \<Rightarrow> of_nat (undecimal s)
      | Some (a, b) \<Rightarrow> of_nat (undecimal (a @ b)) / 10 ^ length b)"

definition ParseDecimal :: "string \<Rightarrow> string + rat" where
  "ParseDecimal s =
     (if 64 < length s \<or> \<not> decimalPattern s then Inl ''value must be a nonnegative decimal string of at most 64 bytes''
      else Inr (Rat_SetString s))"

definition exponent_fields :: "string \<Rightarrow> string list" where
  \<comment> \<open>\<^verbatim>\<open>FieldsFunc\<close> at either exponent letter\<close>
  "exponent_fields raw =
     filter (\<lambda>t. t \<noteq> '''') (split_on (CHR ''e'') (map (\<lambda>c. if c = CHR ''E'' then CHR ''e'' else c) raw))"

text \<open>The digits of a number padded so that its point stands between the first of them and their end.\<close>

definition placed :: "string \<Rightarrow> int \<Rightarrow> string \<times> nat" where
  "placed digits point =
     (let (ds, p) = (if point \<le> 0 then (replicate (nat (1 - point)) (CHR ''0'') @ digits, 1) else (digits, nat point)) in
      if length ds \<le> p then (ds @ replicate (p - length ds) (CHR ''0''), p) else (ds, p))"

definition plain_decimal :: "string \<Rightarrow> int \<Rightarrow> string" where
  "plain_decimal digits point =
     (let (ds, p) = placed digits point;
          whole = dropWhile (\<lambda>c. c = CHR ''0'') (take p ds);
          frac = rev (dropWhile (\<lambda>c. c = CHR ''0'') (rev (drop p ds))) in
      (if whole = '''' then ''0'' else whole) @ (if frac = '''' then '''' else ''.'' @ frac))"

definition DecimalFromJSONNumber :: "(string \<Rightarrow> bool) \<Rightarrow> string \<Rightarrow> string + string" where
  "DecimalFromJSONNumber json_valid raw =
     (if 64 < length raw \<or> raw = '''' \<or> hd raw = CHR ''-'' \<or> \<not> json_valid raw then Inl ''invalid nonnegative JSON number''
      else let parts = exponent_fields raw;
               exponent = (case parts of [m, e] \<Rightarrow> Atoi e | _ \<Rightarrow> Some 0) in
      case exponent of
        None \<Rightarrow> Inl ''decimal exponent exceeds wire precision''
      | Some ex \<Rightarrow>
          if ex < - 64 \<or> 64 < ex then Inl ''decimal exponent exceeds wire precision''
          else case parts of
            [] \<Rightarrow> Inl ''invalid JSON number''
          | mantissa # rest \<Rightarrow>
              if 2 < length parts then Inl ''invalid JSON number''
              else let point = (case cut_on (CHR ''.'') mantissa of None \<Rightarrow> length mantissa | Some (a, _) \<Rightarrow> length a);
                       out = plain_decimal (filter (\<lambda>c. c \<noteq> CHR ''.'') mantissa) (int point + ex) in
                   (case ParseDecimal out of Inl err \<Rightarrow> Inl err | Inr _ \<Rightarrow> Inr out))"

text \<open>A float is \<open>None\<close> when it is not finite; \<open>format_float\<close> is the shortest text of a float.\<close>

definition DecimalFromFloat :: "(string \<Rightarrow> bool) \<Rightarrow> (real \<Rightarrow> string) \<Rightarrow> real option \<Rightarrow> string + string" where
  "DecimalFromFloat json_valid format_float val =
     (case val of
        None \<Rightarrow> Inl ''decimal must be finite and nonnegative''
      | Some x \<Rightarrow> if x < 0 then Inl ''decimal must be finite and nonnegative'' else DecimalFromJSONNumber json_valid (format_float x))"

definition number :: "string \<Rightarrow> string \<Rightarrow> int \<Rightarrow> string + rat" where
  "number name val most =
     (case ParseDecimal val of
        Inl err \<Rightarrow> Inl (name @ '': '' @ err)
      | Inr n \<Rightarrow> if of_int most < n then Inl (name @ '' must be between 0 and '' @ Itoa most) else Inr n)"

definition number_ok :: "string \<Rightarrow> string \<Rightarrow> int \<Rightarrow> verdict" where
  "number_ok name val most = (case number name val most of Inl err \<Rightarrow> Failed err | Inr _ \<Rightarrow> Passed)"

section \<open>Answers\<close>

definition Probability_Validate :: "Probability \<Rightarrow> verdict" where
  "Probability_Validate v =
     check_All [check_Text ''probability.id'' (pb_ID v) 255 True, number_ok ''probability'' (pb_Value v) 1]"

definition probability_sum :: "Probability list \<Rightarrow> rat" where
  "probability_sum vs = foldl (\<lambda>sum p. case number ''probability'' (pb_Value p) 1 of Inr n \<Rightarrow> sum + n | Inl _ \<Rightarrow> sum) 0 vs"

definition probabilities :: "(string \<Rightarrow> string) \<Rightarrow> Probability list \<Rightarrow> verdict" where
  "probabilities qt vs =
     and_then (check_Count ''probabilities'' (int (length vs)) 1 MaxOptions) (\<lambda>_.
       and_then (each Probability_Validate vs) (\<lambda>_.
         if 1 / 1000000 < \<bar>probability_sum vs - 1\<bar> then Failed ''probabilities must sum to one''
         else check_Unique qt ''probability'' (map pb_ID vs)))"

definition LegendEntry_Validate :: "LegendEntry \<Rightarrow> verdict" where
  "LegendEntry_Validate v = check_All [check_Text ''legend.id'' (le_ID v) 255 True, check_Text ''legend.label'' (le_Label v) 4096 True]"

definition ChoiceAnswer_Validate :: "(string \<Rightarrow> string) \<Rightarrow> ChoiceAnswer \<Rightarrow> verdict" where
  "ChoiceAnswer_Validate qt v =
     and_then (check_All [number_ok ''confidence'' (ca_Confidence v) 1, probabilities qt (ca_Probabilities v)]) (\<lambda>_.
       if list_ex (\<lambda>p. pb_ID p = ca_Choice v) (ca_Probabilities v) then Passed else Failed ''choice is absent from probabilities'')"

definition ScoreAnswer_Validate :: "(string \<Rightarrow> string) \<Rightarrow> ScoreAnswer \<Rightarrow> verdict" where
  "ScoreAnswer_Validate qt v =
     and_then (check_All [number_ok ''score'' (sa_Score v) (MaxScoreLevels - 1), number_ok ''confidence'' (sa_Confidence v) 1,
         probabilities qt (sa_Probabilities v), check_Count ''legend'' (int (length (sa_Legend v))) 2 MaxScoreLevels]) (\<lambda>_.
       and_then (each LegendEntry_Validate (sa_Legend v)) (\<lambda>_. check_Unique qt ''legend'' (map le_ID (sa_Legend v))))"

definition Answer_Validate :: "(string \<Rightarrow> string) \<Rightarrow> Answer \<Rightarrow> verdict" where
  "Answer_Validate qt v =
     and_then (check_All [check_ID ''answer.id'' (an_ID v),
         one qt (an_Kind v) (an_Choice v \<noteq> None) (an_Score v \<noteq> None) (an_Noul v \<noteq> None)]) (\<lambda>_.
       case an_Choice v of
         Some c \<Rightarrow> ChoiceAnswer_Validate qt c
       | None \<Rightarrow>
           (case an_Score v of
              Some s \<Rightarrow> ScoreAnswer_Validate qt s
            | None \<Rightarrow> (case an_Noul v of Some n \<Rightarrow> number_ok ''noul'' n 1 | None \<Rightarrow> Panicked)))"

definition Usage_Validate :: "Usage \<Rightarrow> verdict" where
  "Usage_Validate v =
     (if us_InputTokens v = None \<or> us_OutputTokens v = None then Failed ''usage requires explicit input and output counts'' else Passed)"

definition BatchResult_Validate :: "(string \<Rightarrow> string) \<Rightarrow> decision_sizes \<Rightarrow> BatchResult \<Rightarrow> verdict" where
  "BatchResult_Validate qt dz v =
     and_then (check_Text ''requestedModel'' (bs_RequestedModel v) 255 True) (\<lambda>_.
       and_then (check_All [check_ID ''providerId'' (bs_ProviderID v), check_Text ''model'' (bs_Model v) 255 True,
           Usage_Validate (bs_Usage v), check_Count ''answers'' (int (length (bs_Answers v))) 1 MaxQuestions]) (\<lambda>_.
         and_then (each (Answer_Validate qt) (bs_Answers v)) (\<lambda>_.
           check_All [check_Unique qt ''answer'' (map an_ID (bs_Answers v)), check_SizeLimit (dz_result dz v) (uint MaxAssembledBytes)])))"

fun missing_criterion :: "string list \<Rightarrow> Probability list \<Rightarrow> string option" where
  "missing_criterion [] actual = None"
| "missing_criterion (i # is) actual = (if list_ex (\<lambda>p. pb_ID p = i) actual then missing_criterion is actual else Some i)"

definition covers :: "(string \<Rightarrow> string) \<Rightarrow> string list \<Rightarrow> Probability list \<Rightarrow> verdict" where
  "covers qt expected actual =
     (if length expected \<noteq> length actual then Failed ''probabilities must cover all criteria''
      else case missing_criterion expected actual of None \<Rightarrow> Passed | Some i \<Rightarrow> Failed (''probability missing criterion '' @ qt i))"

text \<open>One round of the loop of \<^verbatim>\<open>ValidateFor\<close>. A question with both a choice and a score is possible as far as this code
  goes, so the second overwrites the probabilities and adds to the expected ids.\<close>

definition check_answer :: "(string \<Rightarrow> string) \<Rightarrow> Question \<times> Answer \<Rightarrow> verdict" where
  "check_answer qt qa =
     (let (q, a) = qa in
      if an_ID a \<noteq> qn_ID q \<or> an_Kind a \<noteq> qn_Kind q then Failed ''answer order, id or kind does not match question''
      else
        let chosen = (case qn_Choice q of
              None \<Rightarrow> Some ([], [])
            | Some options \<Rightarrow> (case an_Choice a of None \<Rightarrow> None | Some c \<Rightarrow> Some (map do_ID options, ca_Probabilities c))) in
        case chosen of
          None \<Rightarrow> Panicked
        | Some (expected, actual) \<Rightarrow>
            (case qn_Score q of
               None \<Rightarrow> covers qt expected actual
             | Some levels \<Rightarrow>
                 (case an_Score a of
                    None \<Rightarrow> Panicked
                  | Some s \<Rightarrow>
                      and_then (number_ok ''score'' (sa_Score s) (int (length levels) - 1)) (\<lambda>_.
                        let expected' = expected @ map (\<lambda>n. Itoa (int n)) [0..<length levels] in
                        if length (sa_Legend s) \<noteq> length expected' then Failed ''score legend does not match levels''
                        else if map le_ID (sa_Legend s) \<noteq> expected' then Failed ''score legend keys must match zero-based levels''
                        else covers qt expected' (sa_Probabilities s)))))"

definition BatchResult_ValidateFor ::
  "(string \<Rightarrow> string) \<Rightarrow> (string \<Rightarrow> bool) \<Rightarrow> decision_sizes \<Rightarrow> BatchResult \<Rightarrow> BatchRequest \<Rightarrow> verdict" where
  "BatchResult_ValidateFor qt json_valid dz v request =
     and_then (check_All [BatchRequest_Validate qt json_valid dz request, BatchResult_Validate qt dz v]) (\<lambda>_.
       if bs_ProviderID v \<noteq> bq_ProviderID request \<or> bs_RequestedModel v \<noteq> bq_Model request \<or>
          length (bs_Answers v) \<noteq> length (bq_Questions request)
       then Failed ''decision result does not match request''
       else each (check_answer qt) (zip (bq_Questions request) (bs_Answers v)))"

section \<open>Jobs and models\<close>

definition DecisionModel_Validate :: "(string \<Rightarrow> string) \<Rightarrow> DecisionModel \<Rightarrow> verdict" where
  "DecisionModel_Validate qt v =
     and_then (check_All [check_Text ''model.id'' (dm_ID v) 255 True, check_Text ''model.label'' (dm_Label v) 255 True,
         check_Count ''model.kinds'' (int (length (dm_Kinds v))) 1 3, check_Unique qt ''model kind'' (dm_Kinds v)]) (\<lambda>_.
       each (\<lambda>kind. check_Enum qt ''model kind'' kind [KindChoice, KindScore, KindNoul]) (dm_Kinds v))"

definition Failure_Validate :: "Failure \<Rightarrow> verdict" where
  "Failure_Validate v = check_All [check_ID ''failure.code'' (fl_Code v), check_Text ''failure.message'' (fl_Message v) 1024 True]"

definition ModelsResult_Validate :: "(string \<Rightarrow> string) \<Rightarrow> (string \<Rightarrow> bool) \<Rightarrow> decision_sizes \<Rightarrow> ModelsResult \<Rightarrow> verdict" where
  "ModelsResult_Validate qt is_time dz v =
     and_then (if mr_ObservedAt v \<noteq> '''' then check_Timestamp is_time ''models.observedAt'' (mr_ObservedAt v) else Passed) (\<lambda>_.
       if mr_Models v \<noteq> [] \<and> mr_ObservedAt v = '''' then Failed ''model catalog needs its observation time''
       else and_then (case mr_Failure v of
                None \<Rightarrow> Passed
              | Some f \<Rightarrow> if mr_Refreshing v then Failed ''refreshing catalog cannot have a terminal failure'' else Failure_Validate f) (\<lambda>_.
         and_then (check_All [check_ID ''providerId'' (mr_ProviderID v), check_Count ''models'' (int (length (mr_Models v))) 0 100]) (\<lambda>_.
           and_then (each (DecisionModel_Validate qt) (mr_Models v)) (\<lambda>_.
             check_All [check_Unique qt ''model'' (map dm_ID (mr_Models v)), check_Size (dz_models dz v)]))))"

definition Job_Validate :: "(string \<Rightarrow> string) \<Rightarrow> (string \<Rightarrow> bool) \<Rightarrow> decision_sizes \<Rightarrow> Job \<Rightarrow> verdict" where
  "Job_Validate qt is_time dz v =
     and_then (check_All [check_ID ''job.id'' (jb_ID v), check_ID ''job.providerId'' (jb_ProviderID v),
         check_Enum qt ''job state'' (jb_State v) JobStates, check_Timestamp is_time ''job.createdAt'' (jb_CreatedAt v),
         check_Timestamp is_time ''job.deadlineAt'' (jb_DeadlineAt v), check_OptionalID ''job.resultHandleId'' (jb_ResultHandleID v)]) (\<lambda>_.
       and_then
         (if jb_State v = StateCompleted then
            (if (jb_Result v = None) = (jb_ResultHandleID v = '''') \<or> jb_Failure v \<noteq> None
             then Failed ''completed job requires exactly one result source''
             else case jb_Result v of
               None \<Rightarrow> Passed
             | Some r \<Rightarrow>
                 if bs_ProviderID r \<noteq> jb_ProviderID v then Failed ''job provider mismatch'' else BatchResult_Validate qt dz r)
          else if jb_Result v \<noteq> None \<or> jb_ResultHandleID v \<noteq> '''' then Failed ''unfinished job cannot expose a result''
          else Passed) (\<lambda>_.
         if (jb_State v = StateFailed) \<noteq> (jb_Failure v \<noteq> None) then Failed ''failed job requires a failure, other states forbid it''
         else and_then (case jb_Failure v of None \<Rightarrow> Passed | Some f \<Rightarrow> Failure_Validate f) (\<lambda>_. check_Size (dz_job dz v))))"

definition ProviderStartRequest_Validate ::
  "(string \<Rightarrow> string) \<Rightarrow> (string \<Rightarrow> bool) \<Rightarrow> decision_sizes \<Rightarrow> string \<Rightarrow> BatchRequest \<Rightarrow> verdict" where
  "ProviderStartRequest_Validate qt json_valid dz invocation batch =
     check_All [check_ID ''invocationId'' invocation, BatchRequest_Validate qt json_valid dz batch, check_Size (dz_start dz invocation batch)]"

definition ProviderJobRequest_Validate :: "string \<Rightarrow> string \<Rightarrow> verdict" where
  \<comment> \<open>of a read and of a cancellation\<close>
  "ProviderJobRequest_Validate invocation job = check_All [check_ID ''invocationId'' invocation, check_ID ''jobId'' job]"

definition ModelsRequest_Validate :: "string \<Rightarrow> verdict" where
  "ModelsRequest_Validate provider = check_ID ''providerId'' provider"

definition ProviderModelsRequest_Validate :: "string \<Rightarrow> string \<Rightarrow> verdict" where
  "ProviderModelsRequest_Validate invocation provider = check_All [check_ID ''invocationId'' invocation, ModelsRequest_Validate provider]"

definition JobRequest_Validate :: "string \<Rightarrow> verdict" where
  "JobRequest_Validate job = check_ID ''jobId'' job"

definition DeclaredCommands :: "Pattern list \<Rightarrow> Subject list" where
  "DeclaredCommands requests =
     filter (\<lambda>command. list_ex (\<lambda>p. p = command \<or> p = ''cmd.gateway.ai-decision.v1.>'') requests)
       [CommandStart, CommandRead, CommandCancel, CommandModels]"

section \<open>When a loop passes\<close>

lemma each_passed [checks]: "each f xs = Passed \<longleftrightarrow> (\<forall>x \<in> set xs. f x = Passed)"
  by (induction xs) (auto simp: checks)

lemma each_no_panic: "(\<And>x. x \<in> set xs \<Longrightarrow> f x \<noteq> Panicked) \<Longrightarrow> each f xs \<noteq> Panicked"
  by (induction xs) (auto simp: checks)

lemma one_passed [checks]:
  "one qt kind choice score noul = Passed \<longleftrightarrow>
     kind = KindChoice \<and> choice \<and> \<not> score \<and> \<not> noul \<or> kind = KindScore \<and> score \<and> \<not> choice \<and> \<not> noul \<or>
     kind = KindNoul \<and> noul \<and> \<not> choice \<and> \<not> score"
  by (simp add: one_def)

lemma one_no_panic [checks]: "one qt kind choice score noul \<noteq> Panicked"
  by (simp add: one_def)

lemma number_ok_no_panic [checks]: "number_ok name val most \<noteq> Panicked"
  by (simp add: number_ok_def split: sum.split)

lemma number_ok_passed [checks]: "number_ok name val most = Passed \<longleftrightarrow> (\<exists>n. ParseDecimal val = Inr n \<and> n \<le> of_int most)"
  by (auto simp: number_ok_def number_def split: sum.split)

lemma values_no_panic [checks]:
  "TextInput_Validate t \<noteq> Panicked" "ValidateContent json_valid format content \<noteq> Panicked"
  "StructuredValue_Validate qt json_valid v \<noteq> Panicked" "Option_Validate qt json_valid opt \<noteq> Panicked"
proof -
  show t: "TextInput_Validate t \<noteq> Panicked" for t by (simp add: TextInput_Validate_def checks)
  show c: "ValidateContent json_valid format content \<noteq> Panicked" for format content
    by (auto simp: ValidateContent_def checks Let_def)
  show s: "StructuredValue_Validate qt json_valid v \<noteq> Panicked" for v
    using t c by (auto simp: StructuredValue_Validate_def checks)
  show "Option_Validate qt json_valid opt \<noteq> Panicked"
    using s by (auto simp: Option_Validate_def checks split: option.split)
qed

lemma questions_no_panic [checks]:
  "ChoiceQuestion_Validate qt json_valid options \<noteq> Panicked" "ScoreQuestion_Validate qt json_valid levels \<noteq> Panicked"
  "NoulQuestion_Validate qt json_valid criteria \<noteq> Panicked" "Question_Validate qt json_valid q \<noteq> Panicked"
proof -
  show c: "ChoiceQuestion_Validate qt json_valid options \<noteq> Panicked" for options
    by (simp add: ChoiceQuestion_Validate_def checks each_no_panic)
  show s: "ScoreQuestion_Validate qt json_valid levels \<noteq> Panicked" for levels
    by (simp add: ScoreQuestion_Validate_def checks each_no_panic)
  show n: "NoulQuestion_Validate qt json_valid criteria \<noteq> Panicked" for criteria
    by (auto simp: NoulQuestion_Validate_def checks split: option.split)
  show "Question_Validate qt json_valid q \<noteq> Panicked"
    using c s n by (auto simp: Question_Validate_def checks split: option.split)
qed

lemma request_no_panic [checks]: "BatchRequest_Validate qt json_valid dz v \<noteq> Panicked"
  by (auto simp: BatchRequest_Validate_def checks each_no_panic)

lemma answers_no_panic [checks]:
  "Probability_Validate p \<noteq> Panicked" "probabilities qt ps \<noteq> Panicked" "LegendEntry_Validate l \<noteq> Panicked"
  "ChoiceAnswer_Validate qt c \<noteq> Panicked" "ScoreAnswer_Validate qt s \<noteq> Panicked" "Answer_Validate qt a \<noteq> Panicked"
  "Usage_Validate u \<noteq> Panicked"
proof -
  show p: "Probability_Validate p \<noteq> Panicked" for p by (simp add: Probability_Validate_def checks)
  show ps: "probabilities qt ps \<noteq> Panicked" for ps by (simp add: probabilities_def checks each_no_panic p)
  show l: "LegendEntry_Validate l \<noteq> Panicked" for l by (simp add: LegendEntry_Validate_def checks)
  show c: "ChoiceAnswer_Validate qt c \<noteq> Panicked" for c using ps by (auto simp: ChoiceAnswer_Validate_def checks)
  show s: "ScoreAnswer_Validate qt s \<noteq> Panicked" for s using ps by (auto simp: ScoreAnswer_Validate_def checks each_no_panic l)
  show "Answer_Validate qt a \<noteq> Panicked" using c s by (auto simp: Answer_Validate_def checks split: option.split)
  show "Usage_Validate u \<noteq> Panicked" by (simp add: Usage_Validate_def)
qed

lemma result_no_panic [checks]: "BatchResult_Validate qt dz v \<noteq> Panicked"
  by (auto simp: BatchResult_Validate_def checks each_no_panic)

lemma Question_kinds:
  assumes "Question_Validate qt json_valid q = Passed"
  shows "qn_Kind q = KindChoice \<and> (\<exists>os. qn_Choice q = Some os \<and> distinct (map do_ID os)) \<and> qn_Score q = None \<and> qn_Noul q = None \<or>
    qn_Kind q = KindScore \<and> qn_Choice q = None \<and> (\<exists>ls. qn_Score q = Some ls \<and> 2 \<le> length ls) \<and> qn_Noul q = None \<or>
    qn_Kind q = KindNoul \<and> qn_Choice q = None \<and> qn_Score q = None \<and> qn_Noul q \<noteq> None"
  using assms
  by (auto simp: Question_Validate_def ChoiceQuestion_Validate_def ScoreQuestion_Validate_def checks split: option.splits)

lemma Answer_kinds:
  assumes "Answer_Validate qt a = Passed"
  shows "an_Kind a = KindChoice \<and> (\<exists>c. an_Choice a = Some c \<and> ChoiceAnswer_Validate qt c = Passed) \<and> an_Score a = None \<and> an_Noul a = None \<or>
    an_Kind a = KindScore \<and> an_Choice a = None \<and> (\<exists>s. an_Score a = Some s \<and> ScoreAnswer_Validate qt s = Passed) \<and> an_Noul a = None \<or>
    an_Kind a = KindNoul \<and> an_Choice a = None \<and> an_Score a = None \<and> (\<exists>n x. an_Noul a = Some n \<and> ParseDecimal n = Inr x \<and> x \<le> 1)"
  using assms by (auto simp: Answer_Validate_def checks split: option.splits)

lemma kinds_differ: "KindChoice \<noteq> KindScore" "KindChoice \<noteq> KindNoul" "KindScore \<noteq> KindNoul"
  by (simp_all add: KindChoice_def KindScore_def KindNoul_def)

lemma probabilities_passed:
  "probabilities qt ps = Passed \<Longrightarrow> distinct (map pb_ID ps) \<and> \<bar>probability_sum ps - 1\<bar> \<le> 1 / 1000000"
  by (auto simp: probabilities_def checks split: if_splits)

lemma missing_criterion_None: "missing_criterion is actual = None \<longleftrightarrow> set is \<subseteq> set (map pb_ID actual)"
  by (induction "is") (auto simp: list_ex_iff)

lemma covers_passed:
  assumes "covers qt expected actual = Passed" "distinct expected" "distinct (map pb_ID actual)"
  shows "mset (map pb_ID actual) = mset expected"
proof -
  have len: "length expected = length (map pb_ID actual)" and sub: "set expected \<subseteq> set (map pb_ID actual)"
    using assms(1) by (auto simp: covers_def missing_criterion_None split: if_splits option.splits)
  have "set expected = set (map pb_ID actual)"
    using sub by (rule card_subset_eq [rotated]) (use len assms(2,3) in \<open>simp_all only: distinct_card finite_set\<close>)
  with assms(2,3) show ?thesis by (metis set_eq_iff_mset_eq_distinct)
qed

lemma covers_no_panic [checks]: "covers qt expected actual \<noteq> Panicked"
  by (simp add: covers_def split: option.split)

lemma level_ids: "distinct (map (\<lambda>n. Itoa (int n)) [0..<k])"
proof -
  have "inj_on (\<lambda>n. Itoa (int n)) (set [0..<k])" by (auto intro!: inj_onI simp: Itoa_def)
  then show ?thesis by (simp add: distinct_map)
qed


section \<open>Decimal values\<close>

lemma undecimal_cat: "undecimal (a @ b) = undecimal a * 10 ^ length b + undecimal b"
proof (induction b rule: rev_induct)
  case (snoc c b)
  then show ?case by (simp add: undecimal_def algebra_simps)
qed (simp add: undecimal_def)

lemma zero_digit: "digit_val (CHR ''0'') = 0" "is_digit (CHR ''0'')"
  by (simp_all add: digit_val_def is_digit_def)

lemma undecimal_zeros [simp]: "undecimal (replicate k (CHR ''0'')) = 0"
  by (induction k) (simp_all add: undecimal_def zero_digit)

lemma undecimal_strip: "undecimal (dropWhile (\<lambda>c. c = CHR ''0'') s) = undecimal s"
  by (induction s) (simp_all add: undecimal_def zero_digit)

lemma strip_end:
  obtains k where "s = rev (dropWhile (\<lambda>c. c = CHR ''0'') (rev s)) @ replicate k (CHR ''0'')"
proof
  have "takeWhile (\<lambda>c. c = CHR ''0'') t = replicate (length (takeWhile (\<lambda>c. c = CHR ''0'') t)) (CHR ''0'')" for t
    by (induction t) simp_all
  then have "rev (takeWhile (\<lambda>c. c = CHR ''0'') (rev s)) = replicate (length (takeWhile (\<lambda>c. c = CHR ''0'') (rev s))) (CHR ''0'')"
    by (metis rev_replicate)
  moreover have "rev (rev s) = rev (dropWhile (\<lambda>c. c = CHR ''0'') (rev s)) @ rev (takeWhile (\<lambda>c. c = CHR ''0'') (rev s))"
    unfolding rev_append [symmetric] takeWhile_dropWhile_id by (rule refl)
  ultimately show "s = rev (dropWhile (\<lambda>c. c = CHR ''0'') (rev s)) @ replicate (length (takeWhile (\<lambda>c. c = CHR ''0'') (rev s))) (CHR ''0'')"
    by simp
qed

lemma digit_not_point: "list_all is_digit s \<Longrightarrow> CHR ''.'' \<notin> set s"
  by (auto simp: list_all_iff is_digit_def dest!: bspec [where x = "CHR ''.''"])

lemma cut_on_free: "c \<notin> set s \<Longrightarrow> cut_on c s = None"
  by (induction s) auto

lemma placed_value:
  assumes "placed digits point = (ds, p)" "list_all is_digit digits" "digits \<noteq> ''''"
  shows "list_all is_digit ds \<and> p \<le> length ds \<and>
    (of_nat (undecimal ds) :: rat) / 10 ^ (length ds - p) = of_nat (undecimal digits) * 10 powi (point - int (length digits))"
proof (cases "point \<le> 0")
  case True
  then have ds: "ds = replicate (nat (1 - point)) (CHR ''0'') @ digits" "p = 1"
    using assms(1,3) by (auto simp: placed_def Let_def split: if_splits)
  have len: "length ds - p = nat (int (length digits) - point)" using True ds assms(3) by (cases digits) auto
  have "(10 :: rat) powi (point - int (length digits)) = inverse (10 ^ nat (int (length digits) - point))"
    using True by (simp add: power_int_def power_one_over inverse_eq_divide)
  then have "(of_nat (undecimal ds) :: rat) / 10 ^ (length ds - p) = of_nat (undecimal digits) * 10 powi (point - int (length digits))"
    unfolding len by (simp add: ds(1) undecimal_cat divide_inverse)
  moreover have "list_all is_digit ds" "p \<le> length ds" using ds assms(2,3) by (auto simp: zero_digit list_all_iff Suc_le_eq)
  ultimately show ?thesis by blast
next
  case False
  show ?thesis
  proof (cases "length digits \<le> nat point")
    case True
    then have ds: "ds = digits @ replicate (nat point - length digits) (CHR ''0'')" "p = nat point"
      using assms(1) False by (auto simp: placed_def Let_def split: if_splits)
    have "(10 :: rat) powi (point - int (length digits)) = 10 ^ (nat point - length digits)"
      using True False by (simp add: power_int_def nat_diff_distrib)
    then show ?thesis using ds assms(2) True by (auto simp: undecimal_cat zero_digit list_all_iff)
  next
    case inner: False
    then have ds: "ds = digits" "p = nat point" using assms(1) False by (auto simp: placed_def Let_def split: if_splits)
    have neg: "\<not> 0 \<le> point - int (length digits)" "nat (- (point - int (length digits))) = length digits - nat point"
      using inner False by linarith+
    have "(10 :: rat) powi (point - int (length digits)) = inverse (10 ^ (length digits - nat point))"
      unfolding power_int_def using neg by (simp only: if_False power_inverse)
    then show ?thesis using ds assms(2) inner by (auto simp: field_simps)
  qed
qed

lemma plain_decimal_placed:
  assumes "placed digits point = (ds, p)"
  shows "plain_decimal digits point =
    (let whole = dropWhile (\<lambda>c. c = CHR ''0'') (take p ds); frac = rev (dropWhile (\<lambda>c. c = CHR ''0'') (rev (drop p ds))) in
     (if whole = '''' then ''0'' else whole) @ (if frac = '''' then '''' else ''.'' @ frac))"
  by (simp add: plain_decimal_def assms Let_def)

lemma plain_decimal_value:
  assumes "list_all is_digit digits" "digits \<noteq> ''''"
  shows "decimalPattern (plain_decimal digits point)"
    and "Rat_SetString (plain_decimal digits point) = of_nat (undecimal digits) * 10 powi (point - int (length digits))"
proof -
  obtain ds p where pl: "placed digits point = (ds, p)" by (cases "placed digits point")
  define whole where "whole = (let w = dropWhile (\<lambda>c. c = CHR ''0'') (take p ds) in if w = '''' then ''0'' else w)"
  define frac where "frac = rev (dropWhile (\<lambda>c. c = CHR ''0'') (rev (drop p ds)))"
  have out: "plain_decimal digits point = whole @ (if frac = '''' then '''' else ''.'' @ frac)"
    using plain_decimal_placed [OF pl] by (simp add: whole_def frac_def Let_def)
  note v = placed_value [OF pl assms]
  have dig: "list_all is_digit (take p ds)" "list_all is_digit (drop p ds)" using v by (auto simp: list_all_iff dest: in_set_takeD in_set_dropD)
  have w: "whole = ''0'' \<or> whole \<noteq> '''' \<and> list_all is_digit whole \<and> hd whole \<noteq> CHR ''0''"
    using dig(1) hd_dropWhile [of "\<lambda>c. c = CHR ''0''" "take p ds"] by (auto simp: whole_def Let_def list_all_iff dest: set_dropWhileD)
  have wd: "list_all is_digit whole" using w zero_digit(2) by auto
  have f: "list_all is_digit frac" using dig(2) by (auto simp: frac_def list_all_iff dest: set_dropWhileD)
  have cut: "cut_on (CHR ''.'') (plain_decimal digits point) = (if frac = '''' then None else Some (whole, frac))"
    using digit_not_point [OF wd] by (simp add: out cut_on_free cut_on_append)
  show "decimalPattern (plain_decimal digits point)"
    using w f cut out by (auto simp: decimalPattern_def)
  obtain k where k: "drop p ds = frac @ replicate k (CHR ''0'')" using strip_end [of "drop p ds"] unfolding frac_def by blast
  have "undecimal ''0'' = undecimal ''''" by (simp add: undecimal_def zero_digit)
  then have "undecimal whole = undecimal (take p ds)"
    using undecimal_strip [of "take p ds"] unfolding whole_def Let_def by (metis (full_types))
  then have "undecimal ds = undecimal (whole @ frac) * 10 ^ k"
    using arg_cong [OF append_take_drop_id [of p ds, unfolded k], of undecimal] by (simp add: undecimal_cat power_add algebra_simps)
  moreover have "length ds - p = length frac + k" using arg_cong [OF k, of length] by simp
  ultimately have "(of_nat (undecimal ds) :: rat) / 10 ^ (length ds - p) = of_nat (undecimal (whole @ frac)) / 10 ^ length frac"
    by (simp add: power_add)
  moreover have "Rat_SetString (plain_decimal digits point) = of_nat (undecimal (whole @ frac)) / 10 ^ length frac"
    by (simp add: Rat_SetString_def cut) (simp add: out)
  ultimately show "Rat_SetString (plain_decimal digits point) = of_nat (undecimal digits) * 10 powi (point - int (length digits))"
    using v by simp
qed


section \<open>Numbers of JSON\<close>

text \<open>The texts of the numbers of JSON that are not negative: integer part, fraction and exponent; and their values.\<close>

definition number_text :: "string \<Rightarrow> string \<Rightarrow> (char \<times> string \<times> string) option \<Rightarrow> string" where
  "number_text ip fp ex =
     ip @ (if fp = '''' then '''' else ''.'' @ fp) @ (case ex of None \<Rightarrow> '''' | Some (c, sg, ds) \<Rightarrow> c # sg @ ds)"

definition json_number :: "string \<Rightarrow> string \<Rightarrow> (char \<times> string \<times> string) option \<Rightarrow> bool" where
  "json_number ip fp ex \<longleftrightarrow>
     ip \<noteq> '''' \<and> list_all is_digit ip \<and> (hd ip = CHR ''0'' \<longrightarrow> ip = ''0'') \<and> list_all is_digit fp \<and>
     (case ex of
        None \<Rightarrow> True
      | Some (c, sg, ds) \<Rightarrow> c \<in> {CHR ''e'', CHR ''E''} \<and> sg \<in> {'''', ''+'', ''-''} \<and> ds \<noteq> '''' \<and> list_all is_digit ds)"

definition exponent_value :: "(char \<times> string \<times> string) option \<Rightarrow> int" where
  "exponent_value ex =
     (case ex of None \<Rightarrow> 0 | Some (c, sg, ds) \<Rightarrow> if sg = ''-'' then - int (undecimal ds) else int (undecimal ds))"

definition number_value :: "string \<Rightarrow> string \<Rightarrow> (char \<times> string \<times> string) option \<Rightarrow> rat" where
  "number_value ip fp ex = of_nat (undecimal (ip @ fp)) * 10 powi (exponent_value ex - int (length fp))"

lemma digit_plain: "list_all is_digit s \<Longrightarrow> c \<in> set s \<Longrightarrow> c \<notin> {CHR ''e'', CHR ''E'', CHR ''.'', CHR ''-'', CHR ''+''}"
  by (drule (1) bspec [of "set s" is_digit, folded list_all_iff]) (auto simp: is_digit_def)

lemma mantissa_plain:
  assumes "list_all is_digit ip" "list_all is_digit fp" "c \<in> set (ip @ (if fp = '''' then '''' else ''.'' @ fp))"
  shows "c \<noteq> CHR ''e'' \<and> c \<noteq> CHR ''E'' \<and> c \<noteq> CHR ''-''"
  using assms digit_plain [of ip c] digit_plain [of fp c] by (auto split: if_splits)

lemma Atoi_exponent:
  assumes "sg \<in> {'''', ''+'', ''-''}" "ds \<noteq> ''''" "list_all is_digit ds"
  shows "case Atoi (sg @ ds) of None \<Rightarrow> 64 < \<bar>exponent_value (Some (c, sg, ds))\<bar> | Some n \<Rightarrow> n = exponent_value (Some (c, sg, ds))"
proof -
  obtain d dr where d: "ds = d # dr" using assms(2) by (cases ds) auto
  have "d \<noteq> CHR ''-''" "d \<noteq> CHR ''+''" using digit_plain [OF assms(3), of d] d by auto
  then show ?thesis using assms(1,3) by (auto simp: Atoi_def exponent_value_def d Let_def)
qed

lemma exponent_fields_number:
  assumes "json_number ip fp ex"
  shows "exponent_fields (number_text ip fp ex) =
    (ip @ (if fp = '''' then '''' else ''.'' @ fp)) # (case ex of None \<Rightarrow> [] | Some (c, sg, ds) \<Rightarrow> [sg @ ds])"
proof -
  let ?m = "ip @ (if fp = '''' then '''' else ''.'' @ fp)" and ?f = "\<lambda>c. if c = CHR ''E'' then CHR ''e'' else c"
  have m: "map ?f ?m = ?m" "CHR ''e'' \<notin> set ?m" "?m \<noteq> ''''"
  proof -
    have "list_all is_digit ip" "list_all is_digit fp" "ip \<noteq> ''''" using assms by (simp_all add: json_number_def)
    note plain = mantissa_plain [OF this(1,2)]
    show "map ?f ?m = ?m" by (rule map_idI) (use plain in simp)
    show "CHR ''e'' \<notin> set ?m" using plain by blast
    show "?m \<noteq> ''''" using \<open>ip \<noteq> ''''\<close> by simp
  qed
  show ?thesis
  proof (cases ex)
    case None
    then have "number_text ip fp ex = ?m" by (simp add: number_text_def)
    then have "exponent_fields (number_text ip fp ex) = filter (\<lambda>t. t \<noteq> '''') [?m]"
      unfolding exponent_fields_def by (simp only: m(1) split_on_single [OF m(2)])
    then show ?thesis using m(3) None by simp
  next
    case (Some x)
    obtain c sg ds where x: "x = (c, sg, ds)" by (cases x)
    have e: "c \<in> {CHR ''e'', CHR ''E''}" "sg \<in> {'''', ''+'', ''-''}" "ds \<noteq> ''''" "list_all is_digit ds"
      using assms Some x by (auto simp: json_number_def)
    have t: "map ?f (sg @ ds) = sg @ ds" "CHR ''e'' \<notin> set (sg @ ds)"
      using e(2,4) digit_plain [OF e(4)] by (auto intro!: map_idI)
    have "map ?f (number_text ip fp ex) = ?m @ CHR ''e'' # (sg @ ds)"
      using e(1) m(1) t(1) by (auto simp: number_text_def Some x)
    then have "exponent_fields (number_text ip fp ex) = filter (\<lambda>t. t \<noteq> '''') [?m, sg @ ds]"
      unfolding exponent_fields_def by (simp only: split_on_append [OF m(2)] split_on_single [OF t(2)])
    then show ?thesis using m(3) e(3) Some x by simp
  qed
qed

lemma mantissa_parts:
  assumes "list_all is_digit ip" "list_all is_digit fp"
  shows "filter (\<lambda>c. c \<noteq> CHR ''.'') (ip @ (if fp = '''' then '''' else ''.'' @ fp)) = ip @ fp"
    and "(case cut_on (CHR ''.'') (ip @ (if fp = '''' then '''' else ''.'' @ fp)) of None \<Rightarrow> length (ip @ (if fp = '''' then '''' else ''.'' @ fp))
      | Some (a, _) \<Rightarrow> length a) = length ip"
proof -
  have "filter (\<lambda>c. c \<noteq> CHR ''.'') s = s" if "list_all is_digit s" for s
    using digit_not_point [OF that] by (auto intro!: filter_True)
  then show "filter (\<lambda>c. c \<noteq> CHR ''.'') (ip @ (if fp = '''' then '''' else ''.'' @ fp)) = ip @ fp" using assms by simp
  show "(case cut_on (CHR ''.'') (ip @ (if fp = '''' then '''' else ''.'' @ fp)) of None \<Rightarrow> length (ip @ (if fp = '''' then '''' else ''.'' @ fp))
      | Some (a, _) \<Rightarrow> length a) = length ip"
    using digit_not_point [OF assms(1)] by (simp add: cut_on_free cut_on_append)
qed

lemma DecimalFromJSONNumber_text:
  assumes "json_number ip fp ex" "json_valid (number_text ip fp ex)" "length (number_text ip fp ex) \<le> 64"
  shows "DecimalFromJSONNumber json_valid (number_text ip fp ex) =
    (let out = plain_decimal (ip @ fp) (int (length ip) + exponent_value ex) in
     if 64 < \<bar>exponent_value ex\<bar> then Inl ''decimal exponent exceeds wire precision''
     else case ParseDecimal out of Inl err \<Rightarrow> Inl err | Inr _ \<Rightarrow> Inr out)"
proof -
  have d: "ip \<noteq> ''''" "list_all is_digit ip" "list_all is_digit fp" using assms(1) by (simp_all add: json_number_def)
  have raw: "\<not> 64 < length (number_text ip fp ex)" "number_text ip fp ex \<noteq> ''''" "hd (number_text ip fp ex) \<noteq> CHR ''-''"
    using assms(3) d(1) digit_plain [OF d(2), of "hd ip"] by (auto simp: number_text_def)
  note parts = exponent_fields_number [OF assms(1)]
  show ?thesis
  proof (cases ex)
    case None
    then show ?thesis
      using raw assms(2) parts mantissa_parts [OF d(2,3)]
      by (simp add: DecimalFromJSONNumber_def exponent_value_def del: split_on.simps)
  next
    case (Some x)
    obtain c sg ds where x: "x = (c, sg, ds)" by (cases x)
    have "sg \<in> {'''', ''+'', ''-''}" "ds \<noteq> ''''" "list_all is_digit ds" using assms(1) Some x by (auto simp: json_number_def)
    from Atoi_exponent [OF this, of c] have at: "case Atoi (sg @ ds) of None \<Rightarrow> 64 < \<bar>exponent_value ex\<bar> | Some n \<Rightarrow> n = exponent_value ex"
      unfolding Some x .
    have "(n < - 64 \<or> 64 < n) = (64 < \<bar>n\<bar>)" for n :: int by linarith
    then show ?thesis
      using raw assms(2) parts mantissa_parts [OF d(2,3)] at Some x
      by (cases "Atoi (sg @ ds)") (simp_all add: DecimalFromJSONNumber_def Let_def)
  qed
qed


section \<open>Properties\<close>




lemma ParseDecimal_nonneg: "ParseDecimal t = Inr n \<Longrightarrow> 0 \<le> n"
  by (auto simp: ParseDecimal_def Rat_SetString_def split: if_splits option.splits)

lemma choice_answers:
  assumes "Answer_Validate qt a = Passed" and "check_answer qt (q, a) = Passed"
    and q: "qn_Kind q = KindChoice" "qn_Choice q = Some options" "distinct (map do_ID options)" "qn_Score q = None"
  shows "\<exists>c. an_Choice a = Some c \<and> mset (map pb_ID (ca_Probabilities c)) = mset (map do_ID options) \<and>
    ca_Choice c \<in> set (map do_ID options) \<and> \<bar>probability_sum (ca_Probabilities c) - 1\<bar> \<le> 1 / 1000000"
proof -
  have same: "an_ID a = qn_ID q" "an_Kind a = qn_Kind q" using assms(2) by (auto simp: check_answer_def split: if_splits)
  obtain c where c: "an_Choice a = Some c" "ChoiceAnswer_Validate qt c = Passed"
    using Answer_kinds [OF assms(1)] same(2) q(1) kinds_differ by auto
  have ps: "probabilities qt (ca_Probabilities c) = Passed" and ch: "ca_Choice c \<in> set (map pb_ID (ca_Probabilities c))"
    using c(2) by (auto simp: ChoiceAnswer_Validate_def checks list_ex_iff intro: rev_image_eqI split: if_splits)
  have "covers qt (map do_ID options) (ca_Probabilities c) = Passed"
    using assms(2) q c same by (simp add: check_answer_def)
  from covers_passed [OF this q(3)] probabilities_passed [OF ps]
  have m: "mset (map pb_ID (ca_Probabilities c)) = mset (map do_ID options)" by blast
  with ch have "ca_Choice c \<in> set (map do_ID options)" by (metis mset_eq_setD)
  with m c probabilities_passed [OF ps] show ?thesis by simp
qed

lemma score_answers:
  assumes "Answer_Validate qt a = Passed" and "check_answer qt (q, a) = Passed"
    and q: "qn_Kind q = KindScore" "qn_Choice q = None" "qn_Score q = Some levels"
  shows "\<exists>s n. an_Score a = Some s \<and> ParseDecimal (sa_Score s) = Inr n \<and> 0 \<le> n \<and> n \<le> of_int (int (length levels) - 1) \<and>
    map le_ID (sa_Legend s) = map (\<lambda>n. Itoa (int n)) [0..<length levels] \<and>
    mset (map pb_ID (sa_Probabilities s)) = mset (map (\<lambda>n. Itoa (int n)) [0..<length levels]) \<and>
    \<bar>probability_sum (sa_Probabilities s) - 1\<bar> \<le> 1 / 1000000"
proof -
  have same: "an_ID a = qn_ID q" "an_Kind a = qn_Kind q" using assms(2) by (auto simp: check_answer_def split: if_splits)
  obtain s where s: "an_Score a = Some s" "ScoreAnswer_Validate qt s = Passed"
    using Answer_kinds [OF assms(1)] same(2) q(1) kinds_differ by auto
  have ps: "probabilities qt (sa_Probabilities s) = Passed" using s(2) by (simp add: ScoreAnswer_Validate_def checks)
  have r: "\<exists>n. ParseDecimal (sa_Score s) = Inr n \<and> n \<le> of_int (int (length levels) - 1)"
    "map le_ID (sa_Legend s) = map (\<lambda>n. Itoa (int n)) [0..<length levels]"
    "covers qt (map (\<lambda>n. Itoa (int n)) [0..<length levels]) (sa_Probabilities s) = Passed"
    using assms(2) q s same by (auto simp: check_answer_def Let_def checks split: if_splits)
  from covers_passed [OF r(3) level_ids] probabilities_passed [OF ps] r(1,2) s ParseDecimal_nonneg show ?thesis by auto
qed

text \<open>C36. An accepted result answers the request: one answer for every question, in order, of its id and kind. A choice has
  exactly one probability for every option, they sum to one up to a millionth, and what is chosen is an option; a
  score is a number from zero to the last level, with exactly one probability and one legend entry for every level;
  the answer to a yes-or-no question is a number from zero to one.\<close>

theorem accepted_result_answers_request:
  assumes "BatchResult_ValidateFor qt json_valid dz v request = Passed"
  shows "list_all2 (\<lambda>q a. an_ID a = qn_ID q \<and> an_Kind a = qn_Kind q \<and>
      (case (qn_Choice q, qn_Score q) of
         (Some options, _) \<Rightarrow>
           (\<exists>c. an_Choice a = Some c \<and> mset (map pb_ID (ca_Probabilities c)) = mset (map do_ID options) \<and>
              ca_Choice c \<in> set (map do_ID options) \<and> \<bar>probability_sum (ca_Probabilities c) - 1\<bar> \<le> 1 / 1000000)
       | (None, Some levels) \<Rightarrow>
           (\<exists>s n. an_Score a = Some s \<and> ParseDecimal (sa_Score s) = Inr n \<and> 0 \<le> n \<and> n \<le> of_int (int (length levels) - 1) \<and>
              map le_ID (sa_Legend s) = map (\<lambda>n. Itoa (int n)) [0..<length levels] \<and>
              mset (map pb_ID (sa_Probabilities s)) = mset (map (\<lambda>n. Itoa (int n)) [0..<length levels]) \<and>
              \<bar>probability_sum (sa_Probabilities s) - 1\<bar> \<le> 1 / 1000000)
       | (None, None) \<Rightarrow> (\<exists>t n. an_Noul a = Some t \<and> ParseDecimal t = Inr n \<and> 0 \<le> n \<and> n \<le> 1)))
    (bq_Questions request) (bs_Answers v)" (is "list_all2 ?fits _ _")
proof -
  have pass: "\<forall>q \<in> set (bq_Questions request). Question_Validate qt json_valid q = Passed"
      "\<forall>a \<in> set (bs_Answers v). Answer_Validate qt a = Passed" "length (bq_Questions request) = length (bs_Answers v)"
      "\<forall>qa \<in> set (zip (bq_Questions request) (bs_Answers v)). check_answer qt qa = Passed"
    using assms
    by (auto simp: BatchResult_ValidateFor_def BatchRequest_Validate_def BatchResult_Validate_def checks split: if_splits)
  have fits: "?fits q a" if p: "Question_Validate qt json_valid q = Passed" "Answer_Validate qt a = Passed" "check_answer qt (q, a) = Passed" for q a
  proof -
    have same: "an_ID a = qn_ID q" "an_Kind a = qn_Kind q" using p(3) by (auto simp: check_answer_def split: if_splits)
    from Question_kinds [OF p(1)] show ?thesis
    proof (elim disjE conjE exE)
      fix options
      assume "qn_Kind q = KindChoice" "qn_Choice q = Some options" "distinct (map do_ID options)" "qn_Score q = None"
      with choice_answers [OF p(2,3) this] same show ?thesis by simp
    next
      fix levels
      assume "qn_Kind q = KindScore" "qn_Choice q = None" "qn_Score q = Some levels"
      with score_answers [OF p(2,3) this] same show ?thesis by simp
    next
      assume "qn_Kind q = KindNoul" "qn_Choice q = None" "qn_Score q = None"
      then show ?thesis using Answer_kinds [OF p(2)] same kinds_differ ParseDecimal_nonneg by auto
    qed
  qed
  show ?thesis
  proof (rule list_all2I [OF ballI pass(3)])
    fix qa assume "qa \<in> set (zip (bq_Questions request) (bs_Answers v))"
    moreover obtain q a where qa: "qa = (q, a)" by (cases qa)
    ultimately have "Question_Validate qt json_valid q = Passed" "Answer_Validate qt a = Passed" "check_answer qt (q, a) = Passed"
      using pass by (auto dest: set_zip_leftD set_zip_rightD)
    from fits [OF this] show "case_prod ?fits qa" unfolding qa prod.case .
  qed
qed


definition demo_request :: BatchRequest where
  "demo_request =
     (let t = (\<lambda>s. \<lparr>sv_Format = FormatText, sv_Content = \<lparr>ti_Inline = s, ti_HandleID = ''''\<rparr>\<rparr>) in
      \<lparr>bq_Purpose = PurposeRouting, bq_ProviderID = ''p'', bq_Model = ''m'', bq_State = t ''state'',
       bq_Questions =
         [\<lparr>qn_ID = ''q1'', qn_Instructions = t ''which'', qn_Kind = KindChoice,
           qn_Choice = Some [\<lparr>do_ID = ''a'', do_Description = None\<rparr>, \<lparr>do_ID = ''b'', do_Description = None\<rparr>], qn_Score = None, qn_Noul = None\<rparr>],
       bq_IdempotencyKey = ''k''\<rparr>)"

definition demo_result :: BatchResult where
  "demo_result =
     \<lparr>bs_ProviderID = ''p'', bs_RequestedModel = ''m'', bs_Model = ''m2'',
      bs_Answers =
        [\<lparr>an_ID = ''q1'', an_Kind = KindChoice,
          an_Choice = Some \<lparr>ca_Choice = ''b'', ca_Probabilities = [\<lparr>pb_ID = ''b'', pb_Value = ''0.75''\<rparr>, \<lparr>pb_ID = ''a'', pb_Value = ''0.25''\<rparr>],
                            ca_Confidence = ''0.9''\<rparr>,
          an_Score = None, an_Noul = None\<rparr>],
      bs_Usage = \<lparr>us_InputTokens = Some 10, us_OutputTokens = Some 2\<rparr>\<rparr>"

definition demo_lengths :: decision_sizes where
  "demo_lengths = \<lparr>dz_request = (\<lambda>_. 400), dz_start = (\<lambda>_ _. 400), dz_result = (\<lambda>_. 300), dz_models = (\<lambda>_. 100), dz_job = (\<lambda>_. 200)\<rparr>"

lemma demo_result_answers: "BatchResult_ValidateFor (\<lambda>s. s) (\<lambda>_. True) demo_lengths demo_result demo_request = Passed"
  by code_simp

theorem accepted_result_answers_request_witness:
  "\<exists>c. an_Choice (hd (bs_Answers demo_result)) = Some c \<and> mset (map pb_ID (ca_Probabilities c)) = mset [''a'', ''b''] \<and>
     \<bar>probability_sum (ca_Probabilities c) - 1\<bar> \<le> 1 / 1000000"
  using accepted_result_answers_request [OF demo_result_answers] by (simp add: demo_request_def demo_result_def)


end
