(* ===== verification/Spec2Isabelle.thy ===== *)
theory Spec2Isabelle
  imports System Digest Attest Typed Semver Pack Migrate Decision
begin

text \<open>
  The ByteDesk plugin SDK, version 2: the message bus (\<^verbatim>\<open>src/v2/bus\<close>) with the substrate
  \<^verbatim>\<open>src/v2/bus/memory\<close> that implements it in one process, and the plugin side: the manifest with its
  validation, contract and migration (\<^verbatim>\<open>src/v2/plugin\<close>), packages (\<^verbatim>\<open>src/v2/pack\<close>), attestation
  (\<^verbatim>\<open>src/v2/attest\<close>), typed commands, and two wire contracts (\<^verbatim>\<open>src/v2/payloads\<close>, \<^verbatim>\<open>src/v2/aidecision\<close>).

  \<^bold>\<open>The program.\<close> A host creates one \<^verbatim>\<open>Store\<close>; each plugin gets a connection bound to an identity
  with grants. Through it the plugin publishes, subscribes, requests and serves on subjects, and uses
  durable streams with consumers, key-value buckets, object buckets and schedules. Every operation
  checks the grants of the connection and the deny list of the store. Restarting the store, closing it,
  or revoking a principal ends connections, while durable state stays.

  A plugin is a directory with a manifest. The author's tool migrates an old manifest, checks the
  directory against the contract and packs it; publisher and store sign the package; a host verifies
  the signatures, checks or loads the directory, asks the operator to consent to the digest of what the
  manifest asks for, and binds the plugin to a connection with the grants of the manifest. From there
  the plugin acts on the bus, mostly through typed commands whose payloads have validators.

  \<^bold>\<open>Theories and sources of the bus\<close>, bottom up:

  \<^item> \<open>Bus_Prelude\<close>: what the others share of Go and its library (decimal numbers, splitting and joining,
    ASCII case, Go maps as association lists \<open>amap\<close>), the locale \<open>invariant_system\<close> of transition
    systems with an inductive invariant, and the proof collections.
  \<^item> \<open>Subject\<close> (\<^verbatim>\<open>subject.go\<close>): the grammar, \<open>Matches\<close> and \<open>Covers\<close>.
  \<^item> \<open>Identity\<close> (\<^verbatim>\<open>identity.go\<close>, \<^verbatim>\<open>fault.go\<close>): principals, grants, faults.
  \<^item> \<open>Msg\<close> (\<^verbatim>\<open>msg.go\<close>, \<^verbatim>\<open>bus.go\<close>, \<^verbatim>\<open>memory/trace.go\<close>, the stamping of \<^verbatim>\<open>memory/conn.go\<close>): headers, callers,
    options.
  \<^item> \<open>Sub\<close> (\<^verbatim>\<open>memory/sub.go\<close>): one subscription, its queue, and every interleaving of publishers, the
    delivery goroutine, \<^verbatim>\<open>Cancel\<close> and \<^verbatim>\<open>Drain\<close>; refinement of a bounded channel.
  \<^item> \<open>Stream_Log\<close>, \<open>Consumer\<close> (\<^verbatim>\<open>memory/streams.go\<close>, \<^verbatim>\<open>streams.go\<close>): a stream with its limits,
    deduplication and expectations; a consumer with acknowledgement, redelivery and fetch.
  \<^item> \<open>Cursor\<close> (\<^verbatim>\<open>memory/cursor.go\<close>): signed cursors.
  \<^item> \<open>KV\<close> (\<^verbatim>\<open>memory/kv.go\<close>, \<^verbatim>\<open>kv.go\<close>), \<open>Objects\<close> (\<^verbatim>\<open>memory/objects.go\<close>), \<open>Cron\<close> (\<^verbatim>\<open>memory/cron.go\<close>).
  \<^item> \<open>Substrate\<close> (\<^verbatim>\<open>memory/store.go\<close>): the state of the whole store as the record \<open>Store\<close>, its
    configuration, \<open>Connect\<close>, \<open>Restart\<close>, \<open>Revoke\<close>, \<open>Store_Close\<close>.
  \<^item> \<open>Delivery\<close> (\<^verbatim>\<open>memory/conn.go\<close>): \<open>Publish\<close>, \<open>Subscribe\<close>, request and reply, \<open>matchLocked\<close> with queue groups.
  \<^item> \<open>Services\<close>, \<open>Scheduler\<close>, \<open>Streams_API\<close>, \<open>Buckets_API\<close>: the operations of \<^verbatim>\<open>memory/services.go\<close>,
    \<^verbatim>\<open>memory/scheduler.go\<close>, \<^verbatim>\<open>memory/streams.go\<close>, \<^verbatim>\<open>memory/kv.go\<close> and \<^verbatim>\<open>memory/objects.go\<close> on the store.
  \<^item> \<open>System\<close>: the store as a transition system \<open>store_step\<close> over all of these, and its invariant.

  \<^bold>\<open>Theories and sources of the plugin side\<close>, bottom up:

  \<^item> \<open>Go_Text\<close>, \<open>Go_Encoding\<close>, \<open>Go_Files\<close>: what the code uses of Go's string, encoding, path and file packages.
  \<^item> \<open>Diag\<close> (\<^verbatim>\<open>diagnostic.go\<close>), \<open>Manifest\<close> (\<^verbatim>\<open>manifest.go\<close> and the types beside it), \<open>Points\<close> (\<^verbatim>\<open>points.go\<close> and the
    other closed vocabularies): diagnostics and the data of a manifest.
  \<^item> \<open>Document_Path\<close>, \<open>Package_Rules\<close>, \<open>Authority_Rules\<close>, \<open>Surface_Rules\<close>, \<open>Validate\<close> (\<^verbatim>\<open>validate.go\<close>): every rule of
    the validator with its code, path and message, and the validator as a whole.
  \<^item> \<open>Digest\<close> (\<^verbatim>\<open>digest.go\<close>): the text whose hash an operator consents to.
  \<^item> \<open>Attest\<close> (\<^verbatim>\<open>v2/attest\<close>): envelopes, signing, verification, roots and the registry of publishers.
  \<^item> \<open>Plugin_Base\<close> (\<^verbatim>\<open>base.go\<close>, \<^verbatim>\<open>bind.go\<close>): the base a plugin embeds, and the bus it hands out over the store.
  \<^item> \<open>Json\<close> (\<^verbatim>\<open>typed_validation.go\<close>), \<open>Typed\<close> (\<^verbatim>\<open>typed.go\<close>, \<^verbatim>\<open>discovered_command.go\<close>): strict decoding and typed
    commands, events, streams and buckets, over the operations of \<open>Delivery\<close> and \<open>Services\<close>.
  \<^item> \<open>Schema\<close>, \<open>Layout\<close>, \<open>Contract\<close> (\<^verbatim>\<open>contract/schema.go\<close>, \<^verbatim>\<open>layout.go\<close>, \<^verbatim>\<open>contract.go\<close>): the full gate of a manifest
    and of a directory. \<open>Load_Dir\<close> (\<^verbatim>\<open>loaddir.go\<close>): loading without it.
  \<^item> \<open>Ordered\<close>, \<open>Migrate\<close> (\<^verbatim>\<open>contract/ordered.go\<close>, \<^verbatim>\<open>migrate.go\<close>): the migration of version 1 manifests.
  \<^item> \<open>Pack\<close> (\<^verbatim>\<open>v2/pack/bdx.go\<close>, \<^verbatim>\<open>pack.go\<close>): writing, inspecting and opening packages.
  \<^item> \<open>Contract_Check\<close> (\<^verbatim>\<open>v2/internal/contractcheck\<close>), \<open>Payloads\<close> (\<^verbatim>\<open>v2/payloads\<close>), \<open>Decision\<close> (\<^verbatim>\<open>v2/aidecision\<close>): the
    validators of two wire contracts, with their panics as values.
  \<^item> \<open>Semver\<close> (\<^verbatim>\<open>semver/compare.go\<close>): the dotted comparison of versions.

  \<^bold>\<open>State.\<close> Go objects that are shared by pointer (connections, subscriptions, services, consumers,
  consumer states, buckets, reply channels) live in heaps \<open>H_...\<close> of the record \<open>Store\<close>, and a pointer is
  an index into one (\<open>addr\<close>); objects are never removed from a heap, as a pointer to one may survive.
  The maps and slices of the Go store are the fields \<open>S_...\<close>. Go maps are association lists without
  duplicate keys; where the code ranges over a map, the list order stands for the arbitrary order.
  An operation takes the store and returns the new one with its result, \<open>Inl\<close> a fault or \<open>Inr\<close> a value.

  \<^bold>\<open>Atomicity.\<close> A step of \<open>store_step\<close> is one call. Calls that wait are cut there: a request is
  \<open>request_begin\<close> and \<open>request_end\<close> (its \<^verbatim>\<open>select\<close>, with the ready case chosen by the environment), a
  fetch is \<open>Fetch_enter\<close> and \<open>Fetch_round\<close>, a drain is its beginning and end, a consumer and a
  subscription goroutine take one message per step. The finer interleavings of one subscription are in
  \<open>Sub\<close>, where the critical sections of \<^verbatim>\<open>enqueue\<close>, \<^verbatim>\<open>run\<close> and \<^verbatim>\<open>finish\<close> are separate steps.

  \<^bold>\<open>Files.\<close> A directory is a tree of files, directories and links on a Unix file system. Packing takes as an
  argument which system calls fail, so a property of \<open>WriteBDX\<close> speaks of every failure.

  \<^bold>\<open>Parameters.\<close> Code outside the repository is an argument of the definitions that use it: HMAC-SHA256 and
  SHA-256, Ed25519 (the record \<open>crypto\<close>), \<^verbatim>\<open>strconv.Quote\<close> (\<open>qt\<close>), random correlation ids, \<^verbatim>\<open>encoding/json\<close>
  (\<open>unmarshal\<close>, the record \<open>codec\<close>), the JSON schema library, tar and gzip, \<^verbatim>\<open>json.Valid\<close>, \<^verbatim>\<open>time.Parse\<close>
  and the lengths of encoded values. The properties of the bus assume nothing of them. Those of
  attestation assume \<open>crypto_ok\<close>, the documented lengths and that a signature verifies under its key, and that a
  store's key vouches only for what the store signed; reading a package back and repeating a migration assume
  that what a writer wrote its reader reads back; typed calls assume it of the codec; the gate assumes that
  an error of the schema library names something (\<open>says\<close>). Each assumption is a
  hypothesis of the theorem, and its witness has an instance where it holds.
  Clocks are arguments (instants and durations in nanoseconds, as \<open>int\<close>). Counters that the code lets wrap are
  words: the round-robin counters and the service counters have 64 bits; sizes and offsets of payloads and
  the limits of streams keep their widths too. Sequence numbers and revisions are \<open>nat\<close>: reaching
  \<open>2 ^ 64\<close> of them would need as many appends. Handlers are code of the plugin; the model has the calls of
  a handler and its answers as steps with arbitrary arguments. Strings are lists of bytes;
  \<^verbatim>\<open>strings.ToLower\<close> and \<^verbatim>\<open>EqualFold\<close> act on ASCII letters, and \<^verbatim>\<open>path.Match\<close> reads bytes.

  \<^bold>\<open>What is shown.\<close> Of single components of the bus: \<open>Covers\<close> is inclusion of languages; the parsers accept their
  grammars; a sender cannot forge its identity; a subscription delivers in order, each message once, loses
  no wakeup, and refines a bounded channel; a stream stays within its limits, deduplicates, and admits one
  of two conflicting publishers; a settled message is not redelivered; cursors and objects round trip;
  compare-and-swap replaces what was read; a watcher reconstructs its bucket; the cron search ends with the
  first fire time; a batch and a service are all or nothing; queue groups are served in turn.
  Of the plugin side: nothing an accepted manifest asks for reaches an ineligible subject, its streams have
  limits and its defaults are values; the gate accepts exactly what its bands ask for, and every file of an
  accepted directory is allowed; what the gate accepts also loads; migration is idempotent; a package holds
  what was verified, is written whole or not at all, and is read back; a signed package verifies and a
  countersignature cannot be moved to another one; the digest separates manifests that ask for different
  things; a plugin acts only within the substrate; a typed call reaches its handler and returns its answer;
  strict decoding accepts exactly what conforms; validation never panics, decimals are exact, an accepted
  result answers its request, and an accepted append stays within its payload.
  Of the whole store, for every run, below: every queued message is permitted at both ends, a restart
  keeps what is durable and ends what is not, a tick leaves nothing overdue, a reply reaches its requester
  once. The invariant behind these is \<open>store_inv\<close>, shown for \<open>store_step\<close> through the interpretation of
  \<open>invariant_system\<close>. The calendar search, pre-flight, fetch
  and parsing loops and the walks over trees are total functions; no fuel is used.

  \<^bold>\<open>Not modelled.\<close> Goroutine scheduling, mutexes and timers, and the JSON text of sequence numbers,
  revisions and cursors. Of the other packages of the SDK: the contract packages beside the two above
  (their validators are of the same kind), the plugin contract and packer of version 1 with the adapter
  \<^verbatim>\<open>v1compat\<close>, which version 2 replaces; files that hold interfaces and aliases only; generated codecs and
  the generators, the conformance suite and the unix-socket server, being generated, tools, tests or I/O.
\<close>

section \<open>Permission\<close>

text \<open>C1. Nothing is ever queued against a grant. In every reachable store, a message in the queue of a
  subscription matches its pattern, its subject is not permanently denied, the owner of the
  subscription holds a subscribe grant (a serve grant for an endpoint) that covers the subject, and
  the caller stamped on it is the identity of a connection whose publish or request grant covers the
  subject. This holds across every interleaving of calls of all connections, schedules, restarts
  and revocations.\<close>

theorem queued_messages_are_permitted:
  assumes "reachable S" and "s \<in> set (H_subs S)" and "m \<in> set (s_queue s)"
  shows "Matches (s_pattern s) (m_Subject m) \<and> \<not> denySubject S (m_Subject m) \<and>
    Can (Id_Grants (id_of S (s_conn s))) (if s_onReply s = None then GrantSubscribe else GrantServe) (m_Subject m) \<and>
    (\<exists>c. c < length (H_conns S) \<and> CallerOf (Some m) = identity_caller (id_of S c) \<and>
       (Can (Id_Grants (id_of S c)) GrantPublish (m_Subject m) \<or> Can (Id_Grants (id_of S c)) GrantRequest (m_Subject m)))"
proof -
  have "sub_ok S s" using reachable_store_inv [OF assms(1)] assms(2) by (simp add: store_inv_def grant_inv_def)
  then have r: "receiver_ok S s" and m: "Matches (s_pattern s) (m_Subject m)" "sender_ok S m"
    using assms(3) by (auto simp: sub_ok_def)
  have "Can (Id_Grants (id_of S (s_conn s))) (if s_onReply s = None then GrantSubscribe else GrantServe) (m_Subject m)"
    using r m(1) CanPattern_Can by (auto simp: receiver_ok_def Matches_subject split: option.splits)
  moreover have "\<exists>c. c < length (H_conns S) \<and> CallerOf (Some m) = identity_caller (id_of S c) \<and>
       (Can (Id_Grants (id_of S c)) GrantPublish (m_Subject m) \<or> Can (Id_Grants (id_of S c)) GrantRequest (m_Subject m))"
    using m(2) by (auto simp: sender_ok_def ids_def in_set_conv_nth)
  ultimately show ?thesis using m by (simp add: sender_ok_def)
qed

definition demo_bus :: Store where
  "demo_bus = fst (Connect (demo_identity\<lparr>Id_Grants := (Id_Grants demo_identity)
     \<lparr>g_Publish := [''a.>''], g_Subscribe := [''a.>'']\<rparr>\<rparr>) (NewStore demo_env []))"

definition demo_subscribed :: Store where
  "demo_subscribed = fst (Subscribe 0 ''a.*'' True [] demo_bus)"

definition demo_published :: Store where
  "demo_published = fst (Publish ''corr'' Background 0 ''a.b'' ''hello'' [] demo_subscribed)"

lemma demo_queue: "map (\<lambda>s. map m_Data (s_queue s)) (H_subs demo_published) = [[''hello'']]"
  by code_simp

lemma demo_reachable: "reachable demo_subscribed" "reachable demo_published"
proof -
  have c: "store_step (NewStore demo_env []) demo_bus"
    unfolding demo_bus_def by (intro bus connect)
  have s: "store_step demo_bus demo_subscribed"
    unfolding demo_subscribed_def by (intro bus subscribe) (simp add: demo_bus_def Connect_def Let_def)
  have p: "store_step demo_subscribed demo_published"
    unfolding demo_published_def by (intro bus publish) code_simp
  show "reachable demo_subscribed" using reachable_step [OF reachable_step [OF reachable_new c] s] .
  then show "reachable demo_published" using p by (rule reachable_step)
qed

theorem queued_messages_are_permitted_witness:
  "\<exists>s m. s \<in> set (H_subs demo_published) \<and> m \<in> set (s_queue s) \<and> m_Data m = ''hello'' \<and>
     Matches (s_pattern s) (m_Subject m) \<and> \<not> denySubject demo_published (m_Subject m)"
proof -
  obtain s where s: "H_subs demo_published = [s]" "map m_Data (s_queue s) = [''hello'']"
    using demo_queue by (auto simp: map_eq_Cons_conv)
  then obtain m where m: "s_queue s = [m]" "m_Data m = ''hello''" by (auto simp: map_eq_Cons_conv)
  with queued_messages_are_permitted [OF demo_reachable(2), of s m] s show ?thesis by auto
qed

section \<open>Restart\<close>

text \<open>C3. A restart keeps what is durable and ends what is not: streams, consumer states, buckets with
  their histories, objects, schedules and the cursor key are exactly as before, every connection made
  before it is refused with \<open>FaultWithdrawn\<close> from then on, and every subscription the store had
  is finished.\<close>

theorem restart_keeps_durable_ends_connections:
  assumes "reachable S"
  shows "durable (Restart S) = durable S \<and>
    {..<length (H_conns S)} \<subseteq> {c. \<exists>f. alive c (Restart S) = Some f \<and> Code f = FaultWithdrawn} \<and>
    (S_closed S \<or> S_subs (Restart S) = [] \<and> set (S_subs S) \<subseteq> {a. s_finished (H_subs (Restart S) ! a)})"
proof -
  have inv: "store_inv S" using assms by (rule reachable_store_inv)
  have "\<exists>f. alive c (Restart S) = Some f \<and> Code f = FaultWithdrawn" if "c < length (H_conns S)" for c
  proof (cases "S_closed S")
    case True
    then show ?thesis by (simp add: Restart_def alive_def withdrawn_def mkFault_def)
  next
    case False
    with inv that have "c_closed (H_conns (Restart S) ! c)"
      by (auto simp: store_inv_def conns_inv_def Restart_def takeEphemeralLocked_def finishAll_conns)
    then show ?thesis by (simp add: alive_def withdrawn_def mkFault_def)
  qed
  moreover have "S_closed S \<or> S_subs (Restart S) = [] \<and> set (S_subs S) \<subseteq> {a. s_finished (H_subs (Restart S) ! a)}"
    using inv by (auto simp: store_inv_def grant_inv_def Restart_def takeEphemeralLocked_def finishAll_subs)
  ultimately show ?thesis by (simp add: lifecycle_durable subset_iff)
qed

theorem restart_keeps_durable_ends_connections_witness:
  "durable (Restart demo_subscribed) = durable demo_subscribed \<and> alive 0 demo_subscribed = None \<and>
   (\<exists>f. alive 0 (Restart demo_subscribed) = Some f \<and> Code f = FaultWithdrawn)"
proof -
  have "alive 0 demo_subscribed = None" "0 < length (H_conns demo_subscribed)" by code_simp+
  with restart_keeps_durable_ends_connections [OF demo_reachable(1)] show ?thesis by auto
qed

section \<open>Schedules\<close>

text \<open>C19. A tick leaves nothing overdue and loses nothing: in every reachable store, after
  \<^verbatim>\<open>fireDue(now)\<close> no schedule is due at \<open>now\<close>, however many intervals it was late; every schedule
  that was not due is still there unchanged; and what remains are well-formed schedules of the same owners.\<close>

theorem tick_leaves_nothing_overdue:
  assumes "reachable S"
  shows "entries (fireDue mint now S) \<subseteq>
      {e'. \<not> is_due now e' \<and> entry_ok e' \<and> sc_id e' \<in> sc_id ` entries S} \<and>
    {e. e \<in> entries S \<and> \<not> is_due now e} \<subseteq> entries (fireDue mint now S)"
  using reachable_store_inv [OF assms] by (intro tick_entries) (simp add: store_inv_def schedules_inv_def)

definition demo_every :: Store where
  "demo_every = fst (Every 100 0 ''n'' 10 ''a.b'' ''tick'' [] demo_subscribed)"

lemma demo_every_entries:
  "map (\<lambda>(p, m). map (\<lambda>(n, e). (n, is_due 145 e)) m) (S_schedules demo_every) = [[(''n'', True)]]"
  "map (\<lambda>(p, m). map (\<lambda>(n, e). (n, sc_next e)) m) (S_schedules (fireDue (\<lambda>_. ''c'') 145 demo_every)) = [[(''n'', 155)]]"
  by code_simp+

theorem tick_leaves_nothing_overdue_witness:
  "Collect (is_due 145) \<inter> entries demo_every \<noteq> {} \<and> entries (fireDue (\<lambda>_. ''c'') 145 demo_every) \<noteq> {} \<and>
   Collect (is_due 145) \<inter> entries (fireDue (\<lambda>_. ''c'') 145 demo_every) = {}"
proof -
  have "store_step demo_subscribed demo_every"
    unfolding demo_every_def by (intro schedule every) code_simp
  then have r: "reachable demo_every" using demo_reachable(1) by (rule reachable_step [rotated])
  have "Collect (is_due 145) \<inter> entries demo_every \<noteq> {}" "entries (fireDue (\<lambda>_. ''c'') 145 demo_every) \<noteq> {}"
    using demo_every_entries by (auto simp: entries_def map_eq_Cons_conv)
  with tick_leaves_nothing_overdue [OF r, of "\<lambda>_. ''c''" 145] show ?thesis by auto
qed

section \<open>Request and reply\<close>


definition demo_service :: Store where
  "demo_service =
     fst (Serve 1 0
       \<lparr>sv_Name = ''echo'', sv_Version = ''1'', sv_Description = '''', sv_QueueGroup = '''',
        sv_Endpoints = [\<lparr>ep_Name = ''e'', ep_Subject = ''svc.echo'', ep_QueueGroup = '''', ep_Handler = True, ep_Point = ''''\<rparr>],
        sv_Metadata = []\<rparr>
       (fst (Connect (demo_identity\<lparr>Id_Grants := (Id_Grants demo_identity)
          \<lparr>g_Request := [''svc.>''], g_Serves := [''svc.>'']\<rparr>\<rparr>) (NewStore demo_env []))))"

definition demo_called :: Store where
  "demo_called = fst (request_begin ''corr'' Background 0 ''svc.echo'' ''ping'' [] demo_service)"

definition demo_call :: Msg where
  "demo_call = hd (s_queue (hd (H_subs demo_called)))"

definition demo_inbox :: Subject where
  "demo_inbox = (case m_respond demo_call of Some (to, a) \<Rightarrow> to | None \<Rightarrow> '''')"

lemma demo_call_respond: "m_respond demo_call = Some (demo_inbox, 0)"
  by code_simp

lemma demo_answered:
  "(case Respond (Some demo_call) [] ''pong'' demo_called of (S, Inl f) \<Rightarrow> False | (S, Inr u) \<Rightarrow> True)"
  "(case RespondFault (Some demo_call) (mkFault FaultConflict ''op'' ''no'') demo_called of
      (S, Inl f) \<Rightarrow> False | (S, Inr u) \<Rightarrow> True)"
  by code_simp+

lemma demo_called_reachable: "reachable demo_called"
proof -
  let ?C = "fst (Connect (demo_identity\<lparr>Id_Grants := (Id_Grants demo_identity)
     \<lparr>g_Request := [''svc.>''], g_Serves := [''svc.>'']\<rparr>\<rparr>) (NewStore demo_env []))"
  have c: "store_step (NewStore demo_env []) ?C" by (intro bus connect)
  have s: "store_step ?C demo_service"
    unfolding demo_service_def by (intro bus serve) (simp add: Connect_def Let_def)
  have r: "store_step demo_service demo_called"
    unfolding demo_called_def by (intro bus request) code_simp
  show ?thesis using reachable_step [OF reachable_step [OF reachable_step [OF reachable_new c] s] r] .
qed


text \<open>A fault travels through a call: when a handler answers a service call with \<open>RespondFault\<close>, the
  caller's \<open>Call\<close> returns a fault with the same code and the text of the fault, not a payload.\<close>

theorem fault_reply_is_typed:
  assumes "reachable S" and "m_respond m = Some (to, a)" and "RespondFault (Some m) f S = (S1, Inr ())"
    and "Code f \<noteq> ''''"
  shows "\<exists>ch S2. map_of (S_inboxes S1) to = Some ch \<and>
     Call_end Replied c subject opts (to, ch) S1 = Some (S2, Inl (mkFault (Code f) subject (Fault_Error f)))"
proof -
  let ?c = "s_conn (H_subs S ! a)" and ?h = "[(HeaderFault, Code f)]"
  let ?r = "NewMsg to '''' (respond_headers (id_of S ?c) ?h) (Fault_Error f) None"
  obtain ch where ch: "map_of (S_inboxes S1) to = Some ch" "H_chans S1 ! ch = Some ?r"
    using answered [OF assms(1,2)] assms(3) unfolding RespondFault_def by blast
  have "Headers_Get (m_Headers ?r) HeaderFault = Code f" using assms(4) by (rule fault_header_reply)
  then have "call_result subject ?r = Inl (mkFault (Code f) subject (Fault_Error f))"
    using assms(4) by (simp add: call_result_def NewMsg_def)
  with ch show ?thesis by (simp add: Call_end_def request_end_def Let_def)
qed

theorem fault_reply_is_typed_witness:
  "\<exists>S1 S2 ch. RespondFault (Some demo_call) (mkFault FaultConflict ''op'' ''no'') demo_called = (S1, Inr ()) \<and>
     Call_end Replied 0 ''svc.echo'' [] (demo_inbox, ch) S1 =
       Some (S2, Inl (mkFault FaultConflict ''svc.echo'' (Fault_Error (mkFault FaultConflict ''op'' ''no''))))"
proof -
  obtain S1 where S1: "RespondFault (Some demo_call) (mkFault FaultConflict ''op'' ''no'') demo_called = (S1, Inr ())"
    using demo_answered(2) by (auto split: prod.splits sum.splits)
  have c: "Code (mkFault FaultConflict ''op'' ''no'') = FaultConflict" "FaultConflict \<noteq> ''''"
    by (simp_all add: mkFault_def FaultConflict_def)
  from fault_reply_is_typed [OF demo_called_reachable demo_call_respond S1] c S1 show ?thesis by metis
qed

end
